(* ===== verification/Prelude.thy ===== *)
theory Prelude
  imports Complex_Main "HOL-Library.AList" "HOL-Library.Sublist"
    "HOL-Library.Char_ord" "HOL-Library.List_Lexorder" "HOL-Library.Multiset"
begin

text \<open>
  Shared material of the development.

  \<^item> Python strings are \<open>string\<close> values holding the UTF-8 encoding of the text.
    Equality, concatenation, prefix and substring tests on valid UTF-8 agree with
    the ones Python makes on code points; slicing and \<open>len\<close>, which count code points,
    go through \<open>cps\<close>, the list of the encoded characters (\<open>utake\<close>, \<open>ulen\<close>), and
    \<open>strip\<close> removes Python's complete set of white space characters.  \<open>lower\<close>
    changes the ASCII letters only: the sources compare lowered text with ASCII
    words only.
  \<^item> Python dictionaries are association lists in insertion order:
    \<open>AList.update\<close> overwrites in place or appends, as \<open>d[k] = v\<close> does.
  \<^item> \<open>collections.deque(maxlen=n)\<close> is a list with \<open>dq_push\<close>.
  \<^item> Clock readings are rationals (seconds); rounding of floats is not modelled.
  \<^item> The locales at the end are the interfaces shared by several components.
\<close>

section \<open>Collections of rules\<close>

named_theorems dict_rules \<open>lookups after updates of insertion ordered dictionaries\<close>
named_theorems text_rules \<open>evaluation of the text primitives\<close>

type_synonym secs = rat

type_synonym ('k, 'v) dict = "('k \<times> 'v) list"

section \<open>Text\<close>

definition is_cont :: "char \<Rightarrow> bool" where
  "is_cont c \<longleftrightarrow> 128 \<le> (of_char c :: nat) \<and> (of_char c :: nat) < 192"

text \<open>
  When terms are evaluated the classes of bytes are read off their bits, the lowest first.
\<close>

lemma is_cont_code [code]: "is_cont (Char b0 b1 b2 b3 b4 b5 b6 b7) \<longleftrightarrow> b7 \<and> \<not> b6"
  by (cases b7; cases b6; cases b5; cases b4; cases b3; cases b2; cases b1; cases b0; simp add: is_cont_def)

text \<open>The encoded characters of a text: a lead byte with its continuation bytes.\<close>

function cps :: "string \<Rightarrow> string list" where
  "cps [] = []"
| "cps (c # s) = (c # takeWhile is_cont s) # cps (dropWhile is_cont s)"
  by pat_completeness auto
termination
  by (relation "measure length") (auto simp: le_imp_less_Suc length_dropWhile_le)

definition ulen :: "string \<Rightarrow> nat" where
  "ulen s = length (cps s)"

definition utake :: "nat \<Rightarrow> string \<Rightarrow> string" where
  "utake n s = concat (take n (cps s))"

text \<open>The characters for which Python's \<open>str.isspace\<close> holds.\<close>

definition ws_codes :: "nat list list" where
  "ws_codes = [
     [9], [10], [11], [12], [13], [28], [29], [30], [31], [32], [194, 133], [194, 160],
     [225, 154, 128], [226, 128, 128], [226, 128, 129], [226, 128, 130], [226, 128, 131],
     [226, 128, 132], [226, 128, 133], [226, 128, 134], [226, 128, 135], [226, 128, 136],
     [226, 128, 137], [226, 128, 138], [226, 128, 168], [226, 128, 169], [226, 128, 175],
     [226, 129, 159], [227, 128, 128]]"

definition is_ws :: "string \<Rightarrow> bool" where
  "is_ws u \<longleftrightarrow> map of_char u \<in> set ws_codes"

lemma is_ws_char: "is_ws [c] \<longleftrightarrow> (of_char c :: nat) \<in> {9, 10, 11, 12, 13, 28, 29, 30, 31, 32}"
  by (simp add: is_ws_def ws_codes_def)

lemma is_ws_byte: "is_ws [Char b0 b1 b2 b3 b4 b5 b6 b7] \<longleftrightarrow>
     \<not> b7 \<and> \<not> b6 \<and> (if b5 then \<not> b4 \<and> \<not> b3 \<and> \<not> b2 \<and> \<not> b1 \<and> \<not> b0
       else if b4 then b3 \<and> b2 else b3 \<and> (if b2 then \<not> b1 else b1 \<or> b0))"
  unfolding is_ws_char
  by (cases b7; cases b6; cases b5; cases b4; cases b3; cases b2; cases b1; cases b0; simp)

lemma is_ws_code [code]:
  "is_ws [] = False"
  "is_ws [Char b0 b1 b2 b3 b4 b5 b6 b7] \<longleftrightarrow>
     \<not> b7 \<and> \<not> b6 \<and> (if b5 then \<not> b4 \<and> \<not> b3 \<and> \<not> b2 \<and> \<not> b1 \<and> \<not> b0
       else if b4 then b3 \<and> b2 else b3 \<and> (if b2 then \<not> b1 else b1 \<or> b0))"
  "is_ws (c # d # u) \<longleftrightarrow> map of_char (c # d # u) \<in> set (drop 10 ws_codes)"
  by (simp add: is_ws_def ws_codes_def, rule is_ws_byte, simp add: is_ws_def ws_codes_def)

definition strip :: "string \<Rightarrow> string" where
  "strip s = concat (rev (dropWhile is_ws (rev (dropWhile is_ws (cps s)))))"

definition lower_char :: "char \<Rightarrow> char" where
  "lower_char c = (let n = (of_char c :: nat) in
     if 65 \<le> n \<and> n \<le> 90 then char_of (n + 32) else c)"

lemma lower_char_code [code]: "lower_char (Char b0 b1 b2 b3 b4 b5 b6 b7) =
     (if \<not> b7 \<and> b6 \<and> \<not> b5 \<and> (b0 \<or> b1 \<or> b2 \<or> b3 \<or> b4) \<and> \<not> (b4 \<and> b3 \<and> (b2 \<or> b1 \<and> b0))
      then Char b0 b1 b2 b3 b4 True b6 b7 else (Char b0 b1 b2 b3 b4 b5 b6 b7))"
  by (cases b7; cases b6; cases b5; cases b4; cases b3; cases b2; cases b1; cases b0; simp add: lower_char_def char_of_def bit_Suc_0_iff)

definition lower :: "string \<Rightarrow> string" where
  "lower s = map lower_char s"

fun contains :: "string \<Rightarrow> string \<Rightarrow> bool" where
  "contains p [] \<longleftrightarrow> p = []"
| "contains p (c # s) \<longleftrightarrow> prefix p (c # s) \<or> contains p s"

text \<open>\<open>x or d\<close> on strings.\<close>

definition str_or :: "string \<Rightarrow> string \<Rightarrow> string" where
  "str_or s d = (if s = '''' then d else s)"

text \<open>\<open>s.strip() or d\<close>, the way session keys are normalised.\<close>

definition strip_or :: "string \<Rightarrow> string \<Rightarrow> string" where
  "strip_or s d = str_or (strip s) d"

text \<open>\<open>str(n)\<close> for a natural number.\<close>

text \<open>Text beyond ASCII, by its bytes; \<open>nl\<close> is the line feed.\<close>

definition bytes :: "nat list \<Rightarrow> string" where
  "bytes ns = map char_of ns"

definition nl :: string where
  "nl = bytes [10]"

definition digit_char :: "nat \<Rightarrow> char" where
  "digit_char d = char_of (48 + d)"

fun str_of_nat :: "nat \<Rightarrow> string" where
  "str_of_nat n = (if n < 10 then [digit_char n]
     else str_of_nat (n div 10) @ [digit_char (n mod 10)])"

declare str_of_nat.simps [simp del]

definition str_of_int :: "int \<Rightarrow> string" where
  "str_of_int i = (if i < 0 then CHR ''-'' # str_of_nat (nat (- i)) else str_of_nat (nat i))"

text \<open>
  \<open>int(text)\<close>: white space, a sign and ASCII digits with single underscores between them
  (the decimal digits of other scripts, which Python accepts too, are left out).
\<close>

definition digit_val :: "char \<Rightarrow> nat option" where
  "digit_val c = (let n = (of_char c :: nat) in if 48 \<le> n \<and> n \<le> 57 then Some (n - 48) else None)"

lemma digit_val_code [code]: "digit_val (Char b0 b1 b2 b3 b4 b5 b6 b7) =
     (if \<not> b7 \<and> \<not> b6 \<and> b5 \<and> b4 \<and> (\<not> b3 \<or> \<not> b2 \<and> \<not> b1) then Some (of_char (Char b0 b1 b2 b3 b4 b5 b6 b7) - 48) else None)"
  by (cases b7; cases b6; cases b5; cases b4; cases b3; cases b2; cases b1; cases b0; simp add: digit_val_def)

fun digits_val :: "nat \<Rightarrow> bool \<Rightarrow> string \<Rightarrow> nat option" where
  "digits_val acc dig [] = (if dig then Some acc else None)"
| "digits_val acc dig (c # cs) = (case digit_val c of
       Some d \<Rightarrow> digits_val (10 * acc + d) True cs
     | None \<Rightarrow> if c = CHR ''_'' \<and> dig then digits_val acc False cs else None)"

definition int_of_text :: "string \<Rightarrow> int option" where
  "int_of_text s = (case strip s of
       [] \<Rightarrow> None
     | c # cs \<Rightarrow>
         if c = CHR ''-'' then map_option (\<lambda>n. - int n) (digits_val 0 False cs)
         else if c = CHR ''+'' then map_option int (digits_val 0 False cs)
         else map_option int (digits_val 0 False (c # cs)))"

text \<open>\<open>sep.join(parts)\<close>.\<close>

fun join :: "string \<Rightarrow> string list \<Rightarrow> string" where
  "join sep [] = ''''"
| "join sep [x] = x"
| "join sep (x # y # ys) = x @ sep @ join sep (y # ys)"

lemma concat_cps [simp]: "concat (cps s) = s"
  by (induction s rule: cps.induct) simp_all

lemma cps_eq_Nil [simp]: "cps s = [] \<longleftrightarrow> s = []"
  by (cases s) auto

lemma ulen_utake: "n < ulen s \<Longrightarrow> concat (take n (cps s)) = utake n s"
  by (simp add: utake_def)

lemma utake_all: "ulen s \<le> n \<Longrightarrow> utake n s = s"
  by (simp add: utake_def ulen_def)

text \<open>A list of encoded characters: every one but the first starts with a lead byte.\<close>

definition enc_char :: "string \<Rightarrow> bool" where
  "enc_char u \<longleftrightarrow> u \<noteq> [] \<and> list_all is_cont (tl u)"

definition lead_char :: "string \<Rightarrow> bool" where
  "lead_char u \<longleftrightarrow> enc_char u \<and> \<not> is_cont (hd u)"

definition enc_list :: "string list \<Rightarrow> bool" where
  "enc_list us \<longleftrightarrow> (case us of [] \<Rightarrow> True | u # vs \<Rightarrow> enc_char u \<and> list_all lead_char vs)"

lemma cps_leads: "s \<noteq> [] \<Longrightarrow> \<not> is_cont (hd s) \<Longrightarrow> list_all lead_char (cps s)"
proof (induction s rule: cps.induct)
  case (2 c s)
  have lc: "lead_char (c # takeWhile is_cont s)"
    using "2.prems" by (auto simp: lead_char_def enc_char_def list_all_iff dest: set_takeWhileD)
  show ?case
  proof (cases "dropWhile is_cont s")
    case (Cons x t)
    then have "\<not> is_cont x" by (simp add: dropWhile_eq_Cons_conv)
    with "2.IH" lc Cons show ?thesis by simp
  next
    case Nil
    show ?thesis using lc by (simp add: Nil del: dropWhile_eq_Nil_conv)
  qed
qed simp

lemma enc_list_cps: "enc_list (cps s)"
proof (cases s)
  case (Cons c t)
  have "list_all lead_char (cps (dropWhile is_cont t))"
  proof (cases "dropWhile is_cont t")
    case (Cons x r)
    then have "\<not> is_cont x" by (simp add: dropWhile_eq_Cons_conv)
    then show ?thesis unfolding Cons by (intro cps_leads) simp_all
  next
    case Nil
    show ?thesis unfolding Nil by simp
  qed
  with Cons show ?thesis
    by (auto simp: enc_list_def enc_char_def list_all_iff dest: set_takeWhileD)
qed (simp add: enc_list_def)

lemma cont_split:
  assumes "list_all is_cont u" and "vs = [] \<or> lead_char (hd vs)"
  shows "takeWhile is_cont (u @ concat vs) = u \<and> dropWhile is_cont (u @ concat vs) = concat vs"
proof -
  have u: "\<And>x. x \<in> set u \<Longrightarrow> is_cont x" using assms(1) by (simp add: list_all_iff)
  have v: "vs = [] \<or> (concat vs \<noteq> [] \<and> \<not> is_cont (hd (concat vs)))"
    using assms(2) by (cases vs) (auto simp: lead_char_def enc_char_def)
  then have "takeWhile is_cont (concat vs) = [] \<and> dropWhile is_cont (concat vs) = concat vs"
    by (cases "concat vs") auto
  with u show ?thesis by (simp add: takeWhile_append2 dropWhile_append2)
qed

lemma set_cps_sub: "u \<in> set (cps s) \<Longrightarrow> set u \<subseteq> set s"
  using concat_cps [of s] by (metis Sup_upper image_eqI set_concat UN_upper)

lemma cps_concat: "enc_list us \<Longrightarrow> cps (concat us) = us"
proof (induction us)
  case (Cons u vs)
  obtain c t where u: "u = c # t" and t: "list_all is_cont t"
    using Cons.prems by (cases u) (auto simp: enc_list_def enc_char_def)
  have vs: "list_all lead_char vs" using Cons.prems by (simp add: enc_list_def)
  then have "enc_list vs" by (cases vs) (auto simp: enc_list_def lead_char_def)
  moreover have "vs = [] \<or> lead_char (hd vs)" using vs by (cases vs) auto
  ultimately show ?case using Cons.IH t by (simp add: u cont_split)
qed simp

lemma enc_list_suffix: "enc_list us \<Longrightarrow> us = as @ bs \<Longrightarrow> enc_list bs"
  by (cases as; cases bs) (auto simp: enc_list_def lead_char_def)

lemma enc_list_prefix: "enc_list us \<Longrightarrow> us = as @ bs \<Longrightarrow> enc_list as"
  by (cases as) (auto simp: enc_list_def)

lemma enc_list_append: "enc_list as \<Longrightarrow> list_all lead_char bs \<Longrightarrow> enc_list (as @ bs)"
  by (cases as; cases bs) (auto simp: enc_list_def lead_char_def)

text \<open>Texts that start with a lead byte, as every valid text does, are read off after any other.\<close>

definition lead_text :: "string \<Rightarrow> bool" where
  "lead_text s \<longleftrightarrow> s = [] \<or> \<not> is_cont (hd s)"

lemma cps_append: "lead_text b \<Longrightarrow> cps (a @ b) = cps a @ cps b"
proof -
  assume "lead_text b"
  then have "list_all lead_char (cps b)"
    using cps_leads by (cases "b = []") (auto simp: lead_text_def)
  then have "enc_list (cps a @ cps b)" by (simp add: enc_list_append enc_list_cps)
  from cps_concat [OF this] show ?thesis by simp
qed

lemma dropWhile_hd: "xs = [] \<or> \<not> P (hd xs) \<Longrightarrow> dropWhile P xs = xs"
  by (cases xs) auto

lemma cps_ascii_cons: "\<not> is_cont c \<Longrightarrow> lead_text s \<Longrightarrow> cps (c # s) = [c] # cps s"
  using cps_append [of s "[c]"] by simp

lemma lead_text_Cons [simp]: "lead_text (c # s) \<longleftrightarrow> \<not> is_cont c"
  by (simp add: lead_text_def)

lemma lead_text_while: "lead_text s \<Longrightarrow> takeWhile is_cont s = [] \<and> dropWhile is_cont s = s"
  by (cases s) (auto simp: lead_text_def)

lemma ulen_append: "lead_text b \<Longrightarrow> ulen (a @ b) = ulen a + ulen b"
  by (simp add: ulen_def cps_append)

lemma cps_strip:
  "cps (strip s) = rev (dropWhile is_ws (rev (dropWhile is_ws (cps s))))"
proof -
  let ?a = "dropWhile is_ws (cps s)"
  have "enc_list ?a"
    by (rule enc_list_suffix [OF enc_list_cps, of _ "takeWhile is_ws (cps s)"]) simp
  moreover have "?a = rev (dropWhile is_ws (rev ?a)) @ rev (takeWhile is_ws (rev ?a))"
    by (metis rev_append rev_rev_ident takeWhile_dropWhile_id)
  ultimately have "enc_list (rev (dropWhile is_ws (rev ?a)))" by (rule enc_list_prefix)
  then show ?thesis unfolding strip_def by (rule cps_concat)
qed

lemma dropWhile_rev_dropWhile:
  "dropWhile P (rev (dropWhile P (rev (dropWhile P xs)))) = rev (dropWhile P (rev (dropWhile P xs)))"
proof -
  let ?b = "rev (dropWhile P (rev (dropWhile P xs)))"
  have ex: "\<exists>zs. dropWhile P xs = ?b @ zs"
    by (metis rev_append rev_rev_ident takeWhile_dropWhile_id)
  show ?thesis
  proof (cases ?b)
    case (Cons x ys)
    with ex obtain zs where "dropWhile P xs = x # ys @ zs" by auto
    then have "\<not> P x" by (metis dropWhile_eq_Cons_conv)
    with Cons show ?thesis by simp
  next
    case Nil
    show ?thesis unfolding Nil by simp
  qed
qed

lemma strip_strip [simp]: "strip (strip s) = strip s"
proof -
  have "strip (strip s) = concat (rev (dropWhile is_ws (rev (dropWhile is_ws (cps (strip s))))))"
    by (simp add: strip_def)
  also have "\<dots> = concat (cps (strip s))"
    by (simp add: cps_strip dropWhile_rev_dropWhile)
  finally show ?thesis by simp
qed

lemma strip_Nil [simp]: "strip [] = []"
  by (simp add: strip_def)

lemma set_strip: "set (strip s) \<subseteq> set s"
proof
  fix c assume "c \<in> set (strip s)"
  then obtain u where "u \<in> set (cps s)" "c \<in> set u"
    by (auto simp: strip_def dest!: set_dropWhileD)
  then show "c \<in> set s" using set_cps_sub by blast
qed

lemma strip_or_nonempty: "d \<noteq> [] \<Longrightarrow> strip_or s d \<noteq> []"
  by (simp add: strip_or_def str_or_def)

lemma strip_or_idem: "strip_or (strip_or s d) d = strip_or s d" if "strip d = d"
  using that by (simp add: strip_or_def str_or_def)

lemma lower_lower [simp]: "lower (lower s) = lower s"
proof -
  have "lower_char (lower_char c) = lower_char c" for c
    by (auto simp: lower_char_def Let_def)
  then show ?thesis by (simp add: lower_def)
qed

lemma lower_append [simp]: "lower (s @ t) = lower s @ lower t"
  by (simp add: lower_def)

lemma contains_sublist: "contains p s \<longleftrightarrow> sublist p s"
  by (induction s) (auto simp: sublist_Cons_right)

lemma contains_mid: "contains p (a @ p @ b)"
  by (auto simp: contains_sublist)

section \<open>Dictionaries and bounded deques\<close>

abbreviation dget :: "('k, 'v) dict \<Rightarrow> 'k \<Rightarrow> 'v option" where
  "dget d k \<equiv> map_of d k"

abbreviation dset :: "'k \<Rightarrow> 'v \<Rightarrow> ('k, 'v) dict \<Rightarrow> ('k, 'v) dict" where
  "dset \<equiv> AList.update"

abbreviation dpop :: "'k \<Rightarrow> ('k, 'v) dict \<Rightarrow> ('k, 'v) dict" where
  "dpop \<equiv> AList.delete"

abbreviation dkeys :: "('k, 'v) dict \<Rightarrow> 'k list" where
  "dkeys d \<equiv> map fst d"

text \<open>A dictionary holds each key once.\<close>

definition dwf :: "('k, 'v) dict \<Rightarrow> bool" where
  "dwf d \<longleftrightarrow> distinct (dkeys d)"

lemma dget_dset [dict_rules, simp]: "dget (dset k v d) k' = (if k' = k then Some v else dget d k')"
  by (simp add: AList.update_conv')

lemma dget_dpop [dict_rules, simp]: "dget (dpop k d) k' = (if k' = k then None else dget d k')"
  by (simp add: AList.delete_conv')

lemma dwf_Nil [simp]: "dwf []"
  by (simp add: dwf_def)

lemma dwf_dset [simp]: "dwf d \<Longrightarrow> dwf (dset k v d)"
  by (simp add: dwf_def AList.distinct_update)

lemma dwf_dpop [simp]: "dwf d \<Longrightarrow> dwf (dpop k d)"
  by (simp add: dwf_def AList.distinct_delete)

lemma dkeys_dset: "dkeys (dset k v d) = (if k \<in> set (dkeys d) then dkeys d else dkeys d @ [k])"
  by (induction d) auto

lemma set_dkeys_dset [simp]: "fst ` set (dset k v d) = insert k (fst ` set d)"
  using arg_cong [OF dkeys_dset [of k v d], of set] by (auto split: if_splits)

lemma length_dset: "length (dset k v d) = (if k \<in> set (dkeys d) then length d else Suc (length d))"
  using arg_cong [OF dkeys_dset [of k v d], of length] by (auto split: if_splits)

lemma dget_in_set: "dget d k = Some v \<Longrightarrow> (k, v) \<in> set d"
  by (rule map_of_SomeD)

lemma dwf_dget: "dwf d \<Longrightarrow> (k, v) \<in> set d \<Longrightarrow> dget d k = Some v"
  by (simp add: dwf_def)

lemma dget_None: "dget d k = None \<longleftrightarrow> k \<notin> set (dkeys d)"
  by (simp add: map_of_eq_None_iff)

lemma set_dset: "p \<in> set (dset k v d) \<Longrightarrow> p = (k, v) \<or> p \<in> set d"
  by (induction d) (auto split: if_splits)

lemma length_dpop_le: "length (dpop k d) \<le> length d"
  by (rule AList.length_delete_le)

lemma set_dpop: "set (dpop k d) \<subseteq> set d"
  by (auto simp: AList.delete_eq)

lemma dkeys_dpop: "dkeys (dpop k d) = removeAll k (dkeys d)"
  by (rule AList.delete_keys)

definition dq_push :: "nat \<Rightarrow> 'a list \<Rightarrow> 'a \<Rightarrow> 'a list" where
  "dq_push n xs x = (let ys = xs @ [x] in drop (length ys - n) ys)"

definition last_n :: "nat \<Rightarrow> 'a list \<Rightarrow> 'a list" where
  "last_n n xs = drop (length xs - n) xs"

lemma length_dq_push: "length (dq_push n xs x) \<le> n"
  by (simp add: dq_push_def Let_def)

lemma dq_push_room: "length xs < n \<Longrightarrow> dq_push n xs x = xs @ [x]"
  by (simp add: dq_push_def Let_def)

lemma dq_push_last_n: "dq_push n xs x = last_n n (xs @ [x])"
  by (simp add: dq_push_def last_n_def Let_def)

lemma length_last_n [simp]: "length (last_n n xs) = min n (length xs)"
  by (simp add: last_n_def)

lemma last_n_all [simp]: "length xs \<le> n \<Longrightarrow> last_n n xs = xs"
  by (simp add: last_n_def)

lemma set_last_n: "set (last_n n xs) \<subseteq> set xs"
  by (simp add: last_n_def set_drop_subset)

lemma last_n_last_n: "m \<le> n \<Longrightarrow> last_n m (last_n n xs) = last_n m xs"
  by (cases "n \<le> length xs"; cases "m \<le> length xs") (simp_all add: last_n_def)

lemma last_n_snoc: "last_n (Suc n) (xs @ [x]) = last_n n xs @ [x]"
  by (simp add: last_n_def)

lemma dq_push_window: "dq_push n (last_n n xs) x = last_n n (xs @ [x])"
proof (cases n)
  case (Suc m)
  have "last_n m (last_n n xs) = last_n m xs" by (rule last_n_last_n) (simp add: Suc)
  then show ?thesis by (simp add: dq_push_last_n Suc last_n_snoc)
qed (simp add: dq_push_last_n last_n_def)

lemma last_n_append_replicate: "n \<le> m \<Longrightarrow> last_n n (xs @ replicate m x) = replicate n x"
  by (simp add: last_n_def)

lemma last_n_replicate: "last_n n (replicate m x) = replicate (min n m) x"
  by (simp add: last_n_def)

section \<open>Interfaces\<close>

text \<open>A component seen from its environment: every operation keeps its invariant.\<close>

locale guarded_system =
  fixes step :: "'e \<Rightarrow> 's \<Rightarrow> 's"
    and inv :: "'s \<Rightarrow> bool"
    and start :: "'s"
  assumes inv_start: "inv start"
    and inv_step: "inv s \<Longrightarrow> inv (step e s)"
begin

lemma inv_fold: "inv s \<Longrightarrow> inv (fold step es s)"
  by (induction es arbitrary: s) (auto intro: inv_step)

lemma inv_run: "inv (fold step es start)"
  by (rule inv_fold) (rule inv_start)

end

text \<open>A property that, once true, no operation of the system undoes.\<close>

locale latched_system = guarded_system step inv start
    for step :: "'e \<Rightarrow> 's \<Rightarrow> 's" and inv and start +
  fixes latch :: "'s \<Rightarrow> bool"
  assumes latch_step: "inv s \<Longrightarrow> latch s \<Longrightarrow> latch (step e s)"
begin

lemma latch_fold: "inv s \<Longrightarrow> latch s \<Longrightarrow> latch (fold step es s)"
  by (induction es arbitrary: s) (auto intro: inv_step latch_step)

end

text \<open>Popping up to \<open>n\<close> elements.\<close>

fun pops :: "('s \<Rightarrow> ('a \<times> 's) option) \<Rightarrow> nat \<Rightarrow> 's \<Rightarrow> 'a list \<times> 's" where
  "pops pop 0 s = ([], s)"
| "pops pop (Suc n) s = (case pop s of
       None \<Rightarrow> ([], s)
     | Some (x, s') \<Rightarrow> (case pops pop n s' of (xs, s'') \<Rightarrow> (x # xs, s'')))"

text \<open>A queue that serves by rank, and first in first out within a rank.\<close>

locale ranked_queue =
  fixes items :: "'s \<Rightarrow> 'a list"
    and push :: "'a \<Rightarrow> 's \<Rightarrow> 's"
    and pop :: "'s \<Rightarrow> ('a \<times> 's) option"
    and rank :: "'a \<Rightarrow> 'k :: linorder"
    and ok :: "'s \<Rightarrow> bool"
  assumes push_items: "ok s \<Longrightarrow> items (push x s) = sort_key rank (items s @ [x])"
    and push_ok: "ok s \<Longrightarrow> ok (push x s)"
    and pop_none: "ok s \<Longrightarrow> items s = [] \<Longrightarrow> pop s = None"
    and pop_some: "ok s \<Longrightarrow> items s = x # xs \<Longrightarrow> \<exists>s'. pop s = Some (x, s') \<and> ok s' \<and> items s' = xs"
begin

lemma pops_items:
  "ok s \<Longrightarrow> fst (pops pop n s) = take n (items s) \<and> items (snd (pops pop n s)) = drop n (items s)"
proof (induction n arbitrary: s)
  case (Suc n)
  show ?case
  proof (cases "items s")
    case Nil
    then show ?thesis using Suc.prems pop_none by simp
  next
    case (Cons x xs)
    then obtain s' where s': "pop s = Some (x, s')" "ok s'" "items s' = xs"
      using pop_some Suc.prems by blast
    with Suc.IH [of s'] Cons show ?thesis by (simp add: case_prod_beta)
  qed
qed simp

lemma pushes_ok: "ok s \<Longrightarrow> ok (fold push xs s)"
  by (induction xs arbitrary: s) (auto intro: push_ok)

lemma sort_key_absorb: "sort_key rank (sort_key rank xs @ ys) = sort_key rank (xs @ ys)"
proof (rule properties_for_sort_key [symmetric])
  show "mset (sort_key rank (sort_key rank xs @ ys)) = mset (xs @ ys)" by simp
  show "sorted (map rank (sort_key rank (sort_key rank xs @ ys)))" by simp
  show "filter (\<lambda>x. rank k = rank x) (sort_key rank (sort_key rank xs @ ys)) = filter (\<lambda>x. rank k = rank x) (xs @ ys)" for k
  proof -
    have e: "(\<lambda>x. rank k = rank x) = (\<lambda>x. rank x = rank k)" by auto
    show ?thesis unfolding e by (simp add: sort_key_stable)
  qed
qed

lemma pushes_items: "ok s \<Longrightarrow> items (fold push xs s) = sort_key rank (items s @ xs) \<or> xs = []"
proof (induction xs arbitrary: s)
  case (Cons x xs)
  show ?case
  proof (cases "xs = []")
    case True
    then show ?thesis using push_items Cons.prems by simp
  next
    case False
    with Cons.IH [OF push_ok [OF Cons.prems], of x]
    have "items (fold push xs (push x s)) = sort_key rank (items (push x s) @ xs)" by simp
    then show ?thesis using push_items [OF Cons.prems] by (simp add: sort_key_absorb)
  qed
qed simp

end

end
