(* ===== verification/Json_Values.thy ===== *)
theory Json_Values
  imports Prelude
begin

text \<open>
  The values that reach the program from JSON and YAML files and from tool results,
  with the Python operations the sources apply to them: truth value, \<open>str\<close>,
  \<open>dict.get\<close>, \<open>a or b\<close>.  Numbers are integers (the files modelled hold no
  fractions except time stamps, which have their own type).  The parser and printer of
  the \<open>json\<close> module and the hash functions of \<open>hashlib\<close> are the fields of
  \<open>py_lib\<close>, an argument of the definitions that call them.
\<close>

datatype jval =
    JNull
  | JBool bool
  | JInt int
  | JStr string
  | JList "jval list"
  | JObj "(string \<times> jval) list"

fun truthy :: "jval \<Rightarrow> bool" where
  "truthy JNull = False"
| "truthy (JBool b) = b"
| "truthy (JInt i) = (i \<noteq> 0)"
| "truthy (JStr s) = (s \<noteq> [])"
| "truthy (JList xs) = (xs \<noteq> [])"
| "truthy (JObj kvs) = (kvs \<noteq> [])"

text \<open>\<open>v == 0\<close>: Python compares \<open>False\<close> equal to \<open>0\<close>.\<close>

fun is_zero :: "jval \<Rightarrow> bool" where
  "is_zero (JInt i) = (i = 0)"
| "is_zero (JBool b) = (\<not> b)"
| "is_zero _ = False"

text \<open>\<open>d.get(k)\<close>: \<open>None\<close> for a missing key.\<close>

definition jget :: "(string \<times> jval) list \<Rightarrow> string \<Rightarrow> jval" where
  "jget kvs k = (case map_of kvs k of Some v \<Rightarrow> v | None \<Rightarrow> JNull)"

text \<open>\<open>a or b\<close>.\<close>

definition jor :: "jval \<Rightarrow> jval \<Rightarrow> jval" where
  "jor a b = (if truthy a then a else b)"

text \<open>
  \<open>str(v)\<close> on the scalars.  Of lists and objects the sources print only what a
  malformed file holds; their \<open>repr\<close> is \<open>pyrepr\<close>, with quotes but no escapes.
\<close>

fun pyrepr :: "jval \<Rightarrow> string" where
  "pyrepr JNull = ''None''"
| "pyrepr (JBool b) = (if b then ''True'' else ''False'')"
| "pyrepr (JInt i) = str_of_int i"
| "pyrepr (JStr s) = [CHR 0x27] @ s @ [CHR 0x27]"
| "pyrepr (JList xs) = ''['' @ join '', '' (map pyrepr xs) @ '']''"
| "pyrepr (JObj kvs) =
     ''{'' @ join '', '' (map (\<lambda>(k, v). [CHR 0x27] @ k @ [CHR 0x27] @ '': '' @ pyrepr v) kvs) @ ''}''"

fun pystr :: "jval \<Rightarrow> string" where
  "pystr (JStr s) = s"
| "pystr v = pyrepr v"

text \<open>\<open>str(v or d)\<close> for a string default, the idiom that reads an optional field.\<close>

definition str_field :: "(string \<times> jval) list \<Rightarrow> string \<Rightarrow> string \<Rightarrow> string" where
  "str_field kvs k d = pystr (jor (jget kvs k) (JStr d))"

definition str_field2 :: "(string \<times> jval) list \<Rightarrow> string \<Rightarrow> string \<Rightarrow> string \<Rightarrow> string" where
  "str_field2 kvs k k' d = pystr (jor (jget kvs k) (jor (jget kvs k') (JStr d)))"

text \<open>\<open>int(v)\<close>; nothing when it raises \<open>TypeError\<close> or \<open>ValueError\<close>.\<close>

definition int_of_jval :: "jval \<Rightarrow> int option" where
  "int_of_jval v = (case v of
       JInt i \<Rightarrow> Some i | JBool b \<Rightarrow> Some (if b then 1 else 0) | JStr s \<Rightarrow> int_of_text s | _ \<Rightarrow> None)"

section \<open>Environment variables\<close>

type_synonym os_env = "string \<Rightarrow> string option"

text \<open>\<open>env_truthy(name, default=d)\<close> and \<open>int_env(name, d, min=lo)\<close> of \<open>utilities/env_parse.py\<close>.\<close>

definition env_truthy :: "os_env \<Rightarrow> string \<Rightarrow> bool \<Rightarrow> bool" where
  "env_truthy env name d = (case env name of
       None \<Rightarrow> d
     | Some raw \<Rightarrow> (let v = lower (strip raw) in
         if v = [] then d
         else if v \<in> {''0'', ''false'', ''no'', ''off''} then False
         else if v \<in> {''1'', ''true'', ''yes'', ''on''} then True else d))"

definition int_env :: "os_env \<Rightarrow> string \<Rightarrow> int \<Rightarrow> int \<Rightarrow> int" where
  "int_env env name d lo = max lo (case env name of
       None \<Rightarrow> d
     | Some raw \<Rightarrow> if strip raw = [] then d else (case int_of_text (strip raw) of Some v \<Rightarrow> v | None \<Rightarrow> d))"

lemma int_env_min: "lo \<le> int_env env name d lo"
  by (simp add: int_env_def)

section \<open>The standard library\<close>

text \<open>The standard library, as far as its results are opaque to the program.\<close>

record py_lib =
  lib_loads :: "string \<Rightarrow> jval option"   \<comment> \<open>\<open>json.loads\<close>; \<open>None\<close> when it raises\<close>
  lib_dumps :: "jval \<Rightarrow> string"          \<comment> \<open>\<open>json.dumps(..., sort_keys=True)\<close>\<close>
  lib_sha256 :: "string \<Rightarrow> string"       \<comment> \<open>\<open>sha256(...).hexdigest()\<close>\<close>

lemma truthy_jor: "truthy (jor a b) \<longleftrightarrow> truthy a \<or> truthy b"
  by (simp add: jor_def)

lemma jget_simps [simp]:
  "jget [] k = JNull"
  "jget ((k', v) # kvs) k = (if k = k' then v else jget kvs k)"
  by (simp_all add: jget_def)

lemma jget_dset [simp]: "jget (dset k v kvs) k' = (if k' = k then v else jget kvs k')"
  by (simp add: jget_def)

lemma pystr_jor_JStr: "pystr (jor (JStr s) (JStr d)) = str_or s d"
  by (simp add: jor_def str_or_def)

end
