(* ===== verification/Tool_Loop.thy ===== *)
theory Tool_Loop
  imports Json_Values
begin

text \<open>
  \<open>butler/core/tool_loop_detect.py\<close>: the detectors of tool call loops (circuit limit,
  ping-pong between two tools, polling without progress) over the calls recorded in the
  current turn, and \<open>ToolCallSignature\<close> of \<open>butler/tool_guardrails.py\<close>, the identity of
  a call they share with the guardrail controller.
\<close>

section \<open>Call signatures\<close>

record call_sig =
  sig_tool :: string
  sig_hash :: string

fun coerce_args :: "jval \<Rightarrow> jval" where
  "coerce_args (JObj kvs) = JObj kvs"
| "coerce_args _ = JObj []"

definition canonical_tool_args :: "py_lib \<Rightarrow> jval \<Rightarrow> string" where
  "canonical_tool_args lib args = lib_dumps lib args"

definition from_call :: "py_lib \<Rightarrow> string \<Rightarrow> jval \<Rightarrow> call_sig" where
  "from_call lib tool args =
     \<lparr>sig_tool = tool, sig_hash = lib_sha256 lib (canonical_tool_args lib (coerce_args args))\<rparr>"

section \<open>State and decisions\<close>

datatype loop_level = Warning_Level | Critical_Level

text \<open>The texts shown to the model, one constructor per template with its arguments.\<close>

datatype loop_message =
    Circuit_Limit_Msg nat
  | Ping_Pong_Msg "string list"
  | Ping_Pong_Suspected_Msg "string list"
  | Poll_No_Progress_Msg string

record loop_decision =
  ld_stuck :: bool
  ld_level :: loop_level
  ld_detector :: string
  ld_message :: loop_message
  ld_count :: nat

record loop_state =
  ls_history :: "(string \<times> string \<times> string) list"
  ls_result_fps :: "(string \<times> string) list"
  ls_total_calls :: nat
  ls_last_detector :: string

definition poll_tools :: "string list" where
  "poll_tools = [''list_runtime_jobs'', ''butler_recall'', ''session_todos_list'']"

definition result_fingerprint :: "py_lib \<Rightarrow> string \<Rightarrow> string" where
  "result_fingerprint lib result =
     (let text = utake 500 (strip result)
      in case lib_loads lib text of
           Some (JObj kvs) \<Rightarrow> utake 200 (lib_dumps lib (JObj kvs))
         | _ \<Rightarrow> utake 200 text)"

text \<open>\<open>ToolLoopDetector.__init__\<close> and \<open>reset_for_turn\<close>.\<close>

definition loop_reset :: loop_state where
  "loop_reset = \<lparr>ls_history = [], ls_result_fps = [], ls_total_calls = 0, ls_last_detector = ''''\<rparr>"

definition record_call :: "py_lib \<Rightarrow> string \<Rightarrow> string \<Rightarrow> string \<Rightarrow> loop_state \<Rightarrow> loop_state" where
  "record_call lib tool args_hash result s =
     s\<lparr>ls_total_calls := ls_total_calls s + 1,
       ls_history := dq_push 30 (ls_history s) (tool, args_hash, result_fingerprint lib result),
       ls_result_fps := (if tool \<in> set poll_tools
          then dq_push 20 (ls_result_fps s) (tool, result_fingerprint lib result)
          else ls_result_fps s)\<rparr>"

section \<open>Detectors\<close>

definition recent_calls :: "loop_state \<Rightarrow> (string \<times> string \<times> string) list" where
  "recent_calls s = last_n 6 (ls_history s)"

definition check_ping_pong :: "loop_state \<Rightarrow> loop_decision option" where
  "check_ping_pong s =
     (if length (ls_history s) < 4 then None
      else let recent = recent_calls s;
               names = map fst recent;
               hashes = map (fst \<circ> snd) recent;
               label = sort (remdups names)
        in if length (remdups names) \<noteq> 2 then None
           else if 3 < length (remdups hashes) then None
           else if \<not> distinct_adj names then None
           else if 6 \<le> length recent then
             Some \<lparr>ld_stuck = True, ld_level = Critical_Level, ld_detector = ''ping_pong'',
                   ld_message = Ping_Pong_Msg label, ld_count = length recent\<rparr>
           else
             Some \<lparr>ld_stuck = True, ld_level = Warning_Level,
                   ld_detector = ''ping_pong_soft_nudge'',
                   ld_message = Ping_Pong_Suspected_Msg label, ld_count = length recent\<rparr>)"

definition check_poll_no_progress :: "string \<Rightarrow> loop_state \<Rightarrow> loop_decision option" where
  "check_poll_no_progress tool s =
     (let same = map snd (filter (\<lambda>(name, fp). name = tool) (ls_result_fps s))
      in if length same < 4 then None
         else if length (remdups (last_n 4 same)) = 1 then
           Some \<lparr>ld_stuck = True, ld_level = Warning_Level, ld_detector = ''poll'',
                 ld_message = Poll_No_Progress_Msg tool, ld_count = length same\<rparr>
         else None)"

definition circuit_open :: "nat \<Rightarrow> loop_state \<Rightarrow> loop_decision option" where
  "circuit_open limit s =
     (if limit \<le> ls_total_calls s then
        Some \<lparr>ld_stuck = True, ld_level = Critical_Level, ld_detector = ''circuit'',
              ld_message = Circuit_Limit_Msg limit, ld_count = ls_total_calls s\<rparr>
      else None)"

text \<open>\<open>check_before_call\<close>: the enabled detectors in order, the first hit is remembered.\<close>

definition loop_check :: "string list \<Rightarrow> nat \<Rightarrow> string \<Rightarrow> loop_state \<Rightarrow> loop_decision option" where
  "loop_check enabled limit tool s =
     (let circuit = (if ''circuit'' \<in> set enabled then circuit_open limit s else None);
          pong = (if ''ping_pong'' \<in> set enabled then check_ping_pong s else None);
          poll = (if ''poll'' \<in> set enabled \<and> tool \<in> set poll_tools
                  then check_poll_no_progress tool s else None)
      in if circuit \<noteq> None then circuit else if pong \<noteq> None then pong else poll)"

definition check_before_call ::
    "string list \<Rightarrow> nat \<Rightarrow> string \<Rightarrow> loop_state \<Rightarrow> loop_decision option \<times> loop_state" where
  "check_before_call enabled limit tool s =
     (if enabled = [] then (None, s)
      else case loop_check enabled limit tool s of
             None \<Rightarrow> (None, s)
           | Some d \<Rightarrow> (Some d, s\<lparr>ls_last_detector := ld_detector d\<rparr>))"

section \<open>Environment settings\<close>

text \<open>\<open>str.split(',')\<close>.\<close>

fun split_comma :: "string \<Rightarrow> string list" where
  "split_comma [] = [[]]"
| "split_comma (c # s) =
     (if c = CHR '','' then [] # split_comma s
      else case split_comma s of [] \<Rightarrow> [[c]] | w # ws \<Rightarrow> (c # w) # ws)"

text \<open>\<open>raw\<close> is the environment variable, or its default text when unset.\<close>

definition enabled_detectors :: "string \<Rightarrow> string list" where
  "enabled_detectors raw =
     (let r = lower (strip raw)
      in if r \<in> {''0'', ''off'', ''false'', ''none''} then []
         else filter (\<lambda>x. x \<noteq> []) (map strip (split_comma r)))"

section \<open>Lemmas\<close>

lemma check_before_call_frame:
  assumes "check_before_call enabled limit tool s = (d, s')"
  shows "ls_history s' = ls_history s" and "ls_result_fps s' = ls_result_fps s"
    and "ls_total_calls s' = ls_total_calls s"
  using assms by (auto simp: check_before_call_def split: if_splits option.splits)

lemma check_before_call_fst:
  "fst (check_before_call enabled limit tool s) =
     (if enabled = [] then None else loop_check enabled limit tool s)"
  by (auto simp: check_before_call_def split: option.splits)

lemma loop_check_frame:
  assumes "ls_history s' = ls_history s" and "ls_result_fps s' = ls_result_fps s"
    and "ls_total_calls s' = ls_total_calls s"
  shows "loop_check enabled limit tool s' = loop_check enabled limit tool s"
proof -
  have "circuit_open limit s' = circuit_open limit s" "check_ping_pong s' = check_ping_pong s"
    "check_poll_no_progress tool s' = check_poll_no_progress tool s"
    using assms by (simp_all only: circuit_open_def check_ping_pong_def recent_calls_def
        check_poll_no_progress_def)
  then show ?thesis by (simp only: loop_check_def)
qed

text \<open>The deques keep their bounds.\<close>

definition loop_inv :: "loop_state \<Rightarrow> bool" where
  "loop_inv s \<longleftrightarrow> length (ls_history s) = min 30 (ls_total_calls s)
     \<and> length (ls_result_fps s) \<le> 20
     \<and> fst ` set (ls_result_fps s) \<subseteq> set poll_tools"

lemma loop_inv_reset: "loop_inv loop_reset"
  by (simp add: loop_inv_def loop_reset_def)

lemma set_dq_push: "set (dq_push n xs x) \<subseteq> insert x (set xs)"
  using set_last_n [of n "xs @ [x]"] by (auto simp: dq_push_last_n)

lemma loop_inv_record: "loop_inv s \<Longrightarrow> loop_inv (record_call lib tool h r s)"
proof -
  assume inv: "loop_inv s"
  have "fst ` set (dq_push 20 (ls_result_fps s) (tool, result_fingerprint lib r))
      \<subseteq> insert tool (fst ` set (ls_result_fps s))"
    using set_dq_push [of 20 "ls_result_fps s" "(tool, result_fingerprint lib r)"] by force
  with inv show ?thesis
    by (auto simp: loop_inv_def record_call_def length_dq_push dq_push_last_n [of 30])
qed

interpretation tool_loop: guarded_system
  "\<lambda>(tool, h, r). record_call lib tool h r" loop_inv loop_reset for lib
  by unfold_locales (auto intro: loop_inv_reset loop_inv_record)

text \<open>A ping-pong: the recent calls alternate between two tools.\<close>

lemma distinct_adj_two:
  assumes "distinct_adj xs" and "set xs \<subseteq> {a, b}" and "xs ! 0 = a" and "i < length xs"
  shows "xs ! i = (if even i then a else b)"
  using assms(4)
proof (induction i)
  case 0
  show ?case using assms(3) by simp
next
  case (Suc i)
  then have i: "xs ! i = (if even i then a else b)" by simp
  have "xs ! i \<noteq> xs ! Suc i" using assms(1) Suc.prems by (simp add: distinct_adj_conv_nth)
  moreover have "xs ! Suc i \<in> {a, b}" using assms(2) Suc.prems nth_mem by blast
  ultimately show ?case using i by (auto split: if_splits)
qed

lemma check_ping_pong_Some:
  assumes "check_ping_pong s = Some d"
  shows "4 \<le> length (recent_calls s)" and "distinct_adj (map fst (recent_calls s))"
    and "card (fst ` set (recent_calls s)) = 2"
    and "ld_stuck d" and "ld_level d = Critical_Level \<longleftrightarrow> length (recent_calls s) = 6"
    and "card (fst ` snd ` set (recent_calls s)) \<le> 3"
proof -
  have len: "length (remdups xs) = card (set xs)" for xs :: "string list"
    by (simp add: length_remdups_card_conv)
  show "4 \<le> length (recent_calls s)" "distinct_adj (map fst (recent_calls s))"
    "card (fst ` set (recent_calls s)) = 2" "ld_stuck d"
    "ld_level d = Critical_Level \<longleftrightarrow> length (recent_calls s) = 6"
    "card (fst ` snd ` set (recent_calls s)) \<le> 3"
    using assms
    by (auto simp: check_ping_pong_def Let_def len image_comp recent_calls_def split: if_splits)
qed

end
