(* ===== verification/Guardrails.thy ===== *)
theory Guardrails
  imports Tool_Loop
begin

text \<open>
  \<open>butler/tool_guardrails.py\<close> with \<open>core/tool_result_classification.py\<close>: the controller
  that decides before and after every tool call of a turn whether the call is allowed,
  warned about, blocked or halts the turn.  One state record holds the fields of
  \<open>ToolCallGuardrailController\<close> and, in \<open>gs_loop\<close>, the global \<open>ToolLoopDetector\<close>.
\<close>

section \<open>Constants and configuration\<close>

definition idempotent_tools :: "string list" where
  "idempotent_tools =
     [''read_file'', ''search_code'', ''search_files'', ''list_directory'', ''git_status'',
      ''git_diff'', ''git_log'', ''skills_list'', ''skill_view'', ''butler_recall'',
      ''list_runtime_jobs'']"

definition mutating_tools :: "string list" where
  "mutating_tools =
     [''run_shell'', ''terminal'', ''write_file'', ''edit_file'', ''patch'', ''git_add'',
      ''git_commit'', ''run_runtime_job'', ''download_file'']"

record guardrail_config =
  warnings_enabled :: bool
  hard_stop_enabled :: bool
  exact_failure_warn_after :: nat
  exact_failure_block_after :: nat
  same_tool_failure_warn_after :: nat
  same_tool_failure_halt_after :: nat
  no_progress_warn_after :: nat
  no_progress_block_after :: nat

definition default_config :: guardrail_config where
  "default_config =
     \<lparr>warnings_enabled = True, hard_stop_enabled = True,
      exact_failure_warn_after = 2, exact_failure_block_after = 5,
      same_tool_failure_warn_after = 3, same_tool_failure_halt_after = 8,
      no_progress_warn_after = 2, no_progress_block_after = 5\<rparr>"

text \<open>The process environment the controller reads at each call.\<close>

record guard_env =
  env_detectors :: "string list"
  env_circuit_limit :: nat
  env_doom_threshold :: nat
  env_doom_mode :: string
  env_soft_nudge :: bool

definition doom_loop_mode :: "string \<Rightarrow> string" where
  "doom_loop_mode raw =
     (let mode = lower (strip raw)
      in if mode \<in> {''block'', ''ask''} then mode else ''block'')"

section \<open>Decisions\<close>

datatype action = Allow | Warn | Block | Halt | Ask

datatype guard_message =
    No_Msg
  | Loop_Msg loop_message
  | Doom_Nudge_Msg string nat nat
  | Doom_Ask_Msg string nat
  | Doom_Block_Msg string nat
  | Exact_Block_Msg string nat
  | No_Progress_Block_Msg string nat
  | Same_Tool_Halt_Msg string nat
  | Exact_Warn_Msg string nat
  | Same_Tool_Warn_Msg string nat
  | No_Progress_Warn_Msg string nat

record decision =
  dec_action :: action
  dec_code :: string
  dec_message :: guard_message
  dec_tool :: string
  dec_count :: nat

text \<open>\<open>GuardrailDecision(tool_name=...)\<close> with the other fields at their defaults.\<close>

definition allow_decision :: "string \<Rightarrow> nat \<Rightarrow> decision" where
  "allow_decision tool n =
     \<lparr>dec_action = Allow, dec_code = ''allow'', dec_message = No_Msg, dec_tool = tool, dec_count = n\<rparr>"

definition allows_execution :: "decision \<Rightarrow> bool" where
  "allows_execution d \<longleftrightarrow> dec_action d \<in> {Allow, Warn}"

definition should_halt :: "decision \<Rightarrow> bool" where
  "should_halt d \<longleftrightarrow> dec_action d \<in> {Block, Halt}"

definition is_idempotent :: "string \<Rightarrow> bool" where
  "is_idempotent tool =
     (if tool \<in> set mutating_tools then False else tool \<in> set idempotent_tools)"

section \<open>Classification of tool results\<close>

definition file_mutating_tools :: "string list" where
  "file_mutating_tools = [''write_file'', ''patch'', ''delete_file'']"

definition parse_result_dict :: "py_lib \<Rightarrow> string \<Rightarrow> (string \<times> jval) list option" where
  "parse_result_dict lib result =
     (if strip result = [] then None
      else case lib_loads lib (strip result) of Some (JObj kvs) \<Rightarrow> Some kvs | _ \<Rightarrow> None)"

definition file_mutation_result_landed :: "py_lib \<Rightarrow> string \<Rightarrow> string \<Rightarrow> bool" where
  "file_mutation_result_landed lib tool result =
     (if tool \<notin> set file_mutating_tools then False
      else case parse_result_dict lib result of
        None \<Rightarrow> False
      | Some data \<Rightarrow>
          if truthy (jget data ''error'') then False
          else if tool = ''write_file'' then
            (if jget data ''success'' = JBool False then False
             else jget data ''bytes_written'' \<noteq> JNull \<or> jget data ''bytes'' \<noteq> JNull)
          else if tool = ''patch'' then
            jget data ''success'' = JBool True \<and>
            (jget data ''replacements'' \<noteq> JNull \<or> truthy (jget data ''path''))
          else if tool = ''delete_file'' then
            jget data ''success'' = JBool True \<and> str_field data ''action'' '''' = ''deleted''
          else False)"

definition error_text :: "string \<Rightarrow> bool" where
  "error_text result \<longleftrightarrow>
     contains ([CHR 0x22] @ ''error'' @ [CHR 0x22]) (lower (utake 500 result))"

definition failed_text :: "string \<Rightarrow> bool" where
  "failed_text result \<longleftrightarrow>
     contains ([CHR 0x22] @ ''failed'' @ [CHR 0x22]) (lower (utake 500 result))"

definition mutation_result_not_landed :: "py_lib \<Rightarrow> string \<Rightarrow> string \<Rightarrow> bool" where
  "mutation_result_not_landed lib tool result =
     (if tool \<notin> set file_mutating_tools then False
      else if file_mutation_result_landed lib tool result then False
      else if (case parse_result_dict lib result of
                 Some data \<Rightarrow> truthy (jget data ''error'') | None \<Rightarrow> False) then False
      else if error_text result \<or> prefix ''Error'' result then False
      else True)"

definition mutation_classification_hint ::
    "py_lib \<Rightarrow> string \<Rightarrow> string \<Rightarrow> (bool \<times> string) option" where
  "mutation_classification_hint lib tool result =
     (if file_mutation_result_landed lib tool result then Some (False, '''')
      else if mutation_result_not_landed lib tool result then Some (True, '' [mutation_not_landed]'')
      else if tool \<in> set file_mutating_tools \<and>
        (case lib_loads lib result of Some (JObj data) \<Rightarrow> truthy (jget data ''error'') | _ \<Rightarrow> False)
      then Some (True, '' [error]'')
      else None)"

text \<open>The branch shared by the shell tools and the \<open>git_\<close> tools.\<close>

definition exit_status_failure :: "py_lib \<Rightarrow> string \<Rightarrow> bool \<times> string" where
  "exit_status_failure lib result =
     (case lib_loads lib result of
        Some (JObj data) \<Rightarrow>
          if truthy (jget data ''error'') then (True, '' [error]'')
          else let exit_code = jget data ''exit_code''
               in if exit_code \<noteq> JNull \<and> \<not> is_zero exit_code
                  then (True, '' [exit '' @ pystr exit_code @ '']'') else (False, '''')
      | _ \<Rightarrow> (False, ''''))"

definition classify_tool_failure :: "py_lib \<Rightarrow> string \<Rightarrow> string option \<Rightarrow> bool \<times> string" where
  "classify_tool_failure lib tool res =
     (case res of
        None \<Rightarrow> (False, '''')
      | Some result \<Rightarrow>
          (case mutation_classification_hint lib tool result of
             Some hint \<Rightarrow> hint
           | None \<Rightarrow>
               if tool = ''run_shell'' \<or> tool = ''terminal'' then exit_status_failure lib result
               else if prefix ''git_'' tool then exit_status_failure lib result
               else if (case lib_loads lib result of
                          Some (JObj data) \<Rightarrow>
                            jget data ''success'' = JBool False \<or> truthy (jget data ''error'')
                        | _ \<Rightarrow> False) then (True, '' [error]'')
               else if error_text result \<or> failed_text result \<or> prefix ''Error'' result
                 then (True, '' [error]'')
               else (False, '''')))"

definition opt_text :: "string option \<Rightarrow> string" where
  "opt_text r = (case r of None \<Rightarrow> '''' | Some s \<Rightarrow> s)"

text \<open>A parsed \<open>null\<close> counts as unparsed, as \<open>_safe_json_loads\<close> returns \<open>None\<close> for both.\<close>

definition result_hash :: "py_lib \<Rightarrow> string option \<Rightarrow> string" where
  "result_hash lib res =
     lib_sha256 lib
       (case lib_loads lib (opt_text res) of
          Some v \<Rightarrow> if v = JNull then opt_text res else lib_dumps lib v
        | None \<Rightarrow> opt_text res)"

section \<open>The controller\<close>

record guard_state =
  gs_exact :: "call_sig \<rightharpoonup> nat"
  gs_same :: "string \<rightharpoonup> nat"
  gs_no_progress :: "call_sig \<rightharpoonup> string \<times> nat"
  gs_halt :: "decision option"
  gs_history :: "call_sig list"
  gs_nudged :: "call_sig set"
  gs_loop :: loop_state

definition reset_for_turn :: guard_state where
  "reset_for_turn =
     \<lparr>gs_exact = Map.empty, gs_same = Map.empty, gs_no_progress = Map.empty, gs_halt = None,
      gs_history = [], gs_nudged = {}, gs_loop = loop_reset\<rparr>"

definition set_halt_decision :: "decision \<Rightarrow> guard_state \<Rightarrow> guard_state" where
  "set_halt_decision d s = (if gs_halt s = None then s\<lparr>gs_halt := Some d\<rparr> else s)"

definition exact_count :: "guard_state \<Rightarrow> call_sig \<Rightarrow> nat" where
  "exact_count s sg = (case gs_exact s sg of None \<Rightarrow> 0 | Some n \<Rightarrow> n)"

definition same_count :: "guard_state \<Rightarrow> string \<Rightarrow> nat" where
  "same_count s tool = (case gs_same s tool of None \<Rightarrow> 0 | Some n \<Rightarrow> n)"

text \<open>First stage of \<open>before_call\<close>: the loop detectors.\<close>

definition loop_stage :: "guard_env \<Rightarrow> string \<Rightarrow> guard_state \<Rightarrow> decision option \<times> guard_state" where
  "loop_stage env tool s =
     (case check_before_call (env_detectors env) (env_circuit_limit env) tool (gs_loop s) of
        (None, l) \<Rightarrow> (None, s\<lparr>gs_loop := l\<rparr>)
      | (Some ld, l) \<Rightarrow>
          if \<not> ld_stuck ld then (None, s\<lparr>gs_loop := l\<rparr>)
          else let d = \<lparr>dec_action = (if ld_level ld = Critical_Level then Block else Warn),
                        dec_code = ld_detector ld, dec_message = Loop_Msg (ld_message ld),
                        dec_tool = tool, dec_count = ld_count ld\<rparr>
               in (Some d, if ld_level ld = Critical_Level
                     then s\<lparr>gs_loop := l, gs_halt := Some d\<rparr> else s\<lparr>gs_loop := l\<rparr>))"

text \<open>Second stage: the same call repeated \<open>threshold\<close> times in a row.\<close>

definition all_same :: "'a list \<Rightarrow> bool" where
  "all_same xs \<longleftrightarrow> (\<forall>x \<in> set xs. x = hd xs)"

definition doom_stage ::
    "guard_env \<Rightarrow> call_sig \<Rightarrow> guard_state \<Rightarrow> decision option \<times> guard_state" where
  "doom_stage env sg s0 =
     (let t = env_doom_threshold env; tool = sig_tool sg
      in if t = 0 then (None, s0)
         else
           let s = s0\<lparr>gs_history := dq_push 16 (gs_history s0) sg\<rparr>;
               tail = last_n t (gs_history s)
           in if env_soft_nudge env \<and> 1 < t \<and> max 1 (t - 1) \<le> length tail \<and> all_same tail
                 \<and> sg \<notin> gs_nudged s
              then (Some \<lparr>dec_action = Warn, dec_code = ''doom_loop_soft_nudge'',
                          dec_message = Doom_Nudge_Msg tool (length tail) t,
                          dec_tool = tool, dec_count = length tail\<rparr>,
                    s\<lparr>gs_nudged := insert sg (gs_nudged s)\<rparr>)
              else if t \<le> length tail \<and> all_same tail then
                (if doom_loop_mode (env_doom_mode env) = ''ask''
                 then (Some \<lparr>dec_action = Ask, dec_code = ''doom_loop'',
                             dec_message = Doom_Ask_Msg tool t, dec_tool = tool, dec_count = t\<rparr>, s)
                 else let d = \<lparr>dec_action = Block, dec_code = ''doom_loop'',
                               dec_message = Doom_Block_Msg tool t, dec_tool = tool, dec_count = t\<rparr>
                      in (Some d, s\<lparr>gs_halt := Some d\<rparr>))
              else (None, s))"

text \<open>Third stage: repeated exact failures and idempotent calls without progress.\<close>

definition failure_stage ::
    "guardrail_config \<Rightarrow> call_sig \<Rightarrow> guard_state \<Rightarrow> decision \<times> guard_state" where
  "failure_stage cfg sg s =
     (let tool = sig_tool sg; n = exact_count s sg
      in if exact_failure_block_after cfg \<le> n then
           (let d = \<lparr>dec_action = Block, dec_code = ''repeated_exact_failure_block'',
                     dec_message = Exact_Block_Msg tool n, dec_tool = tool, dec_count = n\<rparr>
            in (d, s\<lparr>gs_halt := Some d\<rparr>))
         else case (if is_idempotent tool then gs_no_progress s sg else None) of
             None \<Rightarrow> (allow_decision tool 0, s)
           | Some (_, m) \<Rightarrow>
               if no_progress_block_after cfg \<le> m then
                 (let d = \<lparr>dec_action = Block, dec_code = ''idempotent_no_progress_block'',
                           dec_message = No_Progress_Block_Msg tool m, dec_tool = tool, dec_count = m\<rparr>
                  in (d, s\<lparr>gs_halt := Some d\<rparr>))
               else (allow_decision tool 0, s))"

definition before_call_sig ::
    "guard_env \<Rightarrow> guardrail_config \<Rightarrow> call_sig \<Rightarrow> guard_state \<Rightarrow> decision \<times> guard_state" where
  "before_call_sig env cfg sg s =
     (case loop_stage env (sig_tool sg) s of
        (Some d, s1) \<Rightarrow> (d, s1)
      | (None, s1) \<Rightarrow>
          if \<not> hard_stop_enabled cfg then (allow_decision (sig_tool sg) 0, s1)
          else case doom_stage env sg s1 of
              (Some d, s2) \<Rightarrow> (d, s2)
            | (None, s2) \<Rightarrow> failure_stage cfg sg s2)"

definition before_call ::
    "py_lib \<Rightarrow> guard_env \<Rightarrow> guardrail_config \<Rightarrow> string \<Rightarrow> jval \<Rightarrow> guard_state \<Rightarrow> decision \<times> guard_state" where
  "before_call lib env cfg tool args s = before_call_sig env cfg (from_call lib tool args) s"

text \<open>\<open>after_call\<close>: a failed call, then a successful one.\<close>

definition note_failure ::
    "guardrail_config \<Rightarrow> call_sig \<Rightarrow> guard_state \<Rightarrow> decision \<times> guard_state" where
  "note_failure cfg sg s0 =
     (let tool = sig_tool sg;
          exact = exact_count s0 sg + 1;
          same = same_count s0 tool + 1;
          s = s0\<lparr>gs_exact := (gs_exact s0)(sg \<mapsto> exact),
                 gs_no_progress := (gs_no_progress s0)(sg := None),
                 gs_same := (gs_same s0)(tool \<mapsto> same)\<rparr>
      in if hard_stop_enabled cfg \<and> same_tool_failure_halt_after cfg \<le> same then
           (let d = \<lparr>dec_action = Halt, dec_code = ''same_tool_failure_halt'',
                     dec_message = Same_Tool_Halt_Msg tool same, dec_tool = tool, dec_count = same\<rparr>
            in (d, s\<lparr>gs_halt := Some d\<rparr>))
         else if warnings_enabled cfg \<and> exact_failure_warn_after cfg \<le> exact then
           (\<lparr>dec_action = Warn, dec_code = ''repeated_exact_failure_warning'',
             dec_message = Exact_Warn_Msg tool exact, dec_tool = tool, dec_count = exact\<rparr>, s)
         else if warnings_enabled cfg \<and> same_tool_failure_warn_after cfg \<le> same then
           (\<lparr>dec_action = Warn, dec_code = ''same_tool_failure_warning'',
             dec_message = Same_Tool_Warn_Msg tool same, dec_tool = tool, dec_count = same\<rparr>, s)
         else (allow_decision tool exact, s))"

definition note_success ::
    "guardrail_config \<Rightarrow> call_sig \<Rightarrow> string \<Rightarrow> guard_state \<Rightarrow> decision \<times> guard_state" where
  "note_success cfg sg rh s0 =
     (let tool = sig_tool sg;
          s = s0\<lparr>gs_exact := (gs_exact s0)(sg := None), gs_same := (gs_same s0)(tool := None)\<rparr>
      in if \<not> is_idempotent tool then
           (allow_decision tool 0, s\<lparr>gs_no_progress := (gs_no_progress s)(sg := None)\<rparr>)
         else
           let n = (case gs_no_progress s sg of
                      Some (rh', m) \<Rightarrow> if rh' = rh then m + 1 else 1 | None \<Rightarrow> 1);
               s' = s\<lparr>gs_no_progress := (gs_no_progress s)(sg \<mapsto> (rh, n))\<rparr>
           in if warnings_enabled cfg \<and> no_progress_warn_after cfg \<le> n then
                (\<lparr>dec_action = Warn, dec_code = ''idempotent_no_progress_warning'',
                  dec_message = No_Progress_Warn_Msg tool n, dec_tool = tool, dec_count = n\<rparr>, s')
              else (allow_decision tool n, s'))"

definition after_call ::
    "py_lib \<Rightarrow> guardrail_config \<Rightarrow> string \<Rightarrow> jval \<Rightarrow> string option \<Rightarrow> bool option \<Rightarrow> guard_state
      \<Rightarrow> decision \<times> guard_state" where
  "after_call lib cfg tool args result failed s0 =
     (let sg = from_call lib tool (coerce_args args);
          is_failed = (case failed of
             None \<Rightarrow> fst (classify_tool_failure lib tool result) | Some b \<Rightarrow> b);
          s = s0\<lparr>gs_loop := record_call lib tool (sig_hash sg) (opt_text result) (gs_loop s0)\<rparr>
      in if is_failed then note_failure cfg sg s
         else note_success cfg sg (result_hash lib result) s)"

section \<open>Stage lemmas\<close>

lemmas stage_defs = loop_stage_def doom_stage_def failure_stage_def

text \<open>What the stages of \<open>before_call\<close> leave alone: the counters and the recorded calls.\<close>

definition counters ::
    "guard_state \<Rightarrow> (call_sig \<rightharpoonup> nat) \<times> (string \<rightharpoonup> nat) \<times> (call_sig \<rightharpoonup> string \<times> nat)" where
  "counters s = (gs_exact s, gs_same s, gs_no_progress s)"

definition loop_data ::
    "loop_state \<Rightarrow> (string \<times> string \<times> string) list \<times> (string \<times> string) list \<times> nat" where
  "loop_data l = (ls_history l, ls_result_fps l, ls_total_calls l)"

lemma check_ping_pong_cong: "loop_data l' = loop_data l \<Longrightarrow> check_ping_pong l' = check_ping_pong l"
  by (simp only: check_ping_pong_def recent_calls_def loop_data_def prod.inject)

lemma loop_stage_frame:
  assumes "loop_stage env tool s = (d, s')"
  shows "counters s' = counters s" and "loop_data (gs_loop s') = loop_data (gs_loop s)"
    and "gs_history s' = gs_history s" and "gs_nudged s' = gs_nudged s"
proof -
  obtain ld l where c: "check_before_call (env_detectors env) (env_circuit_limit env) tool (gs_loop s) = (ld, l)"
    by force
  have "loop_data l = loop_data (gs_loop s)"
    using check_before_call_frame [OF c] by (simp add: loop_data_def)
  then show "counters s' = counters s" "loop_data (gs_loop s') = loop_data (gs_loop s)"
    "gs_history s' = gs_history s" "gs_nudged s' = gs_nudged s"
    using assms by (auto simp: c loop_stage_def counters_def Let_def split: option.splits if_splits)
qed

lemma doom_stage_frame:
  assumes "doom_stage env sg s = (d, s')"
  shows "counters s' = counters s" and "gs_loop s' = gs_loop s"
    and "gs_history s' = (if env_doom_threshold env = 0 then gs_history s
           else dq_push 16 (gs_history s) sg)"
  using assms by (auto simp: doom_stage_def counters_def Let_def split: if_splits)

lemma failure_stage_frame:
  assumes "failure_stage cfg sg s = (d, s')"
  shows "counters s' = counters s" and "gs_loop s' = gs_loop s"
    and "gs_history s' = gs_history s" and "gs_nudged s' = gs_nudged s"
  using assms by (auto simp: failure_stage_def counters_def Let_def split: if_splits option.splits)

lemma exact_count_cong: "gs_exact s' = gs_exact s \<Longrightarrow> exact_count s' sg = exact_count s sg"
  by (simp add: exact_count_def)

lemma failure_stage_code:
  assumes "failure_stage cfg sg s = (d, s')" and "dec_action d = Allow"
  shows "exact_count s sg < exact_failure_block_after cfg"
    and "is_idempotent (sig_tool sg) \<Longrightarrow> gs_no_progress s sg = Some (rh, m)
      \<Longrightarrow> m < no_progress_block_after cfg"
  using assms by (auto simp: failure_stage_def Let_def split: if_splits option.splits)

lemma loop_stage_action:
  "loop_stage env tool s = (Some d, s') \<Longrightarrow> dec_action d \<in> {Block, Warn}"
  by (auto simp: loop_stage_def Let_def split: prod.splits option.splits if_splits)

lemma doom_stage_action:
  "doom_stage env sg s = (Some d, s') \<Longrightarrow> dec_action d \<in> {Block, Warn, Ask}"
  by (auto simp: doom_stage_def Let_def split: if_splits)

lemma doom_stage_None:
  assumes "doom_stage env sg s = (None, s')" and "0 < env_doom_threshold env"
  shows "\<not> (env_doom_threshold env \<le> length (gs_history s') \<and>
            all_same (last_n (env_doom_threshold env) (gs_history s')))"
    and "gs_history s' = dq_push 16 (gs_history s) sg"
  using assms by (auto simp: doom_stage_def Let_def split: if_splits)

text \<open>Every decision that stops the turn is the recorded halt decision.\<close>

lemma loop_stage_halt:
  "loop_stage env tool s = (Some d, s') \<Longrightarrow> should_halt d \<Longrightarrow> gs_halt s' = Some d"
  by (auto simp: loop_stage_def should_halt_def Let_def split: prod.splits option.splits if_splits)

lemma doom_stage_halt:
  "doom_stage env sg s = (Some d, s') \<Longrightarrow> should_halt d \<Longrightarrow> gs_halt s' = Some d"
  by (auto simp: doom_stage_def should_halt_def Let_def split: if_splits)

lemma failure_stage_halt:
  "failure_stage cfg sg s = (d, s') \<Longrightarrow> should_halt d \<Longrightarrow> gs_halt s' = Some d"
  by (auto simp: failure_stage_def should_halt_def allow_decision_def Let_def
      split: if_splits option.splits)

text \<open>No stage removes a halt decision.\<close>

lemma loop_stage_keeps_halt:
  "loop_stage env tool s = (d, s') \<Longrightarrow> gs_halt s \<noteq> None \<Longrightarrow> gs_halt s' \<noteq> None"
  by (auto simp: loop_stage_def Let_def split: prod.splits option.splits if_splits)

lemma doom_stage_keeps_halt:
  "doom_stage env sg s = (d, s') \<Longrightarrow> gs_halt s \<noteq> None \<Longrightarrow> gs_halt s' \<noteq> None"
  by (auto simp: doom_stage_def Let_def split: if_splits)

lemma failure_stage_keeps_halt:
  "failure_stage cfg sg s = (d, s') \<Longrightarrow> gs_halt s \<noteq> None \<Longrightarrow> gs_halt s' \<noteq> None"
  by (auto simp: failure_stage_def Let_def split: if_splits option.splits)

lemmas stage_halt = loop_stage_halt doom_stage_halt failure_stage_halt
lemmas stage_keeps_halt = loop_stage_keeps_halt doom_stage_keeps_halt failure_stage_keeps_halt

lemma before_call_sig_cases:
  assumes "before_call_sig env cfg sg s = (d, s')"
  obtains (loop) "loop_stage env (sig_tool sg) s = (Some d, s')"
  | (soft) "loop_stage env (sig_tool sg) s = (None, s')" "\<not> hard_stop_enabled cfg"
      "d = allow_decision (sig_tool sg) 0"
  | (doom) s1 where "loop_stage env (sig_tool sg) s = (None, s1)" "hard_stop_enabled cfg"
      "doom_stage env sg s1 = (Some d, s')"
  | (fail) s1 s2 where "loop_stage env (sig_tool sg) s = (None, s1)" "hard_stop_enabled cfg"
      "doom_stage env sg s1 = (None, s2)" "failure_stage cfg sg s2 = (d, s')"
  using assms that unfolding before_call_sig_def
  by (cases "loop_stage env (sig_tool sg) s"; cases "fst (loop_stage env (sig_tool sg) s)")
    (force split: option.splits prod.splits if_splits)+

lemma before_call_sig_halt:
  assumes "before_call_sig env cfg sg s = (d, s')" and "should_halt d"
  shows "gs_halt s' = Some d"
  using assms(1)
  by (cases rule: before_call_sig_cases)
    (use assms(2) in \<open>auto simp: should_halt_def allow_decision_def dest: stage_halt\<close>)

lemma before_call_sig_keeps_halt:
  assumes "before_call_sig env cfg sg s = (d, s')" and "gs_halt s \<noteq> None"
  shows "gs_halt s' \<noteq> None"
  using assms(1)
  by (cases rule: before_call_sig_cases) (use assms(2) in \<open>blast dest: stage_keeps_halt\<close>)+

lemma note_failure_halt:
  "note_failure cfg sg s = (d, s') \<Longrightarrow> should_halt d \<Longrightarrow> gs_halt s' = Some d"
  by (auto simp: note_failure_def should_halt_def allow_decision_def Let_def split: if_splits)

lemma note_success_action:
  "note_success cfg sg rh s = (d, s') \<Longrightarrow> dec_action d \<in> {Allow, Warn} \<and> gs_halt s' = gs_halt s"
  by (auto simp: note_success_def allow_decision_def Let_def split: if_splits option.splits)

lemma note_failure_keeps_halt:
  "note_failure cfg sg s = (d, s') \<Longrightarrow> gs_halt s \<noteq> None \<Longrightarrow> gs_halt s' \<noteq> None"
  by (auto simp: note_failure_def Let_def split: if_splits)

lemma after_call_halt:
  "after_call lib cfg tool args r f s = (d, s') \<Longrightarrow> should_halt d \<Longrightarrow> gs_halt s' = Some d"
  by (auto simp: after_call_def Let_def should_halt_def split: if_splits
      dest: note_failure_halt note_success_action)

lemma after_call_keeps_halt:
  assumes "after_call lib cfg tool args r f s = (d, s')" and "gs_halt s \<noteq> None"
  shows "gs_halt s' \<noteq> None"
  using assms note_failure_keeps_halt
  by (fastforce simp: after_call_def Let_def split: if_splits dest: note_success_action)

end
