(* ===== verification/Guardrail_Props.thy ===== *)
theory Guardrail_Props
  imports Guardrails
begin

text \<open>
  What the guardrail controller guarantees over a whole turn, for every order of
  \<open>before_call\<close>, \<open>after_call\<close> and \<open>set_halt_decision\<close>: sticky halts, counters that are
  failure streaks, the doom loop stop, what an allowed call means, and the two
  settings under which a stop is never reached.
\<close>

section \<open>A turn as a sequence of events\<close>

text \<open>The calls other components make on the controller, in any order.\<close>

datatype guard_event =
    Ev_Before string jval
  | Ev_After string jval "string option" "bool option"
  | Ev_Halt decision

fun guard_step ::
    "py_lib \<Rightarrow> guard_env \<Rightarrow> guardrail_config \<Rightarrow> guard_event \<Rightarrow> guard_state \<Rightarrow> guard_state" where
  "guard_step lib env cfg (Ev_Before tool args) s = snd (before_call lib env cfg tool args s)"
| "guard_step lib env cfg (Ev_After tool args r f) s = snd (after_call lib cfg tool args r f s)"
| "guard_step lib env cfg (Ev_Halt d) s = set_halt_decision d s"

definition guard_inv :: "guard_state \<Rightarrow> bool" where
  "guard_inv s \<longleftrightarrow> loop_inv (gs_loop s) \<and> length (gs_history s) \<le> 16"

lemma loop_inv_cong: "loop_data l' = loop_data l \<Longrightarrow> loop_inv l' = loop_inv l"
  by (simp add: loop_inv_def loop_data_def)

lemma before_call_sig_frame:
  assumes "before_call_sig env cfg sg s = (d, s')"
  shows "counters s' = counters s" and "loop_data (gs_loop s') = loop_data (gs_loop s)"
    and "gs_history s' \<in> {gs_history s, dq_push 16 (gs_history s) sg}"
proof -
  have "counters s' = counters s \<and> loop_data (gs_loop s') = loop_data (gs_loop s)
    \<and> gs_history s' \<in> {gs_history s, dq_push 16 (gs_history s) sg}"
    using assms
  proof (cases rule: before_call_sig_cases)
    case loop
    from loop_stage_frame [OF this] show ?thesis by simp
  next
    case soft
    from loop_stage_frame [OF this(1)] show ?thesis by simp
  next
    case (doom s1)
    from loop_stage_frame [OF doom(1)] doom_stage_frame [OF doom(3)] show ?thesis by simp
  next
    case (fail s1 s2)
    from loop_stage_frame [OF fail(1)] doom_stage_frame [OF fail(3)] failure_stage_frame [OF fail(4)]
    show ?thesis by simp
  qed
  then show "counters s' = counters s" "loop_data (gs_loop s') = loop_data (gs_loop s)"
    "gs_history s' \<in> {gs_history s, dq_push 16 (gs_history s) sg}" by blast+
qed

lemma note_failure_frame:
  assumes "note_failure cfg sg s = (d, s')"
  shows "gs_history s' = gs_history s" and "gs_loop s' = gs_loop s" and "gs_nudged s' = gs_nudged s"
  using assms by (auto simp: note_failure_def Let_def split: if_splits)

lemma note_success_frame:
  assumes "note_success cfg sg rh s = (d, s')"
  shows "gs_history s' = gs_history s" and "gs_loop s' = gs_loop s" and "gs_nudged s' = gs_nudged s"
  using assms by (auto simp: note_success_def Let_def split: if_splits option.splits)

lemma after_call_frame:
  assumes "after_call lib cfg tool args r f s = (d, s')"
  shows "gs_history s' = gs_history s" and "gs_nudged s' = gs_nudged s"
    and "gs_loop s' = record_call lib tool (sig_hash (from_call lib tool (coerce_args args)))
           (opt_text r) (gs_loop s)"
  using assms
  by (simp_all add: after_call_def Let_def note_failure_frame note_success_frame split: if_splits)

lemma guard_inv_step: "guard_inv s \<Longrightarrow> guard_inv (guard_step lib env cfg e s)"
proof (cases e)
  case (Ev_Before tool args)
  let ?s' = "snd (before_call_sig env cfg (from_call lib tool args) s)"
  have b: "before_call_sig env cfg (from_call lib tool args) s = (fst (before_call_sig env cfg (from_call lib tool args) s), ?s')"
    by simp
  assume i: "guard_inv s"
  have "loop_inv (gs_loop ?s')"
    using i loop_inv_cong [OF before_call_sig_frame(2) [OF b]] by (simp add: guard_inv_def)
  moreover have "length (gs_history ?s') \<le> 16"
    using before_call_sig_frame(3) [OF b] i length_dq_push [of 16] by (auto simp: guard_inv_def)
  ultimately show ?thesis by (simp add: Ev_Before before_call_def guard_inv_def)
next
  case (Ev_After tool args r f)
  obtain d s' where a: "after_call lib cfg tool args r f s = (d, s')" by force
  assume "guard_inv s"
  then show ?thesis
    using after_call_frame [OF a] a by (simp add: Ev_After guard_inv_def loop_inv_record)
qed (simp add: guard_inv_def set_halt_decision_def)

lemma guard_step_keeps_halt:
  "gs_halt s \<noteq> None \<Longrightarrow> gs_halt (guard_step lib env cfg e s) \<noteq> None"
proof (cases e)
  case (Ev_Before tool args)
  obtain d s' where "before_call_sig env cfg (from_call lib tool args) s = (d, s')" by force
  moreover assume "gs_halt s \<noteq> None"
  ultimately show ?thesis
    using before_call_sig_keeps_halt by (fastforce simp: Ev_Before before_call_def)
next
  case (Ev_After tool args r f)
  obtain d s' where "after_call lib cfg tool args r f s = (d, s')" by force
  moreover assume "gs_halt s \<noteq> None"
  ultimately show ?thesis using after_call_keeps_halt by (fastforce simp: Ev_After)
qed (simp add: set_halt_decision_def)

interpretation guard: latched_system "guard_step lib env cfg" guard_inv reset_for_turn
    "\<lambda>s. gs_halt s \<noteq> None" for lib env cfg
proof unfold_locales
  show "guard_inv reset_for_turn"
    by (simp add: guard_inv_def reset_for_turn_def loop_inv_reset)
qed (rule guard_inv_step guard_step_keeps_halt, assumption)+

text \<open>
  the halt decision of a turn is sticky: once a decision blocked or halted the turn, it
  stays recorded through every later sequence of before, after and halt calls, until
  the next \<open>reset_for_turn\<close>.
\<close>

theorem halt_is_sticky:
  assumes "guard_inv s" and "gs_halt s \<noteq> None"
  shows "gs_halt (fold (guard_step lib env cfg) es s) \<noteq> None"
  using assms by (rule guard.latch_fold)

section \<open>Failure counts are failure streaks\<close>

fun outcome :: "py_lib \<Rightarrow> guard_event \<Rightarrow> (call_sig \<times> bool) option" where
  "outcome lib (Ev_After tool args r f) =
     Some (from_call lib tool (coerce_args args),
       case f of None \<Rightarrow> fst (classify_tool_failure lib tool r) | Some b \<Rightarrow> b)"
| "outcome lib _ = None"

text \<open>The failures at the end of a calls among the calls that satisfy a predicate.\<close>

definition failure_streak :: "('a \<Rightarrow> bool) \<Rightarrow> ('a \<times> bool) list \<Rightarrow> nat" where
  "failure_streak P calls = length (takeWhile snd (rev (filter (P \<circ> fst) calls)))"

lemma failure_streak_Nil [simp]: "failure_streak P [] = 0"
  by (simp add: failure_streak_def)

lemma failure_streak_snoc [simp]:
  "failure_streak P (calls @ [(x, b)]) =
     (if P x then (if b then Suc (failure_streak P calls) else 0) else failure_streak P calls)"
  by (simp add: failure_streak_def)

definition turn_log :: "py_lib \<Rightarrow> guard_event list \<Rightarrow> (call_sig \<times> bool) list" where
  "turn_log lib es = List.map_filter (outcome lib) es"

lemma turn_log_snoc:
  "turn_log lib (es @ [e]) =
     turn_log lib es @ (case outcome lib e of None \<Rightarrow> [] | Some x \<Rightarrow> [x])"
  by (auto simp: turn_log_def List.map_filter_def split: option.splits)

lemma sig_tool_from_call [simp]: "sig_tool (from_call lib tool args) = tool"
  by (simp add: from_call_def)

lemma note_failure_counts:
  "exact_count (snd (note_failure cfg sg s)) x =
     (if x = sg then Suc (exact_count s sg) else exact_count s x)"
  "same_count (snd (note_failure cfg sg s)) t =
     (if t = sig_tool sg then Suc (same_count s t) else same_count s t)"
  unfolding note_failure_def Let_def by (simp_all add: exact_count_def same_count_def)

lemma note_success_counts:
  "exact_count (snd (note_success cfg sg rh s)) x = (if x = sg then 0 else exact_count s x)"
  "same_count (snd (note_success cfg sg rh s)) t = (if t = sig_tool sg then 0 else same_count s t)"
  unfolding note_success_def Let_def by (simp_all add: exact_count_def same_count_def)

lemma counts_update_loop [simp]:
  "exact_count (s\<lparr>gs_loop := l\<rparr>) sg = exact_count s sg"
  "same_count (s\<lparr>gs_loop := l\<rparr>) t = same_count s t"
  by (simp_all add: exact_count_def same_count_def)

lemma before_call_counts:
  "exact_count (snd (before_call lib env cfg tool args s)) sg = exact_count s sg"
  "same_count (snd (before_call lib env cfg tool args s)) t = same_count s t"
proof -
  obtain d s' where b: "before_call_sig env cfg (from_call lib tool args) s = (d, s')" by force
  from before_call_sig_frame(1) [OF b] b
  show "exact_count (snd (before_call lib env cfg tool args s)) sg = exact_count s sg"
    "same_count (snd (before_call lib env cfg tool args s)) t = same_count s t"
    by (simp_all add: before_call_def exact_count_def same_count_def counters_def)
qed

text \<open>One event changes the counts as one entry of the log changes the streaks.\<close>

definition streak_step :: "bool \<Rightarrow> bool \<Rightarrow> nat \<Rightarrow> nat" where
  "streak_step relevant failed n = (if relevant then (if failed then Suc n else 0) else n)"

lemma guard_step_exact:
  "exact_count (guard_step lib env cfg e s) sg =
     (case outcome lib e of None \<Rightarrow> exact_count s sg
      | Some (x, b) \<Rightarrow> streak_step (x = sg) b (exact_count s sg))"
  by (cases e)
    (auto simp: before_call_counts set_halt_decision_def exact_count_def [of "_\<lparr>gs_halt := _\<rparr>"]
      exact_count_def [symmetric] after_call_def Let_def note_failure_counts note_success_counts
      streak_step_def)

lemma guard_step_same:
  "same_count (guard_step lib env cfg e s) tool =
     (case outcome lib e of None \<Rightarrow> same_count s tool
      | Some (x, b) \<Rightarrow> streak_step (sig_tool x = tool) b (same_count s tool))"
  by (cases e)
    (auto simp: before_call_counts set_halt_decision_def same_count_def [of "_\<lparr>gs_halt := _\<rparr>"]
      same_count_def [symmetric] after_call_def Let_def note_failure_counts note_success_counts
      streak_step_def)

lemma failure_streak_step:
  "failure_streak P (calls @ [(x, b)]) = streak_step (P x) b (failure_streak P calls)"
  by (simp add: streak_step_def)

lemma run_exact_count:
  "exact_count (fold (guard_step lib env cfg) es reset_for_turn) sg =
     failure_streak (\<lambda>x. x = sg) (turn_log lib es)"
proof (induction es rule: rev_induct)
  case Nil
  show ?case by (simp add: turn_log_def List.map_filter_def exact_count_def reset_for_turn_def)
next
  case (snoc e es)
  then show ?case
    by (simp add: turn_log_snoc guard_step_exact failure_streak_step
        del: failure_streak_snoc split: option.splits prod.splits)
qed

lemma run_same_count:
  "same_count (fold (guard_step lib env cfg) es reset_for_turn) tool =
     failure_streak (\<lambda>x. sig_tool x = tool) (turn_log lib es)"
proof (induction es rule: rev_induct)
  case Nil
  show ?case by (simp add: turn_log_def List.map_filter_def same_count_def reset_for_turn_def)
next
  case (snoc e es)
  then show ?case
    by (simp add: turn_log_snoc guard_step_same failure_streak_step
        del: failure_streak_snoc split: option.splits prod.splits)
qed

text \<open>
  C5: refinement: whatever the order of calls in a turn, the two dictionaries of counters
  hold exactly the length of the current failure streak of the call (same tool and
  arguments) and of the tool in the log of finished calls.
\<close>

theorem counters_are_streaks:
  "exact_count (fold (guard_step lib env cfg) es reset_for_turn) sg =
     failure_streak (\<lambda>x. x = sg) (turn_log lib es)
   \<and> same_count (fold (guard_step lib env cfg) es reset_for_turn) tool =
     failure_streak (\<lambda>x. sig_tool x = tool) (turn_log lib es)"
  by (simp add: run_exact_count run_same_count)

section \<open>What an allowed call means\<close>

text \<open>
  C8: safety: when \<open>before_call\<close> answers \<open>allow\<close> with the hard stop enabled, the call has
  failed fewer than \<open>exact_failure_block_after\<close> times in a row, an idempotent tool has
  returned the same result fewer than \<open>no_progress_block_after\<close> times, and the last
  \<open>threshold\<close> calls are not all this one.
\<close>

theorem allow_is_sound:
  assumes "before_call_sig env cfg sg s = (d, s')" and "dec_action d = Allow"
    and "hard_stop_enabled cfg" and "0 < env_doom_threshold env"
  shows "exact_count s sg < exact_failure_block_after cfg
    \<and> (\<forall>rh m. is_idempotent (sig_tool sg) \<longrightarrow> gs_no_progress s sg = Some (rh, m) \<longrightarrow>
         m < no_progress_block_after cfg)
    \<and> \<not> (env_doom_threshold env \<le> length (gs_history s') \<and>
          all_same (last_n (env_doom_threshold env) (gs_history s')))"
  using assms(1)
proof (cases rule: before_call_sig_cases)
  case loop
  from loop_stage_action [OF this] assms(2) show ?thesis by simp
next
  case soft
  with assms(3) show ?thesis by simp
next
  case (doom s1)
  from doom_stage_action [OF doom(3)] assms(2) show ?thesis by simp
next
  case (fail s1 s2)
  have c: "counters s2 = counters s"
    using loop_stage_frame(1) [OF fail(1)] doom_stage_frame(1) [OF fail(3)] by simp
  then have "exact_count s2 sg = exact_count s sg" "gs_no_progress s2 = gs_no_progress s"
    by (simp_all add: counters_def exact_count_def)
  moreover have "gs_history s' = gs_history s2" by (rule failure_stage_frame(3) [OF fail(4)])
  ultimately show ?thesis
    using failure_stage_code [OF fail(4) assms(2)] doom_stage_None(1) [OF fail(3) assms(4)] by auto
qed

section \<open>The doom loop stop\<close>

definition silent :: "guard_env \<Rightarrow> bool" where
  "silent env \<longleftrightarrow> env_detectors env = []"

lemma silent_loop_stage: "silent env \<Longrightarrow> loop_stage env tool s = (None, s)"
  by (simp add: silent_def loop_stage_def check_before_call_def)

lemma doom_stage_nudged:
  assumes "doom_stage env sg s = (d, s')"
  shows "gs_nudged s \<subseteq> gs_nudged s'"
    and "env_soft_nudge env \<Longrightarrow> 1 < env_doom_threshold env \<Longrightarrow>
      env_doom_threshold env - 1 \<le> length (last_n (env_doom_threshold env) (gs_history s')) \<Longrightarrow>
      all_same (last_n (env_doom_threshold env) (gs_history s')) \<Longrightarrow> sg \<in> gs_nudged s'"
  using assms by (auto simp: doom_stage_def Let_def split: if_splits)

lemma before_silent:
  assumes "silent env" and "hard_stop_enabled cfg"
    and "before_call_sig env cfg sg s = (d, s')" and "0 < env_doom_threshold env"
  shows "gs_history s' = dq_push 16 (gs_history s) sg" and "gs_nudged s \<subseteq> gs_nudged s'"
    and "env_soft_nudge env \<Longrightarrow> 1 < env_doom_threshold env \<Longrightarrow>
      env_doom_threshold env - 1 \<le> length (last_n (env_doom_threshold env) (gs_history s')) \<Longrightarrow>
      all_same (last_n (env_doom_threshold env) (gs_history s')) \<Longrightarrow> sg \<in> gs_nudged s'"
proof -
  obtain d1 s1 where ds: "doom_stage env sg s = (d1, s1)" by force
  have eq: "gs_history s' = gs_history s1 \<and> gs_nudged s' = gs_nudged s1"
  proof (cases d1)
    case None
    then have "failure_stage cfg sg s1 = (d, s')"
      using assms(1-3) ds by (simp add: before_call_sig_def silent_loop_stage)
    from failure_stage_frame(3,4) [OF this] show ?thesis by simp
  next
    case (Some x)
    then show ?thesis using assms(1-3) ds by (simp add: before_call_sig_def silent_loop_stage)
  qed
  show "gs_history s' = dq_push 16 (gs_history s) sg"
    using doom_stage_frame(3) [OF ds] assms(4) eq by simp
  show "gs_nudged s \<subseteq> gs_nudged s'" using doom_stage_nudged(1) [OF ds] eq by simp
  show "env_soft_nudge env \<Longrightarrow> 1 < env_doom_threshold env \<Longrightarrow>
      env_doom_threshold env - 1 \<le> length (last_n (env_doom_threshold env) (gs_history s')) \<Longrightarrow>
      all_same (last_n (env_doom_threshold env) (gs_history s')) \<Longrightarrow> sg \<in> gs_nudged s'"
    using doom_stage_nudged(2) [OF ds] eq by simp
qed

lemma all_same_replicate [simp]: "all_same (replicate n x)"
  by (cases n) (auto simp: all_same_def)

text \<open>The events of a turn in which every attempted call is the same one.\<close>

definition only_calls :: "py_lib \<Rightarrow> call_sig \<Rightarrow> guard_event list \<Rightarrow> bool" where
  "only_calls lib sg es \<longleftrightarrow>
     (\<forall>tool args. Ev_Before tool args \<in> set es \<longrightarrow> from_call lib tool args = sg)"

definition attempts :: "guard_event list \<Rightarrow> nat" where
  "attempts es = length (filter (\<lambda>e. case e of Ev_Before _ _ \<Rightarrow> True | _ \<Rightarrow> False) es)"

lemma non_before_frame:
  assumes "\<And>tool args. e \<noteq> Ev_Before tool args"
  shows "gs_history (guard_step lib env cfg e s) = gs_history s
    \<and> gs_nudged (guard_step lib env cfg e s) = gs_nudged s"
proof (cases e)
  case (Ev_After tool args r f)
  obtain d s' where a: "after_call lib cfg tool args r f s = (d, s')" by force
  from after_call_frame(1,2) [OF a] a show ?thesis by (simp add: Ev_After)
qed (use assms in \<open>auto simp: set_halt_decision_def\<close>)

lemma doom_history:
  assumes "silent env" and "hard_stop_enabled cfg" and "1 < env_doom_threshold env"
    and "env_doom_threshold env \<le> 16" and "only_calls lib sg es" and "length (gs_history s) \<le> 16"
  shows "gs_history (fold (guard_step lib env cfg) es s)
      = last_n 16 (gs_history s @ replicate (attempts es) sg)
    \<and> (env_soft_nudge env \<longrightarrow> env_doom_threshold env \<le> attempts es \<longrightarrow>
        sg \<in> gs_nudged (fold (guard_step lib env cfg) es s))"
  using assms(5)
proof (induction es rule: rev_induct)
  case Nil
  then show ?case using assms by (simp add: attempts_def)
next
  case (snoc e es)
  let ?t = "env_doom_threshold env" and ?s = "fold (guard_step lib env cfg) es s"
  let ?h = "gs_history s @ replicate (attempts es) sg"
  have IH: "gs_history ?s = last_n 16 ?h"
    "env_soft_nudge env \<Longrightarrow> ?t \<le> attempts es \<Longrightarrow> sg \<in> gs_nudged ?s"
    using snoc by (auto simp: only_calls_def)
  show ?case
  proof (cases "\<exists>tool args. e = Ev_Before tool args")
    case False
    then have "attempts (es @ [e]) = attempts es" by (cases e) (auto simp: attempts_def)
    moreover have "gs_history (guard_step lib env cfg e ?s) = gs_history ?s
      \<and> gs_nudged (guard_step lib env cfg e ?s) = gs_nudged ?s"
      using False by (intro non_before_frame) auto
    ultimately show ?thesis using IH by simp
  next
    case True
    then obtain tool args where e: "e = Ev_Before tool args" by blast
    have att: "attempts (es @ [e]) = Suc (attempts es)" by (simp add: attempts_def e)
    have sg: "from_call lib tool args = sg" using snoc.prems by (auto simp: only_calls_def e)
    obtain d s' where b: "before_call_sig env cfg sg ?s = (d, s')" by force
    have s': "guard_step lib env cfg e ?s = s'" using b by (simp add: e before_call_def sg)
    note bs = before_silent [OF assms(1,2) b]
    have t0: "0 < ?t" using assms(3) by simp
    have hist: "gs_history s' = last_n 16 (?h @ [sg])"
      unfolding bs(1) [OF t0] IH(1) by (rule dq_push_window)
    then have hist': "gs_history s' = last_n 16 (gs_history s @ replicate (Suc (attempts es)) sg)"
      by (simp add: replicate_append_same)
    have "sg \<in> gs_nudged s'" if soft: "env_soft_nudge env" and t: "?t \<le> Suc (attempts es)"
    proof (rule bs(3) [OF t0 soft assms(3)])
      have "last_n ?t (gs_history s') = last_n ?t (gs_history s @ replicate (Suc (attempts es)) sg)"
        unfolding hist' using assms(4) by (rule last_n_last_n)
      also have "\<dots> = replicate ?t sg"
        using t by (rule last_n_append_replicate)
      finally have r: "last_n ?t (gs_history s') = replicate ?t sg" .
      show "?t - 1 \<le> length (last_n ?t (gs_history s'))" "all_same (last_n ?t (gs_history s'))"
        unfolding r by simp_all
    qed
    then show ?thesis using hist' by (simp add: att s')
  qed
qed

text \<open>
  C1: liveness of the doom loop stop: with the loop detectors off, a threshold \<open>t\<close> between 2
  and 16 and mode \<open>block\<close>, after \<open>t\<close> attempts at one and the same call (finished calls may
  come in between) the next attempt is blocked with code \<open>doom_loop\<close> and the turn is halted.
\<close>

theorem doom_loop_blocks:
  assumes "silent env" and "hard_stop_enabled cfg" and "1 < env_doom_threshold env"
    and "env_doom_threshold env \<le> 16" and "doom_loop_mode (env_doom_mode env) \<noteq> ''ask''"
    and "guard_inv s" and "only_calls lib sg es" and "env_doom_threshold env \<le> attempts es"
    and "before_call_sig env cfg sg (fold (guard_step lib env cfg) es s) = (d, s')"
  shows "dec_action d = Block \<and> dec_code d = ''doom_loop'' \<and> gs_halt s' = Some d"
proof -
  let ?t = "env_doom_threshold env" and ?s = "fold (guard_step lib env cfg) es s"
  have len: "length (gs_history s) \<le> 16" using assms(6) by (simp add: guard_inv_def)
  note dh = doom_history [OF assms(1-4,7) len]
  have "dq_push 16 (gs_history ?s) sg = last_n 16 (gs_history s @ replicate (Suc (attempts es)) sg)"
    using dh by (simp add: dq_push_window replicate_append_same)
  then have "last_n ?t (dq_push 16 (gs_history ?s) sg)
      = last_n ?t (gs_history s @ replicate (Suc (attempts es)) sg)"
    using assms(4) by (simp add: last_n_last_n del: replicate_Suc)
  also have "\<dots> = replicate ?t sg" using assms(8) by (intro last_n_append_replicate) simp
  finally have tail: "last_n ?t (dq_push 16 (gs_history ?s) sg) = replicate ?t sg" .
  have "env_soft_nudge env \<longrightarrow> sg \<in> gs_nudged ?s" using dh assms(8) by blast
  with tail assms show ?thesis
    by (auto simp: before_call_sig_def silent_loop_stage doom_stage_def Let_def)
qed

text \<open>A turn that meets the hypotheses: the third of three equal calls at threshold 2.\<close>

definition demo_env :: "string list \<Rightarrow> nat \<Rightarrow> guard_env" where
  "demo_env dets t = \<lparr>env_detectors = dets, env_circuit_limit = 40, env_doom_threshold = t,
     env_doom_mode = ''block'', env_soft_nudge = True\<rparr>"

definition demo_lib :: py_lib where
  "demo_lib = \<lparr>lib_loads = (\<lambda>_. None), lib_dumps = pyrepr, lib_sha256 = (\<lambda>s. s)\<rparr>"

definition demo_sig :: call_sig where
  "demo_sig = from_call demo_lib ''terminal'' (JObj [])"

lemma demo_inv: "guard_inv reset_for_turn"
  by (rule guard.inv_start)

theorem doom_loop_blocks_witness:
  "\<exists>d s'. before_call_sig (demo_env [] 2) default_config demo_sig
      (fold (guard_step demo_lib (demo_env [] 2) default_config)
        [Ev_Before ''terminal'' (JObj []), Ev_Before ''terminal'' (JObj [])] reset_for_turn) = (d, s')
    \<and> dec_action d = Block \<and> dec_code d = ''doom_loop'' \<and> gs_halt s' = Some d"
proof -
  let ?es = "[Ev_Before ''terminal'' (JObj []), Ev_Before ''terminal'' (JObj [])]"
  obtain d s' where b: "before_call_sig (demo_env [] 2) default_config demo_sig
      (fold (guard_step demo_lib (demo_env [] 2) default_config) ?es reset_for_turn) = (d, s')"
    by force
  have m: "doom_loop_mode ''block'' \<noteq> ''ask''" by code_simp
  have "dec_action d = Block \<and> dec_code d = ''doom_loop'' \<and> gs_halt s' = Some d"
    by (rule doom_loop_blocks [OF _ _ _ _ _ demo_inv _ _ b])
      (simp_all add: silent_def demo_env_def default_config_def only_calls_def attempts_def
        demo_sig_def m)
  with b show ?thesis by blast
qed

text \<open>
  the window of the controller holds 16 calls, so with a larger threshold the doom loop
  stop is dead: no attempt is ever answered with a \<open>doom_loop\<close> decision.
\<close>

theorem large_threshold_never_blocks:
  assumes "16 < env_doom_threshold env"
    and "doom_stage env sg s = (d, s')"
  shows "\<forall>x. d = Some x \<longrightarrow> dec_code x = ''doom_loop_soft_nudge'' \<and> allows_execution x"
proof -
  have "length (dq_push 16 (gs_history s) sg) < env_doom_threshold env"
    using length_dq_push [of 16 "gs_history s" sg] assms(1) by linarith
  with assms show ?thesis
    by (auto simp: doom_stage_def Let_def allows_execution_def split: if_splits)
qed

theorem large_threshold_never_blocks_witness:
  "\<exists>d s'. doom_stage (demo_env [] 17) demo_sig
      (reset_for_turn\<lparr>gs_history := replicate 16 demo_sig\<rparr>) = (d, s')
    \<and> (\<forall>x. d = Some x \<longrightarrow> dec_code x = ''doom_loop_soft_nudge'' \<and> allows_execution x)"
proof -
  obtain d s' where ds: "doom_stage (demo_env [] 17) demo_sig
      (reset_for_turn\<lparr>gs_history := replicate 16 demo_sig\<rparr>) = (d, s')" by force
  have "16 < env_doom_threshold (demo_env [] 17)" by (simp add: demo_env_def)
  from large_threshold_never_blocks [OF this ds] ds show ?thesis by blast
qed

section \<open>Warnings of the loop detectors come before the stops\<close>

text \<open>
  finding: a warning of a loop detector ends \<open>before_call\<close> early: the call is allowed
  however often it failed or returned the same result, and the doom loop window does not
  record it.
\<close>

theorem loop_warning_bypasses_stops:
  assumes "loop_check (env_detectors env) (env_circuit_limit env) (sig_tool sg) (gs_loop s) = Some ld"
    and "env_detectors env \<noteq> []" and "ld_stuck ld" and "ld_level ld = Warning_Level"
    and "before_call_sig env cfg sg s = (d, s')"
  shows "allows_execution d \<and> dec_code d = ld_detector ld \<and> gs_history s' = gs_history s
    \<and> gs_halt s' = gs_halt s"
  using assms
  by (auto simp: before_call_sig_def loop_stage_def check_before_call_def allows_execution_def)

text \<open>Four polls with the same result, and a call that has failed 99 times.\<close>

definition stuck_poll_state :: guard_state where
  "stuck_poll_state = reset_for_turn
     \<lparr>gs_exact := [demo_sig\<lparr>sig_tool := ''butler_recall''\<rparr> \<mapsto> 99],
      gs_loop := loop_reset\<lparr>ls_result_fps := replicate 4 (''butler_recall'', ''x'')\<rparr>\<rparr>"

theorem loop_warning_bypasses_stops_witness:
  "\<exists>d s'. before_call_sig (demo_env [''poll''] 3) default_config
        (demo_sig\<lparr>sig_tool := ''butler_recall''\<rparr>) stuck_poll_state = (d, s')
    \<and> exact_count stuck_poll_state (demo_sig\<lparr>sig_tool := ''butler_recall''\<rparr>) = 99
    \<and> allows_execution d"
proof -
  let ?sg = "demo_sig\<lparr>sig_tool := ''butler_recall''\<rparr>"
  obtain d s' where b: "before_call_sig (demo_env [''poll''] 3) default_config ?sg stuck_poll_state = (d, s')"
    by force
  have c: "loop_check [''poll''] 40 ''butler_recall'' (gs_loop stuck_poll_state)
      = Some \<lparr>ld_stuck = True, ld_level = Warning_Level, ld_detector = ''poll'',
              ld_message = Poll_No_Progress_Msg ''butler_recall'', ld_count = 4\<rparr>"
    by (simp add: loop_check_def check_poll_no_progress_def stuck_poll_state_def loop_reset_def
        poll_tools_def numeral_eq_Suc)
  have "allows_execution d"
    using loop_warning_bypasses_stops [of "demo_env [''poll''] 3" ?sg stuck_poll_state _ default_config, OF _ _ _ _ b] c
    by (simp add: demo_env_def)
  with b show ?thesis by (auto simp: exact_count_def stuck_poll_state_def)
qed

section \<open>A critical ping-pong\<close>

lemma loop_check_critical:
  assumes "check_ping_pong l = Some ld" and "ld_level ld = Critical_Level"
    and "''ping_pong'' \<in> set dets"
  shows "\<exists>ld'. loop_check dets limit tool l = Some ld' \<and> ld_stuck ld' \<and> ld_level ld' = Critical_Level"
proof (cases "''circuit'' \<in> set dets \<and> limit \<le> ls_total_calls l")
  case True
  then show ?thesis by (simp add: loop_check_def circuit_open_def)
next
  case False
  then have "loop_check dets limit tool l = Some ld"
    using assms by (auto simp: loop_check_def circuit_open_def)
  with assms(2) check_ping_pong_Some(4) [OF assms(1)] show ?thesis by blast
qed

lemma critical_blocks:
  assumes "loop_check (env_detectors env) (env_circuit_limit env) (sig_tool sg) (gs_loop s) = Some ld"
    and "env_detectors env \<noteq> []" and "ld_stuck ld" and "ld_level ld = Critical_Level"
  shows "dec_action (fst (before_call_sig env cfg sg s)) = Block"
  using assms by (simp add: before_call_sig_def loop_stage_def check_before_call_def Let_def)

text \<open>
  once six recorded calls alternate between two tools, with at most three argument sets
  among them, every further call of any tool is blocked and halts the turn, because attempts
  do not change the recorded calls; only \<open>reset_for_turn\<close> ends it.
\<close>

theorem ping_pong_blocks_every_tool:
  assumes "check_ping_pong (gs_loop s) = Some ld" and "ld_level ld = Critical_Level"
    and "''ping_pong'' \<in> set (env_detectors env)"
  shows "dec_action (fst (before_call_sig env cfg sg
           (fold (\<lambda>x s. snd (before_call_sig env cfg x s)) tries s))) = Block"
proof -
  have data: "loop_data (gs_loop (fold (\<lambda>x s. snd (before_call_sig env cfg x s)) xs s))
      = loop_data (gs_loop s)" for xs
  proof (induction xs arbitrary: s)
    case (Cons x xs)
    obtain d s' where b: "before_call_sig env cfg x s = (d, s')" by force
    from before_call_sig_frame(2) [OF b] Cons.IH [of s'] b show ?case by simp
  qed simp
  let ?s = "fold (\<lambda>x s. snd (before_call_sig env cfg x s)) tries s"
  have "check_ping_pong (gs_loop ?s) = Some ld"
    using check_ping_pong_cong [OF data] assms(1) by simp
  then obtain ld' where "loop_check (env_detectors env) (env_circuit_limit env) (sig_tool sg) (gs_loop ?s)
      = Some ld'" "ld_stuck ld'" "ld_level ld' = Critical_Level"
    using loop_check_critical [OF _ assms(2,3)] by blast
  then show ?thesis by (intro critical_blocks) (use assms(3) in auto)
qed

definition ping_pong_state :: guard_state where
  "ping_pong_state = reset_for_turn\<lparr>gs_loop := loop_reset\<lparr>ls_history :=
     [(''a'', ''1'', []), (''b'', ''2'', []), (''a'', ''1'', []), (''b'', ''2'', []),
      (''a'', ''1'', []), (''b'', ''2'', [])]\<rparr>\<rparr>"

theorem ping_pong_blocks_every_tool_witness:
  "dec_action (fst (before_call_sig (demo_env [''ping_pong''] 3) default_config
       (\<lparr>sig_tool = ''c'', sig_hash = ''9''\<rparr>)
       (fold (\<lambda>x s. snd (before_call_sig (demo_env [''ping_pong''] 3) default_config x s))
          [\<lparr>sig_tool = ''d'', sig_hash = ''8''\<rparr>] ping_pong_state))) = Block"
proof (rule ping_pong_blocks_every_tool)
  let ?ld = "\<lparr>ld_stuck = True, ld_level = Critical_Level, ld_detector = ''ping_pong'',
    ld_message = Ping_Pong_Msg [''a'', ''b''], ld_count = 6\<rparr>"
  show "check_ping_pong (gs_loop ping_pong_state) = Some ?ld"
    by (simp add: check_ping_pong_def recent_calls_def ping_pong_state_def loop_reset_def last_n_def
        reset_for_turn_def)
  show "ld_level ?ld = Critical_Level" by simp
  show "''ping_pong'' \<in> set (env_detectors (demo_env [''ping_pong''] 3))" by (simp add: demo_env_def)
qed

section \<open>Stopping decisions are recorded, streaks of failures halt\<close>

text \<open>
  a tool whose calls failed \<open>same_tool_failure_halt_after - 1\<close> times in a row in the turn
  halts the turn with its next failure, whatever else was called in between.
\<close>

theorem failure_streak_halts:
  assumes "hard_stop_enabled cfg"
    and "same_tool_failure_halt_after cfg \<le> Suc (failure_streak (\<lambda>x. sig_tool x = tool) (turn_log lib es))"
    and "after_call lib cfg tool args r (Some True)
           (fold (guard_step lib env cfg) es reset_for_turn) = (d, s')"
  shows "dec_action d = Halt \<and> gs_halt s' = Some d"
  using assms by (auto simp: after_call_def note_failure_def Let_def run_same_count)

definition seven_failures :: "guard_event list" where
  "seven_failures = replicate 7 (Ev_After ''terminal'' (JObj []) None (Some True))"

theorem failure_streak_halts_witness:
  "\<exists>d s'. after_call demo_lib default_config ''terminal'' (JObj []) None (Some True)
      (fold (guard_step demo_lib (demo_env [] 3) default_config) seven_failures reset_for_turn) = (d, s')
    \<and> dec_action d = Halt \<and> gs_halt s' = Some d"
proof -
  obtain d s' where a: "after_call demo_lib default_config ''terminal'' (JObj []) None (Some True)
      (fold (guard_step demo_lib (demo_env [] 3) default_config) seven_failures reset_for_turn) = (d, s')"
    by force
  have n: "same_tool_failure_halt_after default_config
      \<le> Suc (failure_streak (\<lambda>x. sig_tool x = ''terminal'') (turn_log demo_lib seven_failures))"
    by code_simp
  have "dec_action d = Halt \<and> gs_halt s' = Some d"
    by (rule failure_streak_halts [OF _ n a]) (simp add: default_config_def)
  with a show ?thesis by blast
qed


theorem halt_is_sticky_witness:
  "gs_halt (fold (guard_step demo_lib (demo_env [] 3) default_config)
      [Ev_Before ''terminal'' (JObj []), Ev_After ''terminal'' (JObj []) None None]
      (reset_for_turn\<lparr>gs_halt := Some (allow_decision [] 0)\<rparr>)) \<noteq> None"
proof (rule halt_is_sticky)
  show "guard_inv (reset_for_turn\<lparr>gs_halt := Some (allow_decision [] 0)\<rparr>)"
    using demo_inv by (simp add: guard_inv_def)
  show "gs_halt (reset_for_turn\<lparr>gs_halt := Some (allow_decision [] 0)\<rparr>) \<noteq> None" by simp
qed

theorem allow_is_sound_witness:
  "\<exists>d s'. before_call_sig (demo_env [] 3) default_config demo_sig reset_for_turn = (d, s')
    \<and> dec_action d = Allow \<and> exact_count reset_for_turn demo_sig < 5"
proof -
  obtain d s' where b: "before_call_sig (demo_env [] 3) default_config demo_sig reset_for_turn = (d, s')"
    by force
  then have d: "dec_action d = Allow"
    by (auto simp: before_call_sig_def silent_loop_stage silent_def demo_env_def default_config_def
        doom_stage_def failure_stage_def dq_push_def exact_count_def allow_decision_def
        reset_for_turn_def Let_def split: if_splits option.splits)
  have "exact_count reset_for_turn demo_sig < exact_failure_block_after default_config"
    using allow_is_sound [OF b d] by (simp add: demo_env_def default_config_def)
  with b d show ?thesis by (auto simp: default_config_def)
qed

section \<open>Results of mutating tools\<close>

text \<open>
  a call of a file mutating tool counts as failed exactly when its result lacks the proof
  that the write landed (bytes written, replacements, or the deleted action).
\<close>

theorem mutation_failed_iff_not_landed:
  assumes "tool \<in> set file_mutating_tools" and "lib_loads lib (strip r) = lib_loads lib r"
  shows "fst (classify_tool_failure lib tool (Some r)) \<longleftrightarrow> \<not> file_mutation_result_landed lib tool r"
proof (cases "file_mutation_result_landed lib tool r")
  case True
  then show ?thesis by (simp add: classify_tool_failure_def mutation_classification_hint_def)
next
  case False
  have "\<not> (tool = ''run_shell'' \<or> tool = ''terminal'')" "\<not> prefix ''git_'' tool"
    using assms(1) by (auto simp: file_mutating_tools_def)
  moreover have "error_text r \<or> prefix ''Error'' r \<or>
      (case lib_loads lib r of Some (JObj data) \<Rightarrow> truthy (jget data ''error'') | _ \<Rightarrow> False)"
    if "\<not> mutation_result_not_landed lib tool r"
    using that False assms
    by (auto simp: mutation_result_not_landed_def parse_result_dict_def
        split: if_splits option.splits jval.splits)
  ultimately show ?thesis using False assms(1)
    by (cases "mutation_result_not_landed lib tool r"; cases "lib_loads lib r")
      (auto simp: classify_tool_failure_def mutation_classification_hint_def split: jval.splits)
qed

theorem mutation_failed_iff_not_landed_witness:
  "fst (classify_tool_failure demo_lib ''patch'' (Some ''ok''))
     \<longleftrightarrow> \<not> file_mutation_result_landed demo_lib ''patch'' ''ok''"
  by (rule mutation_failed_iff_not_landed) (simp_all add: file_mutating_tools_def demo_lib_def)

end
