(* ===== verification/Workflow_Steps.thy ===== *)
theory Workflow_Steps
  imports Json_Values
begin

text \<open>
  One step of a workflow: the variable pool that fills its task text
  (\<open>workflows/variables.py\<close>), the assertion on its output
  (\<open>workflows/until_assert.py\<close>, \<open>workflow_step_runner_ops.py\<close>) and the loop that
  spawns agents for it, with retries and rescue agents
  (\<open>workflows/step_runner.py\<close>, data of \<open>task_orchestrator.py\<close>).

  What an agent answers is decided by \<open>spawn\<close>, an argument indexed by the call: a graph
  makes each call at most once, so every such function is one behaviour of the agents,
  and the calls made are returned as a trace.
\<close>

section \<open>Data\<close>

record agent_report =
  rp_headline :: string
  rp_issues :: "string list"
  rp_summary :: string

record agent_result =
  ar_success :: bool
  ar_response :: string
  ar_report :: "agent_report option"
  ar_tokens_used :: int
  ar_iterations :: int
  ar_tool_calls :: int
  ar_elapsed_seconds :: secs
  ar_error :: string
  ar_artifacts :: "string list"

definition mk_result :: "bool \<Rightarrow> string \<Rightarrow> string \<Rightarrow> agent_result" where
  "mk_result ok resp err =
     \<lparr>ar_success = ok, ar_response = resp, ar_report = None, ar_tokens_used = 0, ar_iterations = 0,
      ar_tool_calls = 0, ar_elapsed_seconds = 0, ar_error = err, ar_artifacts = []\<rparr>"

record spawn_config =
  sc_role :: string
  sc_task :: string
  sc_context :: string
  sc_tools :: "string list option"
  sc_model_config :: "(string, jval) dict option"
  sc_max_iterations :: int
  sc_output_format :: string
  sc_project_name :: "string option"
  sc_delegate_depth :: int
  sc_session_key :: string
  sc_clear_child :: bool

definition mk_config :: "string \<Rightarrow> string \<Rightarrow> spawn_config" where
  "mk_config role task =
     \<lparr>sc_role = role, sc_task = task, sc_context = [], sc_tools = None, sc_model_config = None,
      sc_max_iterations = 30, sc_output_format = ''text'', sc_project_name = None,
      sc_delegate_depth = 0, sc_session_key = [], sc_clear_child = False\<rparr>"

text \<open>A router answers the id of a dependent, or nothing, or it raises (the message on the left).\<close>

type_synonym node_router = "agent_result \<Rightarrow> string + string option"

record task_node =
  tn_id :: string
  tn_config :: spawn_config
  tn_depends_on :: "string list"
  tn_router :: "node_router option"
  tn_requires_approval :: bool
  tn_max_retries :: int
  tn_handoff_only :: bool
  tn_clear_child :: bool
  tn_supervisor_note :: string
  tn_optional :: bool
  tn_rescue_configs :: "spawn_config list"
  tn_until :: jval

definition mk_node :: "string \<Rightarrow> spawn_config \<Rightarrow> string list \<Rightarrow> task_node" where
  "mk_node i cfg deps =
     \<lparr>tn_id = i, tn_config = cfg, tn_depends_on = deps, tn_router = None, tn_requires_approval = False,
      tn_max_retries = 1, tn_handoff_only = True, tn_clear_child = False, tn_supervisor_note = [],
      tn_optional = False, tn_rescue_configs = [], tn_until = JNull\<rparr>"

text \<open>
  The functions of the \<open>re\<close> module and of \<open>str\<close> on user supplied patterns and texts.
  \<open>re_search_ids\<close> is \<open>re.search\<close> with \<open>re.I | re.DOTALL\<close>; on the left, the message of the
  exception of a malformed pattern.
\<close>

record re_lib =
  re_search_ids :: "string \<Rightarrow> string \<Rightarrow> string + bool"
  re_search :: "string \<Rightarrow> string \<Rightarrow> bool"
  re_escape :: "string \<Rightarrow> string"
  re_lower :: "string \<Rightarrow> string"

record workflow_env =
  we_optional :: bool
  we_rescue :: bool
  we_max_parallel :: "string option"   \<comment> \<open>\<open>BUTLER_WORKFLOW_MAX_PARALLEL\<close>, when set\<close>
  we_pool :: "(string, string) dict option"
  we_lib :: py_lib
  we_re :: re_lib

section \<open>The variable pool\<close>

definition set_step_output :: "(string, string) dict \<Rightarrow> string \<Rightarrow> string \<Rightarrow> string list option
    \<Rightarrow> (string, string) dict" where
  "set_step_output pool step_id text keys = (let sid = strip step_id in
     if sid = [] then pool
     else let body = utake 4000 (strip text);
              ks = (case keys of Some (k # r) \<Rightarrow> k # r | _ \<Rightarrow> [''output'', ''result'', ''summary''])
       in fold (\<lambda>k p. dset (sid @ ''.'' @ k) body p) ks (dset sid body pool))"

definition pool_get :: "(string, string) dict \<Rightarrow> string \<Rightarrow> string" where
  "pool_get pool ref = (let key = strip ref in
     if key = [] then [] else case dget pool key of Some v \<Rightarrow> v | None \<Rightarrow> [])"

text \<open>The characters of a reference, and one match of the pattern at the front of a text.\<close>

definition is_ref_char :: "string \<Rightarrow> bool" where
  "is_ref_char u \<longleftrightarrow> (case u of
       [c] \<Rightarrow> (let n = (of_char c :: nat) in 97 \<le> n \<and> n \<le> 122 \<or> 65 \<le> n \<and> n \<le> 90 \<or> 48 \<le> n \<and> n \<le> 57 \<or>
                c = CHR ''_'' \<or> c = CHR ''.'' \<or> c = CHR ''-'')
     | _ \<Rightarrow> False)"

definition match_var :: "string list \<Rightarrow> (string \<times> string list) option" where
  "match_var us = (if take 2 us \<noteq> [''{'', ''{''] then None
     else let r = dropWhile is_ws (drop 2 us);
              name = takeWhile is_ref_char r;
              r' = dropWhile is_ws (dropWhile is_ref_char r)
       in if name \<noteq> [] \<and> take 2 r' = [''}'', ''}''] then Some (concat name, drop 2 r') else None)"

lemma match_var_shorter: "match_var us = Some (x, r) \<Longrightarrow> length r < length us"
proof -
  assume m: "match_var us = Some (x, r)"
  then have t: "take 2 us = [''{'', ''{'']" by (auto simp: match_var_def split: if_splits)
  then have "2 \<le> length us" by (metis length_Cons length_take list.size(3) min.absorb_iff2 min_def nat_le_linear numeral_2_eq_2)
  have le: "length (dropWhile P xs) \<le> length xs" for P and xs :: "string list"
    by (rule length_dropWhile_le)
  let ?d = "dropWhile is_ws (dropWhile is_ref_char (dropWhile is_ws (drop 2 us)))"
  have "r = drop 2 ?d" using m t by (auto simp: match_var_def Let_def split: if_splits)
  then have "length r \<le> length ?d" by simp
  also have "\<dots> \<le> length (drop 2 us)" using le order_trans by meson
  also have "\<dots> < length us" using \<open>2 \<le> length us\<close> by simp
  finally show ?thesis .
qed

function subst_vars :: "(string, string) dict \<Rightarrow> string list \<Rightarrow> string" where
  "subst_vars pool [] = []"
| "subst_vars pool (u # us) = (case match_var (u # us) of
       None \<Rightarrow> u @ subst_vars pool us
     | Some (name, rest) \<Rightarrow>
         (let v = pool_get pool name in
          if v \<noteq> [] then v else concat (take (length (u # us) - length rest) (u # us)))
         @ subst_vars pool rest)"
  by pat_completeness auto
termination
  by (relation "measure (length \<circ> snd)") (auto dest: match_var_shorter)

definition interpolate :: "(string, string) dict \<Rightarrow> string \<Rightarrow> string" where
  "interpolate pool template =
     (if \<not> contains ''{{'' template then template else subst_vars pool (cps template))"

definition interpolate_workflow_task :: "workflow_env \<Rightarrow> task_node \<Rightarrow> task_node" where
  "interpolate_workflow_task env n = (case we_pool env of
       None \<Rightarrow> n
     | Some pool \<Rightarrow> n\<lparr>tn_config := (tn_config n)\<lparr>sc_task := interpolate pool (sc_task (tn_config n))\<rparr>\<rparr>)"

section \<open>The assertion on the output of a step\<close>

definition lower_u :: "workflow_env \<Rightarrow> string \<Rightarrow> string" where
  "lower_u env s = re_lower (we_re env) s"

text \<open>The four tests of \<open>evaluate_until\<close>; each answers an error message, or nothing.\<close>

definition until_contains :: "workflow_env \<Rightarrow> (string, jval) dict \<Rightarrow> string \<Rightarrow> string option" where
  "until_contains env spec text = (case jor (jget spec ''output_contains'') (jget spec ''contains'') of
       JStr c \<Rightarrow> if strip c \<noteq> [] \<and> \<not> contains (lower_u env c) (lower_u env text)
                 then Some (''until: output missing substring '' @ pyrepr (JStr c)) else None
     | _ \<Rightarrow> None)"

definition until_regex :: "workflow_env \<Rightarrow> (string, jval) dict \<Rightarrow> string \<Rightarrow> string + string option" where
  "until_regex env spec text = (case jor (jget spec ''output_regex'') (jget spec ''regex'') of
       JStr r \<Rightarrow> if strip r = [] then Inr None
                 else (case re_search_ids (we_re env) r text of
                     Inl exc \<Rightarrow> Inl exc
                   | Inr ok \<Rightarrow> Inr (if ok then None else Some ''until: output regex not matched''))
     | _ \<Rightarrow> Inr None)"

definition rating_patterns :: "workflow_env \<Rightarrow> string \<Rightarrow> string list" where
  "rating_patterns env want = (let w = re_escape (we_re env) want in
     [bytes [92, 98] @ w @ bytes [92, 98],
      bytes [34] @ ''rating'' @ bytes [34, 92] @ ''s*:'' @ bytes [92] @ ''s*'' @ bytes [34] @ w @ bytes [34],
      bytes [34] @ ''decision'' @ bytes [34, 92] @ ''s*:'' @ bytes [92] @ ''s*'' @ bytes [34] @ w @ bytes [34]])"

definition until_rating :: "workflow_env \<Rightarrow> (string, jval) dict \<Rightarrow> string \<Rightarrow> string option" where
  "until_rating env spec text = (case jor (jget spec ''rating'') (jget spec ''decision'') of
       JNull \<Rightarrow> None
     | rating \<Rightarrow>
         (let want = lower_u env (strip (pystr rating));
              found = list_ex (\<lambda>pat. re_search (we_re env) pat (lower_u env text)) (rating_patterns env want)
                \<or> (case lib_loads (we_lib env) text of
                     Some (JObj blob) \<Rightarrow>
                       list_ex (\<lambda>key. lower_u env (case dget blob key of Some v \<Rightarrow> pystr v | None \<Rightarrow> []) = want)
                         [''rating'', ''decision'', ''verdict'']
                   | _ \<Rightarrow> False)
          in if found then None
             else Some (''until: expected rating/decision '' @ pyrepr (JStr want))))"

definition until_min_length :: "(string, jval) dict \<Rightarrow> string \<Rightarrow> string option" where
  "until_min_length spec text = (case int_of_jval (jget spec ''min_length'') of
       Some m \<Rightarrow> if int (ulen (strip text)) < m
                 then Some (''until: output shorter than '' @ pystr (jget spec ''min_length'')) else None
     | None \<Rightarrow> None)"

definition evaluate_until :: "workflow_env \<Rightarrow> string \<Rightarrow> jval \<Rightarrow> string + bool \<times> string" where
  "evaluate_until env text until_spec = (case until_spec of
       JObj spec \<Rightarrow>
         if spec = [] then Inr (True, [])
         else (case until_contains env spec text of
             Some err \<Rightarrow> Inr (False, err)
           | None \<Rightarrow> (case until_regex env spec text of
               Inl exc \<Rightarrow> Inl exc
             | Inr (Some err) \<Rightarrow> Inr (False, err)
             | Inr None \<Rightarrow> (case until_rating env spec text of
                 Some err \<Rightarrow> Inr (False, err)
               | None \<Rightarrow> (case until_min_length spec text of
                   Some err \<Rightarrow> Inr (False, err)
                 | None \<Rightarrow> Inr (True, [])))))
     | _ \<Rightarrow> Inr (True, []))"

definition evaluate_until_assertion :: "workflow_env \<Rightarrow> task_node \<Rightarrow> agent_result \<Rightarrow> agent_result" where
  "evaluate_until_assertion env n r = (case evaluate_until env (ar_response r) (tn_until n) of
       Inr (ok, err) \<Rightarrow>
         if ok then r else mk_result False (ar_response r) (str_or err ''until_assertion_failed'')
     | Inl exc \<Rightarrow> mk_result False (ar_response r) (''until_assertion_error: '' @ exc))"

section \<open>Retries and rescue\<close>

datatype spawn_call = Attempt string nat | Rescue string nat

text \<open>An agent call answers a result, or raises (the message on the left).\<close>

type_synonym spawner = "spawn_call \<Rightarrow> spawn_config \<Rightarrow> string + agent_result"

text \<open>The loop over the attempts; \<open>True\<close> marks an answer returned from inside the loop.\<close>

fun try_attempts :: "workflow_env \<Rightarrow> spawner \<Rightarrow> task_node \<Rightarrow> agent_result \<Rightarrow> nat list
    \<Rightarrow> (string + bool \<times> agent_result) \<times> spawn_call list" where
  "try_attempts env spawn n prev [] = (Inr (False, prev), [])"
| "try_attempts env spawn n prev (k # ks) = (let call = Attempt (tn_id n) k in
     case spawn call (tn_config n) of
       Inl exc \<Rightarrow> (Inl exc, [call])
     | Inr r \<Rightarrow>
         if ar_success r
         then (let checked = evaluate_until_assertion env n r in
               (Inr (True, if \<not> ar_success checked then checked else r), [call]))
         else (let (out, calls) = try_attempts env spawn n r ks in (out, call # calls)))"

definition rescue_id :: "string \<Rightarrow> nat \<Rightarrow> string" where
  "rescue_id i idx = i @ ''__rescue_'' @ str_of_nat idx"

fun rescue_parts :: "spawner \<Rightarrow> string \<Rightarrow> nat \<Rightarrow> spawn_config list
    \<Rightarrow> (string + string list) \<times> spawn_call list" where
  "rescue_parts spawn i idx [] = (Inr [], [])"
| "rescue_parts spawn i idx (cfg # cfgs) = (let call = Rescue i idx in
     case spawn call cfg of
       Inl exc \<Rightarrow> (Inl exc, [call])
     | Inr r \<Rightarrow>
         (let (out, calls) = rescue_parts spawn i (Suc idx) cfgs;
              part = (if ar_response r = [] then []
                      else [''## Rescue ('' @ rescue_id i idx @ '')'' @ nl @ utake 3000 (ar_response r)])
          in (map_sum id (\<lambda>ps. part @ ps) out, call # calls)))"

definition run_rescue_steps :: "workflow_env \<Rightarrow> spawner \<Rightarrow> task_node \<Rightarrow> agent_result
    \<Rightarrow> (string + agent_result) \<times> spawn_call list" where
  "run_rescue_steps env spawn n failed = (if \<not> we_rescue env then (Inr failed, [])
     else let (out, calls) = rescue_parts spawn (tn_id n) 0 (tn_rescue_configs n) in
       (map_sum id (\<lambda>ps.
          let parts = [strip (ar_response failed),
                       strip ((''['' @ bytes [230, 173, 165, 233, 170, 164] @ '' '') @ tn_id n @ ('' '' @ bytes [229, 164, 177, 232, 180, 165] @ ''] '') @ str_or (ar_error failed) ''unknown'')] @ ps;
              merged = join (nl @ nl) (filter (\<lambda>p. p \<noteq> []) parts)
          in \<lparr>ar_success = False, ar_response = merged, ar_report = ar_report failed,
              ar_tokens_used = ar_tokens_used failed, ar_iterations = ar_iterations failed,
              ar_tool_calls = ar_tool_calls failed, ar_elapsed_seconds = ar_elapsed_seconds failed,
              ar_error = str_or (ar_error failed) ''rescue_completed'', ar_artifacts = []\<rparr>) out, calls))"

definition run_step_with_retry :: "workflow_env \<Rightarrow> spawner \<Rightarrow> task_node
    \<Rightarrow> (string + agent_result) \<times> spawn_call list" where
  "run_step_with_retry env spawn n0 = (let n = interpolate_workflow_task env n0;
      (out, calls) = try_attempts env spawn n (mk_result False [] ''No attempts'') [0..<nat (tn_max_retries n)]
    in case out of
       Inl exc \<Rightarrow> (Inl exc, calls)
     | Inr (True, r) \<Rightarrow> (Inr r, calls)
     | Inr (False, r) \<Rightarrow>
         if \<not> ar_success r \<and> tn_rescue_configs n \<noteq> []
         then (let (out', calls') = run_rescue_steps env spawn n r in (out', calls @ calls'))
         else (Inr r, calls))"

section \<open>Lemmas on attempts\<close>

definition attempt_fails :: "spawner \<Rightarrow> task_node \<Rightarrow> nat \<Rightarrow> bool" where
  "attempt_fails spawn n k \<longleftrightarrow>
     (case spawn (Attempt (tn_id n) k) (tn_config n) of Inr r \<Rightarrow> \<not> ar_success r | Inl _ \<Rightarrow> False)"

definition attempt_passes :: "workflow_env \<Rightarrow> spawner \<Rightarrow> task_node \<Rightarrow> nat \<Rightarrow> bool" where
  "attempt_passes env spawn n k \<longleftrightarrow>
     (case spawn (Attempt (tn_id n) k) (tn_config n) of
        Inr r \<Rightarrow> ar_success r \<and> ar_success (evaluate_until_assertion env n r) | Inl _ \<Rightarrow> False)"

lemma rescue_parts_calls:
  "snd (rescue_parts spawn i idx cfgs) = map (Rescue i) [idx..<idx + length (snd (rescue_parts spawn i idx cfgs))]
   \<and> length (snd (rescue_parts spawn i idx cfgs)) \<le> length cfgs"
proof (induction cfgs arbitrary: idx)
  case (Cons c cs)
  obtain q calls where rc: "rescue_parts spawn i (Suc idx) cs = (q, calls)" by fastforce
  from Cons.IH [of "Suc idx"] rc
  have c: "calls = map (Rescue i) [Suc idx..<Suc idx + length calls]" "length calls \<le> length cs" by auto
  show ?case
  proof (cases "spawn (Rescue i idx) c")
    case (Inr r)
    with rc c show ?thesis by (simp add: Let_def upt_conv_Cons del: upt_Suc)
  qed simp
qed simp

lemma try_attempts_calls:
  "snd (try_attempts env spawn n prev [a..<b])
     = map (Attempt (tn_id n)) [a..<a + length (snd (try_attempts env spawn n prev [a..<b]))]
   \<and> length (snd (try_attempts env spawn n prev [a..<b])) \<le> b - a"
proof (induction "b - a" arbitrary: a prev)
  case (Suc d)
  then have ab: "[a..<b] = a # [Suc a..<b]" by (simp add: upt_conv_Cons)
  show ?case
  proof (cases "spawn (Attempt (tn_id n) a) (tn_config n)")
    case (Inr r)
    show ?thesis
    proof (cases "ar_success r")
      case False
      obtain q calls where rc: "try_attempts env spawn n r [Suc a..<b] = (q, calls)" by fastforce
      have "d = b - Suc a" using Suc.hyps(2) by simp
      from Suc.hyps(1) [OF this, of r] rc
      have c: "calls = map (Attempt (tn_id n)) [Suc a..<Suc a + length calls]" "length calls \<le> b - Suc a"
        by auto
      with Inr False rc c Suc.hyps(2) show ?thesis
        by (simp add: ab Let_def upt_conv_Cons del: upt_Suc)
    qed (use Inr ab Suc.hyps(2) in \<open>simp add: Let_def\<close>)
  qed (use ab Suc.hyps(2) in \<open>simp add: Let_def\<close>)
qed simp

text \<open>A successful answer leaves the loop from inside, after failures only.\<close>

lemma try_attempts_success:
  "\<not> ar_success prev \<Longrightarrow>
   (\<exists>e r. fst (try_attempts env spawn n prev [a..<b]) = Inr (e, r) \<and> ar_success r) \<longleftrightarrow>
   (\<exists>k. a \<le> k \<and> k < b \<and> (\<forall>j. a \<le> j \<and> j < k \<longrightarrow> attempt_fails spawn n j) \<and> attempt_passes env spawn n k)"
proof (induction "b - a" arbitrary: a prev)
  case (Suc d)
  then have ab: "[a..<b] = a # [Suc a..<b]" "a < b" by (simp_all add: upt_conv_Cons)
  let ?ok = "\<lambda>a. \<exists>k. a \<le> k \<and> k < b \<and> (\<forall>j. a \<le> j \<and> j < k \<longrightarrow> attempt_fails spawn n j) \<and> attempt_passes env spawn n k"
  have step: "?ok a \<longleftrightarrow> attempt_passes env spawn n a \<or> attempt_fails spawn n a \<and> ?ok (Suc a)"
  proof
    assume "?ok a"
    then obtain k where k: "a \<le> k" "k < b" "\<forall>j. a \<le> j \<and> j < k \<longrightarrow> attempt_fails spawn n j"
      "attempt_passes env spawn n k" by auto
    show "attempt_passes env spawn n a \<or> attempt_fails spawn n a \<and> ?ok (Suc a)"
    proof (cases "k = a")
      case False
      with k show ?thesis by (auto intro!: exI [of _ k])
    qed (use k in simp)
  next
    assume "attempt_passes env spawn n a \<or> attempt_fails spawn n a \<and> ?ok (Suc a)"
    then show "?ok a"
    proof
      assume "attempt_passes env spawn n a"
      then show ?thesis using ab(2) by (intro exI [of _ a]) auto
    next
      assume f: "attempt_fails spawn n a \<and> ?ok (Suc a)"
      then obtain k where k: "Suc a \<le> k" "k < b" "\<forall>j. Suc a \<le> j \<and> j < k \<longrightarrow> attempt_fails spawn n j"
        "attempt_passes env spawn n k" by auto
      have "attempt_fails spawn n j" if "a \<le> j" "j < k" for j
        using that f k(3) by (cases "j = a") auto
      with k show ?thesis by (intro exI [of _ k]) auto
    qed
  qed
  show ?case
  proof (cases "spawn (Attempt (tn_id n) a) (tn_config n)")
    case (Inl e)
    then show ?thesis unfolding step by (simp add: ab Let_def attempt_passes_def attempt_fails_def)
  next
    case (Inr r)
    show ?thesis
    proof (cases "ar_success r")
      case True
      with Inr show ?thesis unfolding step
        by (simp add: ab Let_def attempt_passes_def attempt_fails_def ex_bool_eq)
    next
      case False
      have d: "d = b - Suc a" using Suc.hyps(2) by simp
      from Suc.hyps(1) [OF d False] Inr False show ?thesis unfolding step
        by (simp add: ab Let_def attempt_passes_def attempt_fails_def case_prod_beta)
    qed
  qed
qed auto

lemma try_attempts_last:
  "\<not> ar_success prev \<Longrightarrow> fst (try_attempts env spawn n prev ks) = Inr (False, r) \<Longrightarrow> \<not> ar_success r"
  by (induction env spawn n prev ks rule: try_attempts.induct)
    (auto simp: Let_def case_prod_beta split: sum.splits if_splits)

lemma run_rescue_never_succeeds:
  "\<not> ar_success failed \<Longrightarrow> fst (run_rescue_steps env spawn n failed) = Inr r \<Longrightarrow> \<not> ar_success r"
  by (cases "fst (rescue_parts spawn (tn_id n) 0 (tn_rescue_configs n))")
    (auto simp: run_rescue_steps_def case_prod_beta Let_def split: if_splits)

lemma interpolate_task_fields [simp]:
  "tn_id (interpolate_workflow_task env n) = tn_id n"
  "tn_max_retries (interpolate_workflow_task env n) = tn_max_retries n"
  "tn_rescue_configs (interpolate_workflow_task env n) = tn_rescue_configs n"
  "tn_until (interpolate_workflow_task env n) = tn_until n"
  "tn_depends_on (interpolate_workflow_task env n) = tn_depends_on n"
  "tn_router (interpolate_workflow_task env n) = tn_router n"
  by (simp_all add: interpolate_workflow_task_def split: option.splits)

lemma no_attempts_fails [simp]: "\<not> ar_success (mk_result False a b)"
  by (simp add: mk_result_def)

text \<open>A step, in terms of the result of its loop.\<close>

definition after_attempts :: "workflow_env \<Rightarrow> spawner \<Rightarrow> task_node
    \<Rightarrow> (string + bool \<times> agent_result) \<times> spawn_call list \<Rightarrow> (string + agent_result) \<times> spawn_call list" where
  "after_attempts env spawn n t = (case t of
       (Inl exc, calls) \<Rightarrow> (Inl exc, calls)
     | (Inr (e, r), calls) \<Rightarrow>
         if e \<or> ar_success r \<or> tn_rescue_configs n = [] then (Inr r, calls)
         else (fst (run_rescue_steps env spawn n r), calls @ snd (run_rescue_steps env spawn n r)))"

lemma run_step_eq:
  "run_step_with_retry env spawn n = after_attempts env spawn (interpolate_workflow_task env n)
     (try_attempts env spawn (interpolate_workflow_task env n) (mk_result False [] ''No attempts'')
        [0..<nat (tn_max_retries n)])"
  by (auto simp: run_step_with_retry_def after_attempts_def Let_def case_prod_beta
      split: prod.splits sum.splits bool.splits)

lemma after_attempts_success:
  assumes "\<And>r. fst t = Inr (False, r) \<Longrightarrow> \<not> ar_success r"
  shows "(\<exists>r. fst (after_attempts env spawn n t) = Inr r \<and> ar_success r) \<longleftrightarrow>
         (\<exists>e r. fst t = Inr (e, r) \<and> ar_success r)"
proof (cases t)
  case (Pair q calls)
  show ?thesis
  proof (cases q)
    case (Inr er)
    obtain e r where er: "er = (e, r)" by fastforce
    show ?thesis
    proof (cases e)
      case False
      have "\<not> ar_success r" using assms Pair Inr er False by simp
      then show ?thesis using run_rescue_never_succeeds [of r env spawn n]
        by (auto simp: after_attempts_def Pair Inr er False)
    qed (auto simp: after_attempts_def Pair Inr er)
  qed (simp add: after_attempts_def Pair)
qed

lemma run_rescue_calls:
  "\<exists>l \<le> length (tn_rescue_configs n). snd (run_rescue_steps env spawn n f) = map (Rescue (tn_id n)) [0..<l]"
  using rescue_parts_calls [of spawn "tn_id n" 0 "tn_rescue_configs n"]
  by (auto simp: run_rescue_steps_def case_prod_beta Let_def)

lemma after_attempts_calls:
  "\<exists>l \<le> length (tn_rescue_configs n).
     snd (after_attempts env spawn n t) = snd t @ map (Rescue (tn_id n)) [0..<l]"
proof (cases t)
  case (Pair q calls)
  show ?thesis
  proof (cases q)
    case (Inr er)
    obtain e r where er: "er = (e, r)" by fastforce
    show ?thesis using run_rescue_calls [of n env spawn r]
      by (auto simp: after_attempts_def Pair Inr er)
  qed (simp add: after_attempts_def Pair)
qed

text \<open>
  a workflow step ends in success exactly when one of its \<open>max_retries\<close> attempts succeeds,
  every earlier attempt failed, and the answer meets the \<open>until\<close> assertion; the rescue
  agents never turn a failure into a success, and a failed assertion is not retried.
\<close>

theorem step_succeeds_iff:
  "(\<exists>r. fst (run_step_with_retry env spawn n) = Inr r \<and> ar_success r) \<longleftrightarrow>
   (\<exists>k < nat (tn_max_retries n).
      (\<forall>j < k. attempt_fails spawn (interpolate_workflow_task env n) j) \<and>
      attempt_passes env spawn (interpolate_workflow_task env n) k)"
  unfolding run_step_eq
  by (subst after_attempts_success) (auto dest: try_attempts_last [rotated] simp: try_attempts_success)

lemma run_step_calls:
  "distinct (snd (run_step_with_retry env spawn n)) \<and>
   set (snd (run_step_with_retry env spawn n)) \<subseteq>
     Attempt (tn_id n) ` {..<nat (tn_max_retries n)} \<union>
     Rescue (tn_id n) ` {..<length (tn_rescue_configs n)}"
proof -
  define m where "m = interpolate_workflow_task env n"
  define t where "t = try_attempts env spawn m (mk_result False [] ''No attempts'') [0..<nat (tn_max_retries n)]"
  have c: "snd t = map (Attempt (tn_id n)) [0..<length (snd t)]" "length (snd t) \<le> nat (tn_max_retries n)"
    using try_attempts_calls [of env spawn m "mk_result False [] ''No attempts''" 0 "nat (tn_max_retries n)"]
    by (simp_all flip: t_def) (simp add: m_def)
  obtain l where l: "l \<le> length (tn_rescue_configs n)"
    "snd (run_step_with_retry env spawn n) = map (Attempt (tn_id n)) [0..<length (snd t)] @ map (Rescue (tn_id n)) [0..<l]"
    using after_attempts_calls [of m env spawn t] c(1) unfolding run_step_eq
    by (auto simp: m_def t_def)
  show ?thesis unfolding l(2) using l(1) c(2) by (auto simp: distinct_map inj_on_def)
qed
text \<open>A text of reference characters.\<close>

text \<open>
  one run of a step makes each agent call at most once, at most \<open>max_retries\<close> attempts
  and one call per rescue agent.
\<close>

theorem step_calls:
  "distinct (snd (run_step_with_retry env spawn n)) \<and>
   set (snd (run_step_with_retry env spawn n)) \<subseteq>
     Attempt (tn_id n) ` {..<nat (tn_max_retries n)} \<union>
     Rescue (tn_id n) ` {..<length (tn_rescue_configs n)}"
  by (rule run_step_calls)

definition is_ref :: "string \<Rightarrow> bool" where
  "is_ref s \<longleftrightarrow> s \<noteq> [] \<and> list_all is_ref_char (cps s)"

lemma is_ref_char_not_ws: "is_ref_char u \<Longrightarrow> \<not> is_ws u"
proof -
  assume "is_ref_char u"
  then obtain c where u: "u = [c]" "is_ref_char [c]"
    by (auto simp: is_ref_char_def split: list.splits)
  have "is_ref_char [c] \<longrightarrow> \<not> is_ws [c]"
    by (cases "of_char c :: nat" rule: nat.exhaust) (auto simp: is_ref_char_def is_ws_def ws_codes_def Let_def)
  with u show ?thesis by simp
qed

lemma strip_is_ref: "is_ref s \<Longrightarrow> strip s = s"
proof -
  assume r: "is_ref s"
  then have w: "\<not> is_ws u" if "u \<in> set (cps s)" for u
    using that is_ref_char_not_ws by (auto simp: is_ref_def list_all_iff)
  have ne: "cps s \<noteq> []" using r by (simp add: is_ref_def)
  have "dropWhile is_ws (cps s) = cps s" using w ne by (intro dropWhile_hd) simp
  moreover have "dropWhile is_ws (rev (cps s)) = rev (cps s)"
    using w ne by (intro dropWhile_hd) (simp add: hd_rev)
  ultimately show ?thesis by (simp add: strip_def)
qed

lemma match_var_found:
  assumes "list_all is_ref_char names" "names \<noteq> []"
  shows "match_var ([''{'', ''{'', '' ''] @ names @ ['' '', ''}'', ''}''] @ rest) = Some (concat names, rest)"
proof -
  have n: "\<not> is_ws (hd names)" "\<And>u. u \<in> set names \<Longrightarrow> is_ref_char u"
    using assms is_ref_char_not_ws by (auto simp: list_all_iff)
  have ws: "is_ws '' ''" "\<not> is_ws ''}''" "\<not> is_ref_char '' ''"
    by code_simp+
  have "dropWhile is_ws (names @ ['' '', ''}'', ''}''] @ rest) = names @ ['' '', ''}'', ''}''] @ rest"
    using assms(2) n(1) by (intro dropWhile_hd) (simp add: hd_append)
  moreover have "takeWhile is_ref_char (names @ ['' '', ''}'', ''}''] @ rest) = names"
    "dropWhile is_ref_char (names @ ['' '', ''}'', ''}''] @ rest) = ['' '', ''}'', ''}''] @ rest"
    using n(2) ws by (simp_all add: takeWhile_append2 dropWhile_append2)
  ultimately show ?thesis using assms(2) ws by (simp add: match_var_def Let_def)
qed

lemma subst_vars_plain:
  "''{'' \<notin> set us \<Longrightarrow> subst_vars pool (us @ vs) = concat us @ subst_vars pool vs"
proof (induction us)
  case (Cons u us)
  have "match_var (u # us @ vs) = None" using Cons.prems by (auto simp: match_var_def)
  with Cons show ?case by simp
qed simp

lemma fold_dset_get:
  "dget (fold (\<lambda>k p. dset (g k) b p) ks pool) x = (if x \<in> g ` set ks then Some b else dget pool x)"
  by (induction ks arbitrary: pool) auto

text \<open>
  round trip of the variable pool: once a step has stored its output, a later task text
  that refers to \<open>{{ step.output }}\<close> has the reference replaced by that output (trimmed,
  cut at 4000 characters), the text before it unchanged, and the rest is processed in turn.
\<close>

theorem interpolate_step_output:
  assumes "is_ref sid" and "CHR ''{'' \<notin> set pre" and "lead_text post" and "strip out \<noteq> []"
  shows "interpolate (set_step_output pool sid out None) (pre @ ''{{ '' @ sid @ ''.output }}'' @ post) =
         pre @ utake 4000 (strip out) @ subst_vars (set_step_output pool sid out None) (cps post)"
proof -
  define pool' where "pool' = set_step_output pool sid out None"
  let ?ref = "sid @ ''.output''" and ?v = "utake 4000 (strip out)"
  have nc: "\<not> is_cont CHR ''{''" "\<not> is_cont CHR ''}''" "\<not> is_cont CHR '' ''" "\<not> is_cont CHR ''.''"
    by code_simp+
  have hd: "\<not> is_cont (hd sid)"
  proof -
    obtain c s where c: "sid = c # s" using assms(1) by (cases sid) (auto simp: is_ref_def)
    with assms(1) have r: "is_ref_char (c # takeWhile is_cont s)" by (simp add: is_ref_def)
    have "is_ref_char [c] \<longrightarrow> \<not> is_cont c"
      by (auto simp: is_ref_char_def is_cont_def Let_def)
    moreover have "takeWhile is_cont s = []"
      using r by (auto simp: is_ref_char_def split: list.splits)
    ultimately show ?thesis using r c by simp
  qed
  have refs: "list_all is_ref_char (cps ''.output'')" by code_simp
  have cref: "cps ?ref = cps sid @ cps ''.output''"
    by (rule cps_append) (simp add: lead_text_def nc)
  have ref: "is_ref ?ref" using assms(1) refs cref by (simp add: is_ref_def)
  have vne: "?v \<noteq> []"
  proof -
    obtain u us where "cps (strip out) = u # us" using assms(4) by (cases "cps (strip out)") auto
    moreover have "u \<noteq> []" using enc_list_cps [of "strip out"] calculation
      by (simp add: enc_list_def enc_char_def)
    ultimately show ?thesis by (simp add: utake_def)
  qed
  have sid: "strip sid = sid" "sid \<noteq> []" using assms(1) strip_is_ref by (auto simp: is_ref_def)
  have get: "pool_get pool' ?ref = ?v"
    by (auto simp: pool_get_def pool'_def set_step_output_def Let_def strip_is_ref [OF ref] sid fold_dset_get)
  have tail: "cps (''{{ '' @ ?ref @ '' }}'' @ post)
      = [''{'', ''{'', '' ''] @ cps ?ref @ ['' '', ''}'', ''}''] @ cps post"
  proof -
    have p: "cps ('' }}'' @ post) = ['' '', ''}'', ''}''] @ cps post"
      using assms(3) nc by (cases post) (simp_all add: lead_text_def)
    have "cps (?ref @ '' }}'' @ post) = cps ?ref @ cps ('' }}'' @ post)"
      by (rule cps_append) (simp add: lead_text_def nc)
    moreover have "lead_text (?ref @ '' }}'' @ post)" using hd sid(2) by (simp add: lead_text_def)
    ultimately show ?thesis using nc p
      by (simp add: cps_ascii_cons lead_text_while del: cps.simps)
  qed
  have whole: "cps (pre @ ''{{ '' @ ?ref @ '' }}'' @ post) = cps pre @ cps (''{{ '' @ ?ref @ '' }}'' @ post)"
    by (rule cps_append) (simp add: lead_text_def nc)
  have "''{'' \<notin> set (cps pre)" using assms(2) set_cps_sub by fastforce
  then have "subst_vars pool' (cps (pre @ ''{{ '' @ ?ref @ '' }}'' @ post))
      = pre @ subst_vars pool' ([''{'', ''{'', '' ''] @ cps ?ref @ ['' '', ''}'', ''}''] @ cps post)"
    unfolding whole tail by (simp add: subst_vars_plain)
  also have "\<dots> = pre @ ?v @ subst_vars pool' (cps post)"
    using match_var_found [of "cps ?ref" "cps post"] ref get vne
    by (simp add: is_ref_def)
  finally have s: "subst_vars pool' (cps (pre @ ''{{ '' @ ?ref @ '' }}'' @ post))
      = pre @ ?v @ subst_vars pool' (cps post)" .
  have "contains ''{{'' (pre @ ''{{'' @ ('' '' @ ?ref @ '' }}'' @ post))" by (rule contains_mid)
  then show ?thesis using s by (simp add: interpolate_def pool'_def)
qed

section \<open>Concrete inputs\<close>

definition demo_we :: workflow_env where
  "demo_we = \<lparr>we_optional = True, we_rescue = True, we_max_parallel = None, we_pool = None,
     we_lib = \<lparr>lib_loads = (\<lambda>_. None), lib_dumps = (\<lambda>_. []), lib_sha256 = id\<rparr>,
     we_re = \<lparr>re_search_ids = (\<lambda>p t. Inr (contains p t)), re_search = contains, re_escape = id,
              re_lower = lower\<rparr>\<rparr>"

definition demo_step :: task_node where
  "demo_step = (mk_node ''build'' (mk_config ''dev'' ''compile'') [])\<lparr>tn_max_retries := 2,
     tn_until := JObj [(''contains'', JStr ''OK''), (''min_length'', JInt 3)]\<rparr>"

text \<open>The first attempt of every step fails, the others answer.\<close>

definition demo_spawn :: spawner where
  "demo_spawn call cfg = (case call of
       Attempt i k \<Rightarrow> if k = 0 then Inr (mk_result False [] ''timeout'') else Inr (mk_result True ''all OK'' [])
     | Rescue i k \<Rightarrow> Inr (mk_result True ''looked at it'' []))"

lemma demo_step_attempts:
  "attempt_fails demo_spawn (interpolate_workflow_task demo_we demo_step) 0"
  "attempt_passes demo_we demo_spawn (interpolate_workflow_task demo_we demo_step) 1"
  by code_simp+

theorem step_succeeds_iff_witness:
  "\<exists>r. fst (run_step_with_retry demo_we demo_spawn demo_step) = Inr r \<and> ar_success r"
  by (rule step_succeeds_iff [THEN iffD2], rule exI [of _ 1])
    (use demo_step_attempts in \<open>simp add: demo_step_def less_Suc_eq\<close>)

theorem interpolate_step_output_witness:
  "interpolate (set_step_output [] ''build'' '' all OK '' None) (''Read '' @ ''{{ '' @ ''build'' @ ''.output }}'' @ ''!'')
     = ''Read '' @ utake 4000 (strip '' all OK '')
       @ subst_vars (set_step_output [] ''build'' '' all OK '' None) (cps ''!'')"
proof (rule interpolate_step_output)
  show "is_ref ''build''" by (simp add: is_ref_def) code_simp
  show "lead_text ''!''" by code_simp
  show "strip '' all OK '' \<noteq> []" by code_simp
qed code_simp

end
