(* ===== verification/Dag_Scheduler.thy ===== *)
theory Dag_Scheduler
  imports Workflow_Steps
begin

text \<open>
  The topology of a task graph (\<open>dag_scheduler.py\<close>): Kahn's ordering, the layers that run
  in parallel, the context a node inherits from its dependencies, and what skips, routes and
  cancels nodes; with the hand-over block of \<open>core/handoff.py\<close>.
\<close>

section \<open>Ordering\<close>

text \<open>The loops that build \<open>graph\<close> and \<open>in_degree\<close>.\<close>

fun add_edges :: "string \<Rightarrow> string list \<Rightarrow> (string, string list) dict \<times> (string, int) dict
    \<Rightarrow> (string, string list) dict \<times> (string, int) dict" where
  "add_edges i [] gd = gd"
| "add_edges i (dep # deps) (g, d) = add_edges i deps (case dget g dep of
       Some ns \<Rightarrow> (dset dep (ns @ [i]) g, dset i ((case dget d i of Some k \<Rightarrow> k | None \<Rightarrow> 0) + 1) d)
     | None \<Rightarrow> (g, d))"

definition build_graph :: "task_node list \<Rightarrow> (string, string list) dict \<times> (string, int) dict" where
  "build_graph nodes = fold (\<lambda>n gd. add_edges (tn_id n) (tn_depends_on n) gd) nodes
     (fold (\<lambda>n g. dset (tn_id n) [] g) nodes [], fold (\<lambda>n d. dset (tn_id n) 0 d) nodes [])"

text \<open>
  The inner loop, over the dependents of the node taken from the queue.  Every dependent has
  an entry in \<open>in_degree\<close>, so the lookup never raises.
\<close>

fun relax :: "string list \<Rightarrow> (string, int) dict \<times> string list \<Rightarrow> (string, int) dict \<times> string list" where
  "relax [] s = s"
| "relax (v # vs) (d, queue) = (let k = (case dget d v of Some k \<Rightarrow> k | None \<Rightarrow> 0) - 1 in
     relax vs (dset v k d, if k = 0 then queue @ [v] else queue))"

definition open_count :: "(string, int) dict \<Rightarrow> nat" where
  "open_count d = length (filter (\<lambda>v. case dget d v of Some k \<Rightarrow> 0 < k | None \<Rightarrow> False) (remdups (dkeys d)))"

lemma open_count_card: "open_count d = card {v. \<exists>k > 0. dget d v = Some k}"
proof -
  have "{v. \<exists>k > 0. dget d v = Some k}
      = set (filter (\<lambda>v. case dget d v of Some k \<Rightarrow> 0 < k | None \<Rightarrow> False) (remdups (dkeys d)))"
    by (force split: option.splits dest: map_of_SomeD)
  then show ?thesis
    by (simp only: open_count_def) (rule distinct_card [symmetric], simp)
qed

lemma finite_open: "finite {v. \<exists>k > 0. dget d v = Some (k :: int)}"
  by (rule finite_subset [of _ "dom (map_of d)"]) (auto simp: finite_dom_map_of)

text \<open>Every node that enters the queue leaves the set of nodes with open dependencies.\<close>

lemma relax_measure:
  "relax vs (d, q) = (d', q') \<Longrightarrow> open_count d' + length q' \<le> open_count d + length q"
proof (induction vs arbitrary: d q)
  case (Cons v vs)
  define k where "k = (case dget d v of Some k \<Rightarrow> k | None \<Rightarrow> 0) - 1"
  define q1 where "q1 = (if k = 0 then q @ [v] else q)"
  let ?O = "\<lambda>d. {v. \<exists>k > 0. dget d v = Some (k :: int)}"
  have "open_count d' + length q' \<le> open_count (dset v k d) + length q1"
    using Cons by (simp add: Let_def k_def q1_def)
  also have "\<dots> \<le> open_count d + length q"
  proof (cases "k = 0")
    case True
    then have v: "dget d v = Some 1" by (auto simp: k_def split: option.splits)
    have "?O (dset v k d) \<subseteq> ?O d - {v}" using True by auto
    moreover have "v \<in> ?O d" using v by simp
    ultimately have "card (?O (dset v k d)) < card (?O d)"
      by (intro psubset_card_mono finite_open) blast
    then show ?thesis using True by (simp add: open_count_card q1_def)
  next
    case False
    have "?O (dset v k d) \<subseteq> ?O d" by (auto simp: k_def split: if_splits option.splits)
    then have "card (?O (dset v k d)) \<le> card (?O d)" by (intro card_mono finite_open)
    then show ?thesis using False by (simp add: open_count_card q1_def)
  qed
  finally show ?case .
qed simp

text \<open>The outer loop, until the queue is empty.\<close>

function kahn :: "(string, string list) dict \<Rightarrow> (string, int) dict \<Rightarrow> string list \<Rightarrow> string list \<Rightarrow> string list" where
  "kahn g d [] result = result"
| "kahn g d (nid # queue) result = (case relax (case dget g nid of Some ns \<Rightarrow> ns | None \<Rightarrow> []) (d, queue) of
     (d', queue') \<Rightarrow> kahn g d' queue' (result @ [nid]))"
  by pat_completeness auto
termination
  by (relation "measure (\<lambda>(g, d, q, r). open_count d + length q)")
    (auto dest!: relax_measure [OF sym])

text \<open>The ids without open dependencies, in the order of the dictionary.\<close>

definition topological_sort :: "task_node list \<Rightarrow> string + string list" where
  "topological_sort nodes = (let (g, d) = build_graph nodes;
       queue = map fst (filter (\<lambda>(i, deg). deg = 0) d);
       result = kahn g d queue []
     in if length result \<noteq> length nodes then Inl ''Task graph contains a cycle'' else Inr result)"

section \<open>Layers\<close>

definition node_depth :: "(string, task_node) dict \<Rightarrow> (string, nat) dict \<Rightarrow> string \<Rightarrow> nat" where
  "node_depth node_map depth nid = (case dget node_map nid of
       None \<Rightarrow> 0
     | Some n \<Rightarrow>
         if tn_depends_on n = [] then 0
         else Max (set (map (\<lambda>d. case dget depth d of Some k \<Rightarrow> k | None \<Rightarrow> 0) (tn_depends_on n))) + 1)"

definition depths :: "(string, task_node) dict \<Rightarrow> string list \<Rightarrow> (string, nat) dict" where
  "depths node_map order = fold (\<lambda>nid depth. dset nid (node_depth node_map depth nid) depth) order []"

definition group_into_layers :: "string list \<Rightarrow> (string, task_node) dict \<Rightarrow> string list list" where
  "group_into_layers order node_map = (let depth = depths node_map order;
       max_depth = (if depth = [] then 0 else Max (set (map snd depth)));
       layers = map (\<lambda>k. filter (\<lambda>nid. dget depth nid = Some k) order) [0..<Suc max_depth]
     in filter (\<lambda>layer. layer \<noteq> []) layers)"

section \<open>Dependencies\<close>

fun first_cancelled_dependency :: "string list \<Rightarrow> string set \<Rightarrow> string" where
  "first_cancelled_dependency [] cancelled = []"
| "first_cancelled_dependency (dep # deps) cancelled =
     (if dep \<in> cancelled then dep else first_cancelled_dependency deps cancelled)"

definition direct_dependents :: "(string, task_node) dict \<Rightarrow> string \<Rightarrow> task_node list" where
  "direct_dependents node_map parent = filter (\<lambda>n. parent \<in> set (tn_depends_on n)) (map snd node_map)"

definition cancel_direct_dependents :: "(string, task_node) dict \<Rightarrow> string \<Rightarrow> string set \<Rightarrow> string set" where
  "cancel_direct_dependents node_map parent cancelled =
     cancelled \<union> set (map tn_id (direct_dependents node_map parent))"

text \<open>\<open>workflow_optional_enabled() and dep_node is not None and dep_node.optional\<close>.\<close>

definition is_optional :: "workflow_env \<Rightarrow> (string, task_node) dict \<Rightarrow> string \<Rightarrow> bool" where
  "is_optional env node_map i \<longleftrightarrow>
     we_optional env \<and> (case dget node_map i of Some n \<Rightarrow> tn_optional n | None \<Rightarrow> False)"

fun first_failed_dependency :: "workflow_env \<Rightarrow> string list \<Rightarrow> (string, agent_result) dict
    \<Rightarrow> (string, task_node) dict \<Rightarrow> string" where
  "first_failed_dependency env [] completed node_map = []"
| "first_failed_dependency env (dep # deps) completed node_map = (case dget completed dep of
       Some r \<Rightarrow>
         if \<not> ar_success r \<and> \<not> is_optional env node_map dep then dep
         else first_failed_dependency env deps completed node_map
     | None \<Rightarrow> first_failed_dependency env deps completed node_map)"

definition graph_all_required_ok :: "workflow_env \<Rightarrow> (string, agent_result) dict
    \<Rightarrow> (string, task_node) dict \<Rightarrow> bool" where
  "graph_all_required_ok env completed node_map \<longleftrightarrow>
     list_all (\<lambda>(nid, r). ar_success r \<or> is_optional env node_map nid) completed"

section \<open>Context\<close>

definition report_summary :: "agent_report \<Rightarrow> string" where
  "report_summary rep = strip (join '' '' (filter (\<lambda>p. p \<noteq> [])
     ([rp_headline rep] @ (if rp_issues rep \<noteq> [] then [''issues='' @ str_of_nat (length (rp_issues rep))] else []))))"

text \<open>\<open>render_handoff_block\<close> with the arguments the scheduler passes.\<close>

definition render_handoff_block :: "string \<Rightarrow> string \<Rightarrow> string \<Rightarrow> string \<Rightarrow> agent_report \<Rightarrow> string" where
  "render_handoff_block from_role to_role current_state deliverable rep = join nl (
     [''## Handoff''] @
     (if from_role \<noteq> [] \<or> to_role \<noteq> []
      then [(''- '' @ bytes [228, 186, 164, 230, 142, 165] @ '': '') @ str_or from_role ''?'' @ ('' '' @ bytes [226, 134, 146] @ '' '') @ str_or to_role ''?''] else []) @
     (if strip current_state \<noteq> [] then [(''- '' @ bytes [229, 183, 178, 229, 174, 140, 230, 136, 144] @ '': '') @ utake 400 (strip current_state)] else []) @
     (if strip deliverable \<noteq> [] then [(''- '' @ bytes [228, 186, 164, 228, 187, 152, 231, 137, 169] @ '': '') @ utake 300 (strip deliverable)] else []) @
     (if report_summary rep \<noteq> [] then [(''- '' @ bytes [228, 184, 138, 228, 184, 128, 230, 173, 165, 230, 145, 152, 232, 166, 129] @ '': '') @ utake 400 (report_summary rep)] else []))"

definition format_dependency_context :: "string \<Rightarrow> agent_result \<Rightarrow> bool \<Rightarrow> string" where
  "format_dependency_context dep r handoff_only = (case ar_report r of
       Some rep \<Rightarrow>
         if handoff_only
         then render_handoff_block dep [] (utake 400 (str_or (rp_summary rep) (ar_response r)))
                (str_or (rp_headline rep) dep) rep
         else (let text = strip (str_or (ar_response r) (ar_error r)) in
               if text = [] then [] else ''['' @ dep @ ('' '' @ bytes [231, 187, 147, 230, 158, 156] @ '']: '') @ utake 1500 text)
     | None \<Rightarrow> (let text = strip (str_or (ar_response r) (ar_error r)) in
               if text = [] then [] else ''['' @ dep @ ('' '' @ bytes [231, 187, 147, 230, 158, 156] @ '']: '') @ utake 1500 text))"

definition set_context :: "string \<Rightarrow> task_node \<Rightarrow> task_node" where
  "set_context c n = n\<lparr>tn_config := (tn_config n)\<lparr>sc_context := c\<rparr>\<rparr>"

definition inject_dependency_context :: "(string, agent_result) dict \<Rightarrow> task_node \<Rightarrow> task_node" where
  "inject_dependency_context completed n = (let blocks = filter (\<lambda>b. b \<noteq> [])
       (concat (map (\<lambda>dep. case dget completed dep of
            None \<Rightarrow> [] | Some r \<Rightarrow> [format_dependency_context dep r (tn_handoff_only n)]) (tn_depends_on n)))
     in if blocks = [] then n
        else set_context (sc_context (tn_config n) @ nl @ nl @ join nl blocks) n)"

definition inject_supervisor_note :: "task_node \<Rightarrow> task_node" where
  "inject_supervisor_note n = (if strip (tn_supervisor_note n) = [] then n
     else set_context (strip (sc_context (tn_config n) @ nl @ nl @
            (''## Supervisor '' @ bytes [230, 140, 135, 228, 187, 164, 10]) @ utake 600 (strip (tn_supervisor_note n)))) n)"

section \<open>Preparing a node, batches, routing\<close>

type_synonym approver = "(task_node \<Rightarrow> bool) option"

text \<open>The skip result, or nothing when the node is ready, with the node as it is afterwards.\<close>

definition prepare_layer_node :: "workflow_env \<Rightarrow> approver \<Rightarrow> (string, task_node) dict
    \<Rightarrow> (string, agent_result) dict \<Rightarrow> string set \<Rightarrow> task_node \<Rightarrow> agent_result option \<times> task_node" where
  "prepare_layer_node env on_approval node_map completed cancelled n =
    (let c = first_cancelled_dependency (tn_depends_on n) cancelled in
     if c \<noteq> [] then (Some (mk_result False [] (''Skipped due to cancelled dependency: '' @ c)), n)
     else let f = first_failed_dependency env (tn_depends_on n) completed node_map in
     if f \<noteq> [] then (Some (mk_result False [] (''Skipped due to failed dependency: '' @ f)), n)
     else let n' = inject_supervisor_note (inject_dependency_context completed n) in
     if tn_requires_approval n' \<and> (case on_approval of None \<Rightarrow> True | Some ask \<Rightarrow> \<not> ask n')
     then (Some (mk_result False [] ''workflow_step_approval_pending''), n')
     else (None, n'))"

function chunks :: "nat \<Rightarrow> 'a list \<Rightarrow> 'a list list" where
  "chunks k xs = (if xs = [] \<or> k = 0 then [] else take k xs # chunks k (drop k xs))"
  by pat_completeness auto
termination by (relation "measure (length \<circ> snd)") auto

declare chunks.simps [simp del]

definition split_layer_batches :: "'a list \<Rightarrow> bool \<Rightarrow> int option \<Rightarrow> 'a list list" where
  "split_layer_batches tasks serial max_parallel = (if serial then map (\<lambda>t. [t]) tasks
     else case max_parallel of
       Some m \<Rightarrow> if 0 < m then chunks (nat m) tasks else [tasks]
     | None \<Rightarrow> [tasks])"

text \<open>\<open>(str(next_id) if next_id else None, None)\<close>, or \<open>(None, str(exc))\<close>.\<close>

definition run_node_router_safe :: "node_router \<Rightarrow> agent_result \<Rightarrow> string option \<times> string option" where
  "run_node_router_safe router r = (case router r of
       Inr (Some i) \<Rightarrow> (if i \<noteq> [] then Some i else None, None)
     | Inr None \<Rightarrow> (None, None)
     | Inl exc \<Rightarrow> (None, Some exc))"

definition apply_node_router :: "(string, task_node) dict \<Rightarrow> string \<Rightarrow> task_node \<Rightarrow> agent_result
    \<Rightarrow> string set \<Rightarrow> string list \<times> string set" where
  "apply_node_router node_map nid n r cancelled = (case tn_router n of
       None \<Rightarrow> ([], cancelled)
     | Some router \<Rightarrow>
       if \<not> ar_success r then ([], cancelled)
       else (let q = pyrepr (JStr nid) in case run_node_router_safe router r of
           (next_id, err) \<Rightarrow>
             if err \<noteq> None \<and> err \<noteq> Some []
             then ([''Router for '' @ q @ '' failed: '' @ the err], cancel_direct_dependents node_map nid cancelled)
             else (case next_id of
                 None \<Rightarrow> ([], cancelled)
               | Some nx \<Rightarrow>
                   if nx \<notin> set (dkeys node_map)
                   then ([''Router for '' @ q @ '' returned unknown target '' @ pyrepr (JStr nx)],
                         cancel_direct_dependents node_map nid cancelled)
                   else let deps = map tn_id (direct_dependents node_map nid) in
                   if nx \<notin> set deps
                   then ([''Router for '' @ q @ '' returned non-direct dependent '' @ pyrepr (JStr nx)],
                         cancel_direct_dependents node_map nid cancelled)
                   else ([], cancelled \<union> set (filter (\<lambda>i. i \<noteq> nx) deps)))))"

definition finalize_node :: "(string, task_node) dict \<Rightarrow> string set \<Rightarrow> string
    \<Rightarrow> (string, agent_result) dict \<times> string list \<Rightarrow> (string, agent_result) dict \<times> string list" where
  "finalize_node node_map cancelled nid st = (case st of (completed, errors) \<Rightarrow>
     if nid \<in> set (dkeys completed) \<or> nid \<in> cancelled then (completed, errors)
     else let c = (case dget node_map nid of
              Some n \<Rightarrow> first_cancelled_dependency (tn_depends_on n) cancelled | None \<Rightarrow> []) in
       if c \<noteq> [] then (dset nid (mk_result False [] (''Skipped due to cancelled dependency: '' @ c)) completed, errors)
       else (completed, errors @ [''Node '' @ pyrepr (JStr nid) @ '' was not executed'']))"

definition finalize_unexecuted_nodes :: "(string, task_node) dict \<Rightarrow> string set \<Rightarrow> string list
    \<Rightarrow> (string, agent_result) dict \<times> string list \<Rightarrow> (string, agent_result) dict \<times> string list" where
  "finalize_unexecuted_nodes node_map cancelled order st = fold (finalize_node node_map cancelled) order st"

end
