(* ===== verification/Dag_Topology.thy ===== *)
theory Dag_Topology
  imports Dag_Scheduler "HOL-Library.Multiset"
begin

text \<open>
  What \<open>topological_sort\<close> and \<open>group_into_layers\<close> compute: the order lists every node once,
  after its dependencies; it exists exactly when the ids are distinct and the dependencies
  have no cycle; the layers partition the order and each node is in a later layer than every
  node it depends on.
\<close>

section \<open>The dependency relation\<close>

definition node_ids :: "task_node list \<Rightarrow> string set" where
  "node_ids nodes = set (map tn_id nodes)"

definition edges_of :: "string set \<Rightarrow> task_node list \<Rightarrow> (string \<times> string) list" where
  "edges_of ids nodes = concat (map (\<lambda>n. map (\<lambda>dep. (dep, tn_id n)) (filter (\<lambda>dep. dep \<in> ids) (tn_depends_on n))) nodes)"

definition dep_rel :: "task_node list \<Rightarrow> (string \<times> string) set" where
  "dep_rel nodes = set (edges_of (node_ids nodes) nodes)"

lemma in_dep_rel:
  "(dep, i) \<in> dep_rel nodes \<longleftrightarrow>
     (\<exists>n \<in> set nodes. tn_id n = i \<and> dep \<in> set (tn_depends_on n)) \<and> dep \<in> node_ids nodes"
  by (auto simp: dep_rel_def edges_of_def)

lemma dep_rel_ids: "(dep, i) \<in> dep_rel nodes \<Longrightarrow> dep \<in> node_ids nodes \<and> i \<in> node_ids nodes"
  by (auto simp: in_dep_rel node_ids_def)

definition succs :: "(string \<times> string) list \<Rightarrow> string \<Rightarrow> string list" where
  "succs E u = map snd (filter (\<lambda>e. fst e = u) E)"

definition pend :: "(string \<times> string) list \<Rightarrow> string set \<Rightarrow> string \<Rightarrow> nat" where
  "pend E R v = length (filter (\<lambda>e. snd e = v \<and> fst e \<notin> R) E)"

lemma succs_append: "succs (E @ F) u = succs E u @ succs F u"
  by (simp add: succs_def)

lemma pend_append: "pend (E @ F) R v = pend E R v + pend F R v"
  by (simp add: pend_def)

lemma count_succs: "count_list (succs E x) v = length (filter (\<lambda>e. fst e = x \<and> snd e = v) E)"
  by (induction E) (auto simp: succs_def)

lemma pend_split: "x \<notin> R \<Longrightarrow> pend E R v = pend E (insert x R) v + count_list (succs E x) v"
  by (induction E) (auto simp: pend_def succs_def)

lemma pend_zero: "pend E R v = 0 \<longleftrightarrow> (\<forall>u. (u, v) \<in> set E \<longrightarrow> u \<in> R)"
  by (force simp: pend_def filter_empty_conv)

section \<open>Building the graph\<close>

definition built :: "string set \<Rightarrow> (string \<times> string) list
    \<Rightarrow> (string, string list) dict \<times> (string, int) dict \<Rightarrow> bool" where
  "built ids E gd \<longleftrightarrow> (\<forall>v. dget (fst gd) v = (if v \<in> ids then Some (succs E v) else None)) \<and>
     (\<forall>v. dget (snd gd) v = (if v \<in> ids then Some (int (pend E {} v)) else None)) \<and> dwf (snd gd)"

lemma built_start:
  "built (set is) [] (fold (\<lambda>i g. dset i [] g) is [], fold (\<lambda>i d. dset i 0 d) is [])"
proof -
  have g: "dget (fold (\<lambda>i g. dset i x g) is g0) v = (if v \<in> set is then Some x else dget g0 v)"
    for x and g0 :: "(string, 'a) dict" and v
    by (induction "is" arbitrary: g0) auto
  have w: "dwf d0 \<Longrightarrow> dwf (fold (\<lambda>i d. dset i (0 :: int) d) is d0)" for d0
    by (induction "is" arbitrary: d0) auto
  have g': "dget (fold (\<lambda>i g. dset i x g) is g0) v = (if v \<in> set is then Some x else dget g0 v)"
    for x :: int and g0 v
    by (induction "is" arbitrary: g0) auto
  have g'': "dget (fold (\<lambda>i g. dset i x g) is g0) v = (if v \<in> set is then Some x else dget g0 v)"
    for x :: "string list" and g0 v
    by (induction "is" arbitrary: g0) auto
  show ?thesis by (simp add: built_def g' g'' w succs_def pend_def)
qed

lemma built_add_edges:
  "built ids E gd \<Longrightarrow> i \<in> ids \<Longrightarrow>
   built ids (E @ map (\<lambda>dep. (dep, i)) (filter (\<lambda>dep. dep \<in> ids) deps)) (add_edges i deps gd)"
proof (induction deps arbitrary: E gd)
  case (Cons dep deps)
  obtain g d where gd: "gd = (g, d)" by fastforce
  show ?case
  proof (cases "dep \<in> ids")
    case True
    have "dget g dep = Some (succs E dep)" "dget d i = Some (int (pend E {} i))"
      using Cons.prems True by (simp_all add: built_def gd)
    moreover have "built ids (E @ [(dep, i)]) (dset dep (succs E dep @ [i]) g, dset i (int (pend E {} i) + 1) d)"
      using Cons.prems True by (auto simp: built_def gd succs_append pend_append) (auto simp: succs_def pend_def)
    ultimately show ?thesis using Cons.IH [OF _ Cons.prems(2)] True by (fastforce simp: gd)
  next
    case False
    then have "dget g dep = None" using Cons.prems by (simp add: built_def gd)
    then show ?thesis using Cons False by (simp add: gd)
  qed
qed simp

lemma built_fold:
  "built ids E gd \<Longrightarrow> node_ids nodes \<subseteq> ids \<Longrightarrow>
   built ids (E @ edges_of ids nodes) (fold (\<lambda>n gd. add_edges (tn_id n) (tn_depends_on n) gd) nodes gd)"
proof (induction nodes arbitrary: E gd)
  case (Cons n nodes)
  have "built ids (E @ map (\<lambda>dep. (dep, tn_id n)) (filter (\<lambda>dep. dep \<in> ids) (tn_depends_on n)))
      (add_edges (tn_id n) (tn_depends_on n) gd)"
    using Cons.prems by (intro built_add_edges) (auto simp: node_ids_def)
  from Cons.IH [OF this] Cons.prems(2) show ?case by (simp add: node_ids_def edges_of_def)
qed (simp add: edges_of_def)

lemma build_graph_built:
  "built (node_ids nodes) (edges_of (node_ids nodes) nodes) (build_graph nodes)"
proof -
  have "built (node_ids nodes) [] (fold (\<lambda>n g. dset (tn_id n) [] g) nodes [], fold (\<lambda>n d. dset (tn_id n) 0 d) nodes [])"
    using built_start [of "map tn_id nodes"] by (simp add: fold_map comp_def node_ids_def)
  from built_fold [OF this, of nodes] show ?thesis by (simp add: build_graph_def)
qed

section \<open>Kahn's loop\<close>

lemma relax_result:
  assumes "\<And>v. v \<in> set ns \<Longrightarrow> \<exists>k \<ge> count_list ns v. dget d v = Some (int k)"
  shows "\<exists>d' new. relax ns (d, q) = (d', q @ new) \<and> distinct new \<and>
      set new = {v \<in> set ns. dget d v = Some (int (count_list ns v))} \<and>
      (\<forall>v. dget d' v = map_option (\<lambda>k. k - int (count_list ns v)) (dget d v))"
  using assms
proof (induction ns arbitrary: d q)
  case Nil
  then show ?case by (simp add: option.map_ident)
next
  case (Cons v vs)
  obtain k where k: "count_list (v # vs) v \<le> k" "dget d v = Some (int k)"
    using Cons.prems [of v] by auto
  define d1 where "d1 = dset v (int k - 1) d"
  define q1 where "q1 = (if int k - 1 = 0 then q @ [v] else q)"
  have pre: "\<exists>k \<ge> count_list vs u. dget d1 u = Some (int k)" if "u \<in> set vs" for u
  proof (cases "u = v")
    case True
    then show ?thesis using k by (intro exI [of _ "k - 1"]) (auto simp: d1_def)
  qed (use Cons.prems [of u] that in \<open>auto simp: d1_def\<close>)
  obtain d' new where r: "relax vs (d1, q1) = (d', q1 @ new)" "distinct new"
    "set new = {u \<in> set vs. dget d1 u = Some (int (count_list vs u))}"
    "\<And>u. dget d' u = map_option (\<lambda>k. k - int (count_list vs u)) (dget d1 u)"
    using Cons.IH [OF pre] by blast
  let ?new = "(if k = 1 then [v] else []) @ new"
  have "relax (v # vs) (d, q) = (d', q @ ?new)"
    using r(1) k(2) by (auto simp: d1_def q1_def Let_def split: if_splits)
  moreover have vnew: "v \<notin> set new" if "k = 1"
    using that k r(3) by (auto simp: count_list_0_iff)
  then have "distinct ?new" using r(2) by simp
  moreover have "set ?new = {u \<in> set (v # vs). dget d u = Some (int (count_list (v # vs) u))}"
  proof -
    have "v \<in> set ?new \<longleftrightarrow> k = Suc (count_list vs v)"
    proof (cases "v \<in> set vs")
      case True
      then have "count_list vs v \<noteq> 0" by (simp add: count_list_0_iff)
      with True r(3) k show ?thesis by (auto simp: d1_def)
    next
      case False
      then have "count_list vs v = 0" by (simp add: count_list_0_iff)
      with False r(3) show ?thesis by auto
    qed
    moreover have "u \<in> set ?new \<longleftrightarrow> u \<in> set vs \<and> dget d u = Some (int (count_list vs u))" if "u \<noteq> v" for u
      using that r(3) by (auto simp: d1_def)
    ultimately show ?thesis using k(2) by auto
  qed
  moreover have "dget d' u = map_option (\<lambda>k. k - int (count_list (v # vs) u)) (dget d u)" for u
    using r(4) [of u] k(2) by (auto simp: d1_def)
  ultimately show ?case by blast
qed

definition deps_first :: "(string \<times> string) set \<Rightarrow> string list \<Rightarrow> bool" where
  "deps_first R xs \<longleftrightarrow> (\<forall>ps v qs. xs = ps @ v # qs \<longrightarrow> (\<forall>u. (u, v) \<in> R \<longrightarrow> u \<in> set ps))"

lemma deps_first_Nil [simp]: "deps_first R []"
  by (simp add: deps_first_def)

lemma deps_first_snoc: "deps_first R (xs @ [x]) \<longleftrightarrow> deps_first R xs \<and> (\<forall>u. (u, x) \<in> R \<longrightarrow> u \<in> set xs)"
proof
  assume r: "deps_first R (xs @ [x])"
  have "deps_first R xs" unfolding deps_first_def
  proof (intro allI impI)
    fix ps v qs u
    assume "xs = ps @ v # qs" "(u, v) \<in> R"
    then show "u \<in> set ps" using r unfolding deps_first_def by (metis append_Cons append_assoc)
  qed
  with r show "deps_first R xs \<and> (\<forall>u. (u, x) \<in> R \<longrightarrow> u \<in> set xs)" unfolding deps_first_def by blast
next
  assume r: "deps_first R xs \<and> (\<forall>u. (u, x) \<in> R \<longrightarrow> u \<in> set xs)"
  show "deps_first R (xs @ [x])" unfolding deps_first_def
  proof (intro allI impI)
    fix ps v qs u
    assume e: "xs @ [x] = ps @ v # qs" and uv: "(u, v) \<in> R"
    show "u \<in> set ps"
    proof (cases qs rule: rev_cases)
      case Nil
      with e r uv show ?thesis by simp
    next
      case (snoc qs' b)
      with e have "xs = ps @ v # qs'" by (metis append_Cons append_assoc butlast_snoc)
      with r uv show ?thesis unfolding deps_first_def by blast
    qed
  qed
qed

definition kahn_inv :: "string set \<Rightarrow> (string \<times> string) list \<Rightarrow> (string, int) dict \<Rightarrow> string list
    \<Rightarrow> string list \<Rightarrow> bool" where
  "kahn_inv ids E d q res \<longleftrightarrow>
     (\<forall>v. dget d v = (if v \<in> ids then Some (int (pend E (set res) v)) else None)) \<and>
     distinct (res @ q) \<and> set (res @ q) = {v \<in> ids. pend E (set res) v = 0} \<and> deps_first (set E) res"

lemma kahn_inv_step:
  assumes inv: "kahn_inv ids E d (x # q) res" and E: "set E \<subseteq> ids \<times> ids"
    and r: "relax (succs E x) (d, q) = (d', q')"
  shows "kahn_inv ids E d' q' (res @ [x])"
proof -
  have d: "\<And>v. dget d v = (if v \<in> ids then Some (int (pend E (set res) v)) else None)"
    and dist: "distinct (res @ x # q)" and s: "set (res @ x # q) = {v \<in> ids. pend E (set res) v = 0}"
    and resp: "deps_first (set E) res"
    using inv by (auto simp: kahn_inv_def)
  have x: "x \<notin> set res" "x \<in> ids" "pend E (set res) x = 0" using dist s by auto
  have sp: "pend E (set res) v = pend E (insert x (set res)) v + count_list (succs E x) v" for v
    using x(1) by (rule pend_split)
  have ns: "v \<in> ids" "pend E (set res) v \<noteq> 0" if "v \<in> set (succs E x)" for v
    using that E x(1) pend_zero [of E "set res" v] by (auto simp: succs_def)
  have "\<exists>k \<ge> count_list (succs E x) v. dget d v = Some (int k)" if "v \<in> set (succs E x)" for v
    using ns(1) [OF that] sp [of v] d [of v] by (intro exI [of _ "pend E (set res) v"]) simp
  from relax_result [OF this, of q] r obtain new where
    q': "q' = q @ new" and new: "distinct new"
      "set new = {v \<in> set (succs E x). dget d v = Some (int (count_list (succs E x) v))}"
    and d': "\<And>v. dget d' v = map_option (\<lambda>k. k - int (count_list (succs E x) v)) (dget d v)"
    by auto
  have newset: "set new = {v \<in> set (succs E x). pend E (insert x (set res)) v = 0}"
    unfolding new(2) using ns(1) sp d by auto
  have one: "dget d' v = (if v \<in> ids then Some (int (pend E (insert x (set res)) v)) else None)" for v
    unfolding d' d using sp [of v] by simp
  have "v \<notin> set (res @ x # q)" if "v \<in> set new" for v
    using that ns(2) [of v] s newset by auto
  then have disj: "set new \<inter> set (res @ x # q) = {}" by blast
  have two: "distinct ((res @ [x]) @ q')" using dist new(1) disj by (auto simp: q')
  have "v \<in> set (res @ x # q) \<or> v \<in> set new \<longleftrightarrow> v \<in> ids \<and> pend E (insert x (set res)) v = 0" for v
  proof (cases "v \<in> set (succs E x)")
    case True
    then show ?thesis using ns [OF True] s newset by auto
  next
    case False
    then have "count_list (succs E x) v = 0" by (simp add: count_list_0_iff)
    then show ?thesis using sp [of v] s newset False by auto
  qed
  then have three: "set ((res @ [x]) @ q') = {v \<in> ids. pend E (set (res @ [x])) v = 0}"
    by (auto simp: q')
  have four: "deps_first (set E) (res @ [x])"
    using resp x(3) by (auto simp: deps_first_snoc pend_zero)
  show ?thesis unfolding kahn_inv_def using one two three four by simp
qed

lemma kahn_result:
  "kahn_inv ids E d q res \<Longrightarrow> set E \<subseteq> ids \<times> ids \<Longrightarrow>
   (\<And>v. v \<in> ids \<Longrightarrow> dget g v = Some (succs E v)) \<Longrightarrow> \<exists>d'. kahn_inv ids E d' [] (kahn g d q res)"
proof (induction g d q res rule: kahn.induct)
  case (2 g d nid queue result)
  have "nid \<in> ids" using "2.prems"(1) by (auto simp: kahn_inv_def)
  then have g: "dget g nid = Some (succs E nid)" using "2.prems"(3) by blast
  obtain d' queue' where r: "relax (succs E nid) (d, queue) = (d', queue')" by fastforce
  have "kahn_inv ids E d' queue' (result @ [nid])"
    by (rule kahn_inv_step [OF "2.prems"(1,2) r])
  with "2.IH" "2.prems"(2,3) show ?case by (simp add: g r)
qed auto

section \<open>The order\<close>

definition topo_result :: "task_node list \<Rightarrow> string list \<Rightarrow> bool" where
  "topo_result nodes result \<longleftrightarrow>
     topological_sort nodes = (if length result \<noteq> length nodes then Inl ''Task graph contains a cycle'' else Inr result) \<and>
     distinct result \<and> set result \<subseteq> node_ids nodes \<and> deps_first (dep_rel nodes) result \<and>
     (\<forall>v \<in> node_ids nodes. (\<forall>u. (u, v) \<in> dep_rel nodes \<longrightarrow> u \<in> set result) \<longrightarrow> v \<in> set result)"

lemma topological_result: "\<exists>result. topo_result nodes result"
proof -
  define ids where "ids = node_ids nodes"
  define E where "E = edges_of ids nodes"
  obtain g d where gd: "build_graph nodes = (g, d)" by fastforce
  have b: "built ids E (g, d)" using build_graph_built [of nodes] by (simp add: gd ids_def E_def)
  define queue where "queue = map fst (filter (\<lambda>(i, deg). deg = 0) d)"
  have E: "set E \<subseteq> ids \<times> ids"
    using dep_rel_ids [of _ _ nodes] by (auto simp: dep_rel_def E_def ids_def)
  have dd: "distinct (map fst d)" and dv: "\<And>v. dget d v = (if v \<in> ids then Some (int (pend E {} v)) else None)"
    using b by (auto simp: built_def dwf_def)
  have "set queue = {v. dget d v = Some 0}"
    using dd by (force simp: queue_def map_of_eq_Some_iff)
  moreover have "distinct queue" using dd by (simp add: queue_def distinct_map_filter)
  ultimately have "kahn_inv ids E d queue []" using dv by (auto simp: kahn_inv_def split: if_splits)
  moreover have "\<And>v. v \<in> ids \<Longrightarrow> dget g v = Some (succs E v)" using b by (simp add: built_def)
  ultimately obtain d' where k: "kahn_inv ids E d' [] (kahn g d queue [])"
    using kahn_result E by blast
  let ?r = "kahn g d queue []"
  have "topological_sort nodes = (if length ?r \<noteq> length nodes
      then Inl ''Task graph contains a cycle'' else Inr ?r)"
    by (simp add: topological_sort_def gd queue_def Let_def)
  moreover have "distinct ?r" "set ?r \<subseteq> ids" "deps_first (set E) ?r"
    using k by (auto simp: kahn_inv_def)
  moreover have "v \<in> set ?r" if "v \<in> ids" "\<forall>u. (u, v) \<in> set E \<longrightarrow> u \<in> set ?r" for v
    using k that pend_zero [of E "set ?r" v] by (auto simp: kahn_inv_def)
  ultimately have "topo_result nodes ?r"
    by (simp add: topo_result_def ids_def E_def dep_rel_def)
  then show ?thesis ..
qed

lemma topo_resultD:
  assumes "topo_result nodes result"
  shows "topological_sort nodes = (if length result \<noteq> length nodes
      then Inl ''Task graph contains a cycle'' else Inr result)"
    "distinct result" "set result \<subseteq> node_ids nodes" "deps_first (dep_rel nodes) result"
    "v \<in> node_ids nodes \<Longrightarrow> (\<And>u. (u, v) \<in> dep_rel nodes \<Longrightarrow> u \<in> set result) \<Longrightarrow> v \<in> set result"
proof -
  note t = assms [unfolded topo_result_def]
  from t show "topological_sort nodes = (if length result \<noteq> length nodes
      then Inl ''Task graph contains a cycle'' else Inr result)" by (rule conjunct1)
  from t show "distinct result" by (elim conjE)
  from t show "set result \<subseteq> node_ids nodes" by (elim conjE)
  from t show "deps_first (dep_rel nodes) result" by (elim conjE)
  assume "v \<in> node_ids nodes" "\<And>u. (u, v) \<in> dep_rel nodes \<Longrightarrow> u \<in> set result"
  with t show "v \<in> set result" by blast
qed

lemma topological_sort_result:
  assumes "topological_sort nodes = Inr order"
  shows "topo_result nodes order" and "length order = length nodes"
proof -
  obtain result where r: "topo_result nodes result" using topological_result ..
  note t = topo_resultD(1) [OF r]
  have "length result = length nodes \<and> result = order"
    using t assms by (cases "length result = length nodes") simp_all
  with r show "topo_result nodes order" "length order = length nodes" by auto
qed

lemma topological_sort_order:
  assumes "topological_sort nodes = Inr order"
  shows "distinct order" "set order = node_ids nodes" "deps_first (dep_rel nodes) order"
    "distinct (map tn_id nodes)"
proof -
  note r = topological_sort_result [OF assms]
  show d: "distinct order" "deps_first (dep_rel nodes) order"
    by (rule topo_resultD(2) [OF r(1)], rule topo_resultD(4) [OF r(1)])
  note sub = topo_resultD(3) [OF r(1)]
  have l: "card (set order) = length nodes" using d r(2) by (simp add: distinct_card)
  have "card (node_ids nodes) \<le> length nodes"
    using card_length [of "map tn_id nodes"] by (simp add: node_ids_def)
  then show eq: "set order = node_ids nodes"
    using sub l by (intro card_seteq) (simp_all add: node_ids_def)
  have "card (set (map tn_id nodes)) = length (map tn_id nodes)"
    using eq l by (simp add: node_ids_def)
  then show "distinct (map tn_id nodes)" by (rule card_distinct)
qed

lemma deps_first_acyclic:
  assumes "distinct xs" "deps_first R xs" "\<And>u v. (u, v) \<in> R \<Longrightarrow> v \<in> set xs"
  shows "acyclic R"
proof -
  define pos where "pos v = length (takeWhile (\<lambda>w. w \<noteq> v) xs)" for v
  have dec: "pos u < pos v" if uv: "(u, v) \<in> R" for u v
  proof -
    obtain ps qs where xs: "xs = ps @ v # qs" using assms(3) [OF uv] by (meson split_list)
    have va: "v \<notin> set ps" using assms(1) xs by auto
    have ua: "u \<in> set ps" using assms(2) xs uv unfolding deps_first_def by blast
    then have "length (takeWhile (\<lambda>w. w \<noteq> u) ps) < length ps"
      by (induction ps) auto
    moreover have "takeWhile (\<lambda>w. w \<noteq> u) xs = takeWhile (\<lambda>w. w \<noteq> u) ps"
      unfolding xs using ua by (intro takeWhile_append1) auto
    moreover have "takeWhile (\<lambda>w. w \<noteq> v) xs = ps"
      unfolding xs using va by (simp add: takeWhile_append)
    ultimately show ?thesis by (simp add: pos_def)
  qed
  have "R \<subseteq> measure pos" using dec by auto
  then show ?thesis using wf_acyclic wf_measure wf_subset by blast
qed

text \<open>
  \<open>topological_sort\<close> answers an order that lists every node id exactly once, and
  lists it after every node of the graph it depends on (dependencies on ids outside the
  graph are ignored).
\<close>

theorem topological_sort_sound:
  assumes "topological_sort nodes = Inr order"
  shows "distinct order \<and> set order = set (map tn_id nodes) \<and>
    (\<forall>ps v qs. order = ps @ v # qs \<longrightarrow>
      (\<forall>n \<in> set nodes. tn_id n = v \<longrightarrow> set (tn_depends_on n) \<inter> set order \<subseteq> set ps))"
proof -
  note t = topological_sort_order [OF assms]
  have "dep \<in> set ps"
    if "order = ps @ v # qs" "n \<in> set nodes" "tn_id n = v" "dep \<in> set (tn_depends_on n)" "dep \<in> set order"
    for ps v qs n dep
  proof -
    have "(dep, v) \<in> dep_rel nodes" using that t(2) by (auto simp: in_dep_rel)
    with t(3) that(1) show ?thesis unfolding deps_first_def by blast
  qed
  then have "\<forall>ps v qs. order = ps @ v # qs \<longrightarrow>
      (\<forall>n \<in> set nodes. tn_id n = v \<longrightarrow> set (tn_depends_on n) \<inter> set order \<subseteq> set ps)"
    by (intro allI impI ballI subsetI) (metis IntE)
  with t(1,2) show ?thesis by (simp add: node_ids_def)
qed

lemma topological_sort_succeeds:
  "(\<exists>order. topological_sort nodes = Inr order) \<longleftrightarrow> distinct (map tn_id nodes) \<and> acyclic (dep_rel nodes)"
proof
  assume "\<exists>order. topological_sort nodes = Inr order"
  then obtain order where o: "topological_sort nodes = Inr order" ..
  note t = topological_sort_order [OF o]
  have "acyclic (dep_rel nodes)"
    using deps_first_acyclic [OF t(1) t(3)] t(2) dep_rel_ids by blast
  with t(4) show "distinct (map tn_id nodes) \<and> acyclic (dep_rel nodes)" by blast
next
  assume a: "distinct (map tn_id nodes) \<and> acyclic (dep_rel nodes)"
  obtain result where r: "topo_result nodes result" using topological_result ..
  have "finite (dep_rel nodes)" by (simp add: dep_rel_def)
  then have "wf (dep_rel nodes)" using a by (simp add: finite_acyclic_wf)
  then have "v \<in> node_ids nodes \<longrightarrow> v \<in> set result" for v
  proof (induction v rule: wf_induct_rule)
    case (less v)
    then show ?case using topo_resultD(5) [OF r] dep_rel_ids by blast
  qed
  then have "set result = node_ids nodes" using topo_resultD(3) [OF r] by blast
  moreover have "distinct result" by (rule topo_resultD(2) [OF r])
  ultimately have "length result = card (node_ids nodes)" by (metis distinct_card)
  also have "\<dots> = length nodes" using a distinct_card [of "map tn_id nodes"] by (simp add: node_ids_def)
  finally show "\<exists>order. topological_sort nodes = Inr order" using topo_resultD(1) [OF r] by simp
qed

text \<open>
  C15: \<open>topological_sort\<close> succeeds exactly on the graphs with distinct ids whose
  dependency relation is acyclic; on every other graph it raises the cycle error.
\<close>

theorem topological_sort_complete:
  "(\<exists>order. topological_sort nodes = Inr order) \<longleftrightarrow> distinct (map tn_id nodes) \<and> acyclic (dep_rel nodes)"
  by (rule topological_sort_succeeds)

section \<open>Layers\<close>

definition known_deps :: "(string, task_node) dict \<Rightarrow> string \<Rightarrow> string set" where
  "known_deps node_map v = (case dget node_map v of
      Some n \<Rightarrow> set (tn_depends_on n) \<inter> set (dkeys node_map) | None \<Rightarrow> {})"

definition map_rel :: "(string, task_node) dict \<Rightarrow> (string \<times> string) set" where
  "map_rel node_map = {(u, v). u \<in> known_deps node_map v}"

lemma depths_snoc:
  "depths nm (xs @ [x]) = dset x (node_depth nm (depths nm xs) x) (depths nm xs)"
  by (simp add: depths_def)

lemma depths_keys: "set (dkeys (depths nm xs)) = set xs"
  by (induction xs rule: rev_induct) (auto simp: depths_snoc dkeys_dset, simp add: depths_def)

lemma depths_dwf: "dwf (depths nm xs)"
  by (induction xs rule: rev_induct) (simp_all add: depths_snoc, simp add: depths_def)

lemma node_depth_greater:
  assumes "u \<in> known_deps nm x" "dget depth u = Some k"
  shows "k < node_depth nm depth x"
proof -
  obtain n where n: "dget nm x = Some n" "u \<in> set (tn_depends_on n)"
    using assms(1) by (auto simp: known_deps_def split: option.splits)
  let ?S = "set (map (\<lambda>d. case dget depth d of Some k \<Rightarrow> k | None \<Rightarrow> 0) (tn_depends_on n))"
  have "k \<in> ?S" using n(2) assms(2) by force
  then have "k \<le> Max ?S" by simp
  moreover have "tn_depends_on n \<noteq> []" using n(2) by auto
  ultimately show ?thesis using n(1) by (simp add: node_depth_def)
qed

lemma depths_increase:
  "distinct xs \<Longrightarrow> deps_first (map_rel nm) xs \<Longrightarrow> v \<in> set xs \<Longrightarrow> u \<in> known_deps nm v \<Longrightarrow>
   \<exists>i j. dget (depths nm xs) u = Some i \<and> dget (depths nm xs) v = Some j \<and> i < j"
proof (induction xs arbitrary: u v rule: rev_induct)
  case (snoc x xs)
  have o: "deps_first (map_rel nm) xs" "\<And>u. u \<in> known_deps nm x \<Longrightarrow> u \<in> set xs"
    using snoc.prems(2) by (auto simp: deps_first_snoc map_rel_def)
  show ?case
  proof (cases "v = x")
    case True
    then have u: "u \<in> set xs" using snoc.prems(4) o(2) by simp
    then obtain i where i: "dget (depths nm xs) u = Some i"
      using depths_keys [of nm xs] dget_None [of "depths nm xs" u] by auto
    have "i < node_depth nm (depths nm xs) x"
      using node_depth_greater snoc.prems(4) True i by blast
    moreover have "u \<noteq> x" using u snoc.prems(1) by auto
    ultimately show ?thesis using True i by (simp add: depths_snoc)
  next
    case False
    then have v: "v \<in> set xs" using snoc.prems(3) by simp
    from snoc.IH [OF _ o(1) v snoc.prems(4)] snoc.prems(1) obtain i j where
      ij: "dget (depths nm xs) u = Some i" "dget (depths nm xs) v = Some j" "i < j" by auto
    have "u \<in> set xs" using ij(1) depths_keys [of nm xs] dget_None [of "depths nm xs" u] by auto
    then have "u \<noteq> x" using snoc.prems(1) by auto
    with ij False show ?thesis by (simp add: depths_snoc)
  qed
qed simp

lemma mset_by_depth:
  "(\<And>x. x \<in> set xs \<Longrightarrow> \<exists>k < b. f x = Some k) \<Longrightarrow>
   mset (concat (map (\<lambda>k. filter (\<lambda>x. f x = Some k) xs) [0..<b])) = mset xs"
proof (induction b arbitrary: xs)
  case (Suc b)
  let ?lo = "filter (\<lambda>x. f x \<noteq> Some b) xs" and ?F = "\<lambda>xs k. filter (\<lambda>x. f x = Some k) xs"
  have IH: "mset (concat (map (?F ?lo) [0..<b])) = mset ?lo"
    by (rule Suc.IH) (use Suc.prems in \<open>auto simp: less_Suc_eq\<close>)
  have "?F xs k = ?F ?lo k" if "k < b" for k
    using that by (auto intro!: filter_cong)
  then have lo: "map (?F xs) [0..<b] = map (?F ?lo) [0..<b]" by (intro map_cong) auto
  have "mset (concat (map (?F xs) [0..<Suc b])) = mset (concat (map (?F xs) [0..<b])) + mset (?F xs b)"
    by simp
  also have "\<dots> = mset ?lo + mset (?F xs b)" unfolding lo IH by (rule refl)
  also have "\<dots> = mset xs"
    using multiset_partition [of "mset xs" "\<lambda>x. f x = Some b"] by (simp add: add.commute)
  finally show ?case .
next
  case 0
  then show ?case by (cases xs) auto
qed

lemma concat_nonempty: "concat (filter (\<lambda>l. l \<noteq> []) ls) = concat ls"
  by (induction ls) auto

definition layer_bound :: "string list \<Rightarrow> (string, task_node) dict \<Rightarrow> nat" where
  "layer_bound order nm = Suc (if depths nm order = [] then 0 else Max (set (map snd (depths nm order))))"

lemma depth_bound: "v \<in> set order \<Longrightarrow> \<exists>k < layer_bound order nm. dget (depths nm order) v = Some k"
proof -
  assume "v \<in> set order"
  then obtain k where k: "dget (depths nm order) v = Some k"
    using depths_keys [of nm order] dget_None [of "depths nm order" v] by auto
  then have "k \<in> set (map snd (depths nm order))" by (force dest: map_of_SomeD)
  then have "k \<le> Max (set (map snd (depths nm order)))" "depths nm order \<noteq> []" by auto
  with k show ?thesis by (simp add: layer_bound_def)
qed

definition at_depth :: "string list \<Rightarrow> (string, task_node) dict \<Rightarrow> nat \<Rightarrow> string list" where
  "at_depth order nm k = filter (\<lambda>v. dget (depths nm order) v = Some k) order"

text \<open>The layers are the non-empty depths, in increasing order.\<close>

lemma layers_eq:
  "group_into_layers order nm =
     map (at_depth order nm) (filter (\<lambda>k. at_depth order nm k \<noteq> []) [0..<layer_bound order nm])"
proof -
  have "group_into_layers order nm
      = filter (\<lambda>l. l \<noteq> []) (map (at_depth order nm) [0..<layer_bound order nm])"
    unfolding group_into_layers_def Let_def layer_bound_def at_depth_def by (rule refl)
  then show ?thesis by (simp add: filter_map comp_def)
qed

lemma layers_mset: "mset (concat (group_into_layers order nm)) = mset order"
proof -
  have "concat (group_into_layers order nm) = concat (map (at_depth order nm) [0..<layer_bound order nm])"
    unfolding layers_eq using concat_nonempty [of "map (at_depth order nm) [0..<layer_bound order nm]"]
    by (simp add: filter_map comp_def)
  also have "mset \<dots> = mset order"
    unfolding at_depth_def by (rule mset_by_depth) (rule depth_bound)
  finally show ?thesis .
qed

lemma layers_nonempty: "[] \<notin> set (group_into_layers order nm)"
  by (auto simp: layers_eq)

lemma layers_earlier:
  assumes "distinct order" "deps_first (map_rel nm) order"
    and i: "i < length (group_into_layers order nm)" and v: "v \<in> set (group_into_layers order nm ! i)"
    and u: "u \<in> known_deps nm v"
  shows "\<exists>j < i. u \<in> set (group_into_layers order nm ! j)"
proof -
  define ks where "ks = filter (\<lambda>k. at_depth order nm k \<noteq> []) [0..<layer_bound order nm]"
  have L: "group_into_layers order nm = map (at_depth order nm) ks" by (simp add: layers_eq ks_def)
  have v': "v \<in> set order" "dget (depths nm order) v = Some (ks ! i)" "i < length ks"
    using i v by (auto simp: L at_depth_def)
  from depths_increase [OF assms(1,2) v'(1) u] v'(2) obtain k where
    k: "dget (depths nm order) u = Some k" "k < ks ! i" by auto
  then have uo: "u \<in> set order"
    using depths_keys [of nm order] dget_None [of "depths nm order" u] by auto
  then have ua: "u \<in> set (at_depth order nm k)" using k by (simp add: at_depth_def)
  then have "k \<in> set ks" using depth_bound [OF uo, of nm] k by (auto simp: ks_def)
  then obtain j where j: "j < length ks" "ks ! j = k" by (auto simp: in_set_conv_nth)
  have "sorted_wrt (<) ks" unfolding ks_def by (intro sorted_wrt_filter) simp
  then have "j < i" using j k(2) v'(3)
    by (metis linorder_neqE_nat order_less_asym sorted_wrt_nth_less less_irrefl)
  with j ua show ?thesis by (auto simp: L)
qed

section \<open>The graph of an execution\<close>

definition node_map_of :: "task_node list \<Rightarrow> (string, task_node) dict" where
  "node_map_of nodes = fold (\<lambda>n m. dset (tn_id n) n m) nodes []"

lemma node_map_fold_get:
  "distinct (map tn_id nodes) \<Longrightarrow> dget (fold (\<lambda>n m. dset (tn_id n) n m) nodes m0) v =
     (case find (\<lambda>n. tn_id n = v) nodes of Some n \<Rightarrow> Some n | None \<Rightarrow> dget m0 v)"
proof (induction nodes arbitrary: m0)
  case (Cons n nodes)
  show ?case
  proof (cases "tn_id n = v")
    case True
    have "tn_id n \<notin> tn_id ` set nodes" using Cons.prems by simp
    then have "\<And>m. m \<in> set nodes \<Longrightarrow> tn_id m \<noteq> v" using True by (metis image_eqI)
    then have "find (\<lambda>n. tn_id n = v) nodes = None" by (simp add: find_None_iff)
    with Cons True show ?thesis by simp
  qed (use Cons in \<open>simp split: option.splits\<close>)
qed simp

lemma node_map_of_get:
  "distinct (map tn_id nodes) \<Longrightarrow> dget (node_map_of nodes) v = find (\<lambda>n. tn_id n = v) nodes"
  by (simp add: node_map_of_def node_map_fold_get split: option.splits)

lemma node_map_of_keys: "set (dkeys (node_map_of nodes)) = node_ids nodes"
proof -
  have "set (dkeys (fold (\<lambda>n m. dset (tn_id n) n m) nodes m0)) = node_ids nodes \<union> set (dkeys m0)" for m0
    by (induction nodes arbitrary: m0) (auto simp: node_ids_def dkeys_dset)
  from this [of "[]"] show ?thesis by (simp add: node_map_of_def)
qed

lemma map_rel_node_map_of:
  "distinct (map tn_id nodes) \<Longrightarrow> map_rel (node_map_of nodes) \<subseteq> dep_rel nodes"
proof (rule subrelI)
  fix u v assume d: "distinct (map tn_id nodes)" and "(u, v) \<in> map_rel (node_map_of nodes)"
  then obtain n where n: "find (\<lambda>n. tn_id n = v) nodes = Some n" "u \<in> set (tn_depends_on n)"
    "u \<in> set (dkeys (node_map_of nodes))"
    by (auto simp: map_rel_def known_deps_def node_map_of_get [OF d] split: option.splits)
  then have "n \<in> set nodes" "tn_id n = v" by (auto simp: find_Some_iff)
  with n show "(u, v) \<in> dep_rel nodes" by (auto simp: in_dep_rel node_map_of_keys simp del: set_map)
qed

lemma deps_first_mono: "deps_first R xs \<Longrightarrow> S \<subseteq> R \<Longrightarrow> deps_first S xs"
  unfolding deps_first_def by blast

text \<open>
  the layers of a sorted graph partition its nodes, no layer is empty, and every node
  is in a later layer than each node of the graph it depends on, so the nodes of one layer
  are independent.
\<close>

theorem layers_partition:
  assumes "topological_sort nodes = Inr order"
  shows "mset (concat (group_into_layers order (node_map_of nodes))) = mset (map tn_id nodes) \<and>
    [] \<notin> set (group_into_layers order (node_map_of nodes)) \<and>
    (\<forall>i < length (group_into_layers order (node_map_of nodes)).
      \<forall>v \<in> set (group_into_layers order (node_map_of nodes) ! i).
      \<forall>u \<in> known_deps (node_map_of nodes) v.
        \<exists>j < i. u \<in> set (group_into_layers order (node_map_of nodes) ! j))"
proof -
  note t = topological_sort_order [OF assms]
  have "mset order = mset (map tn_id nodes)"
    using t(1,2,4) by (metis node_ids_def set_eq_iff_mset_eq_distinct)
  moreover have "deps_first (map_rel (node_map_of nodes)) order"
    using deps_first_mono [OF t(3) map_rel_node_map_of [OF t(4)]] .
  ultimately show ?thesis
    using layers_mset layers_nonempty layers_earlier [OF t(1)] by metis
qed

section \<open>A concrete graph\<close>

definition diamond :: "task_node list" where
  "diamond = [mk_node ''join'' (mk_config ''review'' ''join'') [''left'', ''right''],
     mk_node ''left'' (mk_config ''dev'' ''left'') [''root'', ''elsewhere''],
     mk_node ''root'' (mk_config ''dev'' ''root'') [],
     mk_node ''right'' (mk_config ''dev'' ''right'') [''root'']]"

lemma diamond_sorted: "topological_sort diamond = Inr [''root'', ''left'', ''right'', ''join'']"
  by code_simp

theorem topological_sort_sound_witness:
  "distinct [''root'', ''left'', ''right'', ''join''] \<and>
   set [''root'', ''left'', ''right'', ''join''] = set (map tn_id diamond)"
  using topological_sort_sound [OF diamond_sorted] by blast

theorem layers_partition_witness:
  "group_into_layers [''root'', ''left'', ''right'', ''join''] (node_map_of diamond)
     = [[''root''], [''left'', ''right''], [''join'']] \<and>
   mset (concat (group_into_layers [''root'', ''left'', ''right'', ''join''] (node_map_of diamond)))
     = mset (map tn_id diamond)"
proof
  show "mset (concat (group_into_layers [''root'', ''left'', ''right'', ''join''] (node_map_of diamond)))
     = mset (map tn_id diamond)"
    using layers_partition [OF diamond_sorted] by blast
qed code_simp

end
