(* ===== verification/Task_Graph.thy ===== *)
theory Task_Graph
  imports Dag_Topology
begin

text \<open>
  The execution of a task graph (\<open>TaskOrchestrator.execute_graph\<close> of
  \<open>task_orchestrator.py\<close>): layers in order, the nodes of a layer in batches, retries, routers,
  and the verdict; with sequential chains of agents and the registry of spawned tasks.

  The members of a parallel batch run concurrently; each of them makes its own agent calls
  only, and the answers are indexed by the call, so the order of the calls does not matter
  and the trace lists them node by node.
\<close>

section \<open>State\<close>

record graph_run =
  gr_node_map :: "(string, task_node) dict"
  gr_completed :: "(string, agent_result) dict"
  gr_cancelled :: "string set"
  gr_errors :: "string list"
  gr_order :: "string list"
  gr_calls :: "spawn_call list"

record task_graph_result =
  tg_nodes :: "(string, agent_result) dict"
  tg_execution_order :: "string list"
  tg_success :: bool
  tg_error :: string

definition coerce_agent_result :: "string + agent_result \<Rightarrow> agent_result" where
  "coerce_agent_result out = (case out of Inr r \<Rightarrow> r | Inl exc \<Rightarrow> mk_result False [] exc)"

section \<open>One layer\<close>

text \<open>The first loop: skipped nodes are completed at once, the others become tasks.\<close>

fun prepare_layer :: "workflow_env \<Rightarrow> approver \<Rightarrow> graph_run \<Rightarrow> string list
    \<Rightarrow> (string \<times> task_node) list \<times> graph_run" where
  "prepare_layer env ask run [] = ([], run)"
| "prepare_layer env ask run (nid # ids) =
    (if nid \<in> set (dkeys (gr_completed run)) \<or> nid \<in> gr_cancelled run
     then prepare_layer env ask run ids
     else case dget (gr_node_map run) nid of
       None \<Rightarrow> prepare_layer env ask run ids  \<comment> \<open>not reached: the order lists keys of the map\<close>
     | Some n \<Rightarrow>
         (case prepare_layer_node env ask (gr_node_map run) (gr_completed run) (gr_cancelled run) n of
            (skip, n') \<Rightarrow>
              let run' = run\<lparr>gr_node_map := dset nid n' (gr_node_map run)\<rparr> in
              (case skip of
                 Some r \<Rightarrow> prepare_layer env ask (run'\<lparr>gr_completed := dset nid r (gr_completed run')\<rparr>) ids
               | None \<Rightarrow> (case prepare_layer env ask run' ids of (ts, run'') \<Rightarrow> ((nid, n') # ts, run'')))))"

definition record_result :: "string \<Rightarrow> agent_result \<Rightarrow> spawn_call list \<Rightarrow> graph_run \<Rightarrow> graph_run" where
  "record_result nid r calls run = run\<lparr>gr_completed := dset nid r (gr_completed run),
     gr_order := gr_order run @ [nid], gr_calls := gr_calls run @ calls\<rparr>"

text \<open>In a batch of several nodes, \<open>gather(return_exceptions=True)\<close> keeps an exception as a result.\<close>

definition run_member :: "workflow_env \<Rightarrow> spawner \<Rightarrow> string \<times> task_node \<Rightarrow> graph_run \<Rightarrow> graph_run" where
  "run_member env spawn t run = (case run_step_with_retry env spawn (snd t) of
     (out, calls) \<Rightarrow> record_result (fst t) (coerce_agent_result out) calls run)"

definition run_batch :: "workflow_env \<Rightarrow> spawner \<Rightarrow> (string \<times> task_node) list \<Rightarrow> graph_run
    \<Rightarrow> string + graph_run" where
  "run_batch env spawn batch run = (case batch of
       [(nid, n)] \<Rightarrow> (case run_step_with_retry env spawn n of
           (Inl exc, calls) \<Rightarrow> Inl exc
         | (Inr r, calls) \<Rightarrow> Inr (record_result nid r calls run))
     | _ \<Rightarrow> Inr (fold (run_member env spawn) batch run))"

fun run_batches :: "workflow_env \<Rightarrow> spawner \<Rightarrow> (string \<times> task_node) list list \<Rightarrow> graph_run
    \<Rightarrow> string + graph_run" where
  "run_batches env spawn [] run = Inr run"
| "run_batches env spawn (b # bs) run = (case run_batch env spawn b run of
       Inl exc \<Rightarrow> Inl exc | Inr run' \<Rightarrow> run_batches env spawn bs run')"

definition route_node :: "string \<Rightarrow> graph_run \<Rightarrow> graph_run" where
  "route_node nid run = (case (dget (gr_node_map run) nid, dget (gr_completed run) nid) of
       (Some n, Some r) \<Rightarrow>
         (case apply_node_router (gr_node_map run) nid n r (gr_cancelled run) of
            (errs, c) \<Rightarrow> run\<lparr>gr_errors := gr_errors run @ errs, gr_cancelled := c\<rparr>)
     | _ \<Rightarrow> run)"

definition run_layer :: "workflow_env \<Rightarrow> approver \<Rightarrow> spawner \<Rightarrow> bool \<Rightarrow> int option \<Rightarrow> string list
    \<Rightarrow> graph_run \<Rightarrow> string + graph_run" where
  "run_layer env ask spawn serial max_parallel layer run =
    (case prepare_layer env ask run layer of (tasks, run1) \<Rightarrow>
       if tasks = [] then Inr run1
       else (case run_batches env spawn (split_layer_batches tasks serial max_parallel) run1 of
           Inl exc \<Rightarrow> Inl exc
         | Inr run2 \<Rightarrow> Inr (fold route_node (map fst tasks) run2)))"

fun run_layers :: "workflow_env \<Rightarrow> approver \<Rightarrow> spawner \<Rightarrow> bool \<Rightarrow> int option \<Rightarrow> string list list
    \<Rightarrow> graph_run \<Rightarrow> string + graph_run" where
  "run_layers env ask spawn serial mp [] run = Inr run"
| "run_layers env ask spawn serial mp (l # ls) run = (case run_layer env ask spawn serial mp l run of
       Inl exc \<Rightarrow> Inl exc | Inr run' \<Rightarrow> run_layers env ask spawn serial mp ls run')"

section \<open>The whole graph\<close>

definition max_dag_nodes :: nat where
  "max_dag_nodes = 50"

definition max_dag_parallel :: int where
  "max_dag_parallel = 5"

text \<open>The variable is unset by default, which reads as the empty text.\<close>

definition workflow_max_parallel_default :: "workflow_env \<Rightarrow> int" where
  "workflow_max_parallel_default env =
     (case int_of_text (case we_max_parallel env of Some raw \<Rightarrow> raw | None \<Rightarrow> []) of
        Some n \<Rightarrow> max 1 (min max_dag_parallel n)
      | None \<Rightarrow> max_dag_parallel)"

definition start_run :: "task_node list \<Rightarrow> graph_run" where
  "start_run nodes = \<lparr>gr_node_map = node_map_of nodes, gr_completed = [], gr_cancelled = {},
     gr_errors = [], gr_order = [], gr_calls = []\<rparr>"

text \<open>The loop over the layers.\<close>

definition run_graph :: "workflow_env \<Rightarrow> approver \<Rightarrow> spawner \<Rightarrow> task_node list \<Rightarrow> int option \<Rightarrow> bool
    \<Rightarrow> string + graph_run" where
  "run_graph env ask spawn nodes max_parallel serial =
    (if length nodes > max_dag_nodes
     then Inl (''DAG exceeds maximum node count ('' @ str_of_nat (length nodes) @ '' > '' @ str_of_nat max_dag_nodes @ '')'')
     else case topological_sort nodes of
       Inl err \<Rightarrow> Inl err
     | Inr order \<Rightarrow>
         (let mp = (case max_parallel of None \<Rightarrow> Some (workflow_max_parallel_default env) | Some m \<Rightarrow> Some m) in
          run_layers env ask spawn serial mp (group_into_layers order (node_map_of nodes)) (start_run nodes)))"

text \<open>The verdict, over the nodes in their order.\<close>

definition graph_result :: "workflow_env \<Rightarrow> string list \<Rightarrow> graph_run \<Rightarrow> task_graph_result" where
  "graph_result env order run =
    (case finalize_unexecuted_nodes (gr_node_map run) (gr_cancelled run) order (gr_completed run, gr_errors run) of
       (completed, errors) \<Rightarrow>
         \<lparr>tg_nodes = completed, tg_execution_order = gr_order run,
          tg_success = (errors = [] \<and> graph_all_required_ok env completed (gr_node_map run)),
          tg_error = join ''; '' errors\<rparr>)"

definition execute_graph :: "workflow_env \<Rightarrow> approver \<Rightarrow> spawner \<Rightarrow> task_node list \<Rightarrow> int option \<Rightarrow> bool
    \<Rightarrow> string + task_graph_result" where
  "execute_graph env ask spawn nodes max_parallel serial =
    (case run_graph env ask spawn nodes max_parallel serial of
       Inl err \<Rightarrow> Inl err
     | Inr run \<Rightarrow> (case topological_sort nodes of
         Inl err \<Rightarrow> Inl err | Inr order \<Rightarrow> Inr (graph_result env order run)))"

section \<open>Sequential chains and the task registry\<close>

text \<open>\<open>spawn_sequential\<close>: each agent sees the answers of the ones before it; a failure ends the chain.\<close>

fun spawn_chain :: "(nat \<Rightarrow> spawn_config \<Rightarrow> agent_result) \<Rightarrow> bool \<Rightarrow> nat \<Rightarrow> string \<Rightarrow> spawn_config list
    \<Rightarrow> agent_result list" where
  "spawn_chain spawn pass k acc [] = []"
| "spawn_chain spawn pass k acc (cfg # cfgs) = (let
       cfg' = (if pass \<and> acc \<noteq> [] then cfg\<lparr>sc_context := sc_context cfg @ nl @ nl @ acc\<rparr> else cfg);
       r = spawn k cfg';
       acc' = (if ar_success r \<and> ar_response r \<noteq> []
               then acc @ nl @ ''['' @ sc_role cfg @ ('' '' @ bytes [231, 187, 147, 230, 158, 156] @ '']: '') @ utake 2000 (ar_response r) else acc)
     in if \<not> ar_success r then [r] else r # spawn_chain spawn pass (Suc k) acc' cfgs)"

definition spawn_sequential :: "(nat \<Rightarrow> spawn_config \<Rightarrow> agent_result) \<Rightarrow> spawn_config list \<Rightarrow> bool
    \<Rightarrow> agent_result list" where
  "spawn_sequential spawn configs pass_context = spawn_chain spawn pass_context 0 [] configs"

datatype agent_status = PENDING | RUNNING | COMPLETED | FAILED

fun status_text :: "agent_status \<Rightarrow> string" where
  "status_text PENDING = ''pending''"
| "status_text RUNNING = ''running''"
| "status_text COMPLETED = ''completed''"
| "status_text FAILED = ''failed''"

text \<open>\<open>spawn_agent\<close> on the registry: past 200 tasks, up to 100 finished ones are dropped first.\<close>

definition register_task :: "string \<Rightarrow> (string, agent_status) dict \<Rightarrow> (string, agent_status) dict" where
  "register_task task_id tasks = (let
       completed = dkeys (filter (\<lambda>(k, st). status_text st \<in> {''completed'', ''error'', ''cancelled''}) tasks);
       kept = (if 200 < length tasks then fold dpop (take 100 completed) tasks else tasks)
     in dset task_id RUNNING kept)"

definition finish_task :: "string \<Rightarrow> bool \<Rightarrow> (string, agent_status) dict \<Rightarrow> (string, agent_status) dict" where
  "finish_task task_id ok tasks =
     (if task_id \<in> set (dkeys tasks) then dset task_id (if ok then COMPLETED else FAILED) tasks else tasks)"

end
