(* ===== verification/Task_Graph_Props.thy ===== *)
theory Task_Graph_Props
  imports Task_Graph
begin

text \<open>
  What an execution of a task graph guarantees: a node runs only after all its dependencies
  ended well, at most once, and with the approval it asks for; every node is either completed
  or cancelled at the end; an execution answers whenever the agents do.
\<close>

section \<open>The shape of the node map\<close>

text \<open>A node without its configuration, the part an execution rewrites.\<close>

definition core_of :: "task_node \<Rightarrow> task_node" where
  "core_of n = n\<lparr>tn_config := mk_config [] []\<rparr>"

lemma core_of_fields:
  assumes "core_of n = core_of m"
  shows "tn_id n = tn_id m" "tn_depends_on n = tn_depends_on m" "tn_optional n = tn_optional m"
    "tn_router n = tn_router m" "tn_max_retries n = tn_max_retries m"
    "tn_rescue_configs n = tn_rescue_configs m" "tn_requires_approval n = tn_requires_approval m"
  using assms by (cases n; cases m; simp add: core_of_def)+

lemma core_set_context [simp]: "core_of (set_context c n) = core_of n"
  by (simp add: core_of_def set_context_def)

lemma core_injected [simp]:
  "core_of (inject_supervisor_note n) = core_of n"
  "core_of (inject_dependency_context completed n) = core_of n"
  by (simp_all add: inject_supervisor_note_def inject_dependency_context_def Let_def)

lemma core_prepared: "core_of (snd (prepare_layer_node env ask nm completed cancelled n)) = core_of n"
proof -
  define n' where "n' = inject_supervisor_note (inject_dependency_context completed n)"
  have "core_of n' = core_of n" by (simp add: n'_def)
  moreover have "snd (prepare_layer_node env ask nm completed cancelled n) = n \<or>
      snd (prepare_layer_node env ask nm completed cancelled n) = n'"
    unfolding prepare_layer_node_def Let_def n'_def [symmetric] by simp
  ultimately show ?thesis by metis
qed

definition shaped :: "(string, task_node) dict \<Rightarrow> (string, task_node) dict \<Rightarrow> bool" where
  "shaped nm0 nm \<longleftrightarrow> dwf nm \<and> dkeys nm = dkeys nm0 \<and>
     (\<forall>v n. dget nm v = Some n \<longrightarrow> tn_id n = v \<and> (\<exists>n0. dget nm0 v = Some n0 \<and> core_of n = core_of n0))"

lemma shaped_get:
  assumes "shaped nm0 nm" "dget nm0 v = Some n0"
  obtains n where "dget nm v = Some n" "core_of n = core_of n0" "tn_id n = v"
proof -
  have "v \<in> set (dkeys nm)" using assms dget_None [of nm0 v] by (auto simp: shaped_def)
  then obtain n where "dget nm v = Some n" using dget_None [of nm v] by auto
  with assms that show thesis by (force simp: shaped_def)
qed

lemma shaped_set:
  assumes "shaped nm0 nm" "dget nm v = Some n" "core_of n' = core_of n"
  shows "shaped nm0 (dset v n' nm)"
proof -
  have "v \<in> set (dkeys nm)" using assms(2) dget_None [of nm v] by auto
  then have "dkeys (dset v n' nm) = dkeys nm" unfolding dkeys_dset by simp
  moreover have "tn_id n' = tn_id n" by (rule core_of_fields) fact
  ultimately show ?thesis using assms by (auto simp: shaped_def)
qed

lemma shaped_known_deps: "shaped nm0 nm \<Longrightarrow> known_deps nm v = known_deps nm0 v"
proof (cases "dget nm0 v")
  case None
  assume s: "shaped nm0 nm"
  then have "dget nm v = None" using None dget_None [of nm v] dget_None [of nm0 v] by (simp add: shaped_def)
  with None show ?thesis by (simp add: known_deps_def)
next
  case (Some n0)
  assume s: "shaped nm0 nm"
  then obtain n where n: "dget nm v = Some n" "core_of n = core_of n0" using Some by (rule shaped_get)
  have "dkeys nm = dkeys nm0" using s by (simp add: shaped_def)
  with n Some core_of_fields(2) [OF n(2)] show ?thesis by (simp add: known_deps_def del: set_map)
qed

lemma shaped_optional: "shaped nm0 nm \<Longrightarrow> v \<in> set (dkeys nm0) \<Longrightarrow> is_optional env nm v = is_optional env nm0 v"
proof -
  assume s: "shaped nm0 nm" and "v \<in> set (dkeys nm0)"
  then obtain n0 where n0: "dget nm0 v = Some n0" using dget_None [of nm0 v] by auto
  with s obtain n where n: "dget nm v = Some n" "core_of n = core_of n0" by (rule shaped_get)
  with n0 show ?thesis by (simp add: is_optional_def core_of_fields(3) [OF n(2)])
qed

lemma dependents_shaped:
  assumes "shaped nm0 nm" "v \<in> set (dkeys nm0)" "w \<in> set (map tn_id (direct_dependents nm v))"
  shows "v \<in> known_deps nm0 w"
proof -
  obtain k n where n: "(k, n) \<in> set nm" "v \<in> set (tn_depends_on n)" "w = tn_id n"
    using assms(3) by (auto simp: direct_dependents_def)
  have wf: "dwf nm" "dkeys nm = dkeys nm0" using assms(1) by (simp_all add: shaped_def)
  have g: "dget nm k = Some n" using wf(1) n(1) by (rule dwf_dget)
  then have "k = w" using assms(1) n(3) unfolding shaped_def by blast
  with g n assms(2) wf(2) have "v \<in> known_deps nm w" by (simp add: known_deps_def del: set_map)
  then show ?thesis using shaped_known_deps [OF assms(1)] by simp
qed

section \<open>The invariant\<close>

definition deps_ok :: "workflow_env \<Rightarrow> (string, task_node) dict \<Rightarrow> (string, agent_result) dict \<Rightarrow> string \<Rightarrow> bool" where
  "deps_ok env nm0 completed v \<longleftrightarrow> (\<forall>u \<in> known_deps nm0 v.
     \<exists>r. dget completed u = Some r \<and> (ar_success r \<or> is_optional env nm0 u))"

definition approved :: "approver \<Rightarrow> task_node \<Rightarrow> bool" where
  "approved ask n \<longleftrightarrow> (tn_requires_approval n \<longrightarrow> (\<exists>f. ask = Some f \<and> f n))"

definition approved_as :: "approver \<Rightarrow> (string, task_node) dict \<Rightarrow> string \<Rightarrow> bool" where
  "approved_as ask nm0 v \<longleftrightarrow> (\<exists>n n0. dget nm0 v = Some n0 \<and> core_of n = core_of n0 \<and> approved ask n)"

fun call_node :: "spawn_call \<Rightarrow> string" where
  "call_node (Attempt i k) = i"
| "call_node (Rescue i k) = i"

definition graph_inv :: "workflow_env \<Rightarrow> approver \<Rightarrow> (string, task_node) dict \<Rightarrow> string set \<Rightarrow> graph_run \<Rightarrow> bool" where
  "graph_inv env ask nm0 D run \<longleftrightarrow> shaped nm0 (gr_node_map run) \<and>
     set (dkeys (gr_completed run)) \<subseteq> D \<and> D \<subseteq> set (dkeys (gr_completed run)) \<union> gr_cancelled run \<and>
     set (dkeys (gr_completed run)) \<inter> gr_cancelled run = {} \<and>
     distinct (gr_order run) \<and> set (gr_order run) \<subseteq> set (dkeys (gr_completed run)) \<and>
     (\<forall>v \<in> set (gr_order run). deps_ok env nm0 (gr_completed run) v \<and> approved_as ask nm0 v) \<and>
     distinct (gr_calls run) \<and> call_node ` set (gr_calls run) \<subseteq> set (gr_order run) \<and>
     D \<union> gr_cancelled run \<subseteq> set (dkeys nm0)"

definition kept :: "(string, agent_result) dict \<Rightarrow> (string, agent_result) dict \<Rightarrow> bool" where
  "kept c c' \<longleftrightarrow> (\<forall>u r. dget c u = Some r \<longrightarrow> dget c' u = Some r)"

lemma kept_refl [simp]: "kept c c"
  by (simp add: kept_def)

lemma kept_trans: "kept a b \<Longrightarrow> kept b c \<Longrightarrow> kept a c"
  by (simp add: kept_def)

lemma kept_dset: "u \<notin> set (dkeys c) \<Longrightarrow> kept c (dset u r c)"
  using dget_None [of c u] by (auto simp: kept_def)

lemma deps_ok_kept: "deps_ok env nm0 c v \<Longrightarrow> kept c c' \<Longrightarrow> deps_ok env nm0 c' v"
  by (force simp: deps_ok_def kept_def)

lemma first_cancelled_none:
  "first_cancelled_dependency deps C = [] \<Longrightarrow> [] \<notin> C \<Longrightarrow> u \<in> set deps \<Longrightarrow> u \<notin> C"
  by (induction deps) (auto split: if_splits)

lemma first_failed_none:
  "first_failed_dependency env deps c nm = [] \<Longrightarrow> dget c [] = None \<Longrightarrow> u \<in> set deps \<Longrightarrow> dget c u = Some r \<Longrightarrow>
   ar_success r \<or> is_optional env nm u"
  by (induction deps) (auto split: option.splits if_splits)

text \<open>A node is ready only when its dependencies ended well and it is approved.\<close>

lemma ready_node:
  assumes "prepare_layer_node env ask nm c C n = (None, n')"
  shows "first_cancelled_dependency (tn_depends_on n) C = []"
    "first_failed_dependency env (tn_depends_on n) c nm = []" "approved ask n'"
  using assms by (auto simp: prepare_layer_node_def Let_def approved_def split: if_splits option.splits)

lemma ready_deps_ok:
  assumes inv: "graph_inv env ask nm0 D run" and n: "dget (gr_node_map run) v = Some n"
    and kd: "known_deps nm0 v \<subseteq> D" and ne: "[] \<notin> set (dkeys nm0)"
    and p: "prepare_layer_node env ask (gr_node_map run) (gr_completed run) (gr_cancelled run) n = (None, n')"
  shows "deps_ok env nm0 (gr_completed run) v"
  unfolding deps_ok_def
proof
  fix u assume u: "u \<in> known_deps nm0 v"
  have s: "shaped nm0 (gr_node_map run)" using inv by (simp add: graph_inv_def)
  have uk: "u \<in> set (dkeys nm0)" using u by (auto simp: known_deps_def split: option.splits)
  have ud: "u \<in> set (tn_depends_on n)"
    using u n shaped_known_deps [OF s, of v] by (auto simp: known_deps_def)
  have ec: "[] \<notin> gr_cancelled run" "dget (gr_completed run) [] = None"
    using ne inv unfolding graph_inv_def dget_None by blast+
  have "u \<notin> gr_cancelled run" by (rule first_cancelled_none [OF ready_node(1) [OF p] ec(1) ud])
  then have "u \<in> set (dkeys (gr_completed run))" using inv kd u by (auto simp: graph_inv_def)
  then obtain r where r: "dget (gr_completed run) u = Some r"
    using dget_None [of "gr_completed run" u] by auto
  with first_failed_none [OF ready_node(2) [OF p] ec(2) ud r] shaped_optional [OF s uk]
  show "\<exists>r. dget (gr_completed run) u = Some r \<and> (ar_success r \<or> is_optional env nm0 u)" by auto
qed

section \<open>Preparing a layer\<close>

definition tasks_ok :: "workflow_env \<Rightarrow> approver \<Rightarrow> (string, task_node) dict \<Rightarrow> (string, agent_result) dict
    \<Rightarrow> (string \<times> task_node) list \<Rightarrow> bool" where
  "tasks_ok env ask nm0 c ts \<longleftrightarrow> distinct (map fst ts) \<and>
     (\<forall>(v, n) \<in> set ts. deps_ok env nm0 c v \<and> tn_id n = v \<and> approved_as ask nm0 v)"

definition same_trace :: "graph_run \<Rightarrow> graph_run \<Rightarrow> bool" where
  "same_trace run run' \<longleftrightarrow> gr_cancelled run' = gr_cancelled run \<and> gr_order run' = gr_order run \<and>
     gr_calls run' = gr_calls run \<and> gr_errors run' = gr_errors run"

definition layer_ok :: "(string, task_node) dict \<Rightarrow> string set \<Rightarrow> string list \<Rightarrow> bool" where
  "layer_ok nm0 D l \<longleftrightarrow> distinct l \<and> set l \<inter> D = {} \<and> set l \<subseteq> set (dkeys nm0) \<and>
     (\<forall>v \<in> set l. known_deps nm0 v \<subseteq> D)"

lemma graph_inv_node_map:
  "graph_inv env ask nm0 D run \<Longrightarrow> dget (gr_node_map run) v = Some n \<Longrightarrow> core_of n' = core_of n \<Longrightarrow>
   graph_inv env ask nm0 D (run\<lparr>gr_node_map := dset v n' (gr_node_map run)\<rparr>)"
  using shaped_set by (auto simp: graph_inv_def)

lemma graph_inv_done:
  assumes "graph_inv env ask nm0 D run" "v \<notin> set (dkeys (gr_completed run))" "v \<notin> gr_cancelled run"
    and "v \<in> set (dkeys nm0)"
  shows "graph_inv env ask nm0 (insert v D) (run\<lparr>gr_completed := dset v r (gr_completed run)\<rparr>)"
proof -
  have "kept (gr_completed run) (dset v r (gr_completed run))" by (rule kept_dset) fact
  then have "deps_ok env nm0 (gr_completed run) w \<Longrightarrow> deps_ok env nm0 (dset v r (gr_completed run)) w" for w
    using deps_ok_kept by blast
  then show ?thesis using assms unfolding graph_inv_def by auto
qed

lemma graph_inv_cancelled: "graph_inv env ask nm0 D run \<Longrightarrow> v \<in> gr_cancelled run \<Longrightarrow> graph_inv env ask nm0 (insert v D) run"
  by (auto simp: graph_inv_def)

lemma layer_ok_Cons:
  "layer_ok nm0 D (v # l) \<longleftrightarrow> v \<notin> set l \<and> v \<notin> D \<and> v \<in> set (dkeys nm0) \<and> known_deps nm0 v \<subseteq> D \<and> layer_ok nm0 D l"
  by (auto simp: layer_ok_def)

lemma layer_ok_insert: "layer_ok nm0 D l \<Longrightarrow> v \<notin> set l \<Longrightarrow> layer_ok nm0 (insert v D) l"
  by (auto simp: layer_ok_def)

lemma prepare_layer_inv:
  assumes "graph_inv env ask nm0 D run" "layer_ok nm0 D l" "[] \<notin> set (dkeys nm0)"
    and "prepare_layer env ask run l = (ts, run')"
  shows "graph_inv env ask nm0 (D \<union> (set l - fst ` set ts)) run' \<and> tasks_ok env ask nm0 (gr_completed run') ts \<and>
    fst ` set ts \<subseteq> set l \<and> fst ` set ts \<inter> (set (dkeys (gr_completed run')) \<union> gr_cancelled run') = {} \<and>
    same_trace run run' \<and> kept (gr_completed run) (gr_completed run')"
  using assms
proof (induction l arbitrary: D run ts)
  case (Cons v l)
  have lo: "v \<notin> set l" "v \<notin> D" "v \<in> set (dkeys nm0)" "known_deps nm0 v \<subseteq> D" "layer_ok nm0 D l"
    using Cons.prems(2) by (simp_all add: layer_ok_Cons)
  have li: "layer_ok nm0 (insert v D) l" using layer_ok_insert lo by blast
  have vc: "v \<notin> set (dkeys (gr_completed run))" using Cons.prems(1) lo(2) by (auto simp: graph_inv_def)
  show ?case
  proof (cases "v \<in> gr_cancelled run")
    case True
    with Cons.prems(4) have p: "prepare_layer env ask run l = (ts, run')" by simp
    note IH = Cons.IH [OF graph_inv_cancelled [OF Cons.prems(1) True] li Cons.prems(3) p]
    then have "v \<notin> fst ` set ts" using lo(1) by auto
    then have "insert v D \<union> (set l - fst ` set ts) = D \<union> (set (v # l) - fst ` set ts)" by auto
    with IH show ?thesis by auto
  next
    case False
    have s: "shaped nm0 (gr_node_map run)" using Cons.prems(1) by (simp add: graph_inv_def)
    obtain n0 where n0: "dget nm0 v = Some n0" using lo(3) dget_None [of nm0 v] by auto
    with s obtain n where n: "dget (gr_node_map run) v = Some n" "core_of n = core_of n0" "tn_id n = v"
      by (rule shaped_get)
    obtain skip n' where pn: "prepare_layer_node env ask (gr_node_map run) (gr_completed run) (gr_cancelled run) n
        = (skip, n')" by fastforce
    have cn: "core_of n' = core_of n" using core_prepared [of env ask _ _ _ n] pn by (metis snd_conv)
    define run1 where "run1 = run\<lparr>gr_node_map := dset v n' (gr_node_map run)\<rparr>"
    have i1: "graph_inv env ask nm0 D run1"
      unfolding run1_def using graph_inv_node_map Cons.prems(1) n(1) cn by blast
    show ?thesis
    proof (cases skip)
      case (Some r)
      define run2 where "run2 = run1\<lparr>gr_completed := dset v r (gr_completed run1)\<rparr>"
      have p: "prepare_layer env ask run2 l = (ts, run')"
        using Cons.prems(4) False vc n(1) pn Some by (simp add: run1_def run2_def Let_def)
      have i2: "graph_inv env ask nm0 (insert v D) run2"
        unfolding run2_def by (rule graph_inv_done [OF i1]) (use vc False lo(3) in \<open>simp_all add: run1_def\<close>)
      note IH = Cons.IH [OF i2 li Cons.prems(3) p]
      have "same_trace run run2" by (simp add: run1_def run2_def same_trace_def)
      moreover have "kept (gr_completed run) (gr_completed run2)"
        using kept_dset [OF vc] by (simp add: run1_def run2_def)
      moreover have "v \<notin> fst ` set ts" using lo(1) IH by auto
      then have "insert v D \<union> (set l - fst ` set ts) = D \<union> (set (v # l) - fst ` set ts)" by auto
      ultimately show ?thesis using IH kept_trans by (auto simp: same_trace_def)
    next
      case None
      obtain ts' where p: "prepare_layer env ask run1 l = (ts', run')" and ts: "ts = (v, n') # ts'"
        using Cons.prems(4) False vc n(1) pn None by (auto simp: run1_def Let_def split: prod.splits)
      note IH = Cons.IH [OF i1 lo(5) Cons.prems(3) p]
      have c1: "gr_completed run1 = gr_completed run" "gr_cancelled run1 = gr_cancelled run"
        by (simp_all add: run1_def)
      have "deps_ok env nm0 (gr_completed run) v"
        using ready_deps_ok [OF Cons.prems(1) n(1) lo(4) Cons.prems(3)] pn None by simp
      then have dv: "deps_ok env nm0 (gr_completed run') v" using IH c1 deps_ok_kept by metis
      have av: "approved_as ask nm0 v" using ready_node(3) pn None cn n(2) n0 by (auto simp: approved_as_def)
      have idv: "tn_id n' = v" using core_of_fields(1) [OF cn] n(3) by simp
      have vts: "v \<notin> fst ` set ts'" using IH lo(1) by auto
      have vd: "v \<notin> set (dkeys (gr_completed run'))" using IH lo(1,2) by (auto simp: graph_inv_def)
      have "same_trace run run'" using IH by (simp add: same_trace_def run1_def)
      moreover from this have "v \<notin> gr_cancelled run'" using False by (simp add: same_trace_def)
      moreover have "D \<union> (set l - fst ` set ts') = D \<union> (set (v # l) - fst ` set ts)"
        using lo(1) vts ts by auto
      moreover have "tasks_ok env ask nm0 (gr_completed run') ts"
        using IH dv av idv vts by (simp add: ts tasks_ok_def)
      ultimately show ?thesis using IH vd c1 by (auto simp: ts)
    qed
  qed
qed (auto simp: tasks_ok_def same_trace_def)

section \<open>Running the tasks of a layer\<close>

definition pending :: "workflow_env \<Rightarrow> approver \<Rightarrow> (string, task_node) dict \<Rightarrow> string set
    \<Rightarrow> (string \<times> task_node) list \<Rightarrow> graph_run \<Rightarrow> bool" where
  "pending env ask nm0 D ts run \<longleftrightarrow> graph_inv env ask nm0 D run \<and> tasks_ok env ask nm0 (gr_completed run) ts \<and>
     fst ` set ts \<subseteq> set (dkeys nm0) \<and> fst ` set ts \<inter> (set (dkeys (gr_completed run)) \<union> gr_cancelled run) = {}"

lemma step_call_nodes: "call_node ` set (snd (run_step_with_retry env spawn n)) \<subseteq> {tn_id n}"
proof
  fix i assume "i \<in> call_node ` set (snd (run_step_with_retry env spawn n))"
  then obtain c where "c \<in> set (snd (run_step_with_retry env spawn n))" "i = call_node c" by auto
  then show "i \<in> {tn_id n}" using run_step_calls [of env spawn n] by auto
qed

lemma graph_inv_record:
  assumes inv: "graph_inv env ask nm0 D run" and v: "v \<notin> set (dkeys (gr_completed run))" "v \<notin> gr_cancelled run"
    "v \<in> set (dkeys nm0)" and ok: "deps_ok env nm0 (gr_completed run) v" "approved_as ask nm0 v"
    and c: "distinct calls" "call_node ` set calls \<subseteq> {v}"
  shows "graph_inv env ask nm0 (insert v D) (record_result v r calls run)"
proof -
  let ?c = "dset v r (gr_completed run)"
  have k: "kept (gr_completed run) ?c" by (rule kept_dset) fact
  then have d: "deps_ok env nm0 (gr_completed run) w \<Longrightarrow> deps_ok env nm0 ?c w" for w
    using deps_ok_kept by blast
  have vo: "v \<notin> set (gr_order run)" using inv v(1) by (auto simp: graph_inv_def)
  have "call_node ` set (gr_calls run) \<subseteq> set (gr_order run)" using inv by (simp add: graph_inv_def)
  then have cc: "set (gr_calls run) \<inter> set calls = {}" using vo c(2) by fastforce
  have keys: "set (dkeys ?c) = insert v (set (dkeys (gr_completed run)))" by simp
  have dd: "\<forall>w \<in> set (gr_order run @ [v]). deps_ok env nm0 ?c w \<and> approved_as ask nm0 w"
    using inv ok d by (simp add: graph_inv_def)
  have f: "gr_node_map (record_result v r calls run) = gr_node_map run"
    "gr_completed (record_result v r calls run) = ?c"
    "gr_order (record_result v r calls run) = gr_order run @ [v]"
    "gr_calls (record_result v r calls run) = gr_calls run @ calls"
    "gr_cancelled (record_result v r calls run) = gr_cancelled run"
    by (simp_all add: record_result_def)
  show ?thesis
    unfolding graph_inv_def f keys
  proof (intro conjI)
    show "\<forall>w \<in> set (gr_order run @ [v]). deps_ok env nm0 ?c w \<and> approved_as ask nm0 w" by (rule dd)
    show "distinct (gr_calls run @ calls)" using inv c(1) cc by (simp add: graph_inv_def)
    show "call_node ` set (gr_calls run @ calls) \<subseteq> set (gr_order run @ [v])"
      using inv c(2) by (auto simp: graph_inv_def)
    show "distinct (gr_order run @ [v])" using inv vo by (simp add: graph_inv_def)
  qed (use inv v in \<open>auto simp: graph_inv_def\<close>)
qed

lemma pending_step:
  assumes p: "pending env ask nm0 D (t # ts) run"
    and c: "calls = snd (run_step_with_retry env spawn (snd t))"
  shows "pending env ask nm0 (insert (fst t) D) ts (record_result (fst t) r calls run)"
proof -
  have inv: "graph_inv env ask nm0 D run" and ok: "tasks_ok env ask nm0 (gr_completed run) (t # ts)"
    and v: "fst t \<notin> set (dkeys (gr_completed run))" "fst t \<notin> gr_cancelled run" "fst t \<in> set (dkeys nm0)"
    and ts: "fst ` set ts \<subseteq> set (dkeys nm0)" "fst ` set ts \<inter> (set (dkeys (gr_completed run)) \<union> gr_cancelled run) = {}"
    using p by (auto simp: pending_def)
  have t: "deps_ok env nm0 (gr_completed run) (fst t)" "approved_as ask nm0 (fst t)" "tn_id (snd t) = fst t"
    "fst t \<notin> fst ` set ts"
    using ok by (auto simp: tasks_ok_def)
  have "distinct calls" using run_step_calls [of env spawn "snd t"] c by simp
  moreover have "call_node ` set calls \<subseteq> {fst t}" using step_call_nodes [of env spawn "snd t"] c t(3) by simp
  ultimately have i: "graph_inv env ask nm0 (insert (fst t) D) (record_result (fst t) r calls run)"
    using graph_inv_record [OF inv v t(1,2)] by blast
  have k: "kept (gr_completed run) (gr_completed (record_result (fst t) r calls run))"
    using kept_dset [OF v(1)] by (simp add: record_result_def)
  have "tasks_ok env ask nm0 (gr_completed (record_result (fst t) r calls run)) ts"
    using ok deps_ok_kept [OF _ k] by (auto simp: tasks_ok_def)
  with i ts t(4) show ?thesis by (auto simp: pending_def record_result_def)
qed

lemma pending_fold:
  "pending env ask nm0 D (b @ ts) run \<Longrightarrow>
   pending env ask nm0 (D \<union> fst ` set b) ts (fold (run_member env spawn) b run)"
proof (induction b arbitrary: D run)
  case (Cons t b)
  have "pending env ask nm0 (insert (fst t) D) (b @ ts) (run_member env spawn t run)"
    unfolding run_member_def case_prod_beta by (rule pending_step) (use Cons.prems in simp_all)
  from Cons.IH [OF this] show ?case by simp
qed simp

lemma pending_batch:
  assumes "pending env ask nm0 D (b @ ts) run" "run_batch env spawn b run = Inr run'"
  shows "pending env ask nm0 (D \<union> fst ` set b) ts run'"
proof (cases "\<exists>v n. b = [(v, n)]")
  case True
  then obtain v n where b: "b = [(v, n)]" by blast
  obtain r where r: "fst (run_step_with_retry env spawn n) = Inr r"
    "run' = record_result v r (snd (run_step_with_retry env spawn n)) run"
    using assms(2) by (auto simp: run_batch_def b split: prod.splits sum.splits)
  from pending_step [of env ask nm0 D "(v, n)" ts run, OF _ refl] assms(1) r(2) b
  show ?thesis by simp
next
  case False
  then have "run_batch env spawn b run = Inr (fold (run_member env spawn) b run)"
    by (auto simp: run_batch_def split: list.splits)
  with assms(2) have "run' = fold (run_member env spawn) b run" by simp
  with pending_fold [OF assms(1), of spawn] show ?thesis by simp
qed

lemma pending_batches:
  "pending env ask nm0 D (concat bs) run \<Longrightarrow> run_batches env spawn bs run = Inr run' \<Longrightarrow>
   pending env ask nm0 (D \<union> fst ` set (concat bs)) [] run'"
proof (induction bs arbitrary: D run)
  case (Cons b bs)
  obtain run1 where r: "run_batch env spawn b run = Inr run1" "run_batches env spawn bs run1 = Inr run'"
    using Cons.prems(2) by (auto split: sum.splits)
  have "pending env ask nm0 (D \<union> fst ` set b) (concat bs) run1"
    using pending_batch r(1) Cons.prems(1) by simp
  from Cons.IH [OF this r(2)] show ?case by (simp add: Un_assoc image_Un)
qed simp

lemma concat_chunks: "0 < k \<Longrightarrow> concat (chunks k xs) = xs"
  by (induction k xs rule: chunks.induct) (subst chunks.simps, auto)

lemma concat_batches: "concat (split_layer_batches ts serial mp) = ts"
proof -
  have "concat (map (\<lambda>t. [t]) ts) = ts" by (induction ts) auto
  then show ?thesis by (simp add: split_layer_batches_def concat_chunks split: option.splits)
qed

section \<open>Routing\<close>

lemma router_cancels:
  assumes "apply_node_router nm v n r C = (errs, C')"
  shows "C \<subseteq> C' \<and> C' \<subseteq> C \<union> set (map tn_id (direct_dependents nm v))"
  using assms
  by (auto simp: apply_node_router_def cancel_direct_dependents_def Let_def
      split: option.splits if_splits prod.splits)

lemma route_node_inv:
  assumes inv: "graph_inv env ask nm0 D run" and v: "v \<in> set (dkeys nm0)"
    and later: "\<forall>w \<in> D. v \<notin> known_deps nm0 w"
  shows "graph_inv env ask nm0 D (route_node v run)"
proof (cases "dget (gr_node_map run) v")
  case (Some n)
  show ?thesis
  proof (cases "dget (gr_completed run) v")
    case r: (Some r)
    obtain errs C where a: "apply_node_router (gr_node_map run) v n r (gr_cancelled run) = (errs, C)" by fastforce
    have s: "shaped nm0 (gr_node_map run)" using inv by (simp add: graph_inv_def)
    note C = router_cancels [OF a]
    have new: "v \<in> known_deps nm0 w" if w: "w \<in> C" "w \<notin> gr_cancelled run" for w
      using w C dependents_shaped [OF s v] by blast
    have "w \<in> set (dkeys nm0)" if w: "w \<in> C" "w \<notin> gr_cancelled run" for w
      using new [OF w] dget_None [of nm0 w] by (auto simp: known_deps_def split: option.splits)
    moreover have gc: "gr_cancelled run \<subseteq> set (dkeys nm0)"
      using inv by (simp add: graph_inv_def del: set_map)
    ultimately have Ck: "C \<subseteq> set (dkeys nm0)" by blast
    have "set (dkeys (gr_completed run)) \<subseteq> D" "set (dkeys (gr_completed run)) \<inter> gr_cancelled run = {}"
      "D \<subseteq> set (dkeys (gr_completed run)) \<union> gr_cancelled run" "D \<subseteq> set (dkeys nm0)"
      using inv by (simp_all add: graph_inv_def del: set_map)
    then have CD: "set (dkeys (gr_completed run)) \<inter> C = {}" "D \<subseteq> set (dkeys (gr_completed run)) \<union> C"
      "D \<union> C \<subseteq> set (dkeys nm0)"
      using new later C Ck by blast+
    have f: "gr_node_map (route_node v run) = gr_node_map run"
      "gr_completed (route_node v run) = gr_completed run" "gr_order (route_node v run) = gr_order run"
      "gr_calls (route_node v run) = gr_calls run" "gr_cancelled (route_node v run) = C"
      by (simp_all add: route_node_def Some r a)
    show ?thesis using inv CD unfolding graph_inv_def f by (elim conjE, intro conjI)
  qed (use inv in \<open>simp add: route_node_def Some\<close>)
qed (use inv in \<open>simp add: route_node_def\<close>)

lemma route_fold_inv:
  "graph_inv env ask nm0 D run \<Longrightarrow> set vs \<subseteq> set (dkeys nm0) \<Longrightarrow>
   \<forall>v \<in> set vs. \<forall>w \<in> D. v \<notin> known_deps nm0 w \<Longrightarrow> graph_inv env ask nm0 D (fold route_node vs run)"
proof (induction vs arbitrary: run)
  case (Cons v vs)
  have "graph_inv env ask nm0 D (route_node v run)"
    by (rule route_node_inv) (use Cons.prems in \<open>simp_all del: set_map\<close>)
  with Cons show ?case by simp
qed simp

section \<open>Layers and the whole run\<close>

definition closed_under_deps :: "(string, task_node) dict \<Rightarrow> string set \<Rightarrow> bool" where
  "closed_under_deps nm0 D \<longleftrightarrow> (\<forall>w \<in> D. known_deps nm0 w \<subseteq> D)"

lemma run_layer_inv:
  assumes inv: "graph_inv env ask nm0 D run" and l: "layer_ok nm0 D l" and ne: "[] \<notin> set (dkeys nm0)"
    and cl: "closed_under_deps nm0 D" and r: "run_layer env ask spawn serial mp l run = Inr run'"
  shows "graph_inv env ask nm0 (D \<union> set l) run'"
proof -
  obtain ts run1 where p: "prepare_layer env ask run l = (ts, run1)" by fastforce
  note P = prepare_layer_inv [OF inv l ne p]
  show ?thesis
  proof (cases "ts = []")
    case True
    with r p have "run' = run1" by (simp add: run_layer_def)
    with P True show ?thesis by simp
  next
    case False
    then obtain run2 where b: "run_batches env spawn (split_layer_batches ts serial mp) run1 = Inr run2"
      and run': "run' = fold route_node (map fst ts) run2"
      using r p by (auto simp: run_layer_def split: sum.splits)
    have lk: "set l \<subseteq> set (dkeys nm0)" "set l \<inter> D = {}" "\<forall>v \<in> set l. known_deps nm0 v \<subseteq> D"
      using l by (auto simp: layer_ok_def)
    have "pending env ask nm0 (D \<union> (set l - fst ` set ts)) ts run1"
      using P lk(1) by (auto simp: pending_def)
    then have "pending env ask nm0 (D \<union> (set l - fst ` set ts)) (concat (split_layer_batches ts serial mp)) run1"
      by (simp add: concat_batches)
    from pending_batches [OF this b]
    have "graph_inv env ask nm0 (D \<union> (set l - fst ` set ts) \<union> fst ` set ts) run2"
      by (simp add: pending_def concat_batches)
    moreover have "D \<union> (set l - fst ` set ts) \<union> fst ` set ts = D \<union> set l" using P by auto
    ultimately have i2: "graph_inv env ask nm0 (D \<union> set l) run2" by simp
    have ts: "set (map fst ts) \<subseteq> set l" using P by auto
    have "v \<notin> known_deps nm0 w" if "v \<in> set (map fst ts)" "w \<in> D \<union> set l" for v w
    proof -
      have "known_deps nm0 w \<subseteq> D" using that(2) cl lk(3) by (auto simp: closed_under_deps_def)
      moreover have "v \<notin> D" using that(1) ts lk(2) by blast
      ultimately show ?thesis by blast
    qed
    then show ?thesis unfolding run' using route_fold_inv [OF i2] ts lk(1) by blast
  qed
qed

fun layers_ok :: "(string, task_node) dict \<Rightarrow> string set \<Rightarrow> string list list \<Rightarrow> bool" where
  "layers_ok nm0 D [] \<longleftrightarrow> True"
| "layers_ok nm0 D (l # ls) \<longleftrightarrow> layer_ok nm0 D l \<and> layers_ok nm0 (D \<union> set l) ls"

lemma run_layers_inv:
  "graph_inv env ask nm0 D run \<Longrightarrow> layers_ok nm0 D ls \<Longrightarrow> [] \<notin> set (dkeys nm0) \<Longrightarrow> closed_under_deps nm0 D \<Longrightarrow>
   run_layers env ask spawn serial mp ls run = Inr run' \<Longrightarrow>
   graph_inv env ask nm0 (D \<union> set (concat ls)) run'"
proof (induction ls arbitrary: D run)
  case (Cons l ls)
  obtain run1 where r: "run_layer env ask spawn serial mp l run = Inr run1"
    "run_layers env ask spawn serial mp ls run1 = Inr run'"
    using Cons.prems(5) by (auto split: sum.splits)
  have l: "layer_ok nm0 D l" "layers_ok nm0 (D \<union> set l) ls" using Cons.prems(2) by simp_all
  have "closed_under_deps nm0 (D \<union> set l)"
    using l(1) Cons.prems(4) by (auto simp: closed_under_deps_def layer_ok_def)
  from Cons.IH [OF run_layer_inv [OF Cons.prems(1) l(1) Cons.prems(3,4) r(1)] l(2) Cons.prems(3) this r(2)]
  show ?case by (simp add: Un_assoc)
qed simp

lemma layers_ok_drop:
  assumes "distinct (concat ls)" "set (concat ls) \<subseteq> set (dkeys nm0)"
    and "\<And>i v u. i < length ls \<Longrightarrow> v \<in> set (ls ! i) \<Longrightarrow> u \<in> known_deps nm0 v \<Longrightarrow> \<exists>j < i. u \<in> set (ls ! j)"
  shows "layers_ok nm0 (set (concat (take k ls))) (drop k ls)"
proof (induction "length ls - k" arbitrary: k)
  case (Suc d)
  then have k: "k < length ls" by simp
  have split: "ls = take k ls @ ls ! k # drop (Suc k) ls" by (rule id_take_nth_drop [OF k])
  have "distinct (concat (take k ls) @ ls ! k @ concat (drop (Suc k) ls))"
    using assms(1) by (subst (asm) split) simp
  then have "distinct (ls ! k)" "set (ls ! k) \<inter> set (concat (take k ls)) = {}" by auto
  moreover have "set (ls ! k) \<subseteq> set (concat ls)" using nth_mem [OF k] by auto
  then have "set (ls ! k) \<subseteq> set (dkeys nm0)" using assms(2) by (rule subset_trans)
  moreover have "u \<in> set (concat (take k ls))" if vu: "v \<in> set (ls ! k)" "u \<in> known_deps nm0 v" for u v
  proof -
    obtain j where j: "j < k" "u \<in> set (ls ! j)" using assms(3) [OF k vu] by blast
    then have "ls ! j \<in> set (take k ls)" using k by (auto simp: in_set_conv_nth intro!: exI [of _ j])
    with j show ?thesis by auto
  qed
  ultimately have "layer_ok nm0 (set (concat (take k ls))) (ls ! k)" by (auto simp: layer_ok_def)
  moreover have "set (concat (take k ls)) \<union> set (ls ! k) = set (concat (take (Suc k) ls))"
    using k by (simp add: take_Suc_conv_app_nth)
  moreover have "layers_ok nm0 (set (concat (take (Suc k) ls))) (drop (Suc k) ls)"
    using Suc.hyps by (intro Suc.hyps(1)) simp
  ultimately show ?case using k by (simp add: Cons_nth_drop_Suc [symmetric])
qed simp

lemma sorted_layers_ok:
  assumes "topological_sort nodes = Inr order"
  shows "layers_ok (node_map_of nodes) {} (group_into_layers order (node_map_of nodes))"
    "set (concat (group_into_layers order (node_map_of nodes))) = node_ids nodes"
proof -
  note t = topological_sort_order [OF assms]
  let ?nm = "node_map_of nodes" and ?ls = "group_into_layers order (node_map_of nodes)"
  have m: "mset (concat ?ls) = mset order" by (rule layers_mset)
  then show s: "set (concat ?ls) = node_ids nodes" using t(2) mset_eq_setD by blast
  have d: "distinct (concat ?ls)" using m t(1) by (metis mset_eq_imp_distinct_iff)
  have o: "deps_first (map_rel ?nm) order" using deps_first_mono [OF t(3) map_rel_node_map_of [OF t(4)]] .
  show "layers_ok ?nm {} ?ls"
    using layers_ok_drop [OF d, of ?nm 0] layers_earlier [OF t(1) o] s node_map_of_keys [of nodes] by simp
qed

lemma node_map_of_wf: "dwf (node_map_of nodes)"
proof -
  have "dwf m0 \<Longrightarrow> dwf (fold (\<lambda>n m. dset (tn_id n) n m) nodes m0)" for m0 :: "(string, task_node) dict"
    by (induction nodes arbitrary: m0) auto
  then show ?thesis by (simp add: node_map_of_def)
qed

lemma start_run_inv:
  assumes "distinct (map tn_id nodes)"
  shows "graph_inv env ask (node_map_of nodes) {} (start_run nodes)"
proof -
  have "tn_id n = v" if "dget (node_map_of nodes) v = Some n" for v n
    using that by (auto simp: node_map_of_get [OF assms] find_Some_iff)
  then show ?thesis by (simp add: graph_inv_def start_run_def shaped_def node_map_of_wf)
qed

lemma run_graph_inv:
  assumes r: "run_graph env ask spawn nodes mp serial = Inr run" and ne: "[] \<notin> node_ids nodes"
  obtains order where "topological_sort nodes = Inr order"
    "graph_inv env ask (node_map_of nodes) (node_ids nodes) run"
proof -
  obtain order where o: "topological_sort nodes = Inr order"
    using r by (auto simp: run_graph_def split: if_splits sum.splits)
  obtain mp' where l: "run_layers env ask spawn serial mp' (group_into_layers order (node_map_of nodes)) (start_run nodes) = Inr run"
    using r o by (auto simp: run_graph_def Let_def split: if_splits)
  have "graph_inv env ask (node_map_of nodes) ({} \<union> set (concat (group_into_layers order (node_map_of nodes)))) run"
    by (rule run_layers_inv [OF start_run_inv [OF topological_sort_order(4) [OF o]] sorted_layers_ok(1) [OF o] _ _ l])
      (use ne node_map_of_keys [of nodes] in \<open>simp_all add: closed_under_deps_def\<close>)
  then show thesis using that [OF o] sorted_layers_ok(2) [OF o] by simp
qed

text \<open>After a run nothing is left for \<open>finalize_unexecuted_nodes\<close> to do.\<close>

lemma finalize_noop:
  "set order \<subseteq> set (dkeys completed) \<union> C \<Longrightarrow> finalize_unexecuted_nodes nm C order (completed, errors) = (completed, errors)"
  by (induction order) (auto simp: finalize_unexecuted_nodes_def finalize_node_def)

lemma execute_graph_run:
  assumes "execute_graph env ask spawn nodes mp serial = Inr res" "[] \<notin> node_ids nodes"
  obtains run where "run_graph env ask spawn nodes mp serial = Inr run"
    "graph_inv env ask (node_map_of nodes) (node_ids nodes) run"
    "tg_nodes res = gr_completed run" "tg_execution_order res = gr_order run"
    "tg_error res = join ''; '' (gr_errors run)"
    "tg_success res \<longleftrightarrow> gr_errors run = [] \<and> graph_all_required_ok env (gr_completed run) (gr_node_map run)"
proof -
  obtain run where r: "run_graph env ask spawn nodes mp serial = Inr run"
    using assms(1) by (auto simp: execute_graph_def split: sum.splits)
  from r assms(2) obtain order where o: "topological_sort nodes = Inr order"
    and inv: "graph_inv env ask (node_map_of nodes) (node_ids nodes) run" by (rule run_graph_inv)
  have "set order \<subseteq> set (dkeys (gr_completed run)) \<union> gr_cancelled run"
    using topological_sort_order(2) [OF o] inv by (simp add: graph_inv_def)
  note f = finalize_noop [OF this]
  have "res = graph_result env order run" using assms(1) r o by (simp add: execute_graph_def)
  then show thesis using that [OF r inv] by (simp add: graph_result_def f)
qed

section \<open>Answers\<close>

text \<open>Agents answer: \<open>spawn_agent_loud\<close> turns every exception of an agent into a failed result.\<close>

definition answers :: "spawner \<Rightarrow> bool" where
  "answers spawn \<longleftrightarrow> (\<forall>c cfg. \<exists>r. spawn c cfg = Inr r)"

lemma try_attempts_answers: "answers spawn \<Longrightarrow> \<exists>er. fst (try_attempts env spawn n prev ks) = Inr er"
proof (induction ks arbitrary: prev)
  case (Cons k ks)
  then obtain r where "spawn (Attempt (tn_id n) k) (tn_config n) = Inr r" by (metis answers_def)
  with Cons show ?case by (auto simp: Let_def case_prod_beta)
qed auto

lemma rescue_parts_answers: "answers spawn \<Longrightarrow> \<exists>ps. fst (rescue_parts spawn i k cfgs) = Inr ps"
proof (induction cfgs arbitrary: k)
  case (Cons c cfgs)
  then obtain r where "spawn (Rescue i k) c = Inr r" by (metis answers_def)
  moreover obtain ps where "fst (rescue_parts spawn i (Suc k) cfgs) = Inr ps" using Cons by blast
  ultimately show ?case by (simp add: Let_def case_prod_beta)
qed simp

lemma run_step_answers: "answers spawn \<Longrightarrow> \<exists>r. fst (run_step_with_retry env spawn n) = Inr r"
proof -
  assume a: "answers spawn"
  define m where "m = interpolate_workflow_task env n"
  obtain er where t: "fst (try_attempts env spawn m (mk_result False [] ''No attempts'') [0..<nat (tn_max_retries n)]) = Inr er"
    using try_attempts_answers [OF a] by blast
  obtain ps where "fst (rescue_parts spawn (tn_id m) 0 (tn_rescue_configs m)) = Inr ps"
    using rescue_parts_answers [OF a] by blast
  then have "\<exists>r'. fst (run_rescue_steps env spawn m r) = Inr r'" for r
    by (simp add: run_rescue_steps_def case_prod_beta)
  with t show ?thesis unfolding run_step_eq
    by (auto simp: after_attempts_def case_prod_beta simp flip: m_def split: prod.splits)
qed

lemma run_batch_answers: "answers spawn \<Longrightarrow> \<exists>run'. run_batch env spawn b run = Inr run'"
proof (cases "\<exists>v n. b = [(v, n)]")
  case True
  assume a: "answers spawn"
  from True obtain v n where b: "b = [(v, n)]" by blast
  obtain r where "fst (run_step_with_retry env spawn n) = Inr r" using run_step_answers [OF a] by blast
  then show ?thesis by (cases "run_step_with_retry env spawn n") (auto simp: run_batch_def b)
qed (auto simp: run_batch_def split: list.splits)

lemma run_batches_answers: "answers spawn \<Longrightarrow> \<exists>run'. run_batches env spawn bs run = Inr run'"
proof (induction bs arbitrary: run)
  case (Cons b bs)
  obtain run1 where "run_batch env spawn b run = Inr run1" using run_batch_answers Cons.prems by blast
  with Cons show ?case by simp
qed simp

lemma run_layers_answers: "answers spawn \<Longrightarrow> \<exists>run'. run_layers env ask spawn serial mp ls run = Inr run'"
proof (induction ls arbitrary: run)
  case (Cons l ls)
  have "\<exists>run1. run_layer env ask spawn serial mp l run = Inr run1"
  proof -
    obtain ts run0 where p: "prepare_layer env ask run l = (ts, run0)" by fastforce
    obtain run2 where "run_batches env spawn (split_layer_batches ts serial mp) run0 = Inr run2"
      using run_batches_answers Cons.prems by blast
    with p show ?thesis by (simp add: run_layer_def)
  qed
  then obtain run1 where "run_layer env ask spawn serial mp l run = Inr run1" ..
  with Cons show ?case by simp
qed simp

section \<open>Properties of an execution\<close>

text \<open>
  C18: dependency and approval safety: in the result of \<open>execute_graph\<close>, every node that ran
  ran once, each node of the graph it depends on has a result that is a success (or a failure
  of a node marked optional, when the flag is on), and a node that requires approval was
  approved.
\<close>

theorem graph_runs_after_dependencies:
  assumes "execute_graph env ask spawn nodes mp serial = Inr res" and "[] \<notin> node_ids nodes"
  shows "distinct (tg_execution_order res) \<and>
    (\<forall>v \<in> set (tg_execution_order res).
       deps_ok env (node_map_of nodes) (tg_nodes res) v \<and> approved_as ask (node_map_of nodes) v)"
proof -
  from assms obtain run where "graph_inv env ask (node_map_of nodes) (node_ids nodes) run"
    "tg_nodes res = gr_completed run" "tg_execution_order res = gr_order run" by (rule execute_graph_run)
  then show ?thesis by (simp add: graph_inv_def)
qed

text \<open>
  C22: every node is accounted for: after a run, each node of the graph either has a result or
  was cancelled by a router, never both; so \<open>finalize_unexecuted_nodes\<close> adds nothing, the
  error text holds router errors only, and success means that there are none and every result
  is a success or belongs to an optional node.
\<close>

theorem graph_accounts_for_every_node:
  assumes "execute_graph env ask spawn nodes mp serial = Inr res" and "[] \<notin> node_ids nodes"
  shows "\<exists>run. run_graph env ask spawn nodes mp serial = Inr run \<and>
    set (dkeys (tg_nodes res)) \<union> gr_cancelled run = set (map tn_id nodes) \<and>
    set (dkeys (tg_nodes res)) \<inter> gr_cancelled run = {} \<and>
    tg_error res = join ''; '' (gr_errors run) \<and>
    (tg_success res \<longleftrightarrow> gr_errors run = [] \<and>
       (\<forall>(v, r) \<in> set (tg_nodes res). ar_success r \<or> is_optional env (node_map_of nodes) v))"
proof -
  from assms obtain run where r: "run_graph env ask spawn nodes mp serial = Inr run"
    and inv: "graph_inv env ask (node_map_of nodes) (node_ids nodes) run"
    and res: "tg_nodes res = gr_completed run" "tg_error res = join ''; '' (gr_errors run)"
      "tg_success res \<longleftrightarrow> gr_errors run = [] \<and> graph_all_required_ok env (gr_completed run) (gr_node_map run)"
    by (rule execute_graph_run)
  have keys: "set (dkeys (gr_completed run)) \<subseteq> node_ids nodes" "gr_cancelled run \<subseteq> node_ids nodes"
    "node_ids nodes \<subseteq> set (dkeys (gr_completed run)) \<union> gr_cancelled run"
    "set (dkeys (gr_completed run)) \<inter> gr_cancelled run = {}"
    using inv by (simp_all add: graph_inv_def node_map_of_keys del: set_map)
  have s: "shaped (node_map_of nodes) (gr_node_map run)" using inv by (simp add: graph_inv_def)
  have "is_optional env (gr_node_map run) v = is_optional env (node_map_of nodes) v"
    if "(v, r) \<in> set (gr_completed run)" for v r
  proof -
    have "v \<in> set (dkeys (gr_completed run))" using that by force
    then show ?thesis using shaped_optional [OF s] keys(1) node_map_of_keys by blast
  qed
  then have "graph_all_required_ok env (gr_completed run) (gr_node_map run) \<longleftrightarrow>
      (\<forall>(v, r) \<in> set (gr_completed run). ar_success r \<or> is_optional env (node_map_of nodes) v)"
    by (auto simp: graph_all_required_ok_def list_all_iff)
  then have ok: "tg_success res \<longleftrightarrow> gr_errors run = [] \<and>
      (\<forall>(v, r) \<in> set (tg_nodes res). ar_success r \<or> is_optional env (node_map_of nodes) v)"
    by (simp only: res)
  have un: "set (dkeys (gr_completed run)) \<union> gr_cancelled run = set (map tn_id nodes)"
    unfolding node_ids_def [symmetric] by (rule subset_antisym) (rule Un_least [OF keys(1,2)], rule keys(3))
  show ?thesis
  proof (intro exI conjI)
    show "run_graph env ask spawn nodes mp serial = Inr run" by (rule r)
    show "set (dkeys (tg_nodes res)) \<union> gr_cancelled run = set (map tn_id nodes)" unfolding res(1) by (rule un)
    show "set (dkeys (tg_nodes res)) \<inter> gr_cancelled run = {}" unfolding res(1) by (rule keys(4))
    show "tg_error res = join ''; '' (gr_errors run)" by (rule res(2))
  qed (rule ok)
qed

text \<open>
  C28: liveness: when every agent call answers, \<open>execute_graph\<close> returns a result exactly for
  the graphs of at most 50 nodes with distinct ids and acyclic dependencies; the other graphs
  are refused with an error before any agent is spawned.
\<close>

theorem graph_returns_iff:
  assumes "answers spawn"
  shows "(\<exists>res. execute_graph env ask spawn nodes mp serial = Inr res) \<longleftrightarrow>
    length nodes \<le> 50 \<and> distinct (map tn_id nodes) \<and> acyclic (dep_rel nodes)"
proof (cases "\<exists>order. topological_sort nodes = Inr order")
  case True
  then obtain order where o: "topological_sort nodes = Inr order" ..
  obtain run where "run_layers env ask spawn serial (case mp of None \<Rightarrow> Some (workflow_max_parallel_default env) | Some m \<Rightarrow> Some m)
      (group_into_layers order (node_map_of nodes)) (start_run nodes) = Inr run"
    using run_layers_answers [OF assms] by blast
  with o topological_sort_succeeds [of nodes] show ?thesis
    by (auto simp: execute_graph_def run_graph_def max_dag_nodes_def Let_def)
next
  case False
  then obtain e where "topological_sort nodes = Inl e" by (cases "topological_sort nodes") auto
  with False topological_sort_succeeds [of nodes] show ?thesis
    by (auto simp: execute_graph_def run_graph_def split: sum.splits if_splits)
qed

text \<open>
  no agent call is made twice in a run of a graph, and calls are made only for nodes in
  the execution order, that is, for nodes that were ready.
\<close>

theorem graph_calls_once:
  assumes "run_graph env ask spawn nodes mp serial = Inr run" and "[] \<notin> node_ids nodes"
  shows "distinct (gr_calls run) \<and> call_node ` set (gr_calls run) \<subseteq> set (gr_order run) \<and>
    set (gr_order run) \<inter> gr_cancelled run = {}"
proof -
  from assms obtain order where "graph_inv env ask (node_map_of nodes) (node_ids nodes) run"
    by (rule run_graph_inv)
  then show ?thesis by (auto simp: graph_inv_def)
qed

text \<open>
  finding: a router that raises an exception with an empty message (such as a failed
  \<open>assert\<close>) is taken for a router that answered nothing: no error is reported and no
  dependent is cancelled, although any other exception cancels them all.
\<close>

theorem silent_router_failure:
  assumes "tn_router n = Some router" and "ar_success r" and "router r = Inl exc"
  shows "apply_node_router nm nid n r C =
    (if exc = [] then ([], C)
     else ([''Router for '' @ pyrepr (JStr nid) @ '' failed: '' @ exc], cancel_direct_dependents nm nid C))"
  using assms by (simp add: apply_node_router_def run_node_router_safe_def Let_def)

section \<open>Chains and the registry\<close>

text \<open>
  a sequential chain stops at the first failure: every result but the last is a success,
  and either all agents ran or the last one failed.
\<close>

theorem chain_stops_at_failure:
  "(\<forall>r \<in> set (butlast (spawn_sequential spawn cfgs p)). ar_success r) \<and>
   length (spawn_sequential spawn cfgs p) \<le> length cfgs \<and>
   (length (spawn_sequential spawn cfgs p) < length cfgs \<longrightarrow>
     spawn_sequential spawn cfgs p \<noteq> [] \<and> \<not> ar_success (last (spawn_sequential spawn cfgs p)))"
proof -
  have "(\<forall>r \<in> set (butlast (spawn_chain spawn p k acc cfgs)). ar_success r) \<and>
     length (spawn_chain spawn p k acc cfgs) \<le> length cfgs \<and>
     (length (spawn_chain spawn p k acc cfgs) < length cfgs \<longrightarrow>
        spawn_chain spawn p k acc cfgs \<noteq> [] \<and> \<not> ar_success (last (spawn_chain spawn p k acc cfgs)))" for k acc
    by (induction cfgs arbitrary: k acc) (auto simp: Let_def)
  then show ?thesis by (simp add: spawn_sequential_def)
qed

lemma fold_dpop_get: "dget (fold dpop ks d) k = (if k \<in> set ks then None else dget d k)"
  by (induction ks arbitrary: d) auto

text \<open>
  finding: the pruning of the registry of spawned tasks looks for the states
  ''completed'', ''error'' and ''cancelled'', but a failed task is in state ''failed'': a
  task that failed is never dropped, however many tasks are registered.
\<close>

theorem failed_tasks_never_pruned:
  assumes "dwf tasks" and "dget tasks k = Some FAILED" and "k \<noteq> new_id"
  shows "dget (register_task new_id tasks) k = Some FAILED"
proof -
  let ?f = "filter (\<lambda>(k, st). status_text st \<in> {''completed'', ''error'', ''cancelled''}) tasks"
  have "k \<notin> set (dkeys ?f)"
  proof
    assume "k \<in> set (dkeys ?f)"
    then obtain st where st: "(k, st) \<in> set tasks" "status_text st \<in> {''completed'', ''error'', ''cancelled''}" by auto
    then have "st = FAILED" using dwf_dget [OF assms(1)] assms(2) by auto
    with st(2) show False by simp
  qed
  then have "k \<notin> set (take 100 (dkeys ?f))" using set_take_subset by fast
  with assms show ?thesis by (simp add: register_task_def Let_def fold_dpop_get del: set_map)
qed

section \<open>Concrete inputs\<close>

text \<open>The diamond with an approval on the join, a failing optional branch and a router.\<close>

definition demo_graph :: "task_node list" where
  "demo_graph = [mk_node ''root'' (mk_config ''dev'' ''root'') [],
     (mk_node ''left'' (mk_config ''dev'' ''left'') [''root''])\<lparr>tn_max_retries := 2\<rparr>,
     (mk_node ''right'' (mk_config ''dev'' ''right'') [''root''])\<lparr>tn_optional := True\<rparr>,
     (mk_node ''join'' (mk_config ''review'' ''join'') [''left'', ''right''])\<lparr>tn_requires_approval := True, tn_max_retries := 2\<rparr>]"

definition demo_agents :: spawner where
  "demo_agents call cfg = (if sc_task cfg = ''root'' then Inr (mk_result True ''ready'' []) else demo_spawn call cfg)"

definition demo_ask :: approver where
  "demo_ask = Some (\<lambda>n. tn_id n = ''join'')"

lemma demo_answers: "answers demo_agents"
  by (auto simp: answers_def demo_agents_def demo_spawn_def split: spawn_call.splits)

definition demo_run :: graph_run where
  "demo_run = projr (run_graph demo_we demo_ask demo_agents demo_graph None False)"

definition demo_res :: task_graph_result where
  "demo_res = projr (execute_graph demo_we demo_ask demo_agents demo_graph None False)"

lemma demo_run_eq: "run_graph demo_we demo_ask demo_agents demo_graph None False = Inr demo_run"
proof -
  have "\<not> isl (run_graph demo_we demo_ask demo_agents demo_graph None False)" by code_simp
  then show ?thesis by (simp add: demo_run_def)
qed

lemma demo_res_eq: "execute_graph demo_we demo_ask demo_agents demo_graph None False = Inr demo_res"
proof -
  have "\<not> isl (execute_graph demo_we demo_ask demo_agents demo_graph None False)" by code_simp
  then show ?thesis by (simp add: demo_res_def)
qed

lemma demo_ids: "[] \<notin> node_ids demo_graph"
  by code_simp

theorem graph_runs_after_dependencies_witness:
  "tg_execution_order demo_res = [''root'', ''left'', ''right'', ''join''] \<and>
   deps_ok demo_we (node_map_of demo_graph) (tg_nodes demo_res) ''join'' \<and>
   approved_as demo_ask (node_map_of demo_graph) ''join''"
proof -
  have o: "tg_execution_order demo_res = [''root'', ''left'', ''right'', ''join'']" by code_simp
  with graph_runs_after_dependencies [OF demo_res_eq demo_ids] show ?thesis by simp
qed

theorem graph_accounts_for_every_node_witness:
  "\<exists>run. run_graph demo_we demo_ask demo_agents demo_graph None False = Inr run \<and>
    set (dkeys (tg_nodes demo_res)) \<union> gr_cancelled run = set (map tn_id demo_graph)"
  using graph_accounts_for_every_node [OF demo_res_eq demo_ids] by blast

theorem graph_returns_iff_witness:
  "(\<exists>res. execute_graph demo_we demo_ask demo_agents demo_graph None False = Inr res) \<longleftrightarrow>
    length demo_graph \<le> 50 \<and> distinct (map tn_id demo_graph) \<and> acyclic (dep_rel demo_graph)"
  by (rule graph_returns_iff [OF demo_answers])

theorem graph_calls_once_witness:
  "gr_calls demo_run = [Attempt ''root'' 0, Attempt ''left'' 0, Attempt ''left'' 1, Attempt ''right'' 0,
     Attempt ''join'' 0, Attempt ''join'' 1] \<and>
   call_node ` set (gr_calls demo_run) \<subseteq> set (gr_order demo_run)"
proof
  show "call_node ` set (gr_calls demo_run) \<subseteq> set (gr_order demo_run)"
    using graph_calls_once [OF demo_run_eq demo_ids] by blast
qed code_simp

theorem silent_router_failure_witness:
  "apply_node_router (node_map_of demo_graph) ''root'' ((mk_node ''root'' (mk_config ''dev'' ''root'') [])\<lparr>tn_router := Some (\<lambda>_. Inl [])\<rparr>)
     (mk_result True [] []) {} = ([], {})"
  by (simp add: silent_router_failure [of _ "\<lambda>_. Inl []" _ "[]"] mk_result_def)

definition demo_chain :: "agent_result list" where
  "demo_chain = spawn_sequential (\<lambda>k _. mk_result (k = 0) ''answer'' [])
     [mk_config ''dev'' ''a'', mk_config ''dev'' ''b'', mk_config ''dev'' ''c''] True"

theorem chain_stops_at_failure_witness: "length demo_chain = 2 \<and> \<not> ar_success (last demo_chain)"
proof -
  have l: "length demo_chain = 2" by code_simp
  then show ?thesis
    using chain_stops_at_failure [of "\<lambda>k _. mk_result (k = 0) ''answer'' []"
        "[mk_config ''dev'' ''a'', mk_config ''dev'' ''b'', mk_config ''dev'' ''c'']" True]
    unfolding demo_chain_def [symmetric] by simp
qed

theorem failed_tasks_never_pruned_witness:
  "dget (register_task ''new'' [(''a'', FAILED), (''b'', COMPLETED)]) ''a'' = Some FAILED"
  by (rule failed_tasks_never_pruned) (simp_all add: dwf_def)

end
