(* ===== verification/Message_Queue.thy ===== *)
theory Message_Queue
  imports Json_Values
begin

text \<open>
  The priority queue of inbound messages of each gateway session
  (\<open>resilience/message_queue.py\<close>, its persistence in \<open>message_queue_ops.py\<close>), the settings it
  reads (\<open>gateway/queue_settings.py\<close>, \<open>configuration/gateway.py\<close>), the drain after a turn
  (\<open>gateway/inbound_drain.py\<close>) and the session keys that name the queues
  (\<open>session/keys.py\<close>).  The clock and the fresh ids are arguments of the operations; the
  persisted files are part of the state, one list of rows per file.
\<close>

section \<open>Session keys\<close>

text \<open>\<open>s.split(c, 1)\<close> on a one character separator: the text before it, and the rest if there is one.\<close>

definition split_first :: "char \<Rightarrow> string \<Rightarrow> string \<times> string option" where
  "split_first c s = (takeWhile (\<lambda>x. x \<noteq> c) s,
     case dropWhile (\<lambda>x. x \<noteq> c) s of [] \<Rightarrow> None | _ # r \<Rightarrow> Some r)"

text \<open>\<open>s.split('::', 1)[0]\<close>.\<close>

fun base_session_key :: "string \<Rightarrow> string" where
  "base_session_key (a # b # r) = (if a = CHR '':'' \<and> b = CHR '':'' then [] else a # base_session_key (b # r))"
| "base_session_key r = r"

definition slug_project :: "string \<Rightarrow> string" where
  "slug_project project = strip_or project ''_''"

definition build_session_key :: "string \<Rightarrow> string \<Rightarrow> string \<Rightarrow> string" where
  "build_session_key platform chat_id project =
     strip_or (str_or platform ''unknown'') ''unknown'' @ '':'' @
     strip_or (str_or chat_id ''default'') ''default'' @ '':'' @ slug_project project"

text \<open>\<open>parts = base.split(':', 2)\<close>.\<close>

definition project_from_session_key :: "string \<Rightarrow> string" where
  "project_from_session_key key = (case split_first (CHR '':'') (base_session_key key) of
       (_, None) \<Rightarrow> []
     | (_, Some r) \<Rightarrow> (case split_first (CHR '':'') r of
         (_, None) \<Rightarrow> [] | (_, Some slug) \<Rightarrow> if slug = ''_'' then [] else slug))"

definition chat_id_from_session_key :: "string \<Rightarrow> string" where
  "chat_id_from_session_key key = (case split_first (CHR '':'') (base_session_key key) of
       (_, None) \<Rightarrow> str_or key ''default'' | (_, Some r) \<Rightarrow> fst (split_first (CHR '':'') r))"

section \<open>Settings\<close>

record queue_env =
  qe_os :: os_env
  qe_yaml :: "(string, jval) dict"                     \<comment> \<open>\<open>gateway.queue\<close> of \<open>config.yaml\<close>\<close>
  qe_override :: "string \<Rightarrow> (string, jval) dict"        \<comment> \<open>the override file of a session\<close>
  qe_word :: "string \<Rightarrow> bool"                          \<comment> \<open>\<open>\w\<close> on characters beyond ASCII\<close>

definition valid_modes :: "string set" where
  "valid_modes = {''followup'', ''collect'', ''interrupt'', ''steer''}"

definition valid_drops :: "string set" where
  "valid_drops = {''summarize'', ''old'', ''new''}"

definition yaml_choice :: "string set \<Rightarrow> string \<Rightarrow> (string, jval) dict \<Rightarrow> string \<Rightarrow> string" where
  "yaml_choice valid k raw d = (let v = lower (strip (str_field raw k d)) in if v \<in> valid then v else d)"

definition queue_cap_from_raw :: "(string, jval) dict \<Rightarrow> int" where
  "queue_cap_from_raw raw = (case dget raw ''cap'' of
       None \<Rightarrow> 20 | Some v \<Rightarrow> (case int_of_jval v of Some n \<Rightarrow> max 1 n | None \<Rightarrow> 20))"

text \<open>\<open>resolve_gateway_queue_config\<close>, field by field.\<close>

definition queue_cap :: "queue_env \<Rightarrow> int" where
  "queue_cap env = int_env (qe_os env) ''BUTLER_GATEWAY_QUEUE_CAP'' (queue_cap_from_raw (qe_yaml env)) 1"

definition env_choice :: "queue_env \<Rightarrow> string \<Rightarrow> string set \<Rightarrow> string \<Rightarrow> string \<Rightarrow> string" where
  "env_choice env name valid yaml_value d = (let
       raw = (case qe_os env name of Some v \<Rightarrow> str_or v yaml_value | None \<Rightarrow> yaml_value);
       v = lower (strip raw)
     in if v \<in> valid then v else d)"

definition queue_drop_policy :: "queue_env \<Rightarrow> string" where
  "queue_drop_policy env = env_choice env ''BUTLER_GATEWAY_QUEUE_DROP'' valid_drops
     (yaml_choice valid_drops ''drop'' (qe_yaml env) ''summarize'') ''summarize''"

definition default_queue_mode :: "queue_env \<Rightarrow> string" where
  "default_queue_mode env = env_choice env ''BUTLER_GATEWAY_QUEUE_MODE'' valid_modes
     (yaml_choice valid_modes ''mode'' (qe_yaml env) ''followup'') ''followup''"

definition session_queue_cap :: "queue_env \<Rightarrow> string \<Rightarrow> int" where
  "session_queue_cap env key = (case int_of_jval (jget (qe_override env key) ''cap'') of
       Some n \<Rightarrow> max 1 n | None \<Rightarrow> queue_cap env)"

definition session_drop_policy :: "queue_env \<Rightarrow> string \<Rightarrow> string" where
  "session_drop_policy env key = (let v = lower (strip (str_field (qe_override env key) ''drop'' [])) in
     if v \<in> valid_drops then v else queue_drop_policy env)"

definition get_queue_mode :: "queue_env \<Rightarrow> string \<Rightarrow> string" where
  "get_queue_mode env key = (let v = lower (strip (str_field (qe_override env key) ''mode'' [])) in
     if v \<in> valid_modes then v else default_queue_mode env)"

definition message_queue_enabled :: "queue_env \<Rightarrow> bool" where
  "message_queue_enabled env = env_truthy (qe_os env) ''BUTLER_GATEWAY_MESSAGE_QUEUE'' True"

definition queue_persist_enabled :: "queue_env \<Rightarrow> bool" where
  "queue_persist_enabled env = env_truthy (qe_os env) ''BUTLER_GATEWAY_QUEUE_PERSIST'' False"

section \<open>Queues\<close>

datatype priority = PNow | PNext | PLater

text \<open>\<open>_PRIORITY_ORDER\<close>.\<close>

fun prio_rank :: "priority \<Rightarrow> nat" where
  "prio_rank PNow = 0"
| "prio_rank PNext = 1"
| "prio_rank PLater = 2"

instantiation priority :: linorder
begin

definition less_eq_priority :: "priority \<Rightarrow> priority \<Rightarrow> bool" where
  "less_eq_priority p q \<longleftrightarrow> prio_rank p \<le> prio_rank q"

definition less_priority :: "priority \<Rightarrow> priority \<Rightarrow> bool" where
  "less_priority p q \<longleftrightarrow> prio_rank p < prio_rank q"

instance
proof
  fix p q :: priority
  show "p \<le> q \<Longrightarrow> q \<le> p \<Longrightarrow> p = q"
    by (cases p; cases q) (simp_all add: less_eq_priority_def)
qed (auto simp: less_eq_priority_def less_priority_def)

end

record queued =
  qi_text :: string
  qi_priority :: priority
  qi_platform :: string
  qi_external_id :: string
  qi_enqueued_at :: secs
  qi_id :: string

record bucket =
  bk_now :: "queued list"
  bk_next :: "queued list"
  bk_later :: "queued list"

definition empty_bucket :: bucket where
  "empty_bucket = \<lparr>bk_now = [], bk_next = [], bk_later = []\<rparr>"

record mq_state =
  mq_queues :: "(string, bucket) dict"
  mq_last :: "(string, string \<times> secs) dict"
  mq_summaries :: "(string, string list) dict"
  mq_files :: "(string, queued list) dict"

definition mq_start :: mq_state where
  "mq_start = \<lparr>mq_queues = [], mq_last = [], mq_summaries = [], mq_files = []\<rparr>"

definition bucket_total :: "bucket \<Rightarrow> nat" where
  "bucket_total b = length (bk_now b) + length (bk_next b) + length (bk_later b)"

definition bucket_pop_oldest :: "bucket \<Rightarrow> (queued \<times> bucket) option" where
  "bucket_pop_oldest b = (case bk_later b of
       x # r \<Rightarrow> Some (x, b\<lparr>bk_later := r\<rparr>)
     | [] \<Rightarrow> (case bk_next b of
         x # r \<Rightarrow> Some (x, b\<lparr>bk_next := r\<rparr>)
       | [] \<Rightarrow> (case bk_now b of x # r \<Rightarrow> Some (x, b\<lparr>bk_now := r\<rparr>) | [] \<Rightarrow> None)))"

definition bucket_append :: "priority \<Rightarrow> queued \<Rightarrow> bucket \<Rightarrow> bucket" where
  "bucket_append p x b = (case p of
       PNow \<Rightarrow> b\<lparr>bk_now := bk_now b @ [x]\<rparr>
     | PNext \<Rightarrow> b\<lparr>bk_next := bk_next b @ [x]\<rparr>
     | PLater \<Rightarrow> b\<lparr>bk_later := bk_later b @ [x]\<rparr>)"

definition classify_inbound_priority :: "string \<Rightarrow> priority" where
  "classify_inbound_priority text = (let l = lower (strip text) in
     if list_ex (\<lambda>p. prefix p l) [''/urgent'', (''/'' @ bytes [231, 180, 167, 230, 128, 165]), ''/now''] then PNow
     else if list_ex (\<lambda>p. prefix p l) [''/later'', (''/'' @ bytes [231, 168, 141, 229, 144, 142])] then PLater
     else PNext)"

text \<open>The \<open>priority\<close> argument: an unknown name counts as \<open>next\<close>.\<close>

definition priority_of :: "string option \<Rightarrow> string \<Rightarrow> priority" where
  "priority_of given body = (case given of
       Some (c # cs) \<Rightarrow> if c # cs = ''now'' then PNow else if c # cs = ''later'' then PLater else PNext
     | _ \<Rightarrow> classify_inbound_priority body)"

definition dedup_window :: secs where
  "dedup_window = 2"

definition last_enqueue_max :: nat where
  "last_enqueue_max = 512"

definition should_dedupe :: "secs \<Rightarrow> string \<Rightarrow> string \<Rightarrow> (string, string \<times> secs) dict
    \<Rightarrow> bool \<times> (string, string \<times> secs) dict" where
  "should_dedupe now key text seen =
    (if (case dget seen key of Some (t, ts) \<Rightarrow> t = strip text \<and> now - ts < dedup_window | None \<Rightarrow> False)
     then (True, seen)
     else let
       seen1 = (if last_enqueue_max \<le> length seen
                then filter (\<lambda>(k, _, ts). \<not> now - ts > dedup_window * 10) seen else seen);
       seen2 = (if last_enqueue_max \<le> length seen \<and> last_enqueue_max \<le> length seen1 then tl seen1 else seen1)
     in (False, dset key (strip text, now) seen2))"

text \<open>\<open>re.sub(r"\s+", " ", text)\<close>.\<close>

function squeeze_ws :: "string list \<Rightarrow> string" where
  "squeeze_ws [] = []"
| "squeeze_ws (u # us) = (if is_ws u then '' '' @ squeeze_ws (dropWhile is_ws us) else u @ squeeze_ws us)"
  by pat_completeness auto
termination
  by (relation "measure length") (auto simp: le_imp_less_Suc length_dropWhile_le)

definition summarize_dropped :: "string \<Rightarrow> string" where
  "summarize_dropped text = str_or (utake 120 (squeeze_ws (cps (strip text)))) (bytes [239, 188, 136, 231, 169, 186, 230, 182, 136, 230, 129, 175, 239, 188, 137])"

lemma bucket_pop_oldest_total: "bucket_pop_oldest b = Some (x, b') \<Longrightarrow> bucket_total b = Suc (bucket_total b')"
  by (auto simp: bucket_pop_oldest_def bucket_total_def split: list.splits)

text \<open>The loop of \<open>_apply_cap_before_append\<close>, on the bucket and the drop summaries of the session.\<close>

function make_room :: "int \<Rightarrow> string \<Rightarrow> bucket \<Rightarrow> string list \<Rightarrow> bool \<times> bucket \<times> string list" where
  "make_room cap drp b notes =
    (if int (bucket_total b) < cap then (True, b, notes)
     else if drp = ''new'' then (False, b, notes)
     else if bucket_total b = 0 then (True, b, notes)
     else case bucket_pop_oldest b of
         None \<Rightarrow> (True, b, notes)
       | Some (x, b') \<Rightarrow>
           make_room cap drp b' (if drp = ''old'' then notes else dq_push 8 notes (summarize_dropped (qi_text x))))"
  by pat_completeness auto
termination
  by (relation "measure (\<lambda>(cap, drp, b, notes). bucket_total b)") (auto dest: bucket_pop_oldest_total)

declare make_room.simps [simp del]

section \<open>Persistence\<close>

text \<open>\<open>re.sub(r"[^\w\-]", "_", key)[:120]\<close>, the stem of the file of a session.\<close>

definition is_word_char :: "queue_env \<Rightarrow> string \<Rightarrow> bool" where
  "is_word_char env u \<longleftrightarrow> (case u of
       [c] \<Rightarrow> (let n = (of_char c :: nat) in
                97 \<le> n \<and> n \<le> 122 \<or> 65 \<le> n \<and> n \<le> 90 \<or> 48 \<le> n \<and> n \<le> 57 \<or> c = CHR ''_'' \<or> c = CHR ''-'')
     | _ \<Rightarrow> qe_word env u)"

definition safe_key :: "queue_env \<Rightarrow> string \<Rightarrow> string" where
  "safe_key env key = concat (take 120 (map (\<lambda>u. if is_word_char env u then u else ''_'') (cps key)))"

definition file_rows :: "queue_env \<Rightarrow> string \<Rightarrow> mq_state \<Rightarrow> queued list" where
  "file_rows env key s = (case dget (mq_files s) (safe_key env key) of Some rows \<Rightarrow> rows | None \<Rightarrow> [])"

definition persist_enqueue :: "queue_env \<Rightarrow> string \<Rightarrow> queued \<Rightarrow> mq_state \<Rightarrow> mq_state" where
  "persist_enqueue env key x s = (if \<not> queue_persist_enabled env then s
     else s\<lparr>mq_files := dset (safe_key env key) (file_rows env key s @ [x]) (mq_files s)\<rparr>)"

definition persist_remove :: "queue_env \<Rightarrow> string \<Rightarrow> string \<Rightarrow> mq_state \<Rightarrow> mq_state" where
  "persist_remove env key i s = (if \<not> queue_persist_enabled env \<or> i = [] then s
     else case dget (mq_files s) (safe_key env key) of
       None \<Rightarrow> s
     | Some rows \<Rightarrow> (let rest = filter (\<lambda>x. qi_id x \<noteq> i) rows in
         if length rest = length rows then s
         else if rest \<noteq> [] then s\<lparr>mq_files := dset (safe_key env key) rest (mq_files s)\<rparr>
         else s\<lparr>mq_files := dpop (safe_key env key) (mq_files s)\<rparr>))"

definition persist_clear :: "queue_env \<Rightarrow> string option \<Rightarrow> mq_state \<Rightarrow> mq_state" where
  "persist_clear env key s = (if \<not> queue_persist_enabled env then s
     else case key of
       None \<Rightarrow> s\<lparr>mq_files := []\<rparr>
     | Some k \<Rightarrow> s\<lparr>mq_files := dpop (safe_key env k) (mq_files s)\<rparr>)"

section \<open>Operations\<close>

definition bucket_of :: "string \<Rightarrow> mq_state \<Rightarrow> bucket" where
  "bucket_of key s = (case dget (mq_queues s) key of Some b \<Rightarrow> b | None \<Rightarrow> empty_bucket)"

definition mq_max_sessions :: nat where
  "mq_max_sessions = 256"

text \<open>Sessions with an empty queue give way when there are too many.\<close>

definition drop_empty_sessions :: "string \<Rightarrow> mq_state \<Rightarrow> mq_state" where
  "drop_empty_sessions key s =
    (if mq_max_sessions \<le> length (mq_queues s) \<and> key \<notin> set (dkeys (mq_queues s))
     then let empty_keys = dkeys (filter (\<lambda>(k, b). bucket_total b = 0) (mq_queues s)) in
       s\<lparr>mq_queues := fold dpop empty_keys (mq_queues s), mq_summaries := fold dpop empty_keys (mq_summaries s)\<rparr>
     else s)"

definition enqueue_inbound :: "queue_env \<Rightarrow> secs \<Rightarrow> string \<Rightarrow> string \<Rightarrow> string \<Rightarrow> string \<Rightarrow> string
    \<Rightarrow> string option \<Rightarrow> mq_state \<Rightarrow> bool \<times> mq_state" where
  "enqueue_inbound env now new_id session_key text platform external_id priority s =
    (let body = strip text; key = str_or session_key ''default'' in
     if \<not> message_queue_enabled env \<or> body = [] then (False, s)
     else let pri = priority_of priority body;
       item = \<lparr>qi_text = body, qi_priority = pri, qi_platform = platform, qi_external_id = external_id,
               qi_enqueued_at = now, qi_id = new_id\<rparr>
     in case should_dedupe now key body (mq_last s) of
       (True, seen) \<Rightarrow> (False, s\<lparr>mq_last := seen\<rparr>)
     | (False, seen) \<Rightarrow> (let
         s1 = drop_empty_sessions key (s\<lparr>mq_last := seen\<rparr>);
         notes = (case dget (mq_summaries s1) key of Some l \<Rightarrow> l | None \<Rightarrow> [])
       in case make_room (session_queue_cap env key) (session_drop_policy env key) (bucket_of key s1) notes of
         (ok, b, notes') \<Rightarrow>
           let s2 = (if notes' = notes then s1 else s1\<lparr>mq_summaries := dset key notes' (mq_summaries s1)\<rparr>) in
           if \<not> ok then (False, s2\<lparr>mq_queues := dset key b (mq_queues s2)\<rparr>)
           else (True, persist_enqueue env key item
                   (s2\<lparr>mq_queues := dset key (bucket_append pri item b) (mq_queues s2)\<rparr>))))"

text \<open>The bucket after a pop: an empty one is removed with its session.\<close>

definition put_bucket :: "string \<Rightarrow> bucket \<Rightarrow> mq_state \<Rightarrow> mq_state" where
  "put_bucket key b s = s\<lparr>mq_queues := (if bucket_total b = 0 then dpop key (mq_queues s) else dset key b (mq_queues s))\<rparr>"

definition pop_urgent_inbound :: "queue_env \<Rightarrow> string \<Rightarrow> mq_state \<Rightarrow> queued option \<times> mq_state" where
  "pop_urgent_inbound env session_key s = (let key = str_or session_key ''default''; b = bucket_of key s in
     case bk_now b of
       [] \<Rightarrow> (None, s)
     | x # r \<Rightarrow> (Some x, persist_remove env key (qi_id x) (put_bucket key (b\<lparr>bk_now := r\<rparr>) s)))"

definition bucket_pop :: "bucket \<Rightarrow> (queued \<times> bucket) option" where
  "bucket_pop b = (case bk_now b of
       x # r \<Rightarrow> Some (x, b\<lparr>bk_now := r\<rparr>)
     | [] \<Rightarrow> (case bk_next b of
         x # r \<Rightarrow> Some (x, b\<lparr>bk_next := r\<rparr>)
       | [] \<Rightarrow> (case bk_later b of x # r \<Rightarrow> Some (x, b\<lparr>bk_later := r\<rparr>) | [] \<Rightarrow> None)))"

definition pop_next :: "queue_env \<Rightarrow> string \<Rightarrow> mq_state \<Rightarrow> queued option \<times> mq_state" where
  "pop_next env session_key s = (let key = str_or session_key ''default'' in
     case bucket_pop (bucket_of key s) of
       None \<Rightarrow> (None, s)
     | Some (x, b) \<Rightarrow> (Some x, persist_remove env key (qi_id x) (put_bucket key b s)))"

definition bucket_items :: "bucket \<Rightarrow> queued list" where
  "bucket_items b = bk_now b @ bk_next b @ bk_later b"

definition pop_all_merged :: "queue_env \<Rightarrow> secs \<Rightarrow> string \<Rightarrow> string \<Rightarrow> mq_state \<Rightarrow> queued option \<times> mq_state" where
  "pop_all_merged env now new_id session_key s = (let
       key = str_or session_key ''default'';
       items = bucket_items (bucket_of key s);
       notes = (case dget (mq_summaries s) key of Some l \<Rightarrow> l | None \<Rightarrow> []);
       s' = persist_clear env (Some key) (s\<lparr>mq_queues := dpop key (mq_queues s), mq_summaries := dpop key (mq_summaries s)\<rparr>)
     in if items = [] \<and> notes = [] then (None, s')
        else (Some \<lparr>
          qi_text = join (nl @ nl) (
            (if notes = [] then [] else
              [(''['' @ bytes [230, 173, 164, 229, 137, 141, 233, 152, 159, 229, 136, 151, 230, 186, 162, 229, 135, 186, 230, 145, 152, 232, 166, 129, 239, 188, 140, 229, 133, 177] @ '' '') @ str_of_nat (length notes) @ ('' '' @ bytes [230, 157, 161] @ ''] '') @ join (bytes [239, 188, 155]) notes])
            @ map qi_text items),
          qi_priority = PNext,
          qi_platform = (if items = [] then ''unknown'' else qi_platform (last items)),
          qi_external_id = (if items = [] then [] else qi_external_id (last items)),
          qi_enqueued_at = now, qi_id = new_id\<rparr>, s'))"

definition newest_enqueued_at :: "string \<Rightarrow> mq_state \<Rightarrow> secs" where
  "newest_enqueued_at session_key s = fold max
     (map qi_enqueued_at (bucket_items (bucket_of (str_or session_key ''default'') s))) 0"

definition pending_count :: "string \<Rightarrow> mq_state \<Rightarrow> nat" where
  "pending_count session_key s = bucket_total (bucket_of (str_or session_key ''default'') s)"

definition pending_total :: "mq_state \<Rightarrow> nat" where
  "pending_total s = sum_list (map (bucket_total \<circ> snd) (mq_queues s))"

definition reset_queue :: "queue_env \<Rightarrow> string option \<Rightarrow> mq_state \<Rightarrow> mq_state" where
  "reset_queue env session_key s = persist_clear env session_key (case session_key of
       None \<Rightarrow> s\<lparr>mq_queues := [], mq_last := [], mq_summaries := []\<rparr>
     | Some k \<Rightarrow> (let key = str_or k ''default'' in
         s\<lparr>mq_queues := dpop key (mq_queues s), mq_last := dpop key (mq_last s),
           mq_summaries := dpop key (mq_summaries s)\<rparr>))"

text \<open>
  A restart keeps the files only; \<open>restore_persisted_queue\<close> reads them, each under its stem.  A file is the list of its
  rows: that \<open>splitlines\<close> also cuts a row at a separator of Unicode inside its text, and file errors, which are
  swallowed, are not modelled.
\<close>

definition restart_process :: "mq_state \<Rightarrow> mq_state" where
  "restart_process s = s\<lparr>mq_queues := [], mq_last := [], mq_summaries := []\<rparr>"

definition restore_file :: "queue_env \<Rightarrow> string \<times> queued list \<Rightarrow> mq_state \<Rightarrow> mq_state" where
  "restore_file env f s = (case f of (stem, rows) \<Rightarrow> if rows = [] then s
     else s\<lparr>mq_queues := dset stem (fold (\<lambda>x b. bucket_append (qi_priority x) x b)
              (take (nat (session_queue_cap env stem)) rows) (bucket_of stem s)) (mq_queues s)\<rparr>)"

definition restore_persisted_queue :: "queue_env \<Rightarrow> mq_state \<Rightarrow> nat \<times> mq_state" where
  "restore_persisted_queue env s = (if \<not> queue_persist_enabled env then (0, s)
     else let files = sort_key fst (mq_files s) in
       (sum_list (map (length \<circ> snd) files), fold (restore_file env) files s))"

definition format_queued_ack :: "queue_env \<Rightarrow> nat \<Rightarrow> string \<Rightarrow> string" where
  "format_queued_ack env pending session_key = (let
       base = (if 1 < pending
         then (bytes [229, 183, 178, 230, 148, 182, 229, 136, 176, 239, 188, 136, 233, 152, 159, 229, 136, 151, 228, 184, 173, 232, 191, 152, 230, 156, 137] @ '' '') @ str_of_nat pending @ ('' '' @ bytes [230, 157, 161, 239, 188, 137, 239, 188, 140, 229, 189, 147, 229, 137, 141, 232, 189, 174, 230, 172, 161, 231, 187, 147, 230, 157, 159, 229, 144, 142, 231, 187, 167, 231, 187, 173, 229, 164, 132, 231, 144, 134, 227, 128, 130])
         else (bytes [229, 183, 178, 230, 148, 182, 229, 136, 176, 239, 188, 140, 229, 189, 147, 229, 137, 141, 232, 189, 174, 230, 172, 161, 231, 187, 147, 230, 157, 159, 229, 144, 142, 231, 187, 167, 231, 187, 173, 229, 164, 132, 231, 144, 134, 227, 128, 130]));
       mode = get_queue_mode env session_key
     in if session_key \<noteq> [] \<and> mode \<noteq> ''followup'' then base @ (bytes [239, 188, 136, 233, 152, 159, 229, 136, 151, 230, 168, 161, 229, 188, 143, 239, 188, 154]) @ mode @ (bytes [239, 188, 137]) else base)"

section \<open>The drain after a turn\<close>

text \<open>
  \<open>drain_queued_inbound\<close>.  The host answers whether a turn is active on the session, given how
  many messages the drain has handled, and handles a message; both are arguments.
\<close>

record drain_host =
  dh_active :: "nat \<Rightarrow> bool"
  dh_handle :: "nat \<Rightarrow> queued \<Rightarrow> string"

definition max_drain :: "queue_env \<Rightarrow> string \<Rightarrow> nat" where
  "max_drain env mode = nat (let n = int_env (qe_os env) ''BUTLER_GATEWAY_QUEUE_DRAIN_PER_TURN'' 1 0 in
     if mode = ''followup'' then max n (int_env (qe_os env) ''BUTLER_GATEWAY_QUEUE_DRAIN_FOLLOWUP'' 1 0) else n)"

fun drain_loop :: "queue_env \<Rightarrow> drain_host \<Rightarrow> string \<Rightarrow> nat \<Rightarrow> nat \<Rightarrow> mq_state \<Rightarrow> queued list \<times> string list \<times> mq_state" where
  "drain_loop env host key k 0 s = ([], [], s)"
| "drain_loop env host key k (Suc n) s = (case pop_next env key s of
       (None, s') \<Rightarrow> ([], [], s')
     | (Some x, s') \<Rightarrow>
         if dh_active host k then ([], [], s')
         else (case drain_loop env host key (Suc k) n s' of (xs, parts, s'') \<Rightarrow>
           (x # xs, (if dh_handle host k x \<noteq> [] then [dh_handle host k x] else []) @ parts, s'')))"

text \<open>The messages handled, the combined reply, and the state.\<close>

definition drain_queued_inbound :: "queue_env \<Rightarrow> drain_host \<Rightarrow> secs \<Rightarrow> string \<Rightarrow> string \<Rightarrow> mq_state
    \<Rightarrow> queued list \<times> string \<times> mq_state" where
  "drain_queued_inbound env host now new_id key s =
    (if \<not> message_queue_enabled env then ([], [], s)
     else let mode = get_queue_mode env key;
       r = (if mode = ''collect'' then
              (case pop_all_merged env now new_id key s of
                 (Some x, s') \<Rightarrow> if dh_active host 0 then ([], [], s')
                   else ([x], if dh_handle host 0 x \<noteq> [] then [dh_handle host 0 x] else [], s')
               | (None, s') \<Rightarrow> ([], [], s'))
            else drain_loop env host key 0 (max_drain env mode) s)
     in (case r of (xs, parts, s') \<Rightarrow> (xs, join (nl @ nl @ ''---'' @ nl @ nl) parts, s')))"

end
