(* ===== verification/Message_Queue_Props.thy ===== *)
theory Message_Queue_Props
  imports Message_Queue
begin

text \<open>
  What the message queue guarantees: its three buckets implement one queue in priority order,
  first in first out within a priority; no sequence of operations fills a session beyond its
  cap; making room takes the least urgent messages; and the key round trip.  Two findings: a
  restart restores the messages of a session under another key, and the drain loses the
  message it takes while a turn is active.
\<close>

section \<open>Buckets\<close>

definition bucket_ok :: "bucket \<Rightarrow> bool" where
  "bucket_ok b \<longleftrightarrow> (\<forall>x \<in> set (bk_now b). qi_priority x = PNow) \<and>
     (\<forall>x \<in> set (bk_next b). qi_priority x = PNext) \<and> (\<forall>x \<in> set (bk_later b). qi_priority x = PLater)"

lemma priority_le [simp]:
  "PNow \<le> p" "p \<le> PLater" "PNext \<le> p \<longleftrightarrow> p \<noteq> PNow" "p \<le> PNext \<longleftrightarrow> p \<noteq> PLater"
  by (cases p; simp add: less_eq_priority_def)+

lemma empty_bucket_ok [simp]: "bucket_ok empty_bucket" "bucket_items empty_bucket = []" "bucket_total empty_bucket = 0"
  by (simp_all add: bucket_ok_def empty_bucket_def bucket_items_def bucket_total_def)

lemma bucket_total_items: "bucket_total b = length (bucket_items b)"
  by (simp add: bucket_total_def bucket_items_def)

lemma sorted_const: "\<forall>x \<in> set xs. f x = c \<Longrightarrow> sorted (map f xs)"
  by (induction xs) auto

lemma bucket_items_sorted: "bucket_ok b \<Longrightarrow> sorted (map qi_priority (bucket_items b))"
proof -
  assume "bucket_ok b"
  then have "sorted (map qi_priority (bk_now b))" "sorted (map qi_priority (bk_next b))"
    "sorted (map qi_priority (bk_later b))"
    by (auto simp: bucket_ok_def intro: sorted_const)
  then show ?thesis using \<open>bucket_ok b\<close> by (auto simp: bucket_items_def bucket_ok_def sorted_append)
qed

lemma bucket_append_ok: "bucket_ok b \<Longrightarrow> bucket_ok (bucket_append (qi_priority x) x b)"
  by (cases "qi_priority x") (auto simp: bucket_append_def bucket_ok_def)

lemma bucket_append_items:
  assumes "bucket_ok b"
  shows "bucket_items (bucket_append (qi_priority x) x b) = sort_key qi_priority (bucket_items b @ [x])"
proof (rule properties_for_sort_key [symmetric])
  let ?b = "bucket_append (qi_priority x) x b"
  show "mset (bucket_items ?b) = mset (bucket_items b @ [x])"
    by (cases "qi_priority x") (simp_all add: bucket_append_def bucket_items_def)
  show "sorted (map qi_priority (bucket_items ?b))"
    using bucket_items_sorted [OF bucket_append_ok [OF assms]] .
  have now: "filter (\<lambda>y. p = qi_priority y) (bk_now b) = (if p = PNow then bk_now b else [])"
    and nxt: "filter (\<lambda>y. p = qi_priority y) (bk_next b) = (if p = PNext then bk_next b else [])"
    and lat: "filter (\<lambda>y. p = qi_priority y) (bk_later b) = (if p = PLater then bk_later b else [])" for p
    using assms by (auto simp: bucket_ok_def filter_empty_conv filter_id_conv)
  show "filter (\<lambda>y. qi_priority k = qi_priority y) (bucket_items ?b)
      = filter (\<lambda>y. qi_priority k = qi_priority y) (bucket_items b @ [x])" for k
    by (cases "qi_priority x") (auto simp: bucket_append_def bucket_items_def now nxt lat)
qed

lemma bucket_pop_none: "bucket_items b = [] \<Longrightarrow> bucket_pop b = None"
  by (simp add: bucket_items_def bucket_pop_def)

lemma bucket_pop_some:
  "bucket_ok b \<Longrightarrow> bucket_items b = x # xs \<Longrightarrow> \<exists>b'. bucket_pop b = Some (x, b') \<and> bucket_ok b' \<and> bucket_items b' = xs"
  by (auto simp: bucket_items_def bucket_pop_def bucket_ok_def split: list.splits)

interpretation inbound: ranked_queue bucket_items "\<lambda>x. bucket_append (qi_priority x) x" bucket_pop qi_priority bucket_ok
  by unfold_locales (simp_all add: bucket_append_items bucket_append_ok bucket_pop_none bucket_pop_some)

text \<open>
  C30: refinement: the three buckets are one queue kept in stable priority order, as the
  sorted deque they replaced: after appending the messages \<open>xs\<close>, popping \<open>n\<close> times
  gives the first \<open>n\<close> of the stable sort by priority of what was queued and \<open>xs\<close>.
\<close>

theorem buckets_are_a_sorted_queue:
  assumes "bucket_ok b"
  shows "fst (pops bucket_pop n (fold (\<lambda>x. bucket_append (qi_priority x) x) xs b)) =
    take n (sort_key qi_priority (bucket_items b @ xs))"
proof (cases "xs = []")
  case True
  have "sort_key qi_priority (bucket_items b) = bucket_items b"
    by (rule properties_for_sort_key) (simp_all add: bucket_items_sorted [OF assms])
  with True inbound.pops_items [OF assms] show ?thesis by simp
next
  case False
  with inbound.pops_items [OF inbound.pushes_ok [OF assms]] inbound.pushes_items [OF assms]
  show ?thesis by metis
qed

section \<open>Making room\<close>

lemma pop_oldest_ok:
  assumes "bucket_ok b" "bucket_pop_oldest b = Some (x, b')"
  shows "bucket_ok b'" "mset (bucket_items b) = add_mset x (mset (bucket_items b'))"
    "\<forall>y \<in> set (bucket_items b'). qi_priority y \<le> qi_priority x"
  using assms by (auto simp: bucket_pop_oldest_def bucket_ok_def bucket_items_def split: list.splits)

lemma pop_oldest_none: "bucket_pop_oldest b = None \<Longrightarrow> bucket_total b = 0"
  by (auto simp: bucket_pop_oldest_def bucket_total_def split: list.splits)

lemma make_room_result:
  assumes "bucket_ok b" "1 \<le> cap" "make_room cap drp b sm = (ok, b', sm')"
  shows "bucket_ok b' \<and> (ok \<longrightarrow> int (bucket_total b') < cap) \<and> (\<not> ok \<longrightarrow> b' = b) \<and>
    bucket_total b' \<le> bucket_total b \<and>
    (\<exists>ev. mset (bucket_items b) = mset ev + mset (bucket_items b') \<and>
       (\<forall>x \<in> set ev. \<forall>y \<in> set (bucket_items b'). qi_priority y \<le> qi_priority x))"
  using assms
proof (induction cap drp b sm rule: make_room.induct)
  case (1 cap drp b sm)
  show ?case
  proof (cases "int (bucket_total b) < cap \<or> drp = ''new''")
    case True
    then have "b' = b" "ok \<longrightarrow> int (bucket_total b) < cap"
      using "1.prems"(3) by (auto simp: make_room.simps [of cap] split: if_splits)
    with "1.prems" show ?thesis by (auto intro!: exI [of _ "[]"])
  next
    case False
    then have "bucket_total b \<noteq> 0" using "1.prems"(2) by auto
    then obtain x b1 where x: "bucket_pop_oldest b = Some (x, b1)"
      using pop_oldest_none by (cases "bucket_pop_oldest b") auto
    define sm1 where "sm1 = (if drp = ''old'' then sm else dq_push 8 sm (summarize_dropped (qi_text x)))"
    have m: "make_room cap drp b1 sm1 = (ok, b', sm')"
      using "1.prems"(3) False \<open>bucket_total b \<noteq> 0\<close> x by (simp add: make_room.simps [of cap drp b] sm1_def)
    note p = pop_oldest_ok [OF "1.prems"(1) x]
    have "bucket_ok b' \<and> (ok \<longrightarrow> int (bucket_total b') < cap) \<and> (\<not> ok \<longrightarrow> b' = b1) \<and>
      bucket_total b' \<le> bucket_total b1 \<and>
      (\<exists>ev. mset (bucket_items b1) = mset ev + mset (bucket_items b') \<and>
        (\<forall>x \<in> set ev. \<forall>y \<in> set (bucket_items b'). qi_priority y \<le> qi_priority x))"
      using "1.IH" False \<open>bucket_total b \<noteq> 0\<close> x p(1) "1.prems"(2) m by (simp add: sm1_def)
    then obtain ev where ev: "bucket_ok b'" "ok \<longrightarrow> int (bucket_total b') < cap" "\<not> ok \<longrightarrow> b' = b1"
      "bucket_total b' \<le> bucket_total b1" "mset (bucket_items b1) = mset ev + mset (bucket_items b')"
      "\<forall>x \<in> set ev. \<forall>y \<in> set (bucket_items b'). qi_priority y \<le> qi_priority x" by blast
    have okT: "ok" using m False
      by (induction cap drp b1 sm1 rule: make_room.induct)
        (subst (asm) (2) make_room.simps, auto split: if_splits option.splits prod.splits)
    have "\<forall>y \<in> set (bucket_items b'). qi_priority y \<le> qi_priority x"
      using p(3) ev(5) by (metis Un_iff set_mset_mset set_mset_union)
    then show ?thesis using ev okT p(2) bucket_pop_oldest_total [OF x]
      by (auto intro!: exI [of _ "x # ev"])
  qed
qed

text \<open>
  making room for a message keeps the cap (when the message is accepted, fewer than
  \<open>cap\<close> messages are queued), drops nothing when it refuses the message, and what it drops
  is never more urgent than what it keeps.
\<close>

theorem make_room_drops_least_urgent:
  assumes "bucket_ok b" and "1 \<le> cap" and "make_room cap drp b sm = (ok, b', sm')"
  shows "(ok \<longrightarrow> int (length (bucket_items b')) < cap) \<and> (\<not> ok \<longrightarrow> b' = b) \<and>
    (\<exists>dropped. mset (bucket_items b) = mset dropped + mset (bucket_items b') \<and>
      (\<forall>x \<in> set dropped. \<forall>y \<in> set (bucket_items b'). qi_priority y \<le> qi_priority x))"
  using make_room_result [OF assms] by (simp add: bucket_total_items)

section \<open>Every sequence of operations\<close>

datatype mq_event =
    MqEnqueue secs string string string string string "string option"
  | MqPopNext string
  | MqPopUrgent string
  | MqPopAll secs string string
  | MqReset "string option"
  | MqRestart

text \<open>The settings are the same at every event: the chat command that changes the cap of a session is no event.\<close>

definition mq_step :: "queue_env \<Rightarrow> mq_event \<Rightarrow> mq_state \<Rightarrow> mq_state" where
  "mq_step env e s = (case e of
       MqEnqueue now i key text plat ext pri \<Rightarrow> snd (enqueue_inbound env now i key text plat ext pri s)
     | MqPopNext key \<Rightarrow> snd (pop_next env key s)
     | MqPopUrgent key \<Rightarrow> snd (pop_urgent_inbound env key s)
     | MqPopAll now i key \<Rightarrow> snd (pop_all_merged env now i key s)
     | MqReset key \<Rightarrow> reset_queue env key s
     | MqRestart \<Rightarrow> snd (restore_persisted_queue env (restart_process s)))"

definition bucket_fits :: "queue_env \<Rightarrow> string \<Rightarrow> bucket \<Rightarrow> bool" where
  "bucket_fits env key b \<longleftrightarrow> bucket_ok b \<and> int (bucket_total b) \<le> session_queue_cap env key"

definition queues_ok :: "queue_env \<Rightarrow> (string, bucket) dict \<Rightarrow> bool" where
  "queues_ok env qs \<longleftrightarrow> (\<forall>key b. dget qs key = Some b \<longrightarrow> bucket_fits env key b)"

definition files_ok :: "queue_env \<Rightarrow> (string, queued list) dict \<Rightarrow> bool" where
  "files_ok env fs \<longleftrightarrow> dwf fs \<and> (\<forall>k \<in> set (dkeys fs). \<exists>key. k = safe_key env key)"

definition mq_inv :: "queue_env \<Rightarrow> mq_state \<Rightarrow> bool" where
  "mq_inv env s \<longleftrightarrow> queues_ok env (mq_queues s) \<and> files_ok env (mq_files s)"

lemma cap_positive: "1 \<le> session_queue_cap env key"
  using int_env_min [of 1 "qe_os env" "''BUTLER_GATEWAY_QUEUE_CAP''" "queue_cap_from_raw (qe_yaml env)"]
  by (simp add: session_queue_cap_def queue_cap_def split: option.splits)

lemma empty_fits [simp]: "bucket_fits env key empty_bucket"
  using cap_positive [of env key] by (simp add: bucket_fits_def)

lemma bucket_of_fits: "queues_ok env (mq_queues s) \<Longrightarrow> bucket_fits env key (bucket_of key s)"
  by (simp add: queues_ok_def bucket_of_def split: option.splits)

lemma queues_ok_dset: "queues_ok env qs \<Longrightarrow> bucket_fits env key b \<Longrightarrow> queues_ok env (dset key b qs)"
  by (simp add: queues_ok_def)

lemma queues_ok_dpop: "queues_ok env qs \<Longrightarrow> queues_ok env (dpop key qs)"
  by (simp add: queues_ok_def)

lemma queues_ok_fold_dpop: "queues_ok env qs \<Longrightarrow> queues_ok env (fold dpop keys qs)"
  by (induction keys arbitrary: qs) (simp_all add: queues_ok_dpop)

lemma files_ok_dset: "files_ok env fs \<Longrightarrow> files_ok env (dset (safe_key env key) rows fs)"
  by (auto simp: files_ok_def)

lemma files_ok_dpop: "files_ok env fs \<Longrightarrow> files_ok env (dpop k fs)"
  by (auto simp: files_ok_def dkeys_dpop simp del: set_map)

lemma persist_files_ok:
  "files_ok env (mq_files s) \<Longrightarrow> files_ok env (mq_files (persist_enqueue env key x s))"
  "files_ok env (mq_files s) \<Longrightarrow> files_ok env (mq_files (persist_remove env key i s))"
  "files_ok env (mq_files s) \<Longrightarrow> files_ok env (mq_files (persist_clear env k s))"
  by (auto simp: persist_enqueue_def persist_remove_def persist_clear_def files_ok_dset files_ok_dpop Let_def
      split: option.splits) (simp_all add: files_ok_def)

lemma persist_queues [simp]:
  "mq_queues (persist_enqueue env key x s) = mq_queues s"
  "mq_queues (persist_remove env key i s) = mq_queues s"
  "mq_queues (persist_clear env k s) = mq_queues s"
  by (simp_all add: persist_enqueue_def persist_remove_def persist_clear_def Let_def split: option.splits)

lemma put_bucket_inv: "mq_inv env s \<Longrightarrow> bucket_fits env key b \<Longrightarrow> mq_inv env (put_bucket key b s)"
  by (simp add: mq_inv_def put_bucket_def queues_ok_dset queues_ok_dpop)

lemma persist_inv:
  "mq_inv env s \<Longrightarrow> mq_inv env (persist_enqueue env key x s)"
  "mq_inv env s \<Longrightarrow> mq_inv env (persist_remove env key i s)"
  "mq_inv env s \<Longrightarrow> mq_inv env (persist_clear env k s)"
  by (simp_all add: mq_inv_def persist_files_ok)

lemma bucket_pop_fits:
  assumes "bucket_fits env key b" "bucket_pop b = Some (x, b')"
  shows "bucket_fits env key b'"
proof -
  obtain y ys where "bucket_items b = y # ys"
    using assms(2) bucket_pop_none by (cases "bucket_items b") auto
  with bucket_pop_some [of b y ys] assms
  show ?thesis by (auto simp: bucket_fits_def bucket_total_items)
qed

lemma pop_next_inv: "mq_inv env s \<Longrightarrow> mq_inv env (snd (pop_next env key s))"
  using bucket_of_fits [of env s "str_or key ''default''"] bucket_pop_fits
  by (auto simp: pop_next_def Let_def mq_inv_def [of env s]
      intro!: persist_inv put_bucket_inv split: option.splits)

lemma pop_urgent_inv: "mq_inv env s \<Longrightarrow> mq_inv env (snd (pop_urgent_inbound env key s))"
  using bucket_of_fits [of env s "str_or key ''default''"]
  by (auto simp: pop_urgent_inbound_def Let_def bucket_fits_def bucket_ok_def bucket_total_def mq_inv_def [of env s]
      intro!: persist_inv put_bucket_inv split: list.splits)

lemma pop_all_inv: "mq_inv env s \<Longrightarrow> mq_inv env (snd (pop_all_merged env now i key s))"
proof -
  assume inv: "mq_inv env s"
  have "mq_inv env (s\<lparr>mq_queues := dpop k (mq_queues s), mq_summaries := dpop k (mq_summaries s)\<rparr>)" for k
    using inv by (simp add: mq_inv_def queues_ok_dpop)
  then show ?thesis by (simp add: pop_all_merged_def Let_def persist_inv)
qed

lemma reset_queue_inv: "mq_inv env s \<Longrightarrow> mq_inv env (reset_queue env key s)"
proof -
  assume inv: "mq_inv env s"
  have "mq_inv env (case key of None \<Rightarrow> s\<lparr>mq_queues := [], mq_last := [], mq_summaries := []\<rparr>
     | Some k \<Rightarrow> (let key = str_or k ''default'' in
         s\<lparr>mq_queues := dpop key (mq_queues s), mq_last := dpop key (mq_last s),
           mq_summaries := dpop key (mq_summaries s)\<rparr>))"
    using inv by (auto simp: mq_inv_def queues_ok_dpop Let_def split: option.splits) (simp add: queues_ok_def)
  then show ?thesis unfolding reset_queue_def by (rule persist_inv)
qed

lemma bucket_append_total: "bucket_total (bucket_append p x b) = Suc (bucket_total b)"
  by (cases p) (simp_all add: bucket_append_def bucket_total_def)

lemma append_fits:
  "bucket_ok b \<Longrightarrow> int (bucket_total b) < session_queue_cap env key \<Longrightarrow>
   bucket_fits env key (bucket_append (qi_priority x) x b)"
  using bucket_append_ok [of b x] by (simp add: bucket_fits_def bucket_append_total)

lemma enqueue_inv: "mq_inv env s \<Longrightarrow> mq_inv env (snd (enqueue_inbound env now i skey text plat ext pri s))"
proof -
  assume inv: "mq_inv env s"
  define body where "body = strip text"
  define key where "key = str_or skey ''default''"
  define item where "item = \<lparr>qi_text = body, qi_priority = priority_of pri body, qi_platform = plat,
    qi_external_id = ext, qi_enqueued_at = now, qi_id = i\<rparr>"
  obtain dup seen where d: "should_dedupe now key body (mq_last s) = (dup, seen)" by fastforce
  define s1 where "s1 = drop_empty_sessions key (s\<lparr>mq_last := seen\<rparr>)"
  have i1: "mq_inv env s1" using inv
    by (auto simp: s1_def drop_empty_sessions_def mq_inv_def Let_def queues_ok_fold_dpop)
  obtain ok b sm where m: "make_room (session_queue_cap env key) (session_drop_policy env key) (bucket_of key s1)
      (case dget (mq_summaries s1) key of Some l \<Rightarrow> l | None \<Rightarrow> []) = (ok, b, sm)"
    by (metis prod_cases3)
  have f: "bucket_fits env key (bucket_of key s1)" using i1 bucket_of_fits by (simp add: mq_inv_def)
  then have bo: "bucket_ok (bucket_of key s1)" by (simp add: bucket_fits_def)
  note R = make_room_result [OF bo cap_positive m]
  have bf: "bucket_fits env key b" using R f by (auto simp: bucket_fits_def)
  have af: "ok \<Longrightarrow> bucket_fits env key (bucket_append (priority_of pri body) item b)"
    using append_fits [of b env key item] R by (simp add: item_def)
  define s2 where "s2 = (if sm = (case dget (mq_summaries s1) key of Some l \<Rightarrow> l | None \<Rightarrow> []) then s1
    else s1\<lparr>mq_summaries := dset key sm (mq_summaries s1)\<rparr>)"
  have i2: "mq_inv env s2" using i1 by (simp add: s2_def mq_inv_def)
  have q: "mq_inv env (s2\<lparr>mq_queues := dset key b' (mq_queues s2)\<rparr>)" if "bucket_fits env key b'" for b'
    using i2 that by (simp add: mq_inv_def queues_ok_dset)
  have "snd (enqueue_inbound env now i skey text plat ext pri s) =
    (if \<not> message_queue_enabled env \<or> body = [] then s
     else if dup then s\<lparr>mq_last := seen\<rparr>
     else if \<not> ok then s2\<lparr>mq_queues := dset key b (mq_queues s2)\<rparr>
     else persist_enqueue env key item (s2\<lparr>mq_queues := dset key (bucket_append (priority_of pri body) item b) (mq_queues s2)\<rparr>))"
    using d m by (simp add: enqueue_inbound_def Let_def s2_def s1_def item_def body_def key_def split: bool.splits)
  moreover have "mq_inv env (s\<lparr>mq_last := seen\<rparr>)" using inv by (simp add: mq_inv_def)
  ultimately show ?thesis using inv q [OF bf] q [OF af] persist_inv(1) by simp
qed

lemma restore_append_fits:
  "bucket_ok b \<Longrightarrow> int (bucket_total b + length rows) \<le> session_queue_cap env key \<Longrightarrow>
   bucket_fits env key (fold (\<lambda>x b. bucket_append (qi_priority x) x b) rows b)"
proof (induction rows arbitrary: b)
  case (Cons x rows)
  then show ?case using Cons.IH [OF bucket_append_ok [OF Cons.prems(1), of x]]
    by (simp add: bucket_append_total)
qed (simp add: bucket_fits_def)

lemma restore_fold_ok:
  "queues_ok env (mq_queues s) \<Longrightarrow> distinct (map fst fs) \<Longrightarrow>
   \<forall>k \<in> set (map fst fs). dget (mq_queues s) k = None \<Longrightarrow>
   queues_ok env (mq_queues (fold (restore_file env) fs s)) \<and>
   mq_files (fold (restore_file env) fs s) = mq_files s \<and>
   set (dkeys (mq_queues (fold (restore_file env) fs s))) \<subseteq> set (dkeys (mq_queues s)) \<union> set (map fst fs)"
proof (induction fs arbitrary: s)
  case (Cons f fs)
  obtain k rows where f: "f = (k, rows)" by fastforce
  define s1 where "s1 = restore_file env f s"
  have e: "bucket_of k s = empty_bucket" using Cons.prems(3) by (simp add: f bucket_of_def)
  have fit: "bucket_fits env k (fold (\<lambda>x b. bucket_append (qi_priority x) x b)
      (take (nat (session_queue_cap env k)) rows) empty_bucket)"
    by (rule restore_append_fits) (use cap_positive [of env k] in auto)
  have q1: "queues_ok env (mq_queues s1)" "mq_files s1 = mq_files s"
    "set (dkeys (mq_queues s1)) \<subseteq> insert k (set (dkeys (mq_queues s)))"
    using Cons.prems(1) fit by (auto simp: s1_def restore_file_def f e queues_ok_dset)
  have "\<forall>j \<in> set (map fst fs). dget (mq_queues s1) j = None"
    using Cons.prems(2,3) by (auto simp: s1_def restore_file_def f)
  then have "queues_ok env (mq_queues (fold (restore_file env) fs s1)) \<and>
     mq_files (fold (restore_file env) fs s1) = mq_files s1 \<and>
     set (dkeys (mq_queues (fold (restore_file env) fs s1))) \<subseteq> set (dkeys (mq_queues s1)) \<union> set (map fst fs)"
    using Cons.IH [OF q1(1)] Cons.prems(2) by simp
  moreover have "fold (restore_file env) (f # fs) s = fold (restore_file env) fs s1" by (simp add: s1_def)
  moreover have "set (map fst (f # fs)) = insert k (set (map fst fs))" by (simp add: f)
  ultimately show ?case using q1(2,3) by (simp only:) blast
qed simp

lemma restart_inv: "mq_inv env s \<Longrightarrow> mq_inv env (snd (restore_persisted_queue env (restart_process s)))"
proof -
  assume inv: "mq_inv env s"
  have "distinct (map fst (mq_files s))" using inv by (simp add: mq_inv_def files_ok_def dwf_def)
  then have d: "distinct (map fst (sort_key fst (mq_files s)))"
    by (metis distinct_map distinct_sort set_sort)
  show ?thesis using inv restore_fold_ok [OF _ d, of env "restart_process s"]
    by (auto simp: restore_persisted_queue_def restart_process_def mq_inv_def Let_def queues_ok_def)
qed

lemma mq_step_inv: "mq_inv env s \<Longrightarrow> mq_inv env (mq_step env e s)"
  by (cases e) (simp_all add: mq_step_def enqueue_inv pop_next_inv pop_urgent_inv pop_all_inv reset_queue_inv restart_inv)

interpretation mq: guarded_system "mq_step env" "mq_inv env" mq_start for env
proof
  show "mq_inv env mq_start" by (simp add: mq_inv_def mq_start_def queues_ok_def files_ok_def)
qed (rule mq_step_inv)

definition session_items :: "string \<Rightarrow> mq_state \<Rightarrow> queued list" where
  "session_items key s = bucket_items (bucket_of key s)"

text \<open>
  C32: no sequence of enqueues, pops, drains, resets and restarts fills a session beyond its
  cap, and the queue of every session stays in priority order.
\<close>

theorem queue_bounded_and_ordered:
  "int (length (session_items key (fold (mq_step env) es mq_start))) \<le> session_queue_cap env key \<and>
   sorted (map qi_priority (session_items key (fold (mq_step env) es mq_start)))"
proof -
  have "mq_inv env (fold (mq_step env) es mq_start)" by (rule mq.inv_run)
  then have "bucket_fits env key (bucket_of key (fold (mq_step env) es mq_start))"
    by (simp add: mq_inv_def bucket_of_fits)
  then show ?thesis by (simp add: session_items_def bucket_fits_def bucket_total_items bucket_items_sorted)
qed

section \<open>Session keys\<close>

lemma base_session_key_colon:
  "CHR '':'' \<notin> set p \<Longrightarrow> r \<noteq> [] \<Longrightarrow> hd r \<noteq> CHR '':'' \<Longrightarrow> base_session_key (p @ CHR '':'' # r) = p @ CHR '':'' # base_session_key r"
proof (induction p)
  case Nil
  then show ?case by (cases r) auto
next
  case (Cons a p)
  then show ?case by (cases p) auto
qed

lemma base_session_key_plain: "CHR '':'' \<notin> set r \<Longrightarrow> base_session_key r = r"
  by (induction r rule: base_session_key.induct) auto

lemma split_first_app: "c \<notin> set p \<Longrightarrow> split_first c (p @ c # r) = (p, Some r)"
  by (induction p) (auto simp: split_first_def)

lemma split_first_plain: "c \<notin> set p \<Longrightarrow> split_first c p = (p, None)"
  by (induction p) (auto simp: split_first_def split: list.splits)

text \<open>
  round trip of session keys: from the key built of a platform, a chat id and a project
  without colons, the chat id and the project are read back (trimmed; an empty chat id reads
  as ''default'', and the project ''_'' as none).
\<close>

theorem session_key_roundtrip:
  assumes "CHR '':'' \<notin> set platform" and "CHR '':'' \<notin> set chat" and "CHR '':'' \<notin> set project"
  shows "chat_id_from_session_key (build_session_key platform chat project) = strip_or chat ''default'' \<and>
    project_from_session_key (build_session_key platform chat project) =
      (if strip project = ''_'' then [] else strip project)"
proof -
  define p where "p = strip_or (str_or platform ''unknown'') ''unknown''"
  define c where "c = strip_or (str_or chat ''default'') ''default''"
  define q where "q = slug_project project"
  have d: "strip ''unknown'' = ''unknown''" "strip ''default'' = ''default''" by code_simp+
  have no: "CHR '':'' \<notin> set p" "CHR '':'' \<notin> set c" "CHR '':'' \<notin> set q"
    using assms set_strip by (auto simp: p_def c_def q_def slug_project_def strip_or_def str_or_def d)
  have ne: "c \<noteq> []" "q \<noteq> []" by (simp_all add: c_def q_def slug_project_def strip_or_def str_or_def)
  then have hd: "hd c \<noteq> CHR '':''" "hd q \<noteq> CHR '':''" using no hd_in_set by metis+
  have k: "build_session_key platform chat project = p @ CHR '':'' # c @ CHR '':'' # q"
    by (simp add: build_session_key_def p_def c_def q_def)
  have b: "base_session_key (p @ CHR '':'' # c @ CHR '':'' # q) = p @ CHR '':'' # c @ CHR '':'' # q"
    using no ne hd by (simp add: base_session_key_colon base_session_key_plain)
  have c': "c = strip_or chat ''default''" by (simp add: c_def strip_or_def str_or_def d)
  have "(if q = ''_'' then [] else q) = (if strip project = ''_'' then [] else strip project)"
    by (simp add: q_def slug_project_def strip_or_def str_or_def)
  moreover have "chat_id_from_session_key (build_session_key platform chat project) = c"
    unfolding chat_id_from_session_key_def k b using no by (simp add: split_first_app)
  moreover have "project_from_session_key (build_session_key platform chat project) = (if q = ''_'' then [] else q)"
    unfolding project_from_session_key_def k b using no by (simp add: split_first_app split_first_plain)
  ultimately show ?thesis using c' by simp
qed

section \<open>Findings\<close>

definition word_chars_ok :: "queue_env \<Rightarrow> bool" where
  "word_chars_ok env \<longleftrightarrow> (\<forall>u. qe_word env u \<longrightarrow> CHR '':'' \<notin> set u)"

lemma safe_key_no_colon: "word_chars_ok env \<Longrightarrow> CHR '':'' \<notin> set (safe_key env key)"
proof
  assume w: "word_chars_ok env" and "CHR '':'' \<in> set (safe_key env key)"
  then obtain u where "is_word_char env u" "CHR '':'' \<in> set u"
    by (auto simp: safe_key_def dest!: in_set_takeD split: if_splits)
  with w show False by (auto simp: is_word_char_def word_chars_ok_def Let_def split: list.splits)
qed

text \<open>
  finding: a restart does not give a session its messages back.  Whatever was queued and
  persisted, after \<open>restore_persisted_queue\<close> the queue of every canonical session key
  (\<open>platform:chat:project\<close>) is empty, because the file name replaces the colons and the
  messages are restored under the file name.
\<close>

theorem restart_loses_session_messages:
  assumes "word_chars_ok env"
  shows "session_items (build_session_key platform chat project)
    (mq_step env MqRestart (fold (mq_step env) es mq_start)) = []"
proof -
  define s where "s = fold (mq_step env) es mq_start"
  define key where "key = build_session_key platform chat project"
  have inv: "mq_inv env s" unfolding s_def by (rule mq.inv_run)
  then have f: "files_ok env (mq_files s)" by (simp add: mq_inv_def)
  let ?fs = "sort_key fst (mq_files s)"
  have "CHR '':'' \<in> set key" by (simp add: key_def build_session_key_def)
  then have nk: "key \<notin> set (map fst ?fs)" using f safe_key_no_colon [OF assms] by (auto simp: files_ok_def)
  have d: "distinct (map fst ?fs)"
    using f by (metis distinct_map distinct_sort dwf_def files_ok_def set_sort)
  have "set (dkeys (mq_queues (fold (restore_file env) ?fs (restart_process s)))) \<subseteq> set (map fst ?fs)"
    using restore_fold_ok [OF _ d, of env "restart_process s"] by (simp add: restart_process_def queues_ok_def)
  then have "dget (mq_queues (fold (restore_file env) ?fs (restart_process s))) key = None"
    using nk dget_None by fast
  then have "session_items key (snd (restore_persisted_queue env (restart_process s))) = []"
    by (simp add: restore_persisted_queue_def session_items_def bucket_of_def Let_def)
      (simp add: restart_process_def)
  then show ?thesis by (simp add: mq_step_def s_def key_def)
qed

lemma bucket_pop_items: "bucket_ok b \<Longrightarrow> bucket_pop b = Some (x, b') \<Longrightarrow> bucket_items b = x # bucket_items b'"
proof -
  assume ok: "bucket_ok b" and p: "bucket_pop b = Some (x, b')"
  then obtain y ys where "bucket_items b = y # ys" using bucket_pop_none by (cases "bucket_items b") auto
  with bucket_pop_some [OF ok this] p show ?thesis by auto
qed

lemma bucket_of_put: "bucket_items (bucket_of key (put_bucket key b s)) = bucket_items b"
  by (auto simp: bucket_of_def put_bucket_def bucket_total_items)

lemma pop_next_items:
  assumes "queues_ok env (mq_queues s)" "session_items (str_or key ''default'') s = x # xs"
  shows "\<exists>s'. pop_next env key s = (Some x, s') \<and> session_items (str_or key ''default'') s' = xs"
proof -
  let ?k = "str_or key ''default''"
  have "bucket_ok (bucket_of ?k s)" using bucket_of_fits [OF assms(1), of ?k] by (simp add: bucket_fits_def)
  from bucket_pop_some [OF this] assms(2) obtain b' where
    b: "bucket_pop (bucket_of ?k s) = Some (x, b')" "bucket_items b' = xs" by (auto simp: session_items_def)
  have "bucket_of k (persist_remove env j i t) = bucket_of k t" for k j i t by (simp add: bucket_of_def)
  with b show ?thesis by (simp add: pop_next_def Let_def session_items_def bucket_of_put)
qed

text \<open>
  finding: the drain takes a message off the queue before it looks whether a turn is
  active on the session: when one is, the most urgent message is neither handled nor queued
  any more.
\<close>

theorem drain_drops_message_of_active_session:
  assumes "queues_ok env (mq_queues s)" and "message_queue_enabled env" and "get_queue_mode env key \<noteq> ''collect''"
    and "max_drain env (get_queue_mode env key) = Suc n" and "dh_active host 0"
    and "session_items (str_or key ''default'') s = x # xs"
  shows "\<exists>s'. drain_queued_inbound env host now new_id key s = ([], [], s') \<and>
    session_items (str_or key ''default'') s' = xs"
proof -
  obtain s' where "pop_next env key s = (Some x, s')" "session_items (str_or key ''default'') s' = xs"
    using pop_next_items [OF assms(1,6)] by blast
  with assms show ?thesis by (simp add: drain_queued_inbound_def Let_def)
qed

section \<open>Concrete inputs\<close>

definition demo_qenv :: queue_env where
  "demo_qenv = \<lparr>qe_os = (\<lambda>n. if n = ''BUTLER_GATEWAY_QUEUE_PERSIST'' then Some ''1'' else None),
     qe_yaml = [(''cap'', JInt 2), (''drop'', JStr ''old'')], qe_override = (\<lambda>_. []), qe_word = (\<lambda>_. False)\<rparr>"

definition demo_chat :: string where
  "demo_chat = build_session_key ''wechat'' ''u1'' ''blog''"

definition demo_events :: "mq_event list" where
  "demo_events = [MqEnqueue 1 ''i1'' demo_chat ''hello'' ''wechat'' ''e1'' None,
     MqEnqueue 5 ''i2'' demo_chat ''/later tidy up'' ''wechat'' ''e2'' None,
     MqEnqueue 9 ''i3'' demo_chat ''/urgent stop'' ''wechat'' ''e3'' None]"

definition demo_queue :: mq_state where
  "demo_queue = fold (mq_step demo_qenv) demo_events mq_start"

definition demo_message :: "string \<Rightarrow> priority \<Rightarrow> queued" where
  "demo_message t p = \<lparr>qi_text = t, qi_priority = p, qi_platform = ''wechat'', qi_external_id = [],
     qi_enqueued_at = 0, qi_id = t\<rparr>"

theorem buckets_are_a_sorted_queue_witness:
  "fst (pops bucket_pop 2 (fold (\<lambda>x. bucket_append (qi_priority x) x)
     [demo_message ''b'' PLater, demo_message ''c'' PNow, demo_message ''d'' PNext] empty_bucket))
   = take 2 (sort_key qi_priority (bucket_items empty_bucket @
       [demo_message ''b'' PLater, demo_message ''c'' PNow, demo_message ''d'' PNext]))"
  by (rule buckets_are_a_sorted_queue) simp

definition full_bucket :: bucket where
  "full_bucket = fold (\<lambda>x. bucket_append (qi_priority x) x)
     [demo_message ''b'' PLater, demo_message ''c'' PNow, demo_message ''d'' PNext] empty_bucket"

theorem make_room_drops_least_urgent_witness:
  "make_room 3 ''old'' full_bucket [] = (True, full_bucket\<lparr>bk_later := []\<rparr>, []) \<and>
   int (length (bucket_items (full_bucket\<lparr>bk_later := []\<rparr>))) < 3"
proof -
  have ok: "bucket_ok full_bucket" by code_simp
  have m: "make_room 3 ''old'' full_bucket [] = (True, full_bucket\<lparr>bk_later := []\<rparr>, [])" by code_simp
  from make_room_drops_least_urgent [OF ok _ m] m show ?thesis by simp
qed

theorem session_key_roundtrip_witness:
  "demo_chat = ''wechat:u1:blog'' \<and> chat_id_from_session_key demo_chat = strip_or ''u1'' ''default''"
proof
  show "chat_id_from_session_key demo_chat = strip_or ''u1'' ''default''"
    using session_key_roundtrip [of "''wechat''" "''u1''" "''blog''"] by (simp add: demo_chat_def)
qed code_simp

theorem restart_loses_session_messages_witness:
  "map qi_text (session_items demo_chat demo_queue) = [''/urgent stop'', ''hello''] \<and>
   session_items demo_chat (mq_step demo_qenv MqRestart demo_queue) = []"
proof
  show "session_items demo_chat (mq_step demo_qenv MqRestart demo_queue) = []"
    unfolding demo_queue_def demo_chat_def
    by (rule restart_loses_session_messages) (simp add: word_chars_ok_def demo_qenv_def)
qed code_simp

theorem drain_drops_message_of_active_session_witness:
  "\<exists>s'. drain_queued_inbound demo_qenv \<lparr>dh_active = (\<lambda>_. True), dh_handle = (\<lambda>_ _. ''ok'')\<rparr> 10 ''n'' demo_chat demo_queue
     = ([], [], s') \<and> session_items (str_or demo_chat ''default'') s' = tl (session_items (str_or demo_chat ''default'') demo_queue)"
proof (rule drain_drops_message_of_active_session)
  show "queues_ok demo_qenv (mq_queues demo_queue)"
    using mq.inv_run [of demo_qenv demo_events] unfolding mq_inv_def demo_queue_def by (rule conjunct1)
  show "message_queue_enabled demo_qenv" by code_simp
  show "get_queue_mode demo_qenv demo_chat \<noteq> ''collect''" by code_simp
  show "max_drain demo_qenv (get_queue_mode demo_qenv demo_chat) = Suc 0" by code_simp
  have "session_items (str_or demo_chat ''default'') demo_queue \<noteq> []" by code_simp
  then show "session_items (str_or demo_chat ''default'') demo_queue
    = hd (session_items (str_or demo_chat ''default'') demo_queue) # tl (session_items (str_or demo_chat ''default'') demo_queue)"
    by (rule hd_Cons_tl [symmetric])
qed simp

end
