(* ===== verification/Approvals.thy ===== *)
theory Approvals
  imports Tool_Loop
begin

text \<open>
  The approvals of a session (\<open>permissions/approvals.py\<close>): the pending request, the requests
  approved once for a time, the entries approved always; and the doom loop question that is
  answered by them (\<open>permissions/doom_loop.py\<close>).

  The store maps the directory segment of a session to the content of its
  \<open>approvals.json\<close>; the file is written by these operations only, so its rows have the
  fields they write.  Replies to the owner are constructors carrying what the text shows;
  the emission of audit events is left out.
\<close>

section \<open>Data\<close>

record approval_request =
  rq_permission :: string
  rq_tool :: string
  rq_pattern :: string
  rq_reason :: string

record pending_row =
  pn_permission :: string
  pn_tool :: string
  pn_pattern :: string
  pn_reason :: string
  pn_fingerprint :: string
  pn_requested_at :: secs

record once_row =
  on_permission :: string
  on_tool :: string
  on_pattern :: string
  on_fingerprint :: string
  on_expires_at :: secs

record always_row =
  al_permission :: string
  al_tool :: string
  al_pattern :: string
  al_created_at :: secs

record approvals =
  ap_always :: "always_row list"
  ap_once :: "once_row list"
  ap_pending :: "pending_row option"

definition no_approvals :: approvals where
  "no_approvals = \<lparr>ap_always = [], ap_once = [], ap_pending = None\<rparr>"

type_synonym approval_store = "(string, approvals) dict"

text \<open>The environment: the libraries, and \<open>float(text)\<close>, nothing when it raises.\<close>

record approval_env =
  ae_lib :: py_lib
  ae_os :: os_env
  ae_float :: "string \<Rightarrow> secs option"

text \<open>\<open>float_env(name, d, min=lo)\<close>.\<close>

definition float_env :: "approval_env \<Rightarrow> string \<Rightarrow> secs \<Rightarrow> secs \<Rightarrow> secs" where
  "float_env env name d lo = max lo (case ae_os env name of
       None \<Rightarrow> d
     | Some raw \<Rightarrow> if strip raw = [] then d else (case ae_float env (strip raw) of Some v \<Rightarrow> v | None \<Rightarrow> d))"

definition once_ttl_seconds :: "approval_env \<Rightarrow> secs" where
  "once_ttl_seconds env = float_env env ''BUTLER_PERMISSION_ONCE_TTL'' 300 60"

definition fingerprint :: "py_lib \<Rightarrow> approval_request \<Rightarrow> string" where
  "fingerprint lib r = utake 32 (lib_sha256 lib (lib_dumps lib (JObj
     [(''permission'', JStr (rq_permission r)), (''tool'', JStr (rq_tool r)), (''pattern'', JStr (rq_pattern r))])))"

definition safe_segment :: "py_lib \<Rightarrow> string \<Rightarrow> string" where
  "safe_segment lib v = utake 16 (lib_sha256 lib (strip_or v ''_global''))"

definition load_approvals :: "py_lib \<Rightarrow> string \<Rightarrow> approval_store \<Rightarrow> approvals" where
  "load_approvals lib sk st = (case dget st (safe_segment lib sk) of Some d \<Rightarrow> d | None \<Rightarrow> no_approvals)"

definition save_approvals :: "py_lib \<Rightarrow> string \<Rightarrow> approvals \<Rightarrow> approval_store \<Rightarrow> approval_store" where
  "save_approvals lib sk d st = dset (safe_segment lib sk) d st"

definition purge_once :: "secs \<Rightarrow> once_row list \<Rightarrow> once_row list" where
  "purge_once now rows = filter (\<lambda>r. now < on_expires_at r) rows"

section \<open>Operations\<close>

datatype approval_reply =
    No_Session
  | Nothing_Pending
  | Fingerprint_Mismatch
  | Granted_Once string int
  | Permission_Needed
  | Granted_Always string string string
  | Filter_Needed
  | No_Match string string string
  | Revoked nat
  | Cleared nat

definition save_pending :: "approval_env \<Rightarrow> secs \<Rightarrow> string \<Rightarrow> approval_request \<Rightarrow> approval_store
    \<Rightarrow> string \<times> approval_store" where
  "save_pending env now sk r st = (if strip sk = [] then ([], st)
     else let lib = ae_lib env; d = load_approvals lib sk st; fp = fingerprint lib r in
       (fp, save_approvals lib sk (d\<lparr>ap_pending := Some
          \<lparr>pn_permission = rq_permission r, pn_tool = rq_tool r, pn_pattern = rq_pattern r,
           pn_reason = rq_reason r, pn_fingerprint = fp, pn_requested_at = now\<rparr>\<rparr>) st))"

definition grant_once :: "approval_env \<Rightarrow> secs \<Rightarrow> string \<Rightarrow> string \<Rightarrow> approval_store
    \<Rightarrow> approval_reply \<times> approval_store" where
  "grant_once env now session_key given st = (let sk = strip session_key in
     if sk = [] then (No_Session, st)
     else let lib = ae_lib env; d = load_approvals lib sk st;
       fp = (if strip given \<noteq> [] then strip given
             else case ap_pending d of Some p \<Rightarrow> pn_fingerprint p | None \<Rightarrow> [])
     in if fp = [] then (Nothing_Pending, st)
     else case ap_pending d of
       Some p \<Rightarrow>
         if pn_fingerprint p \<noteq> fp then (Fingerprint_Mismatch, st)
         else (Granted_Once (str_or (pn_permission p) ''?'') \<lfloor>once_ttl_seconds env\<rfloor>,
               save_approvals lib sk (d\<lparr>ap_once := purge_once now (ap_once d) @
                 [\<lparr>on_permission = pn_permission p, on_tool = pn_tool p, on_pattern = pn_pattern p,
                   on_fingerprint = fp, on_expires_at = now + once_ttl_seconds env\<rparr>],
                 ap_pending := None\<rparr>) st)
     | None \<Rightarrow> (Fingerprint_Mismatch, st))"

definition grant_always :: "approval_env \<Rightarrow> secs \<Rightarrow> string \<Rightarrow> string \<Rightarrow> string \<Rightarrow> string
    \<Rightarrow> approval_store \<Rightarrow> approval_reply \<times> approval_store" where
  "grant_always env now session_key permission tool pattern st = (let sk = strip session_key; perm = strip permission in
     if sk = [] then (No_Session, st)
     else if perm = [] then (Permission_Needed, st)
     else let lib = ae_lib env; d = load_approvals lib sk st;
       entry = \<lparr>al_permission = perm, al_tool = strip_or (str_or tool ''*'') ''*'',
                al_pattern = strip_or (str_or pattern ''*'') ''*'', al_created_at = now\<rparr>;
       always = filter (\<lambda>r. \<not> (al_permission r = al_permission entry \<and> al_tool r = al_tool entry \<and>
                  al_pattern r = al_pattern entry)) (ap_always d)
     in (Granted_Always perm (al_tool entry) (al_pattern entry),
         save_approvals lib sk (d\<lparr>ap_always := always @ [entry], ap_pending := None\<rparr>) st))"

definition list_always :: "approval_env \<Rightarrow> string \<Rightarrow> approval_store \<Rightarrow> always_row list" where
  "list_always env sk st = ap_always (load_approvals (ae_lib env) sk st)"

definition clear_pending :: "approval_env \<Rightarrow> string \<Rightarrow> approval_store \<Rightarrow> approval_store" where
  "clear_pending env sk st = save_approvals (ae_lib env) sk
     ((load_approvals (ae_lib env) sk st)\<lparr>ap_pending := None\<rparr>) st"

text \<open>\<open>match_path_glob\<close> of \<open>permissions/rules.py\<close>: a final star matches every continuation.\<close>

definition match_glob :: "string \<Rightarrow> string \<Rightarrow> bool" where
  "match_glob pattern v = (let pat = strip pattern in
     if pat = [] then False
     else if last pat = CHR ''*'' then prefix (butlast pat) v
     else v = pat)"

definition match_entry :: "string \<Rightarrow> string \<Rightarrow> string \<Rightarrow> approval_request \<Rightarrow> bool" where
  "match_entry perm tool pattern r \<longleftrightarrow>
     (perm = [] \<or> perm = rq_permission r) \<and>
     (str_or tool ''*'' = ''*'' \<or> str_or tool ''*'' = rq_tool r) \<and>
     (str_or pattern ''*'' = ''*'' \<or> match_glob (str_or pattern ''*'') (rq_pattern r))"

text \<open>The answer, with the list it was found in.\<close>

datatype approval_source = By_Always | By_Once

definition find_approval :: "approval_env \<Rightarrow> secs \<Rightarrow> string \<Rightarrow> approval_request \<Rightarrow> approval_store
    \<Rightarrow> approval_source option" where
  "find_approval env now session_key r st = (let sk = strip session_key in
     if sk = [] then None
     else let d = load_approvals (ae_lib env) sk st in
       if list_ex (\<lambda>e. match_entry (al_permission e) (al_tool e) (al_pattern e) r) (ap_always d)
       then Some By_Always
       else if list_ex (\<lambda>e. on_fingerprint e = fingerprint (ae_lib env) r \<or>
                 match_entry (on_permission e) (on_tool e) (on_pattern e) r \<and> now < on_expires_at e)
               (purge_once now (ap_once d))
       then Some By_Once else None)"

definition is_approved :: "approval_env \<Rightarrow> secs \<Rightarrow> string \<Rightarrow> approval_request \<Rightarrow> approval_store \<Rightarrow> bool" where
  "is_approved env now sk r st \<longleftrightarrow> find_approval env now sk r st \<noteq> None"

text \<open>An entry is revoked when every filter given matches it.\<close>

definition revoke_hits :: "string \<Rightarrow> string \<Rightarrow> string \<Rightarrow> always_row \<Rightarrow> bool" where
  "revoke_hits perm tool pattern e \<longleftrightarrow>
     (perm = [] \<or> al_permission e = perm) \<and> (tool = [] \<or> al_tool e = tool) \<and>
     (pattern = [] \<or> al_pattern e = pattern)"

definition revoke_always :: "approval_env \<Rightarrow> string \<Rightarrow> string \<Rightarrow> string \<Rightarrow> string \<Rightarrow> approval_store
    \<Rightarrow> approval_reply \<times> approval_store" where
  "revoke_always env session_key permission tool pattern st = (let
       sk = strip session_key; p = strip permission; t = strip tool; g = strip pattern in
     if sk = [] then (No_Session, st)
     else if p = [] \<and> t = [] \<and> g = [] then (Filter_Needed, st)
     else let lib = ae_lib env; d = load_approvals lib sk st;
       after = filter (\<lambda>e. \<not> revoke_hits p t g e) (ap_always d)
     in if length after = length (ap_always d)
        then (No_Match (str_or p ''*'') (str_or t ''*'') (str_or g ''*''), st)
        else (Revoked (length (ap_always d) - length after), save_approvals lib sk (d\<lparr>ap_always := after\<rparr>) st))"

definition clear_always :: "approval_env \<Rightarrow> string \<Rightarrow> approval_store \<Rightarrow> approval_reply \<times> approval_store" where
  "clear_always env session_key st = (let sk = strip session_key in
     if sk = [] then (No_Session, st)
     else let lib = ae_lib env; d = load_approvals lib sk st in
       (Cleared (length (ap_always d)), save_approvals lib sk (d\<lparr>ap_always := []\<rparr>) st))"

record approval_summary =
  as_always :: nat
  as_once_active :: nat
  as_pending :: bool
  as_ext_always :: nat
  as_ext_once :: nat

definition summarize_approvals :: "approval_env \<Rightarrow> secs \<Rightarrow> string \<Rightarrow> approval_store \<Rightarrow> approval_summary" where
  "summarize_approvals env now session_key st = (let sk = strip session_key in
     if sk = [] then \<lparr>as_always = 0, as_once_active = 0, as_pending = False, as_ext_always = 0, as_ext_once = 0\<rparr>
     else let d = load_approvals (ae_lib env) sk st; once = purge_once now (ap_once d) in
       \<lparr>as_always = length (ap_always d), as_once_active = length once,
        as_pending = (case ap_pending d of Some p \<Rightarrow> pn_fingerprint p \<noteq> [] | None \<Rightarrow> False),
        as_ext_always = length (filter (\<lambda>e. al_permission e = ''external_directory'') (ap_always d)),
        as_ext_once = length (filter (\<lambda>e. on_permission e = ''external_directory'') once)\<rparr>)"

section \<open>The doom loop question\<close>

definition doom_loop_request :: "py_lib \<Rightarrow> string \<Rightarrow> jval \<Rightarrow> approval_request" where
  "doom_loop_request lib tool args = \<lparr>rq_permission = ''doom_loop'', rq_tool = tool,
     rq_pattern = utake 16 (sig_hash (from_call lib tool args)), rq_reason = ''doom_loop''\<rparr>"

text \<open>\<open>check_doom_loop_ask\<close> on a decision to ask: true when the call is blocked.\<close>

definition check_doom_loop_ask :: "approval_env \<Rightarrow> secs \<Rightarrow> string \<Rightarrow> string \<Rightarrow> string \<Rightarrow> string \<Rightarrow> jval
    \<Rightarrow> approval_store \<Rightarrow> bool \<times> approval_store" where
  "check_doom_loop_ask env now session_key code act tool args st =
    (if code \<noteq> ''doom_loop'' \<or> act \<noteq> ''ask'' then (False, st)
     else if strip session_key = [] then (True, st)
     else let r = doom_loop_request (ae_lib env) tool args in
       if is_approved env now (strip session_key) r st then (False, st)
       else (True, snd (save_pending env now (strip session_key) r st)))"

section \<open>The interface of the store\<close>

text \<open>
  What the permission rules rely on: recording a request leaves every approval as it was.
\<close>

locale approval_cache =
  fixes approved :: "'s \<Rightarrow> 'r \<Rightarrow> bool"
    and ask :: "'r \<Rightarrow> 's \<Rightarrow> 's"
  assumes ask_grants_nothing: "approved (ask r s) q = approved s q"
begin

text \<open>A client that asks any number of questions has granted nothing.\<close>

lemma asks_grant_nothing: "approved (fold ask rs s) q = approved s q"
  by (induction rs arbitrary: s) (simp_all add: ask_grants_nothing)

end

lemma load_save [simp]:
  "load_approvals lib sk (save_approvals lib sk' d st) =
     (if safe_segment lib sk = safe_segment lib sk' then d else load_approvals lib sk st)"
  by (simp add: load_approvals_def save_approvals_def)

lemma safe_segment_strip [simp]: "safe_segment lib (strip sk) = safe_segment lib sk"
  by (simp add: safe_segment_def strip_or_def)

lemma find_approval_lists:
  "ap_always (load_approvals (ae_lib env) sk st) = ap_always (load_approvals (ae_lib env) sk st') \<Longrightarrow>
   ap_once (load_approvals (ae_lib env) sk st) = ap_once (load_approvals (ae_lib env) sk st') \<Longrightarrow>
   find_approval env now sk r st = find_approval env now sk r st'"
  by (simp add: find_approval_def Let_def load_approvals_def)

lemma save_pending_keeps:
  "find_approval env now sk q (snd (save_pending env t sk' r st)) = find_approval env now sk q st"
  by (rule find_approval_lists) (auto simp: save_pending_def Let_def, simp_all add: load_approvals_def)

lemma save_pending_approved:
  "is_approved env now sk q (snd (save_pending env t sk' r st)) = is_approved env now sk q st"
  by (simp add: is_approved_def save_pending_keeps)

interpretation session_approvals: approval_cache "\<lambda>st (now, sk, q). is_approved env now sk q st"
    "\<lambda>(now, sk, r) st. snd (save_pending env now sk r st)" for env
  by unfold_locales (auto simp: save_pending_approved)

end
