(* ===== verification/Permission_Rules.thy ===== *)
theory Permission_Rules
  imports Approvals
begin

text \<open>
  The project permission rules (\<open>permissions/rules.py\<close>) and the guards around them
  (\<open>rules_context.py\<close>, \<open>rules_fail_closed_ops.py\<close>, the path guards of
  \<open>experiments/mode.py\<close>): the parameter blacklist, the tool lists of workflow steps, the rules
  for paths outside the workspace, the tool policies and the tool rules, and the order in
  which a tool call is checked against them.

  What the file system, the YAML parser, the regular expressions and the hooks answer are
  fields of \<open>perm_env\<close>.
\<close>

section \<open>Environment\<close>

text \<open>A configuration file: missing, unreadable (the parser raised), or its document.\<close>

datatype yaml_file = Missing | Broken | Document jval

text \<open>A path relative to the workspace, outside of it, or the resolution raised.\<close>

datatype path_place = Inside string | Outside | Unresolved

record perm_env =
  pe_approvals :: approval_env
  pe_yaml :: yaml_file             \<comment> \<open>\<open>.butler/permissions.yaml\<close>\<close>
  pe_yml :: yaml_file              \<comment> \<open>\<open>.butler/permissions.yml\<close>\<close>
  pe_project :: yaml_file          \<comment> \<open>\<open>project.yaml\<close>\<close>
  pe_has_workspace :: bool
  pe_place :: "string \<Rightarrow> path_place"
  pe_session_result :: "string \<Rightarrow> bool"    \<comment> \<open>a stored tool result of the session\<close>
  pe_regex :: "string \<Rightarrow> string \<Rightarrow> string + bool"      \<comment> \<open>\<open>re.search\<close>\<close>
  pe_regex_i :: "string \<Rightarrow> string \<Rightarrow> string + bool"    \<comment> \<open>\<open>re.search(..., re.I)\<close>\<close>
  pe_step :: "string option"        \<comment> \<open>the workflow step; nothing when its lookup raises\<close>
  pe_hook :: "string \<Rightarrow> (string, jval) dict \<Rightarrow> string \<Rightarrow> string option"
  pe_session_key :: string
  pe_now :: secs

type_synonym tool_args = "(string, jval) dict"

datatype perm_action = Act_Allow | Act_Deny | Act_Ask

record perm_decision =
  pd_allowed :: bool
  pd_action :: perm_action
  pd_reason :: string
  pd_permission :: string

text \<open>The decision of a rule, by the text of its action.\<close>

definition rule_decision :: "string \<Rightarrow> string \<Rightarrow> string \<Rightarrow> perm_decision" where
  "rule_decision act reason perm = \<lparr>pd_allowed = (act = ''allow''),
     pd_action = (if act = ''allow'' then Act_Allow else if act = ''ask'' then Act_Ask else Act_Deny),
     pd_reason = reason, pd_permission = perm\<rparr>"

section \<open>Configuration\<close>

text \<open>
  \<open>load_permissions_yaml\<close>: the first of the two files that can be read decides; one whose
  parser raises is passed over like a missing one.
\<close>

definition file_dict :: "yaml_file \<Rightarrow> (string, jval) dict option" where
  "file_dict f = (case f of Document (JObj d) \<Rightarrow> Some d | Document _ \<Rightarrow> Some [] | _ \<Rightarrow> None)"

definition load_permissions_yaml :: "perm_env \<Rightarrow> (string, jval) dict" where
  "load_permissions_yaml env = (if \<not> pe_has_workspace env then []
     else case file_dict (pe_yaml env) of
       Some d \<Rightarrow> d
     | None \<Rightarrow> (case file_dict (pe_yml env) of
         Some d \<Rightarrow> d
       | None \<Rightarrow> (case pe_project env of
           Document (JObj p) \<Rightarrow> (case jget p ''permissions'' of JObj d \<Rightarrow> d | _ \<Rightarrow> [])
         | _ \<Rightarrow> [])))"

definition security_blacklist_enabled :: "perm_env \<Rightarrow> bool" where
  "security_blacklist_enabled env =
     env_truthy (ae_os (pe_approvals env)) ''BUTLER_PERMISSIONS_PARAM_BLACKLIST'' True"

text \<open>\<open>str(rule.get(k) or rule.get(k') or d)\<close> is \<open>str_field2\<close>; a rule that is no mapping is skipped.\<close>

definition rule_dicts :: "jval \<Rightarrow> (string, jval) dict list" where
  "rule_dicts v = (case v of
       JList rs \<Rightarrow> concat (map (\<lambda>r. case r of JObj d \<Rightarrow> [d] | _ \<Rightarrow> []) rs) | _ \<Rightarrow> [])"

definition resolve_path_arg :: "tool_args \<Rightarrow> string" where
  "resolve_path_arg args = strip (str_field2 args ''path'' ''file_path'' [])"

section \<open>Paths outside the workspace\<close>

definition path_outside_workspace :: "perm_env \<Rightarrow> string \<Rightarrow> bool" where
  "path_outside_workspace env p \<longleftrightarrow> p \<noteq> [] \<and> \<not> pe_session_result env p \<and>
     (case pe_place env p of Inside _ \<Rightarrow> False | _ \<Rightarrow> True)"

text \<open>One rule of \<open>external_directory\<close> on the decision so far.\<close>

definition external_rule :: "string \<Rightarrow> bool \<Rightarrow> (string, jval) dict \<Rightarrow> perm_decision option \<Rightarrow> perm_decision option" where
  "external_rule p for_write rule matched = (let path_pat = jor (jget rule ''path'') (jor (jget rule ''path_glob'') (JStr ''*'')) in
     if path_pat \<noteq> JStr ''*'' \<and> \<not> match_glob (pystr path_pat) p then matched
     else if for_write \<and> jget rule ''read_only'' = JBool True
     then Some (rule_decision ''deny'' (''external_directory '' @ bytes [232, 167, 132, 229, 136, 153, 231, 166, 129, 230, 173, 162, 229, 134, 153, 229, 133, 165]) ''external_directory'')
     else let act = lower (str_field2 rule ''action'' ''decision'' ''ask'');
              reason = str_field2 rule ''reason'' ''message'' (''external_directory: '' @ act)
       in Some (rule_decision act reason ''external_directory''))"

definition evaluate_external_directory :: "perm_env \<Rightarrow> string \<Rightarrow> bool \<Rightarrow> perm_decision option" where
  "evaluate_external_directory env p for_write =
    (if \<not> pe_has_workspace env \<or> strip p = [] \<or> \<not> path_outside_workspace env p then None
     else case jget (load_permissions_yaml env) ''external_directory'' of
       JList (r # rs) \<Rightarrow> fold (external_rule p for_write) (rule_dicts (JList (r # rs))) None
     | _ \<Rightarrow> Some (rule_decision ''deny'' ((bytes [232, 183, 175, 229, 190, 132, 229, 156, 168, 229, 183, 165, 228, 189, 156, 229, 140, 186, 229, 164, 150, 239, 188, 136] @ ''outside workspace'' @ bytes [239, 188, 137, 239, 188, 154]) @ p) ''external_directory''))"

section \<open>Workflow steps\<close>

definition canonical_tool_name :: "string \<Rightarrow> string" where
  "canonical_tool_name name = (let key = strip name in
     case dget [(''edit_file'', ''patch''), (''search_code'', ''search_files''),
                (''run_shell'', ''terminal''), (''skill_list'', ''skills_list'')] key of
       Some v \<Rightarrow> v | None \<Rightarrow> key)"

definition step_allowlist :: "perm_env \<Rightarrow> string \<Rightarrow> string list option" where
  "step_allowlist env step_id = (let sid = strip step_id in
     if sid = [] then None
     else case jget (load_permissions_yaml env) ''workflow_steps'' of
       JObj steps \<Rightarrow>
         (let rules = jget steps sid;
              allowed = (case rules of JObj d \<Rightarrow> jget d ''tools'' | _ \<Rightarrow> rules)
          in case allowed of
            JList (t # ts) \<Rightarrow> Some (filter (\<lambda>n. n \<noteq> [])
              (map (\<lambda>v. canonical_tool_name (pystr v)) (filter (\<lambda>v. strip (pystr v) \<noteq> []) (t # ts))))
          | _ \<Rightarrow> None)
     | _ \<Rightarrow> None)"

definition evaluate_workflow_step_permission :: "perm_env \<Rightarrow> string \<Rightarrow> string \<Rightarrow> perm_decision option" where
  "evaluate_workflow_step_permission env tool step_id = (if strip step_id = [] then None
     else case step_allowlist env step_id of
       None \<Rightarrow> None
     | Some allowed \<Rightarrow>
         if canonical_tool_name tool \<in> set allowed
         then Some (rule_decision ''allow'' ''workflow step allowlist'' ''workflow_step'')
         else Some (rule_decision ''deny'' ((bytes [230, 173, 165, 233, 170, 164] @ '' '') @ step_id @ ('' '' @ bytes [228, 187, 133, 229, 133, 129, 232, 174, 184, 229, 183, 165, 229, 133, 183] @ '': '') @
                join '', '' (sort (remdups allowed))) ''workflow_step''))"

section \<open>The parameter blacklist\<close>

definition arg_values_for_param :: "tool_args \<Rightarrow> string \<Rightarrow> string list" where
  "arg_values_for_param args param = (let key = strip param in
     if key = [] \<or> key = ''*'' then map pystr (filter (\<lambda>v. v \<noteq> JNull) (map snd args))
     else case dget args key of
       None \<Rightarrow> [] | Some (JList xs) \<Rightarrow> map pystr xs | Some v \<Rightarrow> [pystr v])"

text \<open>A value is denied by the literal pattern, or by the regular expression when it is well formed.\<close>

definition blacklist_hit :: "perm_env \<Rightarrow> (string, jval) dict \<Rightarrow> string \<Rightarrow> bool" where
  "blacklist_hit env rule text \<longleftrightarrow>
     (jget rule ''pattern'' \<noteq> JNull \<and> contains (pystr (jget rule ''pattern'')) text) \<or>
     (let rx = jor (jget rule ''pattern_regex'') (jget rule ''regex'') in
       truthy rx \<and> pe_regex_i env (pystr rx) text = Inr True)"

definition rule_tool_applies :: "(string, jval) dict \<Rightarrow> string \<Rightarrow> bool" where
  "rule_tool_applies rule tool \<longleftrightarrow> (let pat = str_field2 rule ''tool'' ''name'' ''*'' in pat = ''*'' \<or> pat = tool)"

definition blacklist_rule_hits :: "perm_env \<Rightarrow> string \<Rightarrow> tool_args \<Rightarrow> (string, jval) dict \<Rightarrow> bool" where
  "blacklist_rule_hits env tool args rule \<longleftrightarrow> rule_tool_applies rule tool \<and>
     list_ex (blacklist_hit env rule) (arg_values_for_param args (str_field2 rule ''param'' ''field'' ''*''))"

definition evaluate_security_blacklist :: "perm_env \<Rightarrow> string \<Rightarrow> tool_args \<Rightarrow> perm_decision option" where
  "evaluate_security_blacklist env tool args = (if \<not> security_blacklist_enabled env then None
     else case find (blacklist_rule_hits env tool args)
         (rule_dicts (jget (load_permissions_yaml env) ''security_blacklist'')) of
       None \<Rightarrow> None
     | Some rule \<Rightarrow> Some (rule_decision ''deny''
         (str_field2 rule ''reason'' ''message'' (''security_blacklist: '' @ bytes [229, 143, 130, 230, 149, 176, 232, 162, 171, 230, 139, 146, 231, 187, 157])) ''security_blacklist''))"

section \<open>Tool policies and tool rules\<close>

definition evaluate_tool_policy :: "perm_env \<Rightarrow> string \<Rightarrow> perm_decision option" where
  "evaluate_tool_policy env tool = (let cfg = load_permissions_yaml env in
     case jor (jget cfg ''tool_policies'') (jget cfg ''tools'') of
       JObj policies \<Rightarrow> (case jget policies tool of
           JStr s \<Rightarrow> (let act = lower (strip s) in
             Some (rule_decision act (''tool_policies: '' @ tool @ '' -> '' @ act) ''tool_policy''))
         | JObj raw \<Rightarrow> (let act = lower (str_field2 raw ''action'' ''decision'' ''ask'') in
             Some (rule_decision act (str_field2 raw ''reason'' ''message'' (''tool_policies: '' @ act)) ''tool_policy''))
         | _ \<Rightarrow> None)
     | _ \<Rightarrow> None)"

text \<open>
  One rule on the decision so far: the last matching rule decides.  A malformed
  \<open>command_regex\<close> raises.
\<close>

definition tool_rule :: "perm_env \<Rightarrow> string \<Rightarrow> string \<Rightarrow> (string, jval) dict \<Rightarrow> perm_decision option
    \<Rightarrow> string + perm_decision option" where
  "tool_rule env tool path_val rule matched = (if \<not> rule_tool_applies rule tool then Inr matched
     else let path_pat = jor (jget rule ''path'') (jget rule ''path_glob'') in
     if truthy path_pat \<and> \<not> match_glob (pystr path_pat) path_val then Inr matched
     else let cmd_re = jor (jget rule ''command_regex'') (jget rule ''bash_regex'');
       act = lower (str_field2 rule ''action'' ''decision'' ''deny'');
       d = rule_decision act (str_field2 rule ''reason'' ''message'' (''permission rule: '' @ act))
             (str_field rule ''permission'' ''rule'')
     in if truthy cmd_re \<and> (tool = ''terminal'' \<or> tool = ''bash'')
        then (case pe_regex env (pystr cmd_re) path_val of
            Inl exc \<Rightarrow> Inl exc | Inr ok \<Rightarrow> Inr (if ok then Some d else matched))
        else Inr (Some d))"

fun tool_rules :: "perm_env \<Rightarrow> string \<Rightarrow> string \<Rightarrow> (string, jval) dict list \<Rightarrow> perm_decision option
    \<Rightarrow> string + perm_decision option" where
  "tool_rules env tool path_val [] matched = Inr matched"
| "tool_rules env tool path_val (r # rs) matched = (case tool_rule env tool path_val r matched of
       Inl exc \<Rightarrow> Inl exc | Inr m \<Rightarrow> tool_rules env tool path_val rs m)"

definition evaluate_permission :: "perm_env \<Rightarrow> string \<Rightarrow> tool_args \<Rightarrow> string + perm_decision option" where
  "evaluate_permission env tool args = (let cfg = load_permissions_yaml env in
     case jor (jget cfg ''rules'') (jget cfg ''tool_rules'') of
       JList rs \<Rightarrow> tool_rules env tool (str_or (resolve_path_arg args) (str_field args ''command'' []))
                     (rule_dicts (JList rs)) None
     | _ \<Rightarrow> Inr None)"

section \<open>Decisions and approvals\<close>

definition approval_request_of :: "perm_decision \<Rightarrow> string \<Rightarrow> tool_args \<Rightarrow> approval_request" where
  "approval_request_of d tool args = \<lparr>rq_permission = strip_or (str_or (pd_permission d) ''rule'') ''rule'',
     rq_tool = tool,
     rq_pattern = str_or (str_or (resolve_path_arg args) (str_field args ''command'' ''*'')) ''*'',
     rq_reason = pd_reason d\<rparr>"

definition decision_with_approval :: "perm_env \<Rightarrow> perm_decision \<Rightarrow> string \<Rightarrow> tool_args \<Rightarrow> approval_store
    \<Rightarrow> perm_decision option \<times> approval_store" where
  "decision_with_approval env d tool args st = (if pd_action d \<noteq> Act_Ask then (Some d, st)
     else let r = approval_request_of d tool args; sk = pe_session_key env in
       if sk \<noteq> [] \<and> is_approved (pe_approvals env) (pe_now env) sk r st then (None, st)
       else (case pe_hook env tool args (pd_reason d) of
           Some h \<Rightarrow> if h \<noteq> []
             then (Some (rule_decision ''deny'' h (pd_permission d)), st)
             else (Some d, if sk \<noteq> [] then snd (save_pending (pe_approvals env) (pe_now env) sk r st) else st)
         | None \<Rightarrow> (Some d, if sk \<noteq> [] then snd (save_pending (pe_approvals env) (pe_now env) sk r st) else st)))"

definition check_external_path_override :: "perm_env \<Rightarrow> string \<Rightarrow> bool \<Rightarrow> approval_store
    \<Rightarrow> perm_decision option \<times> approval_store" where
  "check_external_path_override env p for_write st = (if \<not> pe_has_workspace env then (None, st)
     else case evaluate_external_directory env p for_write of
       None \<Rightarrow> (None, st)
     | Some d \<Rightarrow>
         if pd_allowed d then (Some d, st)
         else if pd_action d = Act_Ask
         then (case decision_with_approval env d ''path'' [(''path'', JStr p)] st of
             (None, st') \<Rightarrow> (Some (rule_decision ''allow'' ''session approval'' ''external_directory''), st')
           | (Some d', st') \<Rightarrow> (Some d', st'))
         else (Some d, st))"

definition format_ask_message :: "perm_decision \<Rightarrow> string" where
  "format_ask_message d = pd_reason d @ (bytes [239, 188, 136, 233, 156, 128] @ '' Owner'' @ bytes [239, 188, 154] @ ''/'' @ bytes [230, 137, 185, 229, 135, 134, 228, 184, 128, 230, 172, 161] @ '' '' @ bytes [230, 136, 150] @ '' /'' @ bytes [229, 167, 139, 231, 187, 136, 229, 133, 129, 232, 174, 184] @ '' '') @
     str_or (pd_permission d) ''rule'' @ (bytes [239, 188, 137])"

text \<open>The block reason of one decision, if it blocks.\<close>

definition apply_decision :: "perm_env \<Rightarrow> perm_decision option \<Rightarrow> string \<Rightarrow> tool_args \<Rightarrow> approval_store
    \<Rightarrow> string option \<times> approval_store" where
  "apply_decision env d tool args st = (case d of
       None \<Rightarrow> (None, st)
     | Some d \<Rightarrow>
         if pd_allowed d then (None, st)
         else if pd_action d = Act_Ask
         then (case decision_with_approval env d tool args st of
             (None, st') \<Rightarrow> (None, st') | (Some d', st') \<Rightarrow> (Some (format_ask_message d'), st'))
         else (Some (pd_reason d), st))"

definition path_tools :: "string set" where
  "path_tools = {''read_file'', ''write_file'', ''patch'', ''delete_file'', ''search_files'', ''list_dir''}"

definition write_tools :: "string set" where
  "write_tools = {''write_file'', ''patch'', ''delete_file''}"

definition external_directory_block :: "perm_env \<Rightarrow> string \<Rightarrow> tool_args \<Rightarrow> approval_store
    \<Rightarrow> string option \<times> approval_store" where
  "external_directory_block env tool args st = (let p = resolve_path_arg args in
     if p = [] \<or> tool \<notin> path_tools then (None, st)
     else apply_decision env (evaluate_external_directory env p (tool \<in> write_tools)) tool args st)"

section \<open>Guards that fail closed\<close>

text \<open>\<open>_rel_path\<close> and the path guards of the experiment mode.\<close>

definition rel_path :: "perm_env \<Rightarrow> string \<Rightarrow> string + string" where
  "rel_path env p = (let raw = strip p in
     if raw = [] then Inr []
     else case pe_place env raw of
       Inside rel \<Rightarrow> Inr rel
     | Outside \<Rightarrow> Inr (dropWhile (\<lambda>c. c = CHR ''/'') (map (\<lambda>c. if c = CHR 0x5C then CHR ''/'' else c) raw))
     | Unresolved \<Rightarrow> Inl ''path'')"

definition under_dir :: "string \<Rightarrow> string \<Rightarrow> bool" where
  "under_dir dir rel \<longleftrightarrow> prefix (dir @ ''/'') rel \<or> rel = dir"

definition check_experiment_mode_block :: "perm_env \<Rightarrow> string \<Rightarrow> tool_args \<Rightarrow> string + string option" where
  "check_experiment_mode_block env tool args =
    (if \<not> env_truthy (ae_os (pe_approvals env)) ''BUTLER_EXPERIMENT_MODE'' False \<or> \<not> pe_has_workspace env
        \<or> tool \<notin> write_tools \<or> resolve_path_arg args = []
     then Inr None
     else let p = resolve_path_arg args in
     case rel_path env p of
       Inl exc \<Rightarrow> Inl exc
     | Inr rel \<Rightarrow> (let l = lower rel in
         if rel \<noteq> [] \<and> (under_dir ''.butler/harness'' l \<or> under_dir ''harness'' l)
         then Inr (Some (''BUTLER_EXPERIMENT_MODE=1'' @ bytes [239, 188, 154] @ ''`.butler/harness/` '' @ bytes [228, 184, 186, 229, 143, 170, 232, 175, 187, 232, 175, 132, 230, 181, 139, 233, 157, 162, 239, 188, 140, 231, 166, 129, 230, 173, 162] @ '' write/patch/delete''))
         else if \<not> (rel \<noteq> [] \<and> under_dir ''experiments'' l)
         then Inr (Some ((''BUTLER_EXPERIMENT_MODE=1'' @ bytes [239, 188, 154, 228, 187, 133, 229, 133, 129, 232, 174, 184, 229, 134, 153, 229, 133, 165] @ '' `experiments/` '' @ bytes [231, 155, 174, 229, 189, 149, 239, 188, 155, 230, 139, 146, 231, 187, 157, 232, 183, 175, 229, 190, 132] @ '': '') @ p))
         else Inr None))"

definition experiment_block :: "perm_env \<Rightarrow> string \<Rightarrow> tool_args \<Rightarrow> string option" where
  "experiment_block env tool args = (case check_experiment_mode_block env tool args of
       Inr b \<Rightarrow> b
     | Inl _ \<Rightarrow> Some (''experiment mode '' @ bytes [229, 174, 136, 230, 138, 164, 229, 188, 130, 229, 184, 184] @ '' (fail-closed); '' @ bytes [230, 139, 146, 231, 187, 157, 232, 175, 165, 232, 176, 131, 231, 148, 168]))"

definition workflow_step_block :: "perm_env \<Rightarrow> string \<Rightarrow> string option" where
  "workflow_step_block env tool = (case pe_step env of
       None \<Rightarrow> Some (''workflow step '' @ bytes [232, 167, 163, 230, 158, 144, 229, 153, 168, 229, 188, 130, 229, 184, 184] @ '' (fail-closed); '' @ bytes [230, 139, 146, 231, 187, 157, 232, 175, 165, 232, 176, 131, 231, 148, 168])
     | Some step_id \<Rightarrow>
         if step_id = [] then None
         else (case evaluate_workflow_step_permission env tool step_id of
             Some d \<Rightarrow> if pd_allowed d then None else Some (pd_reason d)
           | None \<Rightarrow> None))"

text \<open>\<open>if block: return str(block)\<close>: an empty text does not block.\<close>

definition blocks :: "string option \<Rightarrow> bool" where
  "blocks b \<longleftrightarrow> (case b of Some s \<Rightarrow> s \<noteq> [] | None \<Rightarrow> False)"

section \<open>The check of a tool call\<close>

text \<open>
  \<open>check_project_permission_block\<close>: the reason the call is refused for, or nothing.  The tool
  policy and the tool rules are joined by \<open>or\<close>, so the rules are consulted when the policy
  does not block.
\<close>

definition check_project_permission_block :: "perm_env \<Rightarrow> string \<Rightarrow> tool_args \<Rightarrow> approval_store
    \<Rightarrow> (string + string option) \<times> approval_store" where
  "check_project_permission_block env tool args st =
    (if \<not> pe_has_workspace env then (Inr None, st)
     else case evaluate_security_blacklist env tool args of
       Some d \<Rightarrow> (Inr (Some (pd_reason d)), st)
     | None \<Rightarrow>
       if blocks (experiment_block env tool args) then (Inr (experiment_block env tool args), st)
       else if blocks (workflow_step_block env tool) then (Inr (workflow_step_block env tool), st)
       else (case external_directory_block env tool args st of
         (ext, st1) \<Rightarrow>
           if blocks ext then (Inr ext, st1)
           else (case apply_decision env (evaluate_tool_policy env tool) tool args st1 of
             (pol, st2) \<Rightarrow>
               if blocks pol then (Inr pol, st2)
               else (case evaluate_permission env tool args of
                   Inl exc \<Rightarrow> (Inl exc, st2)
                 | Inr d \<Rightarrow> (case apply_decision env d tool args st2 of (b, st3) \<Rightarrow> (Inr b, st3))))))"

text \<open>
  \<open>project_permission_block\<close> of \<open>tools/registry_gates.py\<close>: the check run best effort, so one
  that raises counts as one that does not block.
\<close>

definition project_permission_block :: "perm_env \<Rightarrow> string \<Rightarrow> tool_args \<Rightarrow> approval_store
    \<Rightarrow> string option \<times> approval_store" where
  "project_permission_block env tool args st = (case check_project_permission_block env tool args st of
     (Inr b, st') \<Rightarrow> (b, st') | (Inl _, st') \<Rightarrow> (None, st'))"

end
