(* ===== verification/Permission_Props.thy ===== *)
theory Permission_Props
  imports Permission_Rules
begin

text \<open>
  What the permission rules and the approvals guarantee: a call that passes was denied by no
  source and asked for by none it is not approved for; a check grants nothing; an approval
  holds for its time and covers the request it was given for.  Findings: rules that cannot be
  read or evaluated let calls pass, and an approval given once for a text that ends in a star
  covers every continuation.
\<close>

section \<open>Decisions and the store\<close>

lemma rule_decision_simps [simp]:
  "pd_allowed (rule_decision act reason perm) \<longleftrightarrow> act = ''allow''"
  "pd_action (rule_decision act reason perm) = Act_Ask \<longleftrightarrow> act = ''ask''"
  "pd_action (rule_decision act reason perm) = Act_Deny \<longleftrightarrow> act \<noteq> ''allow'' \<and> act \<noteq> ''ask''"
  "pd_permission (rule_decision act reason perm) = perm"
  by (auto simp: rule_decision_def)

text \<open>A store that answers every question of approval alike.\<close>

definition same_approvals :: "approval_env \<Rightarrow> approval_store \<Rightarrow> approval_store \<Rightarrow> bool" where
  "same_approvals env st st' \<longleftrightarrow> (\<forall>now sk q. is_approved env now sk q st' = is_approved env now sk q st)"

lemma same_approvals_refl [simp]: "same_approvals env st st"
  by (simp add: same_approvals_def)

lemma same_approvals_trans: "same_approvals env a b \<Longrightarrow> same_approvals env b c \<Longrightarrow> same_approvals env a c"
  by (simp add: same_approvals_def)

lemma same_approvals_pending: "same_approvals env st (snd (save_pending env t sk r st))"
  by (auto simp: same_approvals_def dest: session_approvals.ask_grants_nothing [of _ "(_, _, _)" _ "(_, _, _)", simplified, THEN iffD1]
      intro: session_approvals.ask_grants_nothing [of _ "(_, _, _)" _ "(_, _, _)", simplified, THEN iffD2])

lemma decision_with_approval_store:
  "same_approvals (pe_approvals env) st (snd (decision_with_approval env d tool args st))"
  by (simp add: decision_with_approval_def Let_def same_approvals_pending split: option.splits)

lemma apply_decision_store:
  "same_approvals (pe_approvals env) st (snd (apply_decision env d tool args st))"
  using decision_with_approval_store [of env st _ tool args]
  by (auto simp: apply_decision_def split: option.splits prod.splits) (metis snd_conv)+

text \<open>What lets a decision pass: none, an allowing one, or a question that is approved.\<close>

definition passes :: "perm_env \<Rightarrow> approval_store \<Rightarrow> string \<Rightarrow> tool_args \<Rightarrow> perm_decision option \<Rightarrow> bool" where
  "passes env st tool args d \<longleftrightarrow> (case d of
       None \<Rightarrow> True
     | Some d \<Rightarrow> pd_allowed d \<or> pd_action d = Act_Ask \<and> pe_session_key env \<noteq> [] \<and>
         is_approved (pe_approvals env) (pe_now env) (pe_session_key env) (approval_request_of d tool args) st)"

lemma decision_with_approval_none:
  "fst (decision_with_approval env d tool args st) = None \<longleftrightarrow> pd_action d = Act_Ask \<and> pe_session_key env \<noteq> [] \<and>
     is_approved (pe_approvals env) (pe_now env) (pe_session_key env) (approval_request_of d tool args) st"
  by (simp add: decision_with_approval_def Let_def split: option.splits)

lemma format_ask_nonempty: "format_ask_message d \<noteq> []"
  by (simp add: format_ask_message_def bytes_def)

text \<open>A decision that denies must give a reason, or the text of its refusal is empty.\<close>

definition gives_reason :: "perm_decision option \<Rightarrow> bool" where
  "gives_reason d \<longleftrightarrow> (case d of Some d \<Rightarrow> pd_reason d \<noteq> [] | None \<Rightarrow> True)"

lemma apply_decision_blocks:
  "gives_reason d \<Longrightarrow> blocks (fst (apply_decision env d tool args st)) \<longleftrightarrow> \<not> passes env st tool args d"
proof (cases d)
  case (Some d')
  assume g: "gives_reason d"
  show ?thesis
  proof (cases "pd_allowed d' \<or> pd_action d' \<noteq> Act_Ask")
    case True
    then show ?thesis using g Some
      by (auto simp: apply_decision_def passes_def blocks_def gives_reason_def)
  next
    case False
    then show ?thesis using decision_with_approval_none [of env d' tool args st] Some
      by (cases "decision_with_approval env d' tool args st")
        (auto simp: apply_decision_def passes_def blocks_def format_ask_nonempty split: option.splits)
  qed
qed (simp add: apply_decision_def passes_def blocks_def)

lemma apply_decision_none:
  "gives_reason d \<Longrightarrow> fst (apply_decision env d tool args st) = None \<longleftrightarrow> passes env st tool args d"
proof (cases d)
  case (Some d')
  show ?thesis
  proof (cases "pd_allowed d' \<or> pd_action d' \<noteq> Act_Ask")
    case False
    then show ?thesis using decision_with_approval_none [of env d' tool args st] Some
      by (cases "decision_with_approval env d' tool args st")
        (auto simp: apply_decision_def passes_def split: option.splits)
  qed (auto simp: apply_decision_def passes_def Some)
qed (simp add: apply_decision_def passes_def)

lemma passes_same:
  "same_approvals (pe_approvals env) st st' \<Longrightarrow> passes env st' tool args d = passes env st tool args d"
  by (simp add: passes_def same_approvals_def split: option.splits)

section \<open>Reasons\<close>

lemma pystr_or_nonempty: "truthy v \<Longrightarrow> pystr v \<noteq> []"
proof (cases v)
  case (JInt i)
  have "str_of_nat n \<noteq> []" for n by (subst str_of_nat.simps) simp
  then show ?thesis by (simp add: JInt str_of_int_def)
qed auto

lemma str_field2_nonempty: "d \<noteq> [] \<Longrightarrow> str_field2 kvs k k' d \<noteq> []"
  using pystr_or_nonempty by (auto simp: str_field2_def jor_def)

lemma rule_reason_nonempty [simp]: "pd_reason (rule_decision act reason perm) = reason"
  by (simp add: rule_decision_def)

lemma external_rule_reason: "gives_reason m \<Longrightarrow> gives_reason (external_rule p w rule m)"
  by (auto simp: external_rule_def gives_reason_def Let_def str_field2_nonempty)

lemma external_reason: "gives_reason (evaluate_external_directory env p w)"
proof -
  have "gives_reason m \<Longrightarrow> gives_reason (fold (external_rule p w) rs m)" for rs m
    by (induction rs arbitrary: m) (auto simp: external_rule_reason)
  moreover have "gives_reason None" by (simp add: gives_reason_def)
  ultimately show ?thesis
    by (auto simp: evaluate_external_directory_def gives_reason_def bytes_def split: jval.splits list.splits)
qed

lemma policy_reason: "gives_reason (evaluate_tool_policy env tool)"
  by (auto simp: evaluate_tool_policy_def gives_reason_def Let_def str_field2_nonempty split: jval.splits)

lemma tool_rules_reason:
  "gives_reason m \<Longrightarrow> tool_rules env tool v rs m = Inr d \<Longrightarrow> gives_reason d"
proof (induction rs arbitrary: m)
  case (Cons r rs)
  obtain m' where m': "tool_rule env tool v r m = Inr m'" "tool_rules env tool v rs m' = Inr d"
    using Cons.prems(2) by (auto split: sum.splits)
  have "gives_reason m'" using m'(1) Cons.prems(1)
    by (auto simp: tool_rule_def gives_reason_def Let_def str_field2_nonempty split: if_splits sum.splits)
  then show ?case using Cons.IH m'(2) by blast
qed auto

lemma permission_reason: "evaluate_permission env tool args = Inr d \<Longrightarrow> gives_reason d"
  by (auto simp: evaluate_permission_def gives_reason_def Let_def split: jval.splits
      dest!: tool_rules_reason [rotated])

section \<open>The check\<close>

text \<open>
  C14: soundness of the permission check: in a workspace, when \<open>check_project_permission_block\<close>
  answers that nothing blocks, no blacklist rule hits, neither the experiment mode nor the
  workflow step blocks, and each of the rule for outside paths, the tool policy and the tool
  rules either has no opinion, allows the call, or asks for it and the session holds an
  approval of exactly this request.
\<close>

theorem permission_check_sound:
  assumes "pe_has_workspace env" and "fst (check_project_permission_block env tool args st) = Inr None"
  shows "evaluate_security_blacklist env tool args = None \<and>
    \<not> blocks (experiment_block env tool args) \<and> \<not> blocks (workflow_step_block env tool) \<and>
    (resolve_path_arg args \<noteq> [] \<and> tool \<in> path_tools \<longrightarrow>
       passes env st tool args (evaluate_external_directory env (resolve_path_arg args) (tool \<in> write_tools))) \<and>
    passes env st tool args (evaluate_tool_policy env tool) \<and>
    (\<exists>d. evaluate_permission env tool args = Inr d \<and> passes env st tool args d)"
proof -
  have bl: "evaluate_security_blacklist env tool args = None" "\<not> blocks (experiment_block env tool args)"
    "\<not> blocks (workflow_step_block env tool)"
    using assms by (auto simp: check_project_permission_block_def blocks_def split: option.splits if_splits)
  obtain ext st1 where e: "external_directory_block env tool args st = (ext, st1)" by fastforce
  obtain pol st2 where p: "apply_decision env (evaluate_tool_policy env tool) tool args st1 = (pol, st2)" by fastforce
  have nb: "\<not> blocks ext" "\<not> blocks pol"
    using assms bl e p by (auto simp: check_project_permission_block_def blocks_def split: if_splits option.splits)
  then obtain d b st3 where d: "evaluate_permission env tool args = Inr d"
    "apply_decision env d tool args st2 = (b, st3)" "b = None"
    using assms bl e p by (auto simp: check_project_permission_block_def split: sum.splits prod.splits)
  have s1: "same_approvals (pe_approvals env) st st1"
    using e apply_decision_store [of env st _ tool args]
    by (auto simp: external_directory_block_def Let_def split: if_splits) (metis snd_conv)
  have s2: "same_approvals (pe_approvals env) st st2"
    using apply_decision_store [of env st1 "evaluate_tool_policy env tool" tool args] p s1
    by (auto intro: same_approvals_trans)
  have "passes env st tool args (evaluate_external_directory env (resolve_path_arg args) (tool \<in> write_tools))"
    if "resolve_path_arg args \<noteq> [] \<and> tool \<in> path_tools"
    using that nb(1) e apply_decision_blocks [OF external_reason [of env "resolve_path_arg args" "tool \<in> write_tools"], of env tool args st]
    by (auto simp: external_directory_block_def Let_def)
  moreover have "passes env st tool args (evaluate_tool_policy env tool)"
    using nb(2) p apply_decision_blocks [OF policy_reason [of env tool], of env tool args st1] passes_same [OF s1] by simp
  moreover have "passes env st tool args d"
    using d apply_decision_none [OF permission_reason [OF d(1)], of env tool args st2] passes_same [OF s2] by simp
  ultimately show ?thesis using bl d(1) by blast
qed

text \<open>
  a permission check grants nothing: whatever it answers and whatever requests it
  records for the owner, every question of approval has the answer it had before.
\<close>

theorem permission_check_grants_nothing:
  "is_approved (pe_approvals env) now sk q (snd (check_project_permission_block env tool args st)) =
   is_approved (pe_approvals env) now sk q st"
proof -
  have ext: "same_approvals (pe_approvals env) st (snd (external_directory_block env tool args st))"
    using apply_decision_store by (simp add: external_directory_block_def Let_def)
  obtain e st1 where e: "external_directory_block env tool args st = (e, st1)" by fastforce
  obtain p st2 where p: "apply_decision env (evaluate_tool_policy env tool) tool args st1 = (p, st2)" by fastforce
  have s1: "same_approvals (pe_approvals env) st st1" using ext e by simp
  have s2: "same_approvals (pe_approvals env) st st2"
    using apply_decision_store [of env st1 "evaluate_tool_policy env tool" tool args] p s1
    by (auto intro: same_approvals_trans)
  have "same_approvals (pe_approvals env) st (snd (check_project_permission_block env tool args st))"
    using s1 s2 same_approvals_trans [OF s2 apply_decision_store]
    by (auto simp: check_project_permission_block_def e p split: option.splits sum.splits prod.splits)
      (metis snd_conv)
  then show ?thesis by (simp add: same_approvals_def)
qed

section \<open>Approvals given once\<close>

text \<open>The store after the owner approved once the request just recorded.\<close>

definition approved_once :: "approval_env \<Rightarrow> secs \<Rightarrow> secs \<Rightarrow> string \<Rightarrow> approval_request \<Rightarrow> approval_store
    \<Rightarrow> approval_reply \<times> approval_store" where
  "approved_once env t0 t1 sk r st = grant_once env t1 sk [] (snd (save_pending env t0 sk r st))"

definition covers :: "approval_env \<Rightarrow> approval_request \<Rightarrow> approval_request \<Rightarrow> bool" where
  "covers env r q \<longleftrightarrow> fingerprint (ae_lib env) q = fingerprint (ae_lib env) r \<or>
     match_entry (rq_permission r) (rq_tool r) (rq_pattern r) q"

lemma approved_once_covers:
  assumes sk: "strip sk \<noteq> []" and fp: "fingerprint (ae_lib env) r \<noteq> []"
    and none: "dget st (safe_segment (ae_lib env) sk) = None"
  shows "is_approved env now sk q (snd (approved_once env t0 t1 sk r st)) \<longleftrightarrow>
     now < t1 + once_ttl_seconds env \<and> covers env r q"
proof -
  let ?lib = "ae_lib env"
  have l0: "load_approvals ?lib sk st = no_approvals" using none by (simp add: load_approvals_def)
  define row where "row = \<lparr>on_permission = rq_permission r, on_tool = rq_tool r, on_pattern = rq_pattern r,
    on_fingerprint = fingerprint ?lib r, on_expires_at = t1 + once_ttl_seconds env\<rparr>"
  have pend: "load_approvals ?lib (strip sk) (snd (save_pending env t0 sk r st)) = no_approvals\<lparr>ap_pending := Some
      \<lparr>pn_permission = rq_permission r, pn_tool = rq_tool r, pn_pattern = rq_pattern r,
       pn_reason = rq_reason r, pn_fingerprint = fingerprint ?lib r, pn_requested_at = t0\<rparr>\<rparr>"
    using sk l0 by (simp add: save_pending_def Let_def)
  have "load_approvals ?lib (strip sk) (snd (approved_once env t0 t1 sk r st)) = no_approvals\<lparr>ap_once := [row]\<rparr>"
    using sk fp by (simp add: approved_once_def grant_once_def Let_def pend purge_once_def no_approvals_def row_def)
  then show ?thesis using sk
    by (auto simp: is_approved_def find_approval_def Let_def purge_once_def no_approvals_def row_def covers_def)
qed

text \<open>
  life of an approval: when a session without approvals records a request and the owner
  approves it once at time \<open>t1\<close>, the request is approved before \<open>t1 + ttl\<close> and not at any
  later time, and until then a request is approved exactly when it has the same fingerprint
  or matches the approved permission, tool and pattern.
\<close>

theorem approval_once_lifecycle:
  assumes "strip sk \<noteq> []" and "fingerprint (ae_lib env) r \<noteq> []"
    and "dget st (safe_segment (ae_lib env) sk) = None"
  shows "(is_approved env now sk r (snd (approved_once env t0 t1 sk r st)) \<longleftrightarrow> now < t1 + once_ttl_seconds env) \<and>
    (is_approved env now sk q (snd (approved_once env t0 t1 sk r st)) \<longleftrightarrow>
       now < t1 + once_ttl_seconds env \<and> covers env r q)"
  using approved_once_covers [OF assms, of now r t0 t1] approved_once_covers [OF assms, of now q t0 t1]
  by (simp add: covers_def)

text \<open>
  finding: approving once a request whose text ends in a star (a command such as
  \<open>rm *.tmp *\<close>) approves every request of the same permission and tool whose text continues
  what stands before the star, for the whole time of the approval.
\<close>

theorem approval_once_covers_continuations:
  assumes "strip sk \<noteq> []" and "fingerprint (ae_lib env) r \<noteq> []"
    and "dget st (safe_segment (ae_lib env) sk) = None"
    and "rq_pattern r = p @ ''*''" and "strip (p @ ''*'') = p @ ''*''"
    and "rq_permission q = rq_permission r" and "rq_tool q = rq_tool r" and "rq_pattern q = p @ rest"
    and "now < t1 + once_ttl_seconds env"
  shows "is_approved env now sk q (snd (approved_once env t0 t1 sk r st))"
proof -
  have "match_entry (rq_permission r) (rq_tool r) (rq_pattern r) q"
    using assms(4-8) by (auto simp: match_entry_def match_glob_def Let_def str_or_def)
  then show ?thesis using approved_once_covers [OF assms(1-3)] assms(9) by (simp add: covers_def)
qed

section \<open>Rules that cannot be read\<close>

text \<open>
  finding: when a tool rule raises (a malformed \<open>command_regex\<close>), the gate of the tool
  registry lets the call pass, whatever other rules deny it.
\<close>

theorem raising_rule_lets_call_pass:
  assumes "evaluate_permission env tool args = Inl exc"
    and "evaluate_security_blacklist env tool args = None"
    and "\<not> blocks (experiment_block env tool args)" and "\<not> blocks (workflow_step_block env tool)"
    and "\<not> blocks (fst (external_directory_block env tool args st))"
    and "evaluate_tool_policy env tool = None"
  shows "fst (project_permission_block env tool args st) = None"
proof -
  obtain ext st1 where e: "external_directory_block env tool args st = (ext, st1)" by fastforce
  have "apply_decision env None tool args st1 = (None, st1)" by (simp add: apply_decision_def)
  with assms e show ?thesis
    by (simp add: project_permission_block_def check_project_permission_block_def blocks_def)
qed

lemma no_config_decisions:
  assumes "load_permissions_yaml env = []"
  shows "evaluate_security_blacklist env tool args = None" "evaluate_tool_policy env tool = None"
    "evaluate_permission env tool args = Inr None" "evaluate_workflow_step_permission env tool step = None"
  using assms
  by (simp_all add: evaluate_security_blacklist_def rule_dicts_def evaluate_tool_policy_def evaluate_permission_def
      evaluate_workflow_step_permission_def step_allowlist_def jor_def Let_def)

text \<open>
  finding: a permissions file the YAML parser rejects is passed over like a missing one:
  with no other configuration no call of a tool without a path is blocked any more, neither
  by the blacklist nor by the workflow step, the tool policies or the rules of that file.
\<close>

theorem broken_file_drops_rules:
  assumes "pe_yaml env = Broken" and "pe_yml env = Missing" and "pe_project env = Missing"
    and "pe_step env = Some step" and "tool \<notin> path_tools"
  shows "check_project_permission_block env tool args st = (Inr None, st)"
proof -
  have c: "load_permissions_yaml env = []"
    using assms(1-3) by (simp add: load_permissions_yaml_def file_dict_def)
  have "tool \<notin> write_tools" using assms(5) by (auto simp: path_tools_def write_tools_def)
  then have "experiment_block env tool args = None"
    by (simp add: experiment_block_def check_experiment_mode_block_def)
  moreover have "workflow_step_block env tool = None"
    using no_config_decisions(4) [OF c] assms(4) by (simp add: workflow_step_block_def)
  ultimately show ?thesis using assms(5)
    by (simp add: check_project_permission_block_def no_config_decisions [OF c] external_directory_block_def
        blocks_def apply_decision_def Let_def)
qed

section \<open>Concrete inputs\<close>

definition demo_py :: py_lib where
  "demo_py = \<lparr>lib_loads = (\<lambda>_. None), lib_dumps = pyrepr, lib_sha256 = (\<lambda>s. s)\<rparr>"

definition demo_aenv :: approval_env where
  "demo_aenv = \<lparr>ae_lib = demo_py, ae_os = (\<lambda>_. None), ae_float = (\<lambda>_. None)\<rparr>"

text \<open>A regular expression library in which an unmatched parenthesis is malformed.\<close>

definition demo_regex :: "string \<Rightarrow> string \<Rightarrow> string + bool" where
  "demo_regex p t = (if p = ''('' then Inl ''unterminated subpattern'' else Inr (contains p t))"

definition demo_perm :: "(string, jval) dict \<Rightarrow> perm_env" where
  "demo_perm cfg = \<lparr>pe_approvals = demo_aenv, pe_yaml = Document (JObj cfg), pe_yml = Missing, pe_project = Missing,
     pe_has_workspace = True, pe_place = (\<lambda>p. if prefix ''/'' p then Outside else Inside p),
     pe_session_result = (\<lambda>_. False), pe_regex = demo_regex, pe_regex_i = demo_regex, pe_step = Some [],
     pe_hook = (\<lambda>_ _ _. None), pe_session_key = ''s1'', pe_now = 100\<rparr>"

definition rule_of :: "(string \<times> string) list \<Rightarrow> jval" where
  "rule_of kvs = JObj (map (\<lambda>(k, v). (k, JStr v)) kvs)"

definition demo_rules :: "(string, jval) dict" where
  "demo_rules = [(''rules'', JList [rule_of [(''tool'', ''terminal''), (''action'', ''deny'')],
     rule_of [(''tool'', ''terminal''), (''command_regex'', ''git''), (''action'', ''ask''), (''reason'', ''git'')]])]"

definition git_args :: tool_args where
  "git_args = [(''command'', JStr ''git push *'')]"

definition git_request :: approval_request where
  "git_request = \<lparr>rq_permission = ''rule'', rq_tool = ''terminal'', rq_pattern = ''git push *'', rq_reason = ''git''\<rparr>"

definition git_store :: approval_store where
  "git_store = snd (approved_once demo_aenv 90 95 ''s1'' git_request [])"

theorem permission_check_sound_witness:
  "fst (check_project_permission_block (demo_perm demo_rules) ''terminal'' git_args git_store) = Inr None \<and>
   (\<exists>d. evaluate_permission (demo_perm demo_rules) ''terminal'' git_args = Inr d \<and>
      passes (demo_perm demo_rules) git_store ''terminal'' git_args d)"
proof
  show n: "fst (check_project_permission_block (demo_perm demo_rules) ''terminal'' git_args git_store) = Inr None"
    by code_simp
  have w: "pe_has_workspace (demo_perm demo_rules)" by code_simp
  show "\<exists>d. evaluate_permission (demo_perm demo_rules) ''terminal'' git_args = Inr d \<and>
      passes (demo_perm demo_rules) git_store ''terminal'' git_args d"
    using permission_check_sound [OF w n] by blast
qed

lemma demo_session: "strip ''s1'' \<noteq> []" "fingerprint (ae_lib demo_aenv) git_request \<noteq> []"
  by code_simp+

theorem approval_once_lifecycle_witness:
  "is_approved demo_aenv 394 ''s1'' git_request git_store \<and> \<not> is_approved demo_aenv 395 ''s1'' git_request git_store"
proof -
  have ttl: "once_ttl_seconds demo_aenv = 300" by (simp add: once_ttl_seconds_def float_env_def demo_aenv_def)
  show ?thesis
    using approval_once_lifecycle [OF demo_session, of "[]" 394 90 95 git_request]
      approval_once_lifecycle [OF demo_session, of "[]" 395 90 95 git_request]
    by (simp add: git_store_def ttl)
qed

theorem approval_once_covers_continuations_witness:
  "is_approved demo_aenv 100 ''s1'' (git_request\<lparr>rq_pattern := ''git push --force origin main''\<rparr>) git_store"
  unfolding git_store_def
proof (rule approval_once_covers_continuations [OF demo_session, where p = "''git push ''" and rest = "''--force origin main''"])
  show "strip (''git push '' @ ''*'') = ''git push '' @ ''*''" by code_simp
  show "100 < 95 + once_ttl_seconds demo_aenv" by (simp add: once_ttl_seconds_def float_env_def demo_aenv_def)
qed (simp_all add: git_request_def)

definition demo_bad_rules :: "(string, jval) dict" where
  "demo_bad_rules = [(''rules'', JList [rule_of [(''tool'', ''terminal''), (''action'', ''deny'')],
     rule_of [(''tool'', ''terminal''), (''command_regex'', ''(''), (''action'', ''ask'')]])]"

theorem raising_rule_lets_call_pass_witness:
  "fst (project_permission_block (demo_perm demo_bad_rules) ''terminal'' git_args []) = None"
proof (rule raising_rule_lets_call_pass)
  show "evaluate_permission (demo_perm demo_bad_rules) ''terminal'' git_args = Inl ''unterminated subpattern''"
    by code_simp
  show "evaluate_security_blacklist (demo_perm demo_bad_rules) ''terminal'' git_args = None" by code_simp
  show "\<not> blocks (experiment_block (demo_perm demo_bad_rules) ''terminal'' git_args)" by code_simp
  show "\<not> blocks (workflow_step_block (demo_perm demo_bad_rules) ''terminal'')" by code_simp
  show "\<not> blocks (fst (external_directory_block (demo_perm demo_bad_rules) ''terminal'' git_args []))" by code_simp
  show "evaluate_tool_policy (demo_perm demo_bad_rules) ''terminal'' = None" by code_simp
qed

theorem broken_file_drops_rules_witness:
  "check_project_permission_block ((demo_perm demo_rules)\<lparr>pe_yaml := Broken\<rparr>) ''terminal'' git_args [] = (Inr None, [])"
  by (rule broken_file_drops_rules) (simp_all add: demo_perm_def path_tools_def)

end
