(* ===== verification/Human_Gate.thy ===== *)
theory Human_Gate
  imports Approvals Message_Queue
begin

text \<open>
  The gates a person opens: who counts as the owner of the gateway
  (\<open>gateway/owner_gate.py\<close>), the approval of workflow steps and the review of suspicious
  inbound messages (\<open>permissions/human_gate.py\<close>), and the guards of the inbound pipeline
  that consult them (\<open>gateway/message_pipelines_fail_closed.py\<close>).

  The gate directory is three dictionaries, keyed by the digest of the session key: the
  pending gate, the approved step keys (the sorted list of \<open>X.approved.json\<close>) and the expiry
  of the injection bypass.  Its files are written by these operations only.  Replies are
  constructors carrying what the templates show.
\<close>

section \<open>The owner of the gateway\<close>

definition butler_deploy_env :: "os_env \<Rightarrow> string" where
  "butler_deploy_env os = (case os ''BUTLER_ENV'' of Some raw \<Rightarrow> lower (strip raw) | None \<Rightarrow> [])"

definition is_butler_prod :: "os_env \<Rightarrow> bool" where
  "is_butler_prod os \<longleftrightarrow> butler_deploy_env os \<noteq> [] \<and>
     (butler_deploy_env os = ''prod'' \<or> butler_deploy_env os \<notin> {''dev'', ''staging'', ''test'', ''prod''})"

definition csv_env_ids :: "os_env \<Rightarrow> string \<Rightarrow> string list" where
  "csv_env_ids os name = (case os name of
       None \<Rightarrow> [] | Some raw \<Rightarrow> filter (\<lambda>p. p \<noteq> []) (map strip (split_comma (strip raw))))"

definition owner_id :: "os_env \<Rightarrow> string" where
  "owner_id os = (case os ''BUTLER_OWNER_WECHAT_ID'' of Some raw \<Rightarrow> strip raw | None \<Rightarrow> [])"

definition resolve_owner_wechat_chat_id :: "os_env \<Rightarrow> string" where
  "resolve_owner_wechat_chat_id os =
    (if owner_id os \<noteq> [] then owner_id os
     else case csv_env_ids os ''WECHAT_ALLOWED_USERS'' of
       i # _ \<Rightarrow> i
     | [] \<Rightarrow> (case csv_env_ids os ''BUTLER_GATEWAY_ALLOWLIST'' of i # _ \<Rightarrow> i | [] \<Rightarrow> []))"

definition owner_wechat_ids :: "os_env \<Rightarrow> string set" where
  "owner_wechat_ids os = (let
       ids = (if owner_id os \<noteq> [] then {owner_id os} else {});
       allow = csv_env_ids os ''WECHAT_ALLOWED_USERS'';
       legacy = csv_env_ids os ''BUTLER_GATEWAY_ALLOWLIST''
     in if allow \<noteq> [] then ids \<union> set allow
        else if legacy \<noteq> [] \<and> ids = {} then ids \<union> set legacy else ids)"

definition project_create_open :: "os_env \<Rightarrow> bool" where
  "project_create_open os \<longleftrightarrow> (case os ''BUTLER_PROJECT_CREATE_OPEN'' of
       Some raw \<Rightarrow> lower (strip raw) \<in> {''1'', ''true'', ''yes'', ''on''} | None \<Rightarrow> False)"

definition is_gateway_owner :: "os_env \<Rightarrow> string \<Rightarrow> string \<Rightarrow> string \<Rightarrow> bool" where
  "is_gateway_owner os platform external_id session_key \<longleftrightarrow>
    (if \<not> is_butler_prod os \<and> project_create_open os then True
     else if lower (strip platform) \<notin> {''wechat'', ''weixin''} then False
     else if owner_wechat_ids os = {} then False
     else let cid = (if strip external_id = [] \<and> session_key \<noteq> []
                     then chat_id_from_session_key session_key else strip external_id)
       in cid \<noteq> [] \<and> cid \<in> owner_wechat_ids os)"

section \<open>The gate directory\<close>

datatype gate_kind = Workflow_Step | Injection_Review

record pending_gate =
  gt_kind :: gate_kind
  gt_workflow :: string
  gt_step :: string
  gt_created_at :: secs

record gates =
  gs_pending :: "(string, pending_gate) dict"
  gs_approved :: "(string, string list) dict"
  gs_bypass :: "(string, secs) dict"

definition no_gates :: gates where
  "no_gates = \<lparr>gs_pending = [], gs_approved = [], gs_bypass = []\<rparr>"

definition gate_ttl_seconds :: "approval_env \<Rightarrow> secs" where
  "gate_ttl_seconds env = float_env env ''BUTLER_GATEWAY_HUMAN_GATE_TTL'' 3600 60"

definition is_gate_expired :: "approval_env \<Rightarrow> secs \<Rightarrow> secs \<Rightarrow> bool" where
  "is_gate_expired env now created_at \<longleftrightarrow> \<not> created_at \<le> 0 \<and> gate_ttl_seconds env < now - created_at"

definition gate_segment :: "approval_env \<Rightarrow> string \<Rightarrow> string" where
  "gate_segment env sk = utake 16 (lib_sha256 (ae_lib env) (str_or sk ''default''))"

definition save_gate :: "approval_env \<Rightarrow> string \<Rightarrow> pending_gate option \<Rightarrow> gates \<Rightarrow> gates" where
  "save_gate env sk g st = st\<lparr>gs_pending := (case g of
       None \<Rightarrow> dpop (gate_segment env sk) (gs_pending st)
     | Some p \<Rightarrow> dset (gate_segment env sk) p (gs_pending st))\<rparr>"

text \<open>\<open>_load_pending\<close> removes an expired gate.\<close>

definition load_gate :: "approval_env \<Rightarrow> secs \<Rightarrow> string \<Rightarrow> gates \<Rightarrow> pending_gate option \<times> gates" where
  "load_gate env now sk st = (case dget (gs_pending st) (gate_segment env sk) of
       None \<Rightarrow> (None, st)
     | Some g \<Rightarrow> if is_gate_expired env now (gt_created_at g) then (None, save_gate env sk None st)
                 else (Some g, st))"

definition load_approved :: "approval_env \<Rightarrow> string \<Rightarrow> gates \<Rightarrow> string list" where
  "load_approved env sk st =
     (case dget (gs_approved st) (gate_segment env sk) of Some ks \<Rightarrow> ks | None \<Rightarrow> [])"

definition save_approved :: "approval_env \<Rightarrow> string \<Rightarrow> string list \<Rightarrow> gates \<Rightarrow> gates" where
  "save_approved env sk ks st = st\<lparr>gs_approved := (if ks = [] then dpop (gate_segment env sk) (gs_approved st)
       else dset (gate_segment env sk) (sort (remdups ks)) (gs_approved st))\<rparr>"

definition approval_key :: "string \<Rightarrow> string \<Rightarrow> string" where
  "approval_key workflow step = workflow @ ''::'' @ step"

section \<open>Operations\<close>

definition is_step_approved :: "approval_env \<Rightarrow> string \<Rightarrow> string \<Rightarrow> string \<Rightarrow> gates \<Rightarrow> bool" where
  "is_step_approved env sk workflow step st \<longleftrightarrow> approval_key workflow step \<in> set (load_approved env sk st)"

definition mark_step_approved :: "approval_env \<Rightarrow> string \<Rightarrow> string \<Rightarrow> string \<Rightarrow> gates \<Rightarrow> gates" where
  "mark_step_approved env sk workflow step st =
     save_approved env sk (approval_key workflow step # load_approved env sk st) st"

definition clear_session_gates :: "approval_env \<Rightarrow> string \<Rightarrow> gates \<Rightarrow> gates" where
  "clear_session_gates env sk st = save_approved env sk [] (save_gate env sk None st)"

definition has_pending_gate :: "approval_env \<Rightarrow> secs \<Rightarrow> string \<Rightarrow> gates \<Rightarrow> bool \<times> gates" where
  "has_pending_gate env now sk st = (case load_gate env now sk st of (g, st') \<Rightarrow> (g \<noteq> None, st'))"

definition has_injection_review_pending :: "approval_env \<Rightarrow> secs \<Rightarrow> string \<Rightarrow> gates \<Rightarrow> bool \<times> gates" where
  "has_injection_review_pending env now sk st = (case load_gate env now sk st of
     (g, st') \<Rightarrow> ((case g of Some p \<Rightarrow> gt_kind p = Injection_Review | None \<Rightarrow> False), st'))"

definition check_workflow_step_approval :: "approval_env \<Rightarrow> secs \<Rightarrow> string \<Rightarrow> string \<Rightarrow> string \<Rightarrow> gates
    \<Rightarrow> bool \<times> gates" where
  "check_workflow_step_approval env now session_key workflow step st = (let sk = strip session_key;
       fresh = \<lparr>gt_kind = Workflow_Step, gt_workflow = workflow, gt_step = step, gt_created_at = now\<rparr> in
     if approval_key workflow step \<in> set (load_approved env sk st) then (True, st)
     else case load_gate env now sk st of
       (Some p, st') \<Rightarrow>
         if gt_workflow p = workflow \<and> gt_step p = step then (False, st')
         else (False, save_gate env sk (Some fresh) st')
     | (None, st') \<Rightarrow> (False, save_gate env sk (Some fresh) st'))"

datatype gate_reply =
    Step_Cancelled string string
  | Review_Cancelled
  | Owner_Needed
  | Bypass_Granted string
  | Step_Confirmed string string
  | Step_Resumed string string string
  | Review_Hint string
  | Step_Hint string string
  | Guard_Failed
  | Text string

definition format_pending_hint :: "approval_env \<Rightarrow> secs \<Rightarrow> string \<Rightarrow> gates \<Rightarrow> gate_reply option \<times> gates" where
  "format_pending_hint env now sk st = (case load_gate env now sk st of
       (None, st') \<Rightarrow> (None, st')
     | (Some p, st') \<Rightarrow> (Some (case gt_kind p of
           Injection_Review \<Rightarrow> Review_Hint (gt_step p)
         | Workflow_Step \<Rightarrow> Step_Hint (gt_workflow p) (gt_step p)), st'))"

definition request_injection_review_gate :: "approval_env \<Rightarrow> secs \<Rightarrow> string \<Rightarrow> int \<Rightarrow> gates \<Rightarrow> gates" where
  "request_injection_review_gate env now sk score st = save_gate env (strip sk)
     (Some \<lparr>gt_kind = Injection_Review, gt_workflow = [], gt_step = str_of_int score, gt_created_at = now\<rparr>) st"

definition grant_injection_bypass :: "approval_env \<Rightarrow> secs \<Rightarrow> string \<Rightarrow> secs \<Rightarrow> gates \<Rightarrow> gates" where
  "grant_injection_bypass env now sk ttl st = st\<lparr>gs_bypass :=
     dset (gate_segment env sk) (now + min (max 30 ttl) 3600) (gs_bypass st)\<rparr>"

definition consume_injection_bypass :: "approval_env \<Rightarrow> secs \<Rightarrow> string \<Rightarrow> gates \<Rightarrow> bool \<times> gates" where
  "consume_injection_bypass env now sk st = (case dget (gs_bypass st) (gate_segment env sk) of
       None \<Rightarrow> (False, st)
     | Some expires \<Rightarrow> (\<not> expires < now, st\<lparr>gs_bypass := dpop (gate_segment env sk) (gs_bypass st)\<rparr>))"

definition confirm_words :: "string set" where
  "confirm_words = {(bytes [231, 161, 174, 232, 174, 164]), (bytes [231, 161, 174, 232, 174, 164, 231, 187, 167, 231, 187, 173]), (bytes [231, 187, 167, 231, 187, 173]), ''yes'', ''y'', ''ok'', (''/'' @ bytes [231, 161, 174, 232, 174, 164]), ''/approve''}"

definition cancel_words :: "string set" where
  "cancel_words = {(bytes [229, 143, 150, 230, 182, 136]), (bytes [228, 184, 173, 230, 173, 162]), (bytes [229, 129, 156, 230, 173, 162]), ''no'', ''n'', (''/'' @ bytes [229, 143, 150, 230, 182, 136]), ''/cancel''}"

text \<open>
  \<open>resolve_human_gate_message\<close>.  After the lock is released a confirmed workflow may be run
  again; \<open>resume\<close> is the answer of that run, whose own checks are later operations.
\<close>

definition auto_resume_enabled :: "approval_env \<Rightarrow> bool" where
  "auto_resume_enabled env \<longleftrightarrow> (case ae_os env ''BUTLER_WORKFLOW_AUTO_RESUME'' of
       Some raw \<Rightarrow> strip raw = ''1'' | None \<Rightarrow> False)"

definition resolve_human_gate_message :: "approval_env \<Rightarrow> secs \<Rightarrow> (string \<Rightarrow> string \<Rightarrow> string option)
    \<Rightarrow> string \<Rightarrow> string \<Rightarrow> bool \<Rightarrow> gates \<Rightarrow> gate_reply option \<times> gates" where
  "resolve_human_gate_message env now resume sk text owner_verified st = (let stripped = strip text in
     if stripped \<notin> confirm_words \<and> stripped \<notin> cancel_words then (None, st)
     else case load_gate env now sk st of
       (None, st') \<Rightarrow> (None, st')
     | (Some p, st') \<Rightarrow>
         if stripped \<in> cancel_words
         then (Some (if gt_kind p = Injection_Review then Review_Cancelled
                     else Step_Cancelled (gt_step p) (gt_workflow p)), save_gate env sk None st')
         else if \<not> owner_verified then (Some Owner_Needed, st')
         else if gt_kind p = Injection_Review
         then (Some (Bypass_Granted (gt_step p)),
               save_gate env sk None (grant_injection_bypass env now sk 300 st'))
         else (let st'' = save_gate env sk None
                 (save_approved env sk (approval_key (gt_workflow p) (gt_step p) # load_approved env sk st') st')
           in (Some (if auto_resume_enabled env
                then (case resume sk (gt_workflow p) of
                    Some r \<Rightarrow> if r \<noteq> [] then Step_Resumed (gt_workflow p) (gt_step p) r
                              else Step_Confirmed (gt_workflow p) (gt_step p)
                  | None \<Rightarrow> Step_Confirmed (gt_workflow p) (gt_step p))
                else Step_Confirmed (gt_workflow p) (gt_step p)), st'')))"

section \<open>The guards of the inbound pipeline\<close>

text \<open>The message of a person, with the reply of the gate when the message answers it.\<close>

definition apply_human_gate :: "approval_env \<Rightarrow> secs \<Rightarrow> (string \<Rightarrow> string \<Rightarrow> string option)
    \<Rightarrow> string \<Rightarrow> string \<Rightarrow> string \<Rightarrow> string \<Rightarrow> gates \<Rightarrow> gate_reply option \<times> gates" where
  "apply_human_gate env now resume text sk platform external_id st =
     resolve_human_gate_message env now resume sk text (is_gateway_owner (ae_os env) platform external_id []) st"

text \<open>
  The risk score of a model, \<open>score_injection_llm_safe\<close>, is a parameter; \<open>Inl\<close> stands for an
  exception.
\<close>

definition injection_llm_block_threshold :: "os_env \<Rightarrow> int" where
  "injection_llm_block_threshold os = min 100 (int_env os ''BUTLER_INJECTION_LLM_BLOCK'' 85 0)"

definition score_injection_llm :: "os_env \<Rightarrow> (string \<Rightarrow> string + int option) \<Rightarrow> string \<Rightarrow> string + int option" where
  "score_injection_llm os score text =
    (if \<not> env_truthy os ''BUTLER_INJECTION_LLM_SCORE'' False then Inr None
     else if ulen (strip text) < 8 then Inr None
     else score (strip text))"

definition should_block_inbound_llm_score :: "os_env \<Rightarrow> (string \<Rightarrow> string + int option) \<Rightarrow> string
    \<Rightarrow> string + bool \<times> int option" where
  "should_block_inbound_llm_score os score text = (case score_injection_llm os score text of
       Inl exc \<Rightarrow> Inl exc
     | Inr None \<Rightarrow> Inr (False, None)
     | Inr (Some n) \<Rightarrow> Inr (injection_llm_block_threshold os \<le> n, Some n))"

text \<open>A reply blocks the message.  An exception of the scorer blocks it too.\<close>

definition apply_injection_llm :: "approval_env \<Rightarrow> secs \<Rightarrow> (string \<Rightarrow> string + int option)
    \<Rightarrow> string \<Rightarrow> string \<Rightarrow> gates \<Rightarrow> gate_reply option \<times> gates" where
  "apply_injection_llm env now score text sk st = (let os = ae_os env in
     if \<not> env_truthy os ''BUTLER_INJECTION_LLM_SCORE'' False then (None, st)
     else case consume_injection_bypass env now sk st of
       (True, st1) \<Rightarrow> (None, st1)
     | (False, st1) \<Rightarrow> (case has_injection_review_pending env now sk st1 of
         (True, st2) \<Rightarrow> format_pending_hint env now sk st2
       | (False, st2) \<Rightarrow> (case should_block_inbound_llm_score os score text of
           Inl exc \<Rightarrow> (Some Guard_Failed, st2)
         | Inr (False, _) \<Rightarrow> (None, st2)
         | Inr (True, None) \<Rightarrow> (Some (Text []), st2)  \<comment> \<open>not reached\<close>
         | Inr (True, Some n) \<Rightarrow>
             (let msg = Text ((bytes [230, 182, 136, 230, 129, 175, 230, 156, 170, 233, 128, 154, 232, 191, 135, 229, 174, 137, 229, 133, 168, 232, 175, 132, 229, 136, 134, 239, 188, 136] @ ''injection_score='') @ str_of_int n @ (bytes [239, 188, 137, 227, 128, 130, 232, 175, 183, 230, 148, 185, 229, 134, 153, 229, 144, 142, 233, 135, 141, 232, 175, 149, 227, 128, 130])) in
              if env_truthy os ''BUTLER_INJECTION_LLM_GATE'' False
              then (case format_pending_hint env now sk (request_injection_review_gate env now sk n st2) of
                  (Some h, st3) \<Rightarrow> (Some h, st3) | (None, st3) \<Rightarrow> (Some msg, st3))
              else (Some msg, st2)))))"

section \<open>The bypass file, shared by processes\<close>

text \<open>
  \<open>consume_injection_bypass\<close> runs under no lock: it renames the bypass file, reads the renamed
  file and, when that has expired, removes it.  These are the steps of one process; several
  processes interleave.  A process is reading after its rename succeeded, and removing after
  it read an expired file.
\<close>

record bypass_files =
  bf_file :: "secs option"
  bf_consumed :: "secs option"
  bf_reading :: "nat list"
  bf_removing :: "nat list"

datatype bypass_event =
    Grant secs
  | Rename nat bool
  | Read nat secs bool
  | Remove nat

definition idle :: "bypass_files \<Rightarrow> nat \<Rightarrow> bool" where
  "idle b p \<longleftrightarrow> p \<notin> set (bf_reading b) \<and> p \<notin> set (bf_removing b)"

inductive bypass_step :: "bypass_files \<Rightarrow> bypass_event \<Rightarrow> bypass_files \<Rightarrow> bool" where
  grant: "bypass_step b (Grant t) (b\<lparr>bf_file := Some t\<rparr>)"
| rename_won: "idle b p \<Longrightarrow> bf_file b = Some t \<Longrightarrow> bypass_step b (Rename p True)
     (b\<lparr>bf_file := None, bf_consumed := Some t, bf_reading := p # bf_reading b\<rparr>)"
| rename_lost: "idle b p \<Longrightarrow> bf_file b = None \<Longrightarrow> bypass_step b (Rename p False) b"
| read_gone: "p \<in> set (bf_reading b) \<Longrightarrow> bf_consumed b = None \<Longrightarrow> bypass_step b (Read p now False)
     (b\<lparr>bf_reading := remove1 p (bf_reading b)\<rparr>)"
| read_expired: "p \<in> set (bf_reading b) \<Longrightarrow> bf_consumed b = Some t \<Longrightarrow> t < now \<Longrightarrow>
     bypass_step b (Read p now False)
     (b\<lparr>bf_reading := remove1 p (bf_reading b), bf_removing := p # bf_removing b\<rparr>)"
| read_valid: "p \<in> set (bf_reading b) \<Longrightarrow> bf_consumed b = Some t \<Longrightarrow> \<not> t < now \<Longrightarrow>
     bypass_step b (Read p now True) (b\<lparr>bf_reading := remove1 p (bf_reading b)\<rparr>)"
| remove: "p \<in> set (bf_removing b) \<Longrightarrow> bypass_step b (Remove p)
     (b\<lparr>bf_consumed := None, bf_removing := remove1 p (bf_removing b)\<rparr>)"

code_pred bypass_step .

inductive_cases bypass_stepE: "bypass_step b e b'"
inductive_simps bypass_step_simps:
  "bypass_step b (Grant t) b'" "bypass_step b (Rename p r) b'" "bypass_step b (Read p now r) b'"
  "bypass_step b (Remove p) b'"

end
