(* ===== verification/Human_Gate_Props.thy ===== *)
theory Human_Gate_Props
  imports Human_Gate
begin

text \<open>
  What the gates guarantee.  Events of any persons and workflows, in any order and at any
  times, make runs of the gate directory (an inductive relation); a step is approved only
  where an owner confirmed the gate of that step.  The consumption of an injection bypass is
  taken apart into its two file operations, interleaved by any number of processes.
\<close>

section \<open>Runs\<close>

text \<open>
  \<open>Resolve\<close> carries what identifies the sender: platform, id and, for the commands, the
  session key \<open>is_gateway_owner\<close> falls back to.
\<close>

datatype gate_event =
    Check secs string string string
  | Resolve secs string string string string string
  | Inbound secs string string
  | Look secs string
  | Clear string

definition gate_step :: "approval_env \<Rightarrow> (string \<Rightarrow> string \<Rightarrow> string option) \<Rightarrow> (string \<Rightarrow> string + int option)
    \<Rightarrow> gate_event \<Rightarrow> gates \<Rightarrow> gates" where
  "gate_step env resume score e st = (case e of
       Check now sk workflow step \<Rightarrow> snd (check_workflow_step_approval env now sk workflow step st)
     | Resolve now sk text platform ext key \<Rightarrow>
         snd (resolve_human_gate_message env now resume sk text (is_gateway_owner (ae_os env) platform ext key) st)
     | Inbound now sk text \<Rightarrow> snd (apply_injection_llm env now score text sk st)
     | Look now sk \<Rightarrow> snd (format_pending_hint env now sk st)
     | Clear sk \<Rightarrow> clear_session_gates env sk st)"

inductive gate_run :: "approval_env \<Rightarrow> gate_event list \<Rightarrow> gates \<Rightarrow> bool" for env where
  gate_start: "gate_run env [] no_gates"
| gate_next: "gate_run env tr st \<Longrightarrow> gate_run env (tr @ [e]) (gate_step env resume score e st)"

inductive_cases gate_run_snocE: "gate_run env (tr @ [e]) st"
inductive_simps gate_run_Nil: "gate_run env [] st"

section \<open>Where approvals and pending gates come from\<close>

lemma save_gate_approved [simp]: "load_approved env sk (save_gate env sk' g st) = load_approved env sk st"
  by (simp add: load_approved_def save_gate_def)

lemma load_gate_approved [simp]: "load_approved env sk (snd (load_gate env now sk' st)) = load_approved env sk st"
  by (simp add: load_gate_def split: option.splits)

lemma load_gate_eqD:
  assumes "load_gate env now sk' st = (g, st')"
  shows "load_approved env sk st' = load_approved env sk st"
    and "dget (gs_pending st') seg = Some p \<Longrightarrow> dget (gs_pending st) seg = Some p"
    and "g = Some p \<Longrightarrow> dget (gs_pending st) (gate_segment env sk') = Some p"
  using assms by (auto simp: load_gate_def save_gate_def load_approved_def split: option.splits if_splits)

lemma grant_bypass_keeps [simp]:
  "load_approved env sk (grant_injection_bypass env now sk' ttl st) = load_approved env sk st"
  "gs_pending (grant_injection_bypass env now sk' ttl st) = gs_pending st"
  by (simp_all add: load_approved_def grant_injection_bypass_def)

lemma consume_bypass_keeps [simp]:
  "load_approved env sk (snd (consume_injection_bypass env now sk' st)) = load_approved env sk st"
  "gs_pending (snd (consume_injection_bypass env now sk' st)) = gs_pending st"
  by (simp_all add: load_approved_def consume_injection_bypass_def split: option.splits)

lemma load_save_approved:
  "set (load_approved env sk (save_approved env sk' ks st)) =
     (if gate_segment env sk = gate_segment env sk' then set ks else set (load_approved env sk st))"
  by (simp add: load_approved_def save_approved_def)

lemma save_approved_pending [simp]: "gs_pending (save_approved env sk ks st) = gs_pending st"
  by (simp add: save_approved_def)

lemma hint_approved [simp]: "load_approved env sk (snd (format_pending_hint env now sk' st)) = load_approved env sk st"
  by (auto simp: format_pending_hint_def load_gate_eqD(1) split: prod.splits option.splits)

lemma review_approved [simp]:
  "load_approved env sk (snd (has_injection_review_pending env now sk' st)) = load_approved env sk st"
  by (auto simp: has_injection_review_pending_def load_gate_eqD(1) split: prod.splits)

lemma check_approved [simp]:
  "load_approved env sk (snd (check_workflow_step_approval env now sk' w s st)) = load_approved env sk st"
  by (auto simp: check_workflow_step_approval_def Let_def load_gate_eqD(1) split: prod.splits option.splits)

lemma request_approved [simp]:
  "load_approved env sk (request_injection_review_gate env now sk' n st) = load_approved env sk st"
  by (simp add: request_injection_review_gate_def)

lemma inbound_approved [simp]:
  "load_approved env sk (snd (apply_injection_llm env now score text sk' st)) = load_approved env sk st"
proof -
  obtain b st1 where c: "consume_injection_bypass env now sk' st = (b, st1)" by fastforce
  obtain r st2 where h: "has_injection_review_pending env now sk' st1 = (r, st2)" by fastforce
  have 1: "load_approved env sk st1 = load_approved env sk st" "load_approved env sk st2 = load_approved env sk st1"
    using consume_bypass_keeps(1) [of env sk now sk' st] review_approved [of env sk now sk' st1] c h by simp_all
  have f: "load_approved env sk st3 = load_approved env sk st2"
    if "format_pending_hint env now sk' (request_injection_review_gate env now sk' n st2) = (g, st3)" for n g st3
    using hint_approved [of env sk now sk' "request_injection_review_gate env now sk' n st2"] that by simp
  show ?thesis using 1 hint_approved [of env sk now sk' st2]
    by (auto simp: apply_injection_llm_def Let_def c h dest: f split: bool.splits sum.splits option.splits prod.splits)
qed

text \<open>The event is the confirmation, by an owner, of a pending step gate with this key.\<close>

definition owner_confirms :: "approval_env \<Rightarrow> gates \<Rightarrow> gate_event \<Rightarrow> string \<Rightarrow> pending_gate \<Rightarrow> bool" where
  "owner_confirms env st e sk p \<longleftrightarrow> (case e of
       Resolve now sk' text platform ext key \<Rightarrow>
         is_gateway_owner (ae_os env) platform ext key \<and> strip text \<in> confirm_words \<and>
         gate_segment env sk' = gate_segment env sk \<and>
         fst (load_gate env now sk' st) = Some p \<and> gt_kind p = Workflow_Step
     | _ \<Rightarrow> False)"

lemma resolve_approved:
  assumes "k \<in> set (load_approved env sk (snd (resolve_human_gate_message env now resume sk' text own st)))"
    and "k \<notin> set (load_approved env sk st)"
  shows "own \<and> strip text \<in> confirm_words \<and> gate_segment env sk' = gate_segment env sk \<and>
    (\<exists>p. fst (load_gate env now sk' st) = Some p \<and> gt_kind p = Workflow_Step \<and>
       k = approval_key (gt_workflow p) (gt_step p))"
proof -
  obtain g st1 where l: "load_gate env now sk' st = (g, st1)" by fastforce
  have a: "load_approved env s st1 = load_approved env s st" for s
    using load_gate_approved [of env s now sk' st] l by simp
  have seg: "gate_segment env sk = gate_segment env sk' \<Longrightarrow> load_approved env sk' st = load_approved env sk st"
    by (simp add: load_approved_def)
  show ?thesis using assms
    by (auto simp: resolve_human_gate_message_def Let_def l a load_save_approved seg
        split: if_splits option.splits)
      (metis gate_kind.exhaust)+
qed

lemma approved_step:
  assumes "k \<in> set (load_approved env sk (gate_step env resume score e st))"
  shows "k \<in> set (load_approved env sk st) \<or>
    (\<exists>p. owner_confirms env st e sk p \<and> k = approval_key (gt_workflow p) (gt_step p))"
  using assms
proof (cases e)
  case (Resolve now sk' msg platform ext key)
  then show ?thesis
    using assms resolve_approved [of k env sk now resume sk' msg "is_gateway_owner (ae_os env) platform ext key" st]
    by (auto simp: gate_step_def owner_confirms_def)
next
  case (Clear sk')
  then show ?thesis using assms
    by (auto simp: gate_step_def clear_session_gates_def load_save_approved split: if_splits)
qed (simp_all add: gate_step_def)

text \<open>A pending step gate was put there by the check of that step.\<close>

definition asks_for :: "approval_env \<Rightarrow> gate_event \<Rightarrow> string \<Rightarrow> pending_gate \<Rightarrow> bool" where
  "asks_for env e seg p \<longleftrightarrow> (case e of
       Check now sk workflow step \<Rightarrow> gate_segment env (strip sk) = seg \<and> gt_workflow p = workflow \<and> gt_step p = step
     | _ \<Rightarrow> False)"

lemma save_gate_pending:
  "dget (gs_pending (save_gate env sk g st)) seg =
     (if seg = gate_segment env sk then g else dget (gs_pending st) seg)"
  by (simp add: save_gate_def split: option.splits)

lemma check_pending:
  assumes "dget (gs_pending (snd (check_workflow_step_approval env now sk w s st))) seg = Some p"
    and "dget (gs_pending st) seg \<noteq> Some p"
  shows "seg = gate_segment env (strip sk) \<and> gt_workflow p = w \<and> gt_step p = s"
  using assms load_gate_eqD(2) [of env now "strip sk" st]
  by (auto simp: check_workflow_step_approval_def Let_def save_gate_pending split: if_splits prod.splits option.splits)

lemma resolve_pending:
  "dget (gs_pending (snd (resolve_human_gate_message env now resume sk text own st))) seg = Some p
     \<Longrightarrow> dget (gs_pending st) seg = Some p"
  using load_gate_eqD(2) [of env now sk st]
  by (auto simp: resolve_human_gate_message_def Let_def save_gate_pending split: if_splits prod.splits option.splits)

lemma hint_pending:
  "format_pending_hint env now sk st = (h, st') \<Longrightarrow> dget (gs_pending st') seg = Some p
     \<Longrightarrow> dget (gs_pending st) seg = Some p"
  using load_gate_eqD(2) [of env now sk st]
  by (auto simp: format_pending_hint_def split: prod.splits option.splits)

lemma hint_pending_snd:
  "dget (gs_pending (snd (format_pending_hint env now sk st))) seg = Some p \<Longrightarrow> dget (gs_pending st) seg = Some p"
  by (cases "format_pending_hint env now sk st") (simp add: hint_pending)

lemma review_pending:
  "has_injection_review_pending env now sk st = (h, st') \<Longrightarrow> dget (gs_pending st') seg = Some p
     \<Longrightarrow> dget (gs_pending st) seg = Some p"
  using load_gate_eqD(2) [of env now sk st]
  by (auto simp: has_injection_review_pending_def split: prod.splits option.splits)

lemma inbound_pending:
  assumes "dget (gs_pending (snd (apply_injection_llm env now score text sk st))) seg = Some p"
    and "gt_kind p = Workflow_Step"
  shows "dget (gs_pending st) seg = Some p"
proof -
  obtain b st1 where c: "consume_injection_bypass env now sk st = (b, st1)" by fastforce
  obtain r st2 where h: "has_injection_review_pending env now sk st1 = (r, st2)" by fastforce
  have 1: "gs_pending st1 = gs_pending st" using consume_bypass_keeps(2) [of env now sk st] c by simp
  have 2: "dget (gs_pending st2) seg = Some p \<Longrightarrow> dget (gs_pending st) seg = Some p"
    using review_pending [OF h] 1 by simp
  have 3: "dget (gs_pending st) seg = Some p"
    if "format_pending_hint env now sk (request_injection_review_gate env now sk n st2) = (g, st3)"
      "dget (gs_pending st3) seg = Some p" for n g st3
    using hint_pending [OF that] assms(2) 2
    by (auto simp: request_injection_review_gate_def save_gate_pending split: if_splits)
  show ?thesis using assms(1) 1 2
    by (auto simp: apply_injection_llm_def Let_def c h dest: 3 hint_pending_snd
        split: bool.splits sum.splits option.splits prod.splits if_splits)
qed

lemma gate_pending_step:
  assumes "dget (gs_pending (gate_step env resume score e st)) seg = Some p" and "gt_kind p = Workflow_Step"
  shows "dget (gs_pending st) seg = Some p \<or> asks_for env e seg p"
  using assms
proof (cases e)
  case (Check now sk w s)
  then show ?thesis using assms check_pending [of env now sk w s st seg p] by (auto simp: gate_step_def asks_for_def)
next
  case (Resolve now sk msg platform ext key)
  then have "dget (gs_pending (snd (resolve_human_gate_message env now resume sk msg
      (is_gateway_owner (ae_os env) platform ext key) st))) seg = Some p"
    using assms(1) by (simp add: gate_step_def)
  then show ?thesis using resolve_pending by blast
next
  case (Inbound now sk msg)
  then have "dget (gs_pending (snd (apply_injection_llm env now score msg sk st))) seg = Some p"
    using assms(1) by (simp add: gate_step_def)
  then show ?thesis using inbound_pending assms(2) by blast
next
  case (Look now sk)
  then have "dget (gs_pending (snd (format_pending_hint env now sk st))) seg = Some p"
    using assms(1) by (simp add: gate_step_def)
  then show ?thesis using hint_pending_snd by blast
next
  case (Clear sk)
  then show ?thesis using assms
    by (auto simp: gate_step_def clear_session_gates_def save_gate_pending split: if_splits)
qed

section \<open>Approval needs the owner\<close>

lemma run_pending:
  "gate_run env tr st \<Longrightarrow> dget (gs_pending st) seg = Some p \<Longrightarrow> gt_kind p = Workflow_Step
     \<Longrightarrow> \<exists>e \<in> set tr. asks_for env e seg p"
  by (induction rule: gate_run.induct) (auto simp: no_gates_def dest: gate_pending_step)

text \<open>The trace holds the check that asked for the step and, after it, the confirmation by an owner.\<close>

definition confirmed_by_owner :: "approval_env \<Rightarrow> gate_event list \<Rightarrow> string \<Rightarrow> string \<Rightarrow> bool" where
  "confirmed_by_owner env tr sk k \<longleftrightarrow> (\<exists>pre e post st p. tr = pre @ e # post \<and> gate_run env pre st \<and>
     owner_confirms env st e sk p \<and> k = approval_key (gt_workflow p) (gt_step p) \<and>
     (\<exists>c \<in> set pre. asks_for env c (gate_segment env sk) p))"

lemma confirmed_append: "confirmed_by_owner env tr sk k \<Longrightarrow> confirmed_by_owner env (tr @ [e]) sk k"
  unfolding confirmed_by_owner_def by (metis append.assoc append_Cons)

lemma owner_confirms_pending:
  "owner_confirms env st e sk p \<Longrightarrow> dget (gs_pending st) (gate_segment env sk) = Some p \<and> gt_kind p = Workflow_Step"
  using load_gate_eqD(3) [OF prod.collapse [symmetric]]
  by (auto simp: owner_confirms_def split: gate_event.splits) metis

lemma run_approved:
  "gate_run env tr st \<Longrightarrow> k \<in> set (load_approved env sk st) \<Longrightarrow> confirmed_by_owner env tr sk k"
proof (induction rule: gate_run.induct)
  case gate_start
  then show ?case by (simp add: no_gates_def load_approved_def)
next
  case (gate_next tr st e resume score)
  from approved_step [OF gate_next.prems] show ?case
  proof
    assume "k \<in> set (load_approved env sk st)"
    then show ?thesis using gate_next.IH confirmed_append by blast
  next
    assume "\<exists>p. owner_confirms env st e sk p \<and> k = approval_key (gt_workflow p) (gt_step p)"
    then obtain p where p: "owner_confirms env st e sk p" "k = approval_key (gt_workflow p) (gt_step p)" by blast
    then have "\<exists>c \<in> set tr. asks_for env c (gate_segment env sk) p"
      using run_pending [OF gate_next.hyps] owner_confirms_pending by blast
    then show ?thesis using p gate_next.hyps unfolding confirmed_by_owner_def by blast
  qed
qed

text \<open>
  C13: approval needs the owner: in every run of the gates, whatever checks, messages, commands,
  reviews and resets arrive in whatever order and at whatever times, a step counts as approved
  only if a workflow asked for a step with this key in this session and later an owner of the
  gateway confirmed it while exactly that request was pending.
\<close>

theorem approval_needs_owner:
  assumes "gate_run env tr st" and "is_step_approved env sk workflow step st"
  shows "confirmed_by_owner env tr sk (approval_key workflow step)"
  using assms run_approved by (simp add: is_step_approved_def)

section \<open>The bypass under concurrency\<close>

inductive bypass_run :: "bypass_event list \<Rightarrow> bypass_files \<Rightarrow> bool" where
  bypass_start: "bypass_run [] \<lparr>bf_file = None, bf_consumed = None, bf_reading = [], bf_removing = []\<rparr>"
| bypass_next: "bypass_run tr b \<Longrightarrow> bypass_step b e b' \<Longrightarrow> bypass_run (tr @ [e]) b'"

fun is_grant :: "bypass_event \<Rightarrow> bool" where
  "is_grant (Grant _) = True"
| "is_grant _ = False"

fun is_pass :: "bypass_event \<Rightarrow> bool" where
  "is_pass (Read _ _ True) = True"
| "is_pass _ = False"

fun_cases is_passE: "is_pass e"

text \<open>Every pass, every process about to read and a file still there each stem from a grant of their own.\<close>

lemma bypass_run_count:
  "bypass_run tr b \<Longrightarrow>
     length (filter is_pass tr) + length (bf_reading b) + (if bf_file b = None then 0 else 1)
       \<le> length (filter is_grant tr)"
proof (induction rule: bypass_run.induct)
  case (bypass_next tr b e b')
  have len: "length (bf_reading b) = Suc (length (remove1 p (bf_reading b)))" if "p \<in> set (bf_reading b)" for p
    using that length_pos_if_in_set [OF that] by (simp add: length_remove1)
  from bypass_next.hyps(2) bypass_next.IH show ?case
    by (elim bypass_stepE) (auto dest: len simp del: length_remove1 split: if_splits)
qed simp

text \<open>Run alone, the steps of one process answer like the function of the sequential model.\<close>

lemma consume_alone:
  assumes "idle b p" and "bf_file b = dget (gs_bypass st) (gate_segment env sk)"
  shows "if fst (consume_injection_bypass env now sk st)
    then \<exists>b1 b2. bypass_step b (Rename p True) b1 \<and> bypass_step b1 (Read p now True) b2
    else bypass_step b (Rename p False) b \<or>
      (\<exists>b1 b2. bypass_step b (Rename p True) b1 \<and> bypass_step b1 (Read p now False) b2)"
  using assms
  by (auto simp: consume_injection_bypass_def bypass_step_simps split: option.splits)

text \<open>
  C31: one grant, one message: however many processes race for the bypass of a session, in
  every interleaving of their file operations the messages that pass are at most as many as
  the bypasses that were granted.
\<close>

theorem bypass_is_one_shot:
  assumes "bypass_run tr b"
  shows "length (filter is_pass tr) \<le> length (filter is_grant tr)"
  using bypass_run_count [OF assms] by simp

section \<open>Concrete inputs\<close>

definition gate_env :: approval_env where
  "gate_env = \<lparr>ae_lib = \<lparr>lib_loads = (\<lambda>_. None), lib_dumps = pyrepr, lib_sha256 = (\<lambda>s. s)\<rparr>,
     ae_os = (\<lambda>v. if v = ''BUTLER_OWNER_WECHAT_ID'' then Some ''wx1'' else None), ae_float = (\<lambda>_. None)\<rparr>"

definition gate_trace :: "gate_event list" where
  "gate_trace = [Check 10 ''s'' ''deploy'' ''push'', Resolve 11 ''s'' ''ok'' ''wechat'' ''wx2'' [],
     Resolve 12 ''s'' ''ok'' ''wechat'' ''wx1'' []]"

definition gate_end :: gates where
  "gate_end = fold (gate_step gate_env (\<lambda>_ _. None) (\<lambda>_. Inr None)) gate_trace no_gates"

lemma gate_run_fold: "gate_run env tr st \<Longrightarrow> gate_run env (tr @ es) (fold (gate_step env resume score) es st)"
proof (induction es arbitrary: tr st)
  case (Cons e es)
  from Cons.IH [OF gate_next [OF Cons.prems, of e resume score]] show ?case by simp
qed simp

theorem approval_needs_owner_witness:
  "is_step_approved gate_env ''s'' ''deploy'' ''push'' gate_end \<and>
   confirmed_by_owner gate_env gate_trace ''s'' (approval_key ''deploy'' ''push'')"
proof
  show a: "is_step_approved gate_env ''s'' ''deploy'' ''push'' gate_end" by code_simp
  show "confirmed_by_owner gate_env gate_trace ''s'' (approval_key ''deploy'' ''push'')"
    using approval_needs_owner [OF _ a] gate_run_fold [OF gate_start, of gate_env gate_trace "\<lambda>_ _. None" "\<lambda>_. Inr None"]
    by (simp add: gate_end_def)
qed

theorem bypass_is_one_shot_witness:
  "length (filter is_pass [Grant 40, Rename 1 True, Rename 2 False, Read 1 20 True])
     \<le> length (filter is_grant [Grant 40, Rename 1 True, Rename 2 False, Read 1 20 True])"
proof (rule bypass_is_one_shot)
  define b0 :: bypass_files where "b0 = \<lparr>bf_file = None, bf_consumed = None, bf_reading = [], bf_removing = []\<rparr>"
  have 0: "bypass_run [] b0" unfolding b0_def by (rule bypass_start)
  have 1: "bypass_run ([] @ [Grant 40]) (b0\<lparr>bf_file := Some 40\<rparr>)"
    by (rule bypass_next [OF 0 grant])
  have 2: "bypass_run (([] @ [Grant 40]) @ [Rename 1 True]) (b0\<lparr>bf_consumed := Some 40, bf_reading := [1]\<rparr>)"
    by (rule bypass_next [OF 1]) (simp add: bypass_step_simps idle_def b0_def)
  have 3: "bypass_run ((([] @ [Grant 40]) @ [Rename 1 True]) @ [Rename 2 False])
      (b0\<lparr>bf_consumed := Some 40, bf_reading := [1]\<rparr>)"
    by (rule bypass_next [OF 2]) (simp add: bypass_step_simps idle_def b0_def)
  have "bypass_run (((([] @ [Grant 40]) @ [Rename 1 True]) @ [Rename 2 False]) @ [Read 1 20 True])
      (b0\<lparr>bf_consumed := Some 40\<rparr>)"
    by (rule bypass_next [OF 3]) (simp add: bypass_step_simps b0_def)
  then show "bypass_run [Grant 40, Rename 1 True, Rename 2 False, Read 1 20 True] (b0\<lparr>bf_consumed := Some 40\<rparr>)"
    by simp
qed

end
