(* ===== verification/Think_Scrubber.thy ===== *)
theory Think_Scrubber
  imports Prelude
begin

text \<open>
  The scrubber that removes reasoning blocks from streamed text
  (\<open>transport/think_scrubber.py\<close>): a state machine fed with the deltas of a stream.
  Positions are byte offsets; every comparison of the source is with ASCII tags, so they
  fall on the same places.  \<open>lower\<close> folds ASCII letters only; the few characters whose Python
  lower case is longer than themselves (which shift the positions the source slices at) are
  outside the model.
\<close>

section \<open>Tags\<close>

definition open_tag_names :: "string list" where
  "open_tag_names = [''think'', ''thinking'', ''reasoning'', ''thought'', ''REASONING_SCRATCHPAD'']"

definition open_tags :: "string list" where
  "open_tags = map (\<lambda>n. ''<'' @ n @ ''>'') open_tag_names"

definition close_tags :: "string list" where
  "close_tags = map (\<lambda>n. ''</'' @ n @ ''>'') open_tag_names"

definition max_tag_len :: nat where
  "max_tag_len = fold max (map length (open_tags @ close_tags)) 0"

section \<open>Searching\<close>

text \<open>\<open>s.find(p, start)\<close> for a pattern that is not empty.\<close>

fun find_sub :: "string \<Rightarrow> string \<Rightarrow> nat option" where
  "find_sub p [] = None"
| "find_sub p (c # s) = (if prefix p (c # s) then Some 0 else map_option Suc (find_sub p s))"

definition find_from :: "string \<Rightarrow> string \<Rightarrow> nat \<Rightarrow> nat option" where
  "find_from p s start = map_option ((+) start) (find_sub p (drop start s))"

definition find_first_tag :: "string \<Rightarrow> string list \<Rightarrow> (nat \<times> nat) option" where
  "find_first_tag buf tags = fold (\<lambda>tag best. case find_sub (lower tag) (lower buf) of
       None \<Rightarrow> best
     | Some i \<Rightarrow> (case best of
         None \<Rightarrow> Some (i, length tag)
       | Some (b, l) \<Rightarrow> if i < b then Some (i, length tag) else best)) tags None"

definition find_earliest_closed_pair :: "string \<Rightarrow> (nat \<times> nat) option" where
  "find_earliest_closed_pair buf = fold (\<lambda>(open_tag, close_tag) best.
     case find_sub (lower open_tag) (lower buf) of
       None \<Rightarrow> best
     | Some i \<Rightarrow> (case find_from (lower close_tag) (lower buf) (i + length open_tag) of
         None \<Rightarrow> best
       | Some j \<Rightarrow> (case best of
           None \<Rightarrow> Some (i, j + length close_tag)
         | Some (b, e) \<Rightarrow> if i < b then Some (i, j + length close_tag) else best)))
     (zip open_tags close_tags) None"

definition ends_nl :: "string \<Rightarrow> bool" where
  "ends_nl s \<longleftrightarrow> s \<noteq> [] \<and> last s = CHR 0x0A"

text \<open>Whether what was emitted before this buffer ended with a line feed.\<close>

definition prior_newline :: "bool \<Rightarrow> string list \<Rightarrow> bool" where
  "prior_newline flag emitted \<longleftrightarrow> (if emitted = [] then flag else ends_nl (last emitted))"

definition is_block_boundary :: "bool \<Rightarrow> string \<Rightarrow> nat \<Rightarrow> string list \<Rightarrow> bool" where
  "is_block_boundary flag buf idx emitted \<longleftrightarrow>
    (if idx = 0 then prior_newline flag emitted
     else let preceding = take idx buf in
       if CHR 0x0A \<notin> set preceding then prior_newline flag emitted \<and> strip preceding = []
       else strip (rev (takeWhile (\<lambda>c. c \<noteq> CHR 0x0A) (rev preceding))) = [])"

text \<open>The first occurrence of each tag at a boundary; the earliest of them.\<close>

definition boundary_hit :: "bool \<Rightarrow> string \<Rightarrow> string \<Rightarrow> string list \<Rightarrow> string \<Rightarrow> nat option" where
  "boundary_hit flag buf buf_lower emitted tag_lower = find (\<lambda>i. prefix tag_lower (drop i buf_lower) \<and>
     is_block_boundary flag buf i emitted) [0..<length buf]"

definition find_open_at_boundary :: "bool \<Rightarrow> string \<Rightarrow> string list \<Rightarrow> (nat \<times> nat) option" where
  "find_open_at_boundary flag buf emitted = fold (\<lambda>tag best. case boundary_hit flag buf (lower buf) emitted (lower tag) of
       None \<Rightarrow> best
     | Some i \<Rightarrow> (case best of
         None \<Rightarrow> Some (i, length tag)
       | Some (b, l) \<Rightarrow> if i < b then Some (i, length tag) else best)) open_tags None"

text \<open>The longest suffix, shorter than the longest tag, that a tag properly continues.\<close>

definition suffix_of_len :: "nat \<Rightarrow> string \<Rightarrow> string" where
  "suffix_of_len n s = drop (length s - n) s"

definition partial_at :: "string list \<Rightarrow> string \<Rightarrow> nat \<Rightarrow> bool" where
  "partial_at tags_lower buf_lower n \<longleftrightarrow> list_ex (\<lambda>tag. n < length tag \<and> prefix (suffix_of_len n buf_lower) tag) tags_lower"

definition longest_partial :: "string list \<Rightarrow> string \<Rightarrow> nat" where
  "longest_partial tags_lower buf_lower = (case find (partial_at tags_lower buf_lower)
       (rev [1..<Suc (min (length buf_lower) (max_tag_len - 1))]) of Some n \<Rightarrow> n | None \<Rightarrow> 0)"

definition max_partial_suffix :: "string \<Rightarrow> string list \<Rightarrow> nat" where
  "max_partial_suffix buf tags = longest_partial (map lower tags) (lower buf)"

section \<open>Close tags without an open tag\<close>

definition tag_ws :: "char set" where
  "tag_ws = {CHR '' '', CHR 0x09, CHR 0x0A, CHR 0x0D}"

text \<open>The length of the close tag the text starts with, or 0.\<close>

definition orphan_len :: "string \<Rightarrow> nat" where
  "orphan_len s = (if prefix ''</'' (lower s)
     then (case find (\<lambda>tag. prefix (lower tag) (lower s)) close_tags of Some tag \<Rightarrow> length tag | None \<Rightarrow> 0)
     else 0)"

function strip_orphans :: "string \<Rightarrow> string" where
  "strip_orphans [] = []"
| "strip_orphans (c # s) =
    (if orphan_len (c # s) = 0 then c # strip_orphans s
     else strip_orphans (dropWhile (\<lambda>x. x \<in> tag_ws) (drop (orphan_len (c # s)) (c # s))))"
  by pat_completeness auto
termination
proof (relation "measure length")
  fix c s
  assume "orphan_len (c # s) \<noteq> 0"
  then have "length (drop (orphan_len (c # s)) (c # s)) < length (c # s)" by simp
  then show "(dropWhile (\<lambda>x. x \<in> tag_ws) (drop (orphan_len (c # s)) (c # s)), c # s) \<in> measure length"
    using le_less_trans [OF length_dropWhile_le] by (simp only: in_measure)
qed auto

definition strip_orphan_close_tags :: "string \<Rightarrow> string" where
  "strip_orphan_close_tags s = (if \<not> contains ''</'' s then s else strip_orphans s)"

section \<open>The state machine\<close>

record scrubber =
  sc_in_block :: bool
  sc_buf :: string
  sc_ended_newline :: bool

definition reset_scrubber :: scrubber where
  "reset_scrubber = \<lparr>sc_in_block = False, sc_buf = [], sc_ended_newline = True\<rparr>"

text \<open>Emits the text without stray close tags, if anything is left of it.\<close>

definition put :: "string \<Rightarrow> scrubber \<times> string list \<Rightarrow> scrubber \<times> string list" where
  "put e so = (if e = [] then so
     else case so of (st, out) \<Rightarrow> (st\<lparr>sc_ended_newline := ends_nl e\<rparr>, out @ [e]))"

definition emit :: "string \<Rightarrow> scrubber \<times> string list \<Rightarrow> scrubber \<times> string list" where
  "emit s so = put (if s = [] then [] else strip_orphan_close_tags s) so"

text \<open>Emits all but the last \<open>held\<close> characters and holds those back.\<close>

definition hold_back :: "nat \<Rightarrow> string \<Rightarrow> scrubber \<times> string list \<Rightarrow> scrubber \<times> string list" where
  "hold_back held buf so = (case so of (st, out) \<Rightarrow>
     emit (take (length buf - held) buf) (st\<lparr>sc_buf := suffix_of_len held buf\<rparr>, out))"

text \<open>What comes first outside a block: a closed pair, or an opening tag at a boundary.\<close>

datatype scan = Pair nat nat | Opening nat nat | Neither

definition scan_outside :: "(nat \<times> nat) option \<Rightarrow> (nat \<times> nat) option \<Rightarrow> scan" where
  "scan_outside pair op_hit = (case op_hit of
       None \<Rightarrow> (case pair of None \<Rightarrow> Neither | Some (s, e) \<Rightarrow> Pair s e)
     | Some (i, n) \<Rightarrow> (case pair of
         None \<Rightarrow> Opening i n | Some (s, e) \<Rightarrow> if s \<le> i then Pair s e else Opening i n))"

lemma find_sub_less: "find_sub p s = Some i \<Longrightarrow> i < length s"
  by (induction s arbitrary: i) (auto split: if_splits)

text \<open>The search for the best of several candidates yields one of them.\<close>

lemma fold_best_mem:
  assumes "fold (\<lambda>t best. case f t of None \<Rightarrow> best
     | Some i \<Rightarrow> (case best of None \<Rightarrow> Some (i, g t) | Some (b, l) \<Rightarrow> if i < b then Some (i, g t) else best)) ts b0 = Some (x, n)"
  shows "b0 = Some (x, n) \<or> (\<exists>t \<in> set ts. f t = Some x \<and> n = g t)"
  using assms by (induction ts arbitrary: b0) (fastforce split: option.splits if_splits)+

lemma find_first_tag_mem:
  "find_first_tag buf tags = Some (i, n) \<Longrightarrow> \<exists>t \<in> set tags. find_sub (lower t) (lower buf) = Some i \<and> n = length t"
  using fold_best_mem [where g = length and f = "\<lambda>t. find_sub (lower t) (lower buf)"] unfolding find_first_tag_def by blast

lemma find_open_mem:
  "find_open_at_boundary flag buf out = Some (i, n) \<Longrightarrow>
     \<exists>t \<in> set open_tags. boundary_hit flag buf (lower buf) out (lower t) = Some i \<and> n = length t"
  using fold_best_mem [where g = length and f = "\<lambda>t. boundary_hit flag buf (lower buf) out (lower t)"] unfolding find_open_at_boundary_def by blast

lemma tag_lengths:
  shows "t \<in> set open_tags \<Longrightarrow> 0 < length t" and "t \<in> set close_tags \<Longrightarrow> 0 < length t"
  unfolding open_tags_def close_tags_def by auto

lemma pair_fold_pos:
  assumes "fold (\<lambda>(open_tag, close_tag) best.
     case find_sub (lower open_tag) (lower buf) of
       None \<Rightarrow> best
     | Some i \<Rightarrow> (case find_from (lower close_tag) (lower buf) (i + length open_tag) of
         None \<Rightarrow> best
       | Some j \<Rightarrow> (case best of
           None \<Rightarrow> Some (i, j + length close_tag)
         | Some (b, e) \<Rightarrow> if i < b then Some (i, j + length close_tag) else best))) ps b0 = Some (s, e)"
    and "\<forall>(x, y) \<in> set ps. 0 < length y" and "\<forall>s e. b0 = Some (s, e) \<longrightarrow> 0 < e"
  shows "0 < e"
  using assms by (induction ps arbitrary: b0) (fastforce split: option.splits if_splits prod.splits)+

lemma pair_pos: "find_earliest_closed_pair buf = Some (s, e) \<Longrightarrow> 0 < e"
  unfolding find_earliest_closed_pair_def
  by (erule pair_fold_pos) (auto dest!: set_zip_rightD dest: tag_lengths)

lemma scan_outside_Pair: "scan_outside pair op_hit = Pair s e \<Longrightarrow> pair = Some (s, e)"
  by (auto simp: scan_outside_def split: option.splits if_splits)

lemma scan_outside_Opening: "scan_outside pair op_hit = Opening i n \<Longrightarrow> op_hit = Some (i, n)"
  by (auto simp: scan_outside_def split: option.splits if_splits)

text \<open>The \<open>while buf\<close> loop of \<open>feed\<close>.\<close>

function feed_loop :: "scrubber \<Rightarrow> string \<Rightarrow> string list \<Rightarrow> scrubber \<times> string list" where
  "feed_loop st buf out = (if buf = [] then (st, out)
     else if sc_in_block st
     then (case find_first_tag buf close_tags of
         None \<Rightarrow> (st\<lparr>sc_buf := suffix_of_len (max_partial_suffix buf close_tags) buf\<rparr>, out)
       | Some (i, n) \<Rightarrow> feed_loop (st\<lparr>sc_in_block := False\<rparr>) (drop (i + n) buf) out)
     else (case scan_outside (find_earliest_closed_pair buf)
             (find_open_at_boundary (sc_ended_newline st) buf out) of
         Pair s e \<Rightarrow> (case emit (take s buf) (st, out) of
           (st', out') \<Rightarrow> feed_loop st' (drop e buf) out')
       | Opening i n \<Rightarrow> (case emit (take i buf) (st, out) of
           (st', out') \<Rightarrow> feed_loop (st'\<lparr>sc_in_block := True\<rparr>) (drop (i + n) buf) out')
       | Neither \<Rightarrow> hold_back (max (max_partial_suffix buf open_tags) (max_partial_suffix buf close_tags))
           buf (st, out)))"
  by pat_completeness auto
termination
proof (relation "measure (\<lambda>(st, buf, out). length buf)", goal_cases)
  case (2 st buf out x i n)
  then have "0 < n" using find_first_tag_mem tag_lengths(2) by fastforce
  with 2 show ?case by auto
next
  case (3 st buf out s e)
  then have "0 < e" using pair_pos scan_outside_Pair by metis
  with 3 show ?case by auto
next
  case (4 st buf out i n)
  then obtain t where "t \<in> set open_tags" "n = length t" using find_open_mem scan_outside_Opening by metis
  with 4 show ?case using tag_lengths(1) by fastforce
qed simp

declare feed_loop.simps [simp del]

definition feed :: "string \<Rightarrow> scrubber \<Rightarrow> string \<times> scrubber" where
  "feed delta st = (if delta = [] then ([], st)
     else case feed_loop (st\<lparr>sc_buf := []\<rparr>) (sc_buf st @ delta) [] of (st', out) \<Rightarrow> (concat out, st'))"

definition flush :: "scrubber \<Rightarrow> string \<times> scrubber" where
  "flush st = (if sc_in_block st then ([], st\<lparr>sc_buf := [], sc_in_block := False\<rparr>)
     else if sc_buf st = [] then ([], st)
     else let e = strip_orphan_close_tags (sc_buf st); st' = st\<lparr>sc_buf := []\<rparr> in
       if e = [] then ([], st') else (e, st'\<lparr>sc_ended_newline := ends_nl e\<rparr>))"

text \<open>A stream, delta by delta, with the final flush.\<close>

definition scrub_stream :: "string list \<Rightarrow> string" where
  "scrub_stream ds = (case fold (\<lambda>d (acc, st). case feed d st of (v, st') \<Rightarrow> (acc @ v, st')) ds
       ([], reset_scrubber) of (acc, st) \<Rightarrow> acc @ fst (flush st))"

end
