(* ===== verification/Think_Scrubber_Props.thy ===== *)
theory Think_Scrubber_Props
  imports Think_Scrubber
begin

text \<open>
  What the scrubber guarantees: reasoning opened at the start of a stream is never emitted,
  however the stream is cut into deltas; text that holds no angle bracket passes unchanged;
  what is held back is always shorter than a tag.  A closed pair that is cut across deltas in
  the middle of a line is emitted, against the documentation.
\<close>

section \<open>Searching\<close>

lemma find_sub_None: "p \<noteq> [] \<Longrightarrow> find_sub p s = None \<longleftrightarrow> \<not> contains p s"
  by (induction s) auto

lemma lower_length [simp]: "length (lower s) = length s"
  by (simp add: lower_def)

lemma lower_take: "lower (take n s) = take n (lower s)"
  by (simp add: lower_def take_map)

lemma contains_suffix: "suffix s t \<Longrightarrow> contains p s \<Longrightarrow> contains p t"
  by (auto simp: contains_sublist suffix_def intro: sublist_order.order.trans)

lemma contains_prefix: "prefix s t \<Longrightarrow> contains p s \<Longrightarrow> contains p t"
  by (auto simp: contains_sublist prefix_def intro: sublist_order.order.trans)

definition no_close :: "string \<Rightarrow> bool" where
  "no_close s \<longleftrightarrow> (\<forall>t \<in> set close_tags. \<not> contains (lower t) (lower s))"

lemma no_close_suffix: "no_close (a @ b) \<Longrightarrow> no_close b"
  using contains_suffix by (fastforce simp: no_close_def suffix_def)

lemma no_close_prefix: "no_close (a @ b) \<Longrightarrow> no_close a"
  using contains_prefix by (fastforce simp: no_close_def prefix_def)

lemma close_nonempty: "t \<in> set close_tags \<Longrightarrow> lower t \<noteq> []"
  by (auto dest: tag_lengths(2) simp: lower_def)

lemma find_close_None: "no_close s \<Longrightarrow> find_first_tag s close_tags = None"
proof (rule ccontr)
  assume n: "no_close s" and "find_first_tag s close_tags \<noteq> None"
  then obtain i l where "find_first_tag s close_tags = Some (i, l)" by auto
  then obtain t where t: "t \<in> set close_tags" "find_sub (lower t) (lower s) = Some i"
    using find_first_tag_mem by blast
  have "find_sub (lower t) (lower s) = None"
    using n t(1) find_sub_None [OF close_nonempty [OF t(1)]] by (simp add: no_close_def)
  then show False using t(2) by simp
qed

lemma fold_none: "(\<And>t b. t \<in> set ts \<Longrightarrow> f t b = b) \<Longrightarrow> fold f ts b0 = b0"
  by (induction ts arbitrary: b0) auto

lemma find_from_None:
  assumes "no_close s" and "t \<in> set close_tags"
  shows "find_from (lower t) (lower s) n = None"
proof -
  have "\<not> contains (lower t) (drop n (lower s))"
    using assms contains_suffix [OF suffix_drop] by (auto simp: no_close_def)
  then show ?thesis using assms(2) close_nonempty find_sub_None by (simp add: find_from_def)
qed

lemma no_close_no_pair: "no_close s \<Longrightarrow> find_earliest_closed_pair s = None"
  unfolding find_earliest_closed_pair_def
  by (rule fold_none) (auto dest!: set_zip_rightD simp: find_from_None split: option.splits)

section \<open>Inside a block\<close>

lemma suffix_suffix_of_len: "suffix (suffix_of_len n s) s"
  by (simp add: suffix_of_len_def suffix_drop)

lemma feed_in_block:
  assumes "sc_in_block st" and "no_close (sc_buf st @ d)"
  shows "\<exists>st'. feed d st = ([], st') \<and> sc_in_block st' \<and> suffix (sc_buf st') (sc_buf st @ d)"
proof (cases "d = []")
  case False
  then show ?thesis using assms find_close_None [OF assms(2)] suffix_suffix_of_len
    by (auto simp: feed_def feed_loop.simps)
qed (auto simp: feed_def assms)

definition feeds :: "string list \<Rightarrow> scrubber \<Rightarrow> string \<times> scrubber" where
  "feeds ds st = fold (\<lambda>d (acc, st). case feed d st of (v, st') \<Rightarrow> (acc @ v, st')) ds ([], st)"

lemma feeds_acc:
  "fold (\<lambda>d (acc, st). case feed d st of (v, st') \<Rightarrow> (acc @ v, st')) ds (a, st) =
     (a @ fst (feeds ds st), snd (feeds ds st))"
proof (induction ds arbitrary: a st)
  case (Cons d ds)
  obtain v st' where f: "feed d st = (v, st')" by fastforce
  show ?case using Cons.IH [of "a @ v" st'] Cons.IH [of v st'] by (simp add: feeds_def f)
qed (simp add: feeds_def)

lemma feeds_simps:
  shows "feeds [] st = ([], st)"
    and "feed d st = (v, st') \<Longrightarrow> feeds (d # ds) st = (v @ fst (feeds ds st'), snd (feeds ds st'))"
  using feeds_acc [of ds v st'] by (simp_all add: feeds_def)

lemma feeds_in_block:
  assumes "sc_in_block st" and "no_close (sc_buf st @ concat ds)"
  shows "\<exists>st'. feeds ds st = ([], st') \<and> sc_in_block st'"
  using assms
proof (induction ds arbitrary: st)
  case (Cons d ds)
  have "no_close (sc_buf st @ d)" using Cons.prems(2) no_close_prefix [of "sc_buf st @ d" "concat ds"] by simp
  then obtain st' where f: "feed d st = ([], st')" "sc_in_block st'" "suffix (sc_buf st') (sc_buf st @ d)"
    using feed_in_block Cons.prems(1) by blast
  obtain zs where "sc_buf st @ d = zs @ sc_buf st'" using f(3) by (auto simp: suffix_def)
  then have "sc_buf st @ concat (d # ds) = zs @ (sc_buf st' @ concat ds)"
    by (metis append.assoc concat.simps(2))
  then have "no_close (sc_buf st' @ concat ds)" using Cons.prems(2) no_close_suffix by metis
  then show ?case using Cons.IH f(1,2) by (simp add: feeds_simps(2) [OF f(1)])
qed (simp add: feeds_simps)

section \<open>The opening tag\<close>

text \<open>Facts about the ten tags, by evaluation.\<close>

definition tags_apart :: bool where
  "tags_apart \<longleftrightarrow> list_all (\<lambda>t. length t < max_tag_len \<and>
     list_all (\<lambda>u. (prefix (lower t) (lower u) \<longrightarrow> length t = length u) \<and>
       list_all (\<lambda>k. \<not> contains (lower u) (take k (lower t))) [0..<length t]) open_tags) open_tags"

lemma tags_apart: tags_apart
  by code_simp

lemma tag_facts:
  assumes "t \<in> set open_tags"
  shows "length t \<le> max_tag_len - 1"
    and "u \<in> set open_tags \<Longrightarrow> prefix (lower t) (lower u) \<Longrightarrow> length t = length u"
    and "u \<in> set open_tags \<Longrightarrow> k < length t \<Longrightarrow> \<not> contains (lower u) (take k (lower t))"
proof -
  have *: "length t < max_tag_len \<and> (\<forall>u \<in> set open_tags. (prefix (lower t) (lower u) \<longrightarrow> length t = length u) \<and>
      (\<forall>k \<in> set [0..<length t]. \<not> contains (lower u) (take k (lower t))))"
    using tags_apart assms unfolding tags_apart_def list_all_iff by blast
  show "length t \<le> max_tag_len - 1" using conjunct1 [OF *] by linarith
  show "u \<in> set open_tags \<Longrightarrow> prefix (lower t) (lower u) \<Longrightarrow> length t = length u" using * by blast
  show "u \<in> set open_tags \<Longrightarrow> k < length t \<Longrightarrow> \<not> contains (lower u) (take k (lower t))" using * by simp
qed

lemma open_nonempty: "t \<in> set open_tags \<Longrightarrow> lower t \<noteq> []"
  by (auto dest: tag_lengths(1) simp: lower_def)

lemma boundary_hit_contains:
  "boundary_hit flag buf (lower buf) out (lower t) = Some i \<Longrightarrow> contains (lower t) (lower buf)"
proof -
  assume "boundary_hit flag buf (lower buf) out (lower t) = Some i"
  then have "prefix (lower t) (drop i (lower buf))" by (auto simp: boundary_hit_def find_Some_iff)
  then have "sublist (lower t) (lower buf)"
    by (metis prefix_imp_sublist sublist_drop sublist_order.order.trans)
  then show ?thesis by (simp add: contains_sublist)
qed

lemma no_open_no_hit:
  assumes "\<And>u. u \<in> set open_tags \<Longrightarrow> \<not> contains (lower u) (lower buf)"
  shows "find_open_at_boundary flag buf out = None" and "find_earliest_closed_pair buf = None"
proof -
  show "find_open_at_boundary flag buf out = None"
  proof (rule ccontr)
    assume "find_open_at_boundary flag buf out \<noteq> None"
    then obtain i n where "find_open_at_boundary flag buf out = Some (i, n)" by auto
    then show False using find_open_mem boundary_hit_contains assms by blast
  qed
  have "find_sub (lower u) (lower buf) = None" if "u \<in> set open_tags" for u
    using that assms find_sub_None open_nonempty by simp
  then show "find_earliest_closed_pair buf = None"
    unfolding find_earliest_closed_pair_def
    by (intro fold_none) (auto dest!: set_zip_leftD)
qed

lemma fold_best_zero_keep:
  "fold (\<lambda>t best. case f t of None \<Rightarrow> best
     | Some i \<Rightarrow> (case best of None \<Rightarrow> Some (i, g t) | Some (b, l) \<Rightarrow> if i < b then Some (i, g t) else best)) ts
     (Some (0::nat, n)) = Some (0, n)"
  by (induction ts) (auto split: option.splits)

lemma fold_best_zero:
  assumes "t0 \<in> set ts" and "f t0 = Some (0::nat)" and "\<And>t. t \<in> set ts \<Longrightarrow> f t = Some 0 \<Longrightarrow> g t = n"
    and "\<And>l. b0 = Some (0, l) \<Longrightarrow> l = n"
  shows "fold (\<lambda>t best. case f t of None \<Rightarrow> best
     | Some i \<Rightarrow> (case best of None \<Rightarrow> Some (i, g t) | Some (b, l) \<Rightarrow> if i < b then Some (i, g t) else best)) ts b0
     = Some (0, n)"
  using assms
proof (induction ts arbitrary: b0)
  case (Cons t ts)
  show ?case
  proof (cases "f t = Some 0")
    case True
    then have "g t = n" using Cons.prems(3) by simp
    then show ?thesis using True Cons.prems(4) fold_best_zero_keep 
      by (cases b0) (auto split: if_splits)
  next
    case False
    then show ?thesis using Cons.prems by (auto split: option.splits intro!: Cons.IH)
  qed
qed simp

lemma boundary_hit_start:
  assumes "prefix (lower t) (lower buf)" and "buf \<noteq> []"
  shows "boundary_hit True buf (lower buf) [] (lower t) = Some 0"
proof -
  have "[0..<length buf] = 0 # [1..<length buf]" using assms(2) by (simp add: upt_conv_Cons)
  then show ?thesis using assms(1)
    by (simp add: boundary_hit_def is_block_boundary_def prior_newline_def)
qed

lemma open_at_start:
  assumes "t \<in> set open_tags" and "prefix (lower t) (lower buf)" and "buf \<noteq> []"
  shows "find_open_at_boundary True buf [] = Some (0, length t)"
  unfolding find_open_at_boundary_def
proof (rule fold_best_zero [where f = "\<lambda>t. boundary_hit True buf (lower buf) [] (lower t)" and g = length, OF assms(1)])
  show "boundary_hit True buf (lower buf) [] (lower t) = Some 0" using boundary_hit_start assms(2,3) .
next
  fix u assume u: "u \<in> set open_tags" "boundary_hit True buf (lower buf) [] (lower u) = Some 0"
  then have "prefix (lower u) (lower buf)" by (auto simp: boundary_hit_def find_Some_iff)
  then have "prefix (lower u) (lower t) \<or> prefix (lower t) (lower u)"
    using assms(2) prefix_same_cases by blast
  then show "length u = length t" using tag_facts(2) assms(1) u(1) by metis
qed simp

text \<open>A part of an opening tag is held back whole.\<close>

lemma partial_tag_held:
  assumes t: "t \<in> set open_tags" and p: "lower buf = take k (lower t)" and k: "k < length t" and ne: "buf \<noteq> []"
  shows "max_partial_suffix buf open_tags = length buf"
proof -
  have len: "length buf = k" using arg_cong [OF p, of length] k by simp
  have le: "k \<le> max_tag_len - 1" using tag_facts(1) [OF t] k by simp
  have "suffix_of_len k (lower buf) = take k (lower t)" using len p by (simp add: suffix_of_len_def)
  then have hit: "partial_at (map lower open_tags) (lower buf) k"
    using t k unfolding partial_at_def list_ex_iff set_map
    by (intro bexI [of _ "lower t"]) (simp_all add: take_is_prefix)
  have "0 < k" using ne len by auto
  then have "rev [1..<Suc (min (length buf) (max_tag_len - 1))] = k # rev [1..<k]"
    using le len by (simp add: min_def)
  then show ?thesis using hit by (simp add: max_partial_suffix_def longest_partial_def len)
qed

lemma find_SomeD: "find P xs = Some x \<Longrightarrow> x \<in> set xs \<and> P x"
  by (induction xs) (auto split: if_splits)

lemma max_partial_le: "max_partial_suffix buf tags \<le> length buf"
proof (cases "find (partial_at (map lower tags) (lower buf)) (rev [1..<Suc (min (length (lower buf)) (max_tag_len - 1))])")
  case (Some n)
  then have "n \<le> length buf" by (auto dest!: find_SomeD)
  then show ?thesis using Some by (simp add: max_partial_suffix_def longest_partial_def)
qed (simp add: max_partial_suffix_def longest_partial_def)

definition at_start :: "string \<Rightarrow> scrubber" where
  "at_start held = \<lparr>sc_in_block = False, sc_buf = held, sc_ended_newline = True\<rparr>"

lemma feed_partial_tag:
  assumes t: "t \<in> set open_tags" and "lower (h @ d) = take k (lower t)" and "k < length t" and "d \<noteq> []"
  shows "feed d (at_start h) = ([], at_start (h @ d))"
proof -
  let ?buf = "h @ d"
  have "\<not> contains (lower u) (lower ?buf)" if "u \<in> set open_tags" for u
    using tag_facts(3) [OF t that assms(3)] assms(2) by simp
  note none = no_open_no_hit [of ?buf, OF this]
  have "max_partial_suffix ?buf open_tags = length ?buf"
    using partial_tag_held [OF t assms(2,3)] assms(4) by simp
  then have "max (max_partial_suffix ?buf open_tags) (max_partial_suffix ?buf close_tags) = length ?buf"
    using max_partial_le [of ?buf close_tags] by simp
  then show ?thesis using assms(4)
    by (simp add: feed_def at_start_def feed_loop.simps none emit_def put_def hold_back_def scan_outside_def suffix_of_len_def del: length_append)
qed

lemma feed_whole_tag:
  assumes t: "t \<in> set open_tags" and p: "prefix (lower t) (lower (h @ d))" and c: "no_close (h @ d)" and "d \<noteq> []"
  shows "\<exists>st'. feed d (at_start h) = ([], st') \<and> sc_in_block st' \<and> suffix (sc_buf st') (h @ d)"
proof -
  let ?buf = "h @ d"
  let ?y = "drop (length t) ?buf"
  let ?st = "(at_start [])\<lparr>sc_in_block := True\<rparr>"
  have "feed_loop (at_start []) ?buf [] = feed_loop ?st ?y []"
    using open_at_start [OF t p] no_close_no_pair [OF c] assms(4)
    by (subst feed_loop.simps) (simp add: at_start_def emit_def put_def hold_back_def scan_outside_def)
  moreover have y: "no_close ?y" using c by (metis append_take_drop_id no_close_suffix)
  have "\<exists>st'. feed_loop ?st ?y [] = (st', []) \<and> sc_in_block st' \<and> suffix (sc_buf st') ?y"
  proof (cases "?y = []")
    case True
    then show ?thesis by (subst feed_loop.simps) (simp add: at_start_def)
  next
    case False
    then show ?thesis using find_close_None [OF y] suffix_suffix_of_len
      by (subst feed_loop.simps) (simp add: at_start_def)
  qed
  moreover have "suffix ?y ?buf" by (rule suffix_drop)
  ultimately show ?thesis using assms(4) unfolding feed_def at_start_def
    by (auto intro: suffix_order.trans)
qed

lemma feeds_from_start:
  assumes t: "t \<in> set open_tags" and "no_close (h @ concat ds)" and "lower h = take k (lower t)" and "k < length t"
    and "prefix (lower (h @ concat ds)) (lower t) \<or> prefix (lower t) (lower (h @ concat ds))"
  shows "\<exists>st'. feeds ds (at_start h) = ([], st') \<and> (sc_in_block st' \<or> length (h @ concat ds) < length t)"
  using assms
proof (induction ds arbitrary: h k)
  case (Cons d ds)
  show ?case
  proof (cases "d = []")
    case True
    then have "feed d (at_start h) = ([], at_start h)" by (simp add: feed_def)
    then show ?thesis using Cons.IH [of h k] Cons.prems True by (simp add: feeds_simps(2))
  next
    case False
    have pre: "prefix (lower (h @ d)) (lower (h @ concat (d # ds)))" by (simp add: lower_def prefix_def)
    show ?thesis
    proof (cases "prefix (lower t) (lower (h @ d))")
      case True
      have "no_close (h @ d)" using Cons.prems(2) no_close_prefix [of "h @ d" "concat ds"] by simp
      then obtain st' where f: "feed d (at_start h) = ([], st')" "sc_in_block st'" "suffix (sc_buf st') (h @ d)"
        using feed_whole_tag [OF t True _ False] by blast
      obtain zs where "h @ d = zs @ sc_buf st'" using f(3) by (auto simp: suffix_def)
      then have "h @ concat (d # ds) = zs @ (sc_buf st' @ concat ds)" by (metis append.assoc concat.simps(2))
      then have "no_close (sc_buf st' @ concat ds)" using Cons.prems(2) no_close_suffix by metis
      then obtain st'' where "feeds ds st' = ([], st'')" "sc_in_block st''" using feeds_in_block f(2) by blast
      then show ?thesis by (simp add: feeds_simps(2) [OF f(1)])
    next
      case False
      then have p: "prefix (lower (h @ d)) (lower t)"
        using Cons.prems(5) pre prefix_same_cases [of "lower (h @ d)" _ "lower t"] prefix_order.trans by blast
      let ?k = "length (h @ d)"
      have k: "lower (h @ d) = take ?k (lower t)" using p by (metis lower_length prefix_def append_eq_conv_conj)
      have "?k < length t" using p False k by (metis lower_length not_less order_refl prefix_length_le take_all_iff)
      note f = feed_partial_tag [OF t k this \<open>d \<noteq> []\<close>]
      show ?thesis using Cons.IH [of "h @ d" ?k] Cons.prems k \<open>?k < length t\<close>
        by (simp add: feeds_simps(2) [OF f])
    qed
  qed
qed (auto simp: feeds_simps dest: arg_cong [of "lower _" _ length])

lemma scrub_stream_feeds: "scrub_stream ds = fst (feeds ds (at_start [])) @ fst (flush (snd (feeds ds (at_start []))))"
  by (simp add: scrub_stream_def feeds_def at_start_def reset_scrubber_def split: prod.splits)

text \<open>
  C17: secrecy of reasoning: when a stream begins with an opening tag, in any case of letters,
  and no closing tag follows, nothing is ever emitted, neither by any delta nor by the final
  flush, however the stream is cut into deltas (inside the tag included).
\<close>

theorem reasoning_never_leaks:
  assumes "t \<in> set open_tags" and "prefix (lower t) (lower (concat ds))"
    and "\<forall>c \<in> set close_tags. \<not> contains (lower c) (lower (concat ds))"
  shows "scrub_stream ds = []"
proof -
  have "0 < length t" using tag_lengths(1) assms(1) by blast
  moreover have "length t \<le> length (concat ds)" using prefix_length_le [OF assms(2)] by simp
  ultimately obtain st' where "feeds ds (at_start []) = ([], st')" "sc_in_block st'"
    using feeds_from_start [OF assms(1), of "[]" ds 0] assms(2,3) by (auto simp: no_close_def lower_def)
  then show ?thesis by (simp add: scrub_stream_feeds flush_def)
qed

section \<open>What is held back\<close>

lemma max_partial_bound: "max_partial_suffix buf tags < max_tag_len"
proof (cases "find (partial_at (map lower tags) (lower buf)) (rev [1..<Suc (min (length (lower buf)) (max_tag_len - 1))])")
  case (Some n)
  then have "n \<le> max_tag_len - 1" by (auto dest!: find_SomeD)
  moreover have "0 < max_tag_len" by code_simp
  ultimately show ?thesis using Some by (simp add: max_partial_suffix_def longest_partial_def)
next
  case None
  have "0 < max_tag_len" by code_simp
  then show ?thesis using None by (simp add: max_partial_suffix_def longest_partial_def)
qed

lemma emit_buf [simp]: "sc_buf (fst (emit s so)) = sc_buf (fst so)"
  by (cases so) (simp add: emit_def put_def)

lemma hold_back_buf: "sc_buf (fst (hold_back n buf so)) = suffix_of_len n buf"
  by (cases so) (simp add: hold_back_def)

lemma feed_loop_held:
  "length (sc_buf st) < max_tag_len \<Longrightarrow> length (sc_buf (fst (feed_loop st buf out))) < max_tag_len"
proof (induction st buf out rule: feed_loop.induct)
  case (1 st buf out)
  have len: "length (suffix_of_len n s) \<le> n" for n and s :: string by (simp add: suffix_of_len_def)
  have m: "max (max_partial_suffix buf open_tags) (max_partial_suffix buf close_tags) < max_tag_len"
    using max_partial_bound by simp
  have e: "sc_buf st' = sc_buf st" if "emit s (st, out) = (st', out')" for s st' out'
    using emit_buf [of s "(st, out)"] that by simp
  show ?case
    using 1 len [THEN le_less_trans, OF max_partial_bound] len [THEN le_less_trans, OF m]
    by (subst feed_loop.simps) (auto simp: e hold_back_buf split: option.splits prod.splits scan.splits)
qed

text \<open>
  bounded delay: whatever is fed to a scrubber, the text it holds back afterwards is
  shorter than the longest tag.
\<close>

theorem held_back_less_than_a_tag:
  "length (sc_buf st) < max_tag_len \<Longrightarrow> length (sc_buf (snd (feed d st))) < 23"
proof -
  assume "length (sc_buf st) < max_tag_len"
  moreover have "max_tag_len = 23" by code_simp
  ultimately show ?thesis using feed_loop_held [of "st\<lparr>sc_buf := []\<rparr>" "sc_buf st @ d" "[]"]
    by (auto simp: feed_def split: prod.splits)
qed

section \<open>Plain text\<close>

lemma of_char_lower: "of_char (lower_char c) = (let n = (of_char c :: nat) in if 65 \<le> n \<and> n \<le> 90 then n + 32 else n)"
  by (simp add: lower_char_def Let_def)

lemma lower_lt [simp]: "CHR ''<'' \<in> set (lower s) \<longleftrightarrow> CHR ''<'' \<in> set s"
proof -
  have lt: "c = CHR ''<'' \<longleftrightarrow> of_char c = (60 :: nat)" for c
  proof -
    have "of_char (CHR ''<'') = (60 :: nat)" by simp
    then show ?thesis using of_char_eq_iff [of c "CHR ''<''", where 'a = nat] by metis
  qed
  have "of_char (lower_char c) = (60 :: nat) \<longleftrightarrow> of_char c = (60 :: nat)" for c
    unfolding of_char_lower Let_def by auto
  then have low: "CHR ''<'' = lower_char c \<longleftrightarrow> CHR ''<'' = c" for c
    using lt [of c] lt [of "lower_char c"] by metis
  show ?thesis by (induction s) (simp_all add: lower_def low)
qed

lemma tag_lt:
  assumes "t \<in> set open_tags \<union> set close_tags"
  shows "\<exists>r. lower t = CHR ''<'' # r" and "contains (lower t) s \<Longrightarrow> CHR ''<'' \<in> set s"
proof -
  have "hd (lower t) = CHR ''<'' \<and> lower t \<noteq> []"
    using assms by (auto simp: open_tags_def close_tags_def lower_def lower_char_def Let_def)
  then show 1: "\<exists>r. lower t = CHR ''<'' # r" by (cases "lower t") auto
  show "contains (lower t) s \<Longrightarrow> CHR ''<'' \<in> set s"
    using 1 set_mono_sublist by (fastforce simp: contains_sublist)
qed

lemma no_partial:
  assumes "CHR ''<'' \<notin> set buf" and "tags = open_tags \<or> tags = close_tags"
  shows "max_partial_suffix buf tags = 0"
proof -
  have "\<not> partial_at (map lower tags) (lower buf) n"
    if n: "n \<in> set (rev [1..<Suc (min (length (lower buf)) (max_tag_len - 1))])" for n
  proof
    assume "partial_at (map lower tags) (lower buf) n"
    then obtain t where t: "t \<in> set tags" "prefix (suffix_of_len n (lower buf)) (lower t)"
      by (auto simp: partial_at_def list_ex_iff)
    obtain r where r: "lower t = CHR ''<'' # r" using tag_lt(1) t(1) assms(2) by blast
    obtain x xs where x: "suffix_of_len n (lower buf) = x # xs"
      using n by (cases "suffix_of_len n (lower buf)") (auto simp: suffix_of_len_def)
    have "x \<in> set (lower buf)" using x set_drop_subset [of "length (lower buf) - n" "lower buf"]
      by (auto simp: suffix_of_len_def)
    then show False using t(2) r x assms(1) by simp
  qed
  then have "find (partial_at (map lower tags) (lower buf)) (rev [1..<Suc (min (length (lower buf)) (max_tag_len - 1))]) = None"
    unfolding find_None_iff by blast
  then show ?thesis by (simp add: max_partial_suffix_def longest_partial_def)
qed

lemma plain_strip: "CHR ''<'' \<notin> set s \<Longrightarrow> strip_orphan_close_tags s = s"
  using set_mono_sublist [of "''</''" s] by (auto simp: strip_orphan_close_tags_def contains_sublist)

lemma feed_plain:
  assumes "\<not> sc_in_block st" and "sc_buf st = []" and "CHR ''<'' \<notin> set d"
  shows "\<exists>st'. feed d st = (d, st') \<and> \<not> sc_in_block st' \<and> sc_buf st' = []"
proof (cases "d = []")
  case False
  have "\<not> contains (lower u) (lower d)" if "u \<in> set open_tags" for u
    using tag_lt(2) [of u "lower d"] that assms(3) by auto
  note none = no_open_no_hit [of d, OF this]
  show ?thesis using assms False
    by (simp add: feed_def feed_loop.simps none no_partial emit_def put_def hold_back_def scan_outside_def plain_strip suffix_of_len_def)
qed (simp add: feed_def assms)

text \<open>
  transparency: a stream whose deltas hold no opening angle bracket is emitted as it is,
  without loss.
\<close>

theorem plain_stream_unchanged:
  assumes "\<forall>d \<in> set ds. CHR ''<'' \<notin> set d"
  shows "scrub_stream ds = concat ds"
proof -
  have "\<exists>st'. feeds ds st = (concat ds, st') \<and> \<not> sc_in_block st' \<and> sc_buf st' = []"
    if "\<not> sc_in_block st" "sc_buf st = []" for st
    using that assms
  proof (induction ds arbitrary: st)
    case (Cons d ds)
    then obtain st1 where f: "feed d st = (d, st1)" "\<not> sc_in_block st1" "sc_buf st1 = []"
      using feed_plain [of st d] by auto
    then obtain st2 where "feeds ds st1 = (concat ds, st2)" "\<not> sc_in_block st2" "sc_buf st2 = []"
      using Cons.IH [of st1] Cons.prems(3) by auto
    then show ?case by (simp add: feeds_simps(2) [OF f(1)])
  qed (simp add: feeds_simps)
  from this [of "at_start []"] show ?thesis by (auto simp: scrub_stream_feeds at_start_def flush_def)
qed

section \<open>Pairs cut by a delta\<close>

text \<open>
  finding: the module documents that a closed pair is always suppressed; one that stands
  in the middle of a line is suppressed only when it arrives in one delta, and the same
  stream cut inside the pair emits the opening tag and the reasoning.
\<close>

theorem cut_pair_leaks:
  "scrub_stream [''so <think>'', ''secret</think>ok''] = ''so <think>secretok'' \<and>
   scrub_stream [''so <think>secret</think>ok''] = ''so ok''"
  by code_simp

section \<open>Concrete inputs\<close>

theorem reasoning_never_leaks_witness:
  "scrub_stream [''<Thi'', ''nk>plan: '', ''delete </th'', '' all''] = []"
proof (rule reasoning_never_leaks [of "''<think>''"])
  show "''<think>'' \<in> set open_tags" by code_simp
  show "prefix (lower ''<think>'') (lower (concat [''<Thi'', ''nk>plan: '', ''delete </th'', '' all'']))" by code_simp
  show "\<forall>c \<in> set close_tags. \<not> contains (lower c) (lower (concat [''<Thi'', ''nk>plan: '', ''delete </th'', '' all'']))"
    by code_simp
qed

theorem held_back_less_than_a_tag_witness:
  "length (sc_buf (snd (feed ''x </REASONING_SCRATCHPAD'' reset_scrubber))) < 23"
  by (rule held_back_less_than_a_tag) code_simp

theorem plain_stream_unchanged_witness: "scrub_stream [''a > b'', [], ''; ok''] = ''a > b; ok''"
proof -
  have "\<forall>d \<in> set [''a > b'', [], ''; ok'']. CHR ''<'' \<notin> set d" by code_simp
  from plain_stream_unchanged [OF this] show ?thesis by simp
qed

end
