(* ===== verification/Inbound_Idempotency.thy ===== *)
theory Inbound_Idempotency
  imports Message_Queue
begin

text \<open>
  Duplicate messages of a platform (\<open>resilience/inbound_idempotency.py\<close>) and the phase of the
  inbound pipeline that consults it (\<open>gateway/message_pipelines.py\<close>).  All operations hold one
  lock, so they are functions on the table of sessions; the clock readings of one operation are
  one time.  Telemetry is left out.
\<close>

section \<open>State\<close>

datatype msg_status = Inflight | Done

type_synonym id_bucket = "(string, msg_status \<times> secs) dict"
type_synonym seen = "(string, id_bucket) dict"

definition max_ids_per_session :: nat where "max_ids_per_session = 512"
definition max_sessions :: nat where "max_sessions = 256"

text \<open>The environment: the variables of the process and \<open>float(text)\<close> (nothing when it raises).\<close>

record idem_env =
  ie_os :: os_env
  ie_float :: "string \<Rightarrow> secs option"

text \<open>
  The module's binding of the name \<open>GATEWAY_INFLIGHT_TTL_SEC_DEFAULT\<close>: its import binds two other names only, so
  every lookup of the time-to-live raises.
\<close>

definition module_ttl_default :: "string option" where
  "module_ttl_default = None"

definition external_id_dedupe_enabled :: "idem_env \<Rightarrow> bool" where
  "external_id_dedupe_enabled env = env_truthy (ie_os env) ''BUTLER_GATEWAY_EXTERNAL_ID_DEDUPE'' True"

definition resolve_inflight_ttl :: "idem_env \<Rightarrow> string + secs" where
  "resolve_inflight_ttl env = (case module_ttl_default of
       None \<Rightarrow> Inl ''NameError''
     | Some d \<Rightarrow> (let raw = strip (case ie_os env ''BUTLER_GATEWAY_INFLIGHT_TTL_SEC'' of Some v \<Rightarrow> v | None \<Rightarrow> d) in
         if raw = [] then Inr 60
         else case ie_float env raw of
           None \<Rightarrow> Inr 60
         | Some v \<Rightarrow> if v < 1 then Inr 60 else Inr v))"

definition sweep_expired_inflight :: "secs \<Rightarrow> secs \<Rightarrow> id_bucket \<Rightarrow> id_bucket" where
  "sweep_expired_inflight ttl now b = filter (\<lambda>(eid, s, ts). \<not> (s = Inflight \<and> ttl < now - ts)) b"

text \<open>\<open>popitem(last=False)\<close> until the bucket fits.\<close>

definition prune_session :: "id_bucket \<Rightarrow> id_bucket" where
  "prune_session b = last_n max_ids_per_session b"

definition session_of :: "string \<Rightarrow> string" where
  "session_of sk = strip_or (str_or sk ''default'') ''default''"

section \<open>Operations\<close>

datatype idem_decision = Accept | Duplicate_Done | Duplicate_Inflight

text \<open>The session's bucket, made if needed; the oldest session leaves a full table.\<close>

definition open_session :: "string \<Rightarrow> seen \<Rightarrow> id_bucket \<times> seen" where
  "open_session sk st = (let st' = (if max_sessions \<le> length st \<and> sk \<notin> set (dkeys st) then tl st else st) in
     case dget st' sk of Some b \<Rightarrow> (b, st') | None \<Rightarrow> ([], dset sk [] st'))"

definition check_and_reserve_inbound :: "idem_env \<Rightarrow> secs \<Rightarrow> string \<Rightarrow> string \<Rightarrow> seen
    \<Rightarrow> (string + idem_decision) \<times> seen" where
  "check_and_reserve_inbound env now session_key external_id st =
    (if \<not> external_id_dedupe_enabled env then (Inr Accept, st)
     else let eid = strip external_id; sk = session_of session_key in
     if eid = [] then (Inr Accept, st)
     else case open_session sk st of (b0, st1) \<Rightarrow>
       (case resolve_inflight_ttl env of
          Inl exc \<Rightarrow> (Inl exc, st1)
        | Inr ttl \<Rightarrow> (let b = sweep_expired_inflight ttl now b0 in
            case dget b eid of
              Some (Done, _) \<Rightarrow> (Inr Duplicate_Done, dset sk b st1)
            | Some (Inflight, _) \<Rightarrow> (Inr Duplicate_Inflight, dset sk b st1)
            | None \<Rightarrow> (Inr Accept, dset sk (prune_session (dset eid (Inflight, now) b)) st1))))"

definition complete_inbound :: "idem_env \<Rightarrow> secs \<Rightarrow> string \<Rightarrow> string \<Rightarrow> seen \<Rightarrow> (string + unit) \<times> seen" where
  "complete_inbound env now session_key external_id st = (let eid = strip external_id; sk = session_of session_key in
     if eid = [] then (Inr (), st)
     else case dget st sk of
       None \<Rightarrow> (Inr (), st)
     | Some b0 \<Rightarrow> (case resolve_inflight_ttl env of
          Inl exc \<Rightarrow> (Inl exc, st)
        | Inr ttl \<Rightarrow> (Inr (), dset sk (prune_session
            (dset eid (Done, now) (sweep_expired_inflight ttl now b0))) st)))"

definition release_inflight :: "string \<Rightarrow> string \<Rightarrow> seen \<Rightarrow> seen" where
  "release_inflight session_key external_id st = (let eid = strip external_id; sk = session_of session_key in
     if eid = [] then st
     else case dget st sk of
       None \<Rightarrow> st
     | Some b \<Rightarrow> (case dget b eid of
         Some (Inflight, _) \<Rightarrow> dset sk (dpop eid b) st | _ \<Rightarrow> st))"

definition reset_session :: "string option \<Rightarrow> seen \<Rightarrow> seen" where
  "reset_session session_key st = (case session_key of None \<Rightarrow> [] | Some sk \<Rightarrow> dpop (session_of sk) st)"

section \<open>The phase of the pipeline\<close>

text \<open>
  \<open>_phase_apply_idempotency\<close>: a reply that ends the turn, whether an id was reserved, and the
  id.  It runs best effort: a raise counts as nothing found.
\<close>

definition inbound_id :: "string \<Rightarrow> string \<Rightarrow> string" where
  "inbound_id session_key external_id =
    (if strip external_id \<noteq> [] \<and> strip external_id = chat_id_from_session_key session_key then []
     else strip external_id)"

definition apply_idempotency :: "idem_env \<Rightarrow> secs \<Rightarrow> string \<Rightarrow> string \<Rightarrow> seen
    \<Rightarrow> (idem_decision option \<times> bool \<times> string) \<times> seen" where
  "apply_idempotency env now session_key external_id st = (let i = inbound_id session_key external_id in
     case check_and_reserve_inbound env now session_key i st of
       (Inl exc, st') \<Rightarrow> ((None, False, []), st')
     | (Inr Accept, st') \<Rightarrow> ((None, True, i), st')
     | (Inr d, st') \<Rightarrow> ((Some d, False, i), st'))"

section \<open>Sequences of operations\<close>

datatype idem_op =
    Reserve secs string string
  | Complete secs string string
  | Release string string
  | Reset "string option"

fun idem_step :: "idem_env \<Rightarrow> idem_op \<Rightarrow> seen \<Rightarrow> seen" where
  "idem_step env (Reserve now sk i) st = snd (check_and_reserve_inbound env now sk i st)"
| "idem_step env (Complete now sk i) st = snd (complete_inbound env now sk i st)"
| "idem_step env (Release sk i) st = release_inflight sk i st"
| "idem_step env (Reset sk) st = reset_session sk st"

section \<open>The invariant of the table\<close>

definition bucket_ok :: "id_bucket \<Rightarrow> bool" where
  "bucket_ok b \<longleftrightarrow> length b \<le> max_ids_per_session \<and> dwf b"

definition table_ok :: "seen \<Rightarrow> bool" where
  "table_ok st \<longleftrightarrow> length st \<le> max_sessions \<and> (\<forall>(k, b) \<in> set st. bucket_ok b)"

lemma table_ok_dset:
  assumes "table_ok st" and "bucket_ok b" and "sk \<in> set (dkeys st) \<or> length st < max_sessions"
  shows "table_ok (dset sk b st)"
proof -
  have "length (dset sk b st) \<le> max_sessions" using assms(1,3) by (auto simp: table_ok_def length_dset)
  moreover have "\<forall>(k, b') \<in> set (dset sk b st). bucket_ok b'"
    using assms(1,2) by (auto simp: table_ok_def dest!: set_dset)
  ultimately show ?thesis by (simp add: table_ok_def)
qed

lemma table_ok_bucket: "table_ok st \<Longrightarrow> dget st sk = Some b \<Longrightarrow> bucket_ok b"
  by (auto simp: table_ok_def dest!: dget_in_set)

lemma dget_in_dkeys: "dget d k = Some v \<Longrightarrow> k \<in> set (dkeys d)"
  by (auto dest: dget_in_set simp: image_iff intro: bexI [of _ "(k, v)"])

lemma table_ok_put: "table_ok st \<Longrightarrow> dget st sk = Some b0 \<Longrightarrow> bucket_ok b \<Longrightarrow> table_ok (dset sk b st)"
  by (intro table_ok_dset disjI1 dget_in_dkeys)

lemma table_ok_dpop: "table_ok st \<Longrightarrow> table_ok (dpop sk st)"
  using set_dpop [of sk st] length_dpop_le [of sk st] by (fastforce simp: table_ok_def)

lemma table_ok_open:
  assumes "table_ok st" and "open_session sk st = (b, st')"
  shows "table_ok st'" and "bucket_ok b" and "dget st' sk = Some b"
proof -
  let ?st = "if max_sessions \<le> length st \<and> sk \<notin> set (dkeys st) then tl st else st"
  have b: "table_ok ?st" using assms(1) by (cases st) (auto simp: table_ok_def)
  have room: "sk \<in> set (dkeys ?st) \<or> length ?st < max_sessions"
    using assms(1) by (cases st) (auto simp: table_ok_def max_sessions_def)
  have "bucket_ok []" by (simp add: bucket_ok_def)
  then have *: "table_ok (dset sk [] ?st)" using table_ok_dset [OF b _ room] by blast
  have "table_ok st' \<and> bucket_ok b \<and> dget st' sk = Some b"
  proof (cases "dget ?st sk")
    case None
    then show ?thesis using assms(2) * \<open>bucket_ok []\<close> by (auto simp: open_session_def Let_def split: if_splits)
  next
    case (Some b')
    then show ?thesis using assms(2) b table_ok_bucket [OF b Some]
      by (auto simp: open_session_def Let_def split: if_splits)
  qed
  then show "table_ok st'" and "bucket_ok b" and "dget st' sk = Some b" by simp_all
qed

lemma dwf_filter: "dwf b \<Longrightarrow> dwf (filter P b)"
  by (simp add: dwf_def distinct_map_filter)

lemma bucket_ok_sweep: "bucket_ok b \<Longrightarrow> bucket_ok (sweep_expired_inflight ttl now b)"
  unfolding bucket_ok_def sweep_expired_inflight_def by (meson dwf_filter length_filter_le le_trans)

lemma bucket_ok_prune: "dwf b \<Longrightarrow> bucket_ok (prune_session b)"
  by (simp add: bucket_ok_def prune_session_def last_n_def dwf_def flip: drop_map)

lemma bucket_ok_put: "bucket_ok b \<Longrightarrow> bucket_ok (prune_session (dset k v b))"
  by (intro bucket_ok_prune dwf_dset) (simp add: bucket_ok_def)

lemma bucket_ok_dpop: "bucket_ok b \<Longrightarrow> bucket_ok (dpop k b)"
  using length_dpop_le [of k b] by (simp add: bucket_ok_def)

lemma idem_step_ok: "table_ok st \<Longrightarrow> table_ok (idem_step env op st)"
proof (cases op)
  case (Reserve now sk i)
  assume b: "table_ok st"
  obtain bk st1 where o: "open_session (session_of sk) st = (bk, st1)" by fastforce
  note * = table_ok_open [OF b o]
  show ?thesis using b * table_ok_put [OF *(1,3)] bucket_ok_sweep [OF *(2)] bucket_ok_put
    by (simp add: Reserve check_and_reserve_inbound_def Let_def o split: sum.splits option.splits msg_status.splits)
next
  case (Complete now sk i)
  assume b: "table_ok st"
  then show ?thesis using table_ok_put [OF b] table_ok_bucket [OF b] bucket_ok_put bucket_ok_sweep
    by (simp add: Complete complete_inbound_def Let_def split: sum.splits option.splits)
next
  case (Release sk i)
  assume b: "table_ok st"
  then show ?thesis using table_ok_put [OF b] table_ok_bucket [OF b] bucket_ok_dpop
    by (simp add: Release release_inflight_def Let_def split: option.splits msg_status.splits)
next
  case (Reset sk)
  assume "table_ok st"
  moreover have "table_ok []" by (simp add: table_ok_def)
  ultimately show ?thesis by (simp add: Reset reset_session_def table_ok_dpop split: option.splits)
qed

lemma idem_steps_ok: "table_ok st \<Longrightarrow> table_ok (fold (idem_step env) ops st)"
  by (induction ops arbitrary: st) (simp_all add: idem_step_ok)

text \<open>
  the table of seen messages is well formed and bounded: after any sequence of
  reservations, completions, releases and resets there are at most 256 sessions with at most
  512 message ids each, and no id twice in a session.
\<close>

theorem seen_table_bounded: "table_ok (fold (idem_step env) ops [])"
  by (rule idem_steps_ok) (simp add: table_ok_def)

section \<open>The unbound name\<close>

text \<open>
  finding: the module does not bind the name its time-to-live lookup reads, so every
  reservation raises, and the phase of the pipeline, which runs best effort, neither rejects
  any message nor reserves any id: duplicates are never detected while the check is switched
  on.
\<close>

theorem duplicates_never_detected:
  assumes "external_id_dedupe_enabled env" and "inbound_id sk i \<noteq> []"
  shows "fst (check_and_reserve_inbound env now sk (inbound_id sk i) st) = Inl ''NameError'' \<and>
    fst (apply_idempotency env now sk i st) = (None, False, [])"
proof -
  have "strip (inbound_id sk i) = inbound_id sk i" by (simp add: inbound_id_def)
  with assms have "fst (check_and_reserve_inbound env now sk (inbound_id sk i) st) = Inl ''NameError''"
    by (simp add: check_and_reserve_inbound_def Let_def resolve_inflight_ttl_def module_ttl_default_def split: prod.splits)
  then show ?thesis by (auto simp: apply_idempotency_def Let_def split: prod.splits)
qed

section \<open>Concrete inputs\<close>

definition idem_demo :: idem_env where
  "idem_demo = \<lparr>ie_os = (\<lambda>_. None), ie_float = (\<lambda>_. None)\<rparr>"

theorem duplicates_never_detected_witness:
  "fst (apply_idempotency idem_demo 20 ''wechat:c1:_'' ''m1'' []) = (None, False, [])"
proof -
  have "external_id_dedupe_enabled idem_demo" by code_simp
  moreover have "inbound_id ''wechat:c1:_'' ''m1'' \<noteq> []" by code_simp
  ultimately show ?thesis
    using duplicates_never_detected [of idem_demo "''wechat:c1:_''" "''m1''" 20 "[]"] by simp
qed

end
