(* ===== verification/Text_Lines.thy ===== *)
theory Text_Lines
  imports Json_Values
begin

text \<open>Lines of text as \<open>str.splitlines\<close> finds them, and files written line by line.\<close>

text \<open>The characters \<open>str.splitlines\<close> breaks at; a carriage return with a line feed counts once.\<close>

definition line_breaks :: "nat list list" where
  "line_breaks = [[10], [11], [12], [13], [28], [29], [30], [194, 133], [226, 128, 168], [226, 128, 169]]"

definition is_break :: "string \<Rightarrow> bool" where
  "is_break u \<longleftrightarrow> map of_char u \<in> set line_breaks"

lemma is_break_char: "is_break [c] \<longleftrightarrow> (of_char c :: nat) \<in> {10, 11, 12, 13, 28, 29, 30}"
  by (simp add: is_break_def line_breaks_def)

lemma is_break_byte: "is_break [Char b0 b1 b2 b3 b4 b5 b6 b7] \<longleftrightarrow> \<not> b7 \<and> \<not> b6 \<and> \<not> b5 \<and> b3
     \<and> (if b4 then b2 \<and> \<not> (b1 \<and> b0) else if b2 then \<not> b1 else b1)"
  unfolding is_break_char
  by (cases b7; cases b6; cases b5; cases b4; cases b3; cases b2; cases b1; cases b0; simp)

lemma is_break_code [code]:
  "is_break [] = False"
  "is_break [Char b0 b1 b2 b3 b4 b5 b6 b7] \<longleftrightarrow> \<not> b7 \<and> \<not> b6 \<and> \<not> b5 \<and> b3
     \<and> (if b4 then b2 \<and> \<not> (b1 \<and> b0) else if b2 then \<not> b1 else b1)"
  "is_break (c # d # u) \<longleftrightarrow> map of_char (c # d # u) \<in> set (drop 7 line_breaks)"
  by (simp add: is_break_def line_breaks_def, rule is_break_byte, simp add: is_break_def line_breaks_def)

function split_chars :: "string list \<Rightarrow> string \<Rightarrow> string list" where
  "split_chars [] cur = (if cur = [] then [] else [cur])"
| "split_chars (c # cs) cur =
    (if c = bytes [13] \<and> cs \<noteq> [] \<and> hd cs = nl then cur # split_chars (tl cs) []
     else if is_break c then cur # split_chars cs []
     else split_chars cs (cur @ c))"
  by pat_completeness auto
termination by (relation "measure (length \<circ> fst)") auto

definition splitlines :: "string \<Rightarrow> string list" where
  "splitlines s = split_chars (cps s) []"

text \<open>\<open>"\n".join(lines) + "\n"\<close>.\<close>

definition write_lines :: "string list \<Rightarrow> string" where
  "write_lines ls = join nl ls @ nl"

section \<open>Reading back what was written\<close>

text \<open>A line the file keeps whole: no line boundary in it, starting with a lead byte.\<close>

definition one_line :: "string \<Rightarrow> bool" where
  "one_line s \<longleftrightarrow> lead_text s \<and> list_all (\<lambda>u. \<not> is_break u) (cps s)"

lemma is_break_nl: "is_break nl"
  by code_simp

lemma cr_break: "is_break (bytes [13])"
  by code_simp

lemma split_chars_line:
  "list_all (\<lambda>u. \<not> is_break u) us \<Longrightarrow> split_chars (us @ nl # cs) cur = (cur @ concat us) # split_chars cs []"
proof (induction us arbitrary: cur)
  case Nil
  have "nl \<noteq> bytes [13]" by code_simp
  then show ?case using is_break_nl by simp
next
  case (Cons u us)
  then have "u \<noteq> bytes [13]" using cr_break by auto
  with Cons show ?case by simp
qed

lemma lead_nl: "lead_text (nl @ s)"
  by (simp add: nl_def bytes_def lead_text_def is_cont_def)

lemma cps_nl: "lead_text s \<Longrightarrow> cps (nl @ s) = nl # cps s"
  using cps_ascii_cons [of "CHR 0x0A" s] by (simp add: nl_def bytes_def is_cont_def)

lemma lead_join: "list_all one_line ls \<Longrightarrow> lead_text (write_lines ls)"
proof (induction ls rule: induct_list012)
  case 1
  show ?case using lead_nl [of "[]"] by (simp add: write_lines_def)
next
  case (2 l)
  then show ?case using lead_nl [of "[]"] by (cases l) (auto simp: write_lines_def one_line_def)
next
  case (3 a b ls)
  then show ?case using lead_nl by (cases a) (auto simp: write_lines_def one_line_def)
qed

lemma splitlines_line:
  "one_line l \<Longrightarrow> lead_text s \<Longrightarrow> splitlines (l @ nl @ s) = l # splitlines s"
proof -
  assume l: "one_line l" and s: "lead_text s"
  have "cps (l @ nl @ s) = cps l @ nl # cps s"
    using cps_append [OF lead_nl [of s], of l] cps_nl [OF s] by simp
  moreover have "list_all (\<lambda>u. \<not> is_break u) (cps l)" using l by (simp add: one_line_def)
  ultimately show ?thesis by (simp add: splitlines_def split_chars_line)
qed

lemma splitlines_write: "list_all one_line ls \<Longrightarrow> ls \<noteq> [] \<Longrightarrow> splitlines (write_lines ls) = ls"
proof (induction ls rule: induct_list012)
  case (2 l)
  then show ?case using splitlines_line [of l "[]"] by (simp add: write_lines_def splitlines_def lead_text_def)
next
  case (3 a b ls)
  then have "splitlines (a @ nl @ write_lines (b # ls)) = a # splitlines (write_lines (b # ls))"
    by (intro splitlines_line lead_join) simp_all
  with 3 show ?case by (simp add: write_lines_def)
qed simp

lemma splitlines_last: "one_line l \<Longrightarrow> l \<noteq> [] \<Longrightarrow> splitlines l = [l]"
proof -
  assume l: "one_line l" "l \<noteq> []"
  have "split_chars us cur = (if concat us = [] \<and> cur = [] then [] else [cur @ concat us])"
    if "list_all (\<lambda>u. \<not> is_break u) us" for us cur
    using that
  proof (induction us arbitrary: cur)
    case (Cons u us)
    then have "u \<noteq> bytes [13]" using cr_break by auto
    with Cons show ?case by simp
  qed simp
  from this [of "cps l" "[]"] l show ?thesis by (simp add: splitlines_def one_line_def)
qed

lemma splitlines_join:
  "list_all one_line ls \<Longrightarrow> [] \<notin> set ls \<Longrightarrow> splitlines (join nl ls) = ls"
proof (induction ls rule: induct_list012)
  case 1
  show ?case by (simp add: splitlines_def)
next
  case (2 l)
  then show ?case using splitlines_last by auto
next
  case (3 a b ls)
  have "lead_text (join nl (b # ls))" using 3(3,4) by (cases ls; cases b) (auto simp: one_line_def)
  then have "splitlines (a @ nl @ join nl (b # ls)) = a # splitlines (join nl (b # ls))"
    using 3(3) by (intro splitlines_line) simp_all
  with 3 show ?case by simp
qed

text \<open>The lines of a text that starts with a lead byte.\<close>

lemma concat_chars_one_line:
  assumes "list_all (\<lambda>u. lead_char u \<and> \<not> is_break u) us"
  shows "one_line (concat us)"
proof -
  have "enc_list us" using assms by (cases us) (auto simp: enc_list_def lead_char_def list_all_iff)
  then have "cps (concat us) = us" by (rule cps_concat)
  moreover have "lead_text (concat us)"
    using assms by (cases us) (auto simp: lead_text_def lead_char_def enc_char_def)
  ultimately show ?thesis using assms by (simp add: one_line_def list_all_iff)
qed

lemma split_chars_lines:
  "list_all lead_char us \<Longrightarrow> list_all (\<lambda>u. lead_char u \<and> \<not> is_break u) vs \<Longrightarrow> list_all one_line (split_chars us (concat vs))"
proof (induction us "concat vs" arbitrary: vs rule: split_chars.induct)
  case 1
  then show ?case using concat_chars_one_line by simp
next
  case (2 c cs)
  have n: "list_all lead_char (tl cs)" using "2.prems"(1) by (cases cs) auto
  have "list_all one_line (split_chars (tl cs) (concat []))" if "c = bytes [13] \<and> cs \<noteq> [] \<and> hd cs = nl"
    using "2.hyps"(1) [OF that, of "[]"] n by simp
  moreover have "list_all one_line (split_chars cs (concat []))" if "\<not> (c = bytes [13] \<and> cs \<noteq> [] \<and> hd cs = nl)" "is_break c"
    using "2.hyps"(2) [OF that, of "[]"] "2.prems"(1) by simp
  moreover have "list_all one_line (split_chars cs (concat (vs @ [c])))"
    if "\<not> (c = bytes [13] \<and> cs \<noteq> [] \<and> hd cs = nl)" "\<not> is_break c"
    using "2.hyps"(3) [OF that, of "vs @ [c]"] "2.prems" that(2) by simp
  ultimately show ?case using concat_chars_one_line [OF "2.prems"(2)] by simp
qed

lemma splitlines_one_line: "lead_text s \<Longrightarrow> list_all one_line (splitlines s)"
proof (cases "s = []")
  case False
  assume "lead_text s"
  then have "list_all lead_char (cps s)" using False by (intro cps_leads) (auto simp: lead_text_def)
  from split_chars_lines [OF this, of "[]"] show ?thesis by (simp add: splitlines_def)
qed (simp add: splitlines_def)

end
