(* ===== verification/Push_Queue.thy ===== *)
theory Push_Queue
  imports Text_Lines
begin

text \<open>
  The queue of runtime messages that could not be pushed (\<open>runtime/push_queue.py\<close>): a file of
  JSON lines, rewritten by every operation.  The file is its text; \<open>splitlines\<close> is modelled
  with all of Python's line boundaries.  The \<open>json\<close> module, the sender
  (\<open>push_runtime_message\<close>) and the rate limit it leaves behind are parameters.
\<close>

section \<open>Rows\<close>

definition max_queue :: nat where "max_queue = 50"

record push_env =
  pq_loads :: "string \<Rightarrow> jval option"
  pq_dumps :: "jval \<Rightarrow> string"
  pq_sha256 :: "string \<Rightarrow> string"

definition dedupe_key :: "push_env \<Rightarrow> string \<Rightarrow> string \<Rightarrow> string \<Rightarrow> string" where
  "dedupe_key env title body chat_id = utake 24 (pq_sha256 env (title @ nl @ body @ nl @ chat_id))"

text \<open>The row of a message; \<open>ts\<close> is the clock reading as a JSON number.\<close>

definition push_row :: "push_env \<Rightarrow> jval \<Rightarrow> string \<Rightarrow> string \<Rightarrow> string \<Rightarrow> jval" where
  "push_row env ts title body chat_id = (let cid = strip chat_id in
     JObj [(''ts'', ts), (''title'', JStr (utake 200 title)), (''body'', JStr (utake 4000 body)),
           (''chat_id'', JStr cid), (''dedupe_key'', JStr (dedupe_key env (utake 200 title) (utake 4000 body) cid))])"

text \<open>The lines kept by a new message: those that parse and have another key.\<close>

fun keep_lines :: "push_env \<Rightarrow> string \<Rightarrow> string list \<Rightarrow> string + string list" where
  "keep_lines env key [] = Inr []"
| "keep_lines env key (l # ls) =
    (if strip l = [] then keep_lines env key ls
     else case pq_loads env l of
       None \<Rightarrow> keep_lines env key ls
     | Some (JObj old) \<Rightarrow>
         if str_field old ''dedupe_key'' [] = key then keep_lines env key ls
         else (case keep_lines env key ls of Inl exc \<Rightarrow> Inl exc | Inr ks \<Rightarrow> Inr (l # ks))
     | Some _ \<Rightarrow> Inl ''AttributeError'')"

definition trim_queue :: "string \<Rightarrow> string" where
  "trim_queue s = (let ls = splitlines s in
     if length ls \<le> max_queue then s else write_lines (last_n max_queue ls))"

definition enqueue_failed_push :: "push_env \<Rightarrow> jval \<Rightarrow> string \<Rightarrow> string \<Rightarrow> string \<Rightarrow> string option
    \<Rightarrow> string + string option" where
  "enqueue_failed_push env ts title body chat_id f = (let
       row = push_row env ts title body chat_id;
       key = dedupe_key env (utake 200 title) (utake 4000 body) (strip chat_id)
     in case (case f of None \<Rightarrow> Inr [] | Some s \<Rightarrow> keep_lines env key (splitlines s)) of
       Inl exc \<Rightarrow> Inl exc
     | Inr ks \<Rightarrow> Inr (Some (trim_queue (write_lines (ks @ [pq_dumps env row])))))"

definition nonblank_lines :: "string \<Rightarrow> string list" where
  "nonblank_lines s = filter (\<lambda>l. strip l \<noteq> []) (splitlines s)"

fun count_rows :: "push_env \<Rightarrow> string \<Rightarrow> string list \<Rightarrow> string + nat" where
  "count_rows env cid [] = Inr 0"
| "count_rows env cid (l # ls) = (case pq_loads env l of
       None \<Rightarrow> count_rows env cid ls
     | Some (JObj row) \<Rightarrow> (case count_rows env cid ls of
           Inl exc \<Rightarrow> Inl exc
         | Inr n \<Rightarrow> Inr (if strip (str_field row ''chat_id'' []) = cid then Suc n else n))
     | Some _ \<Rightarrow> Inl ''AttributeError'')"

definition count_pending_pushes :: "push_env \<Rightarrow> string \<Rightarrow> string option \<Rightarrow> string + nat" where
  "count_pending_pushes env chat_id f = (case f of
       None \<Rightarrow> Inr 0
     | Some s \<Rightarrow> if strip chat_id = [] then Inr (length (nonblank_lines s))
                 else count_rows env (strip chat_id) (nonblank_lines s))"

section \<open>Draining\<close>

text \<open>
  The sender on the state \<open>'w\<close> of the world, with whether the rate limit blocks a drain in it.
\<close>

type_synonym 'w sender = "'w \<Rightarrow> jval \<Rightarrow> jval \<Rightarrow> jval \<Rightarrow> bool \<times> 'w"

record drain_result =
  dr_sent :: "jval list"
  dr_failed :: nat
  dr_retry :: "jval list"

fun try_items :: "'w sender \<Rightarrow> ('w \<Rightarrow> bool) \<Rightarrow> jval list \<Rightarrow> 'w \<Rightarrow> (string + drain_result) \<times> 'w" where
  "try_items push blocked [] w = (Inr \<lparr>dr_sent = [], dr_failed = 0, dr_retry = []\<rparr>, w)"
| "try_items push blocked (item # items) w = (case item of
     JObj d \<Rightarrow> (case push w (jor (jget d ''title'') (JStr ''[Butler]'')) (jor (jget d ''body'') (JStr []))
                        (jor (jget d ''chat_id'') JNull) of
       (True, w') \<Rightarrow> (case try_items push blocked items w' of
           (Inl exc, w'') \<Rightarrow> (Inl exc, w'')
         | (Inr r, w'') \<Rightarrow> (Inr (r\<lparr>dr_sent := item # dr_sent r\<rparr>), w''))
     | (False, w') \<Rightarrow>
         if blocked w' then (Inr \<lparr>dr_sent = [], dr_failed = 1, dr_retry = item # items\<rparr>, w')
         else (case try_items push blocked items w' of
             (Inl exc, w'') \<Rightarrow> (Inl exc, w'')
           | (Inr r, w'') \<Rightarrow> (Inr (r\<lparr>dr_failed := Suc (dr_failed r), dr_retry := item # dr_retry r\<rparr>), w'')))
   | _ \<Rightarrow> (Inl ''AttributeError'', w))"

text \<open>\<open>xs[n:]\<close> for an integer \<open>n\<close>.\<close>

definition slice_from :: "int \<Rightarrow> 'a list \<Rightarrow> 'a list" where
  "slice_from n xs = drop (if 0 \<le> n then nat n else length xs - nat (- n)) xs"

fun load_rows :: "push_env \<Rightarrow> string list \<Rightarrow> string + jval list" where
  "load_rows env [] = Inr []"
| "load_rows env (l # ls) = (case pq_loads env l of
       None \<Rightarrow> Inl ''JSONDecodeError''
     | Some v \<Rightarrow> (case load_rows env ls of Inl exc \<Rightarrow> Inl exc | Inr vs \<Rightarrow> Inr (v # vs)))"

record drain_summary =
  ds_drained :: nat
  ds_remaining :: nat
  ds_sent :: nat
  ds_failed :: nat
  ds_skipped :: bool

text \<open>The summary, the file and the world afterwards; the file is untouched when it raises.\<close>

definition drain_push_queue :: "push_env \<Rightarrow> 'w sender \<Rightarrow> ('w \<Rightarrow> bool) \<Rightarrow> int \<Rightarrow> string option \<Rightarrow> 'w
    \<Rightarrow> (string + drain_summary) \<times> string option \<times> 'w" where
  "drain_push_queue env push blocked max_items f w = (let
       nothing = \<lparr>ds_drained = 0, ds_remaining = 0, ds_sent = 0, ds_failed = 0, ds_skipped = False\<rparr>
     in case f of
       None \<Rightarrow> (Inr nothing, f, w)
     | Some s \<Rightarrow>
       if nonblank_lines s = [] then (Inr nothing, f, w)
       else (case load_rows env (nonblank_lines s) of
         Inl exc \<Rightarrow> (Inl exc, f, w)
       | Inr rows \<Rightarrow>
         if blocked w
         then (Inr (nothing\<lparr>ds_remaining := length rows, ds_skipped := True\<rparr>), f, w)
         else let pending = rev rows;
                  to_try = take (nat (max 1 max_items)) pending;
                  tail = slice_from max_items pending
           in (case try_items push blocked to_try w of
             (Inl exc, w') \<Rightarrow> (Inl exc, f, w')
           | (Inr r, w') \<Rightarrow> (let rest = rev (dr_retry r @ tail) in
               (Inr \<lparr>ds_drained = length to_try, ds_remaining = length rest, ds_sent = length (dr_sent r),
                     ds_failed = dr_failed r, ds_skipped = False\<rparr>,
                (if rest = [] then None else Some (write_lines (map (pq_dumps env) rest))), w')))))"

section \<open>Reading back what was written\<close>

text \<open>The file that holds the given rows, one to a line.\<close>

definition file_of :: "push_env \<Rightarrow> jval list \<Rightarrow> string option" where
  "file_of env rows = (if rows = [] then None else Some (write_lines (map (pq_dumps env) rows)))"

text \<open>A row the \<open>json\<close> module writes to one line and reads back.\<close>

definition storable :: "push_env \<Rightarrow> jval \<Rightarrow> bool" where
  "storable env r \<longleftrightarrow> pq_loads env (pq_dumps env r) = Some r \<and> one_line (pq_dumps env r) \<and> strip (pq_dumps env r) \<noteq> []"

lemma storable_lines:
  assumes "\<And>r. r \<in> set rows \<Longrightarrow> storable env r" and "rows \<noteq> []"
  shows "nonblank_lines (write_lines (map (pq_dumps env) rows)) = map (pq_dumps env) rows"
    and "load_rows env (map (pq_dumps env) rows) = Inr rows"
proof -
  have "list_all one_line (map (pq_dumps env) rows)" using assms(1) by (auto simp: list_all_iff storable_def)
  then have "splitlines (write_lines (map (pq_dumps env) rows)) = map (pq_dumps env) rows"
    using assms(2) by (intro splitlines_write) simp_all
  moreover have "strip l \<noteq> []" if "l \<in> set (map (pq_dumps env) rows)" for l
    using that assms(1) by (auto simp: storable_def)
  ultimately show "nonblank_lines (write_lines (map (pq_dumps env) rows)) = map (pq_dumps env) rows"
    unfolding nonblank_lines_def by (simp add: filter_id_conv)
  show "load_rows env (map (pq_dumps env) rows) = Inr rows"
    using assms(1) by (induction rows) (auto simp: storable_def)
qed

lemma subseq_rev_mono: "subseq xs ys \<Longrightarrow> subseq (rev xs) (rev ys)"
proof (induction rule: list_emb.induct)
  case (list_emb_Cons xs ys y)
  then show ?case using subseq_rev_drop_many by simp
qed simp_all

lemma try_items_conserves:
  "try_items push blocked items w = (Inr r, w') \<Longrightarrow>
     mset (dr_sent r) + mset (dr_retry r) = mset items \<and> subseq (dr_retry r) items"
proof (induction items arbitrary: w r w')
  case (Cons item items)
  obtain d where item: "item = JObj d" using Cons.prems by (cases item) auto
  obtain ok w1 where p: "push w (jor (jget d ''title'') (JStr ''[Butler]'')) (jor (jget d ''body'') (JStr []))
      (jor (jget d ''chat_id'') JNull) = (ok, w1)" by fastforce
  obtain res w2 where t: "try_items push blocked items w1 = (res, w2)" by fastforce
  show ?case using Cons.prems t Cons.IH [of w1 _ w2]
    by (cases ok; cases "blocked w1"; cases res) (auto simp: item p)
qed simp

text \<open>
  draining loses and repeats nothing: on a file of storable rows, with a positive limit,
  a drain that returns leaves exactly the rows it did not send, in their order, whatever the
  sender answers and whenever the rate limit stops it; the summary counts both.
\<close>

theorem drain_conserves:
  assumes "\<forall>r \<in> set rows. storable env r" and "1 \<le> max_items"
    and "drain_push_queue env push blocked max_items (file_of env rows) w = (Inr s, f', w')"
  shows "\<exists>sent rest. mset sent + mset rest = mset rows \<and> subseq rest rows \<and>
    ds_sent s = length sent \<and> ds_remaining s = length rest \<and> f' = file_of env rest"
proof (cases "rows = []")
  case True
  with assms(3) show ?thesis by (intro exI [of _ "[]"]) (auto simp: drain_push_queue_def file_of_def Let_def)
next
  case False
  note lines = storable_lines [OF _ False, of env] 
  have l: "nonblank_lines (write_lines (map (pq_dumps env) rows)) = map (pq_dumps env) rows"
    "load_rows env (map (pq_dumps env) rows) = Inr rows" using lines assms(1) by blast+
  show ?thesis
  proof (cases "blocked w")
    case True
    with assms(3) False show ?thesis
      by (intro exI [of _ "[]"] exI [of _ rows]) (auto simp: drain_push_queue_def file_of_def Let_def l)
  next
    case nb: False
    let ?n = "nat (max 1 max_items)"
    obtain res w1 where t: "try_items push blocked (take ?n (rev rows)) w = (res, w1)" by fastforce
    then obtain r where r: "res = Inr r"
      using assms(3) False nb by (cases res) (auto simp: drain_push_queue_def file_of_def Let_def l)
    have tail: "slice_from max_items (rev rows) = drop ?n (rev rows)"
      using assms(2) by (simp add: slice_from_def max_def)
    define rest where "rest = rev (dr_retry r @ drop ?n (rev rows))"
    note c = try_items_conserves [OF t [unfolded r]]
    have "mset (dr_sent r) + mset rest = mset (take ?n (rev rows)) + mset (drop ?n (rev rows))"
      using c by (simp add: rest_def)
    also have "\<dots> = mset rows" by (metis append_take_drop_id mset_append mset_rev)
    finally have "mset (dr_sent r) + mset rest = mset rows" .
    moreover have "subseq (rev rest) (rev rows)"
      using c subseq_append [of "dr_retry r" "drop ?n (rev rows)" "take ?n (rev rows)"]
      by (simp add: rest_def)
    then have "subseq rest rows" using subseq_rev_mono by fastforce
    moreover have "ds_sent s = length (dr_sent r) \<and> ds_remaining s = length rest \<and> f' = file_of env rest"
      using assms(3) False nb t r tail
      by (auto simp: drain_push_queue_def file_of_def Let_def l rest_def)
    ultimately show ?thesis by blast
  qed
qed

section \<open>A limit that is not positive\<close>

text \<open>
  finding: with a limit of zero the newest row is tried and the whole queue is kept as
  well, so a row that was sent stays queued and is sent again by the next drain.
\<close>

theorem zero_limit_keeps_sent_row:
  assumes "\<forall>r \<in> set rows. storable env r" and "rows = older @ [JObj d]" and "\<not> blocked w"
    and "push w (jor (jget d ''title'') (JStr ''[Butler]'')) (jor (jget d ''body'') (JStr []))
      (jor (jget d ''chat_id'') JNull) = (True, w')"
  shows "drain_push_queue env push blocked 0 (file_of env rows) w =
    (Inr \<lparr>ds_drained = 1, ds_remaining = length rows, ds_sent = 1, ds_failed = 0, ds_skipped = False\<rparr>,
     file_of env rows, w')"
proof -
  have ne: "rows \<noteq> []" using assms(2) by simp
  have l: "nonblank_lines (write_lines (map (pq_dumps env) rows)) = map (pq_dumps env) rows"
    "load_rows env (map (pq_dumps env) rows) = Inr rows" using storable_lines [OF _ ne, of env] assms(1) by blast+
  have "take (nat (max 1 0)) (rev rows) = [JObj d]" "slice_from 0 (rev rows) = rev rows"
    using assms(2) by (simp_all add: slice_from_def)
  then show ?thesis using ne l assms(3,4) by (simp add: drain_push_queue_def file_of_def Let_def)
qed

section \<open>Line boundaries in the text of a message\<close>

lemma splitlines_two:
  assumes "one_line a" and "one_line b" and "a \<noteq> []" and "b \<noteq> []" and "is_break u" and "cps u = [u]" and "lead_text u"
  shows "splitlines (write_lines [a @ u @ b]) = [a, b]"
proof -
  have "lead_text (b @ nl)" using assms(2,4) by (cases b) (auto simp: one_line_def)
  then have b: "cps (u @ b @ nl) = u # cps b @ [nl]"
    using cps_append [of "b @ nl" u] cps_append [of nl b] cps_nl [of "[]"] assms(6) lead_nl [of "[]"]
    by (simp add: lead_text_def)
  have "lead_text (u @ b @ nl)" using assms(7,6) by (cases u) auto
  then have "cps (a @ u @ b @ nl) = cps a @ u # cps b @ [nl]" using cps_append [of "u @ b @ nl" a] b by simp
  moreover have "split_chars (us @ u # vs @ [nl]) cur = (cur @ concat us) # [concat vs]"
    if "list_all (\<lambda>u. \<not> is_break u) us" "list_all (\<lambda>u. \<not> is_break u) vs" "vs \<noteq> []" for us vs cur
    using that
  proof (induction us arbitrary: cur)
    case Nil
    have "hd (vs @ [nl]) \<noteq> nl" using Nil is_break_nl by (cases vs) auto
    then show ?case using Nil assms(5) split_chars_line [of vs "[]" "[]"] by simp
  next
    case (Cons v us)
    then have "v \<noteq> bytes [13]" using cr_break by auto
    with Cons show ?case by simp
  qed
  ultimately show ?thesis using assms(1,2,4) by (simp add: splitlines_def write_lines_def one_line_def)
qed

text \<open>
  finding: a message whose printed row holds one of the line boundaries that JSON leaves
  unescaped (U+0085, U+2028, U+2029) is stored over two lines; every later drain, in every
  state of the world, raises and leaves the file as it is, so nothing queued is sent any more.
\<close>

theorem separator_blocks_queue:
  assumes "pq_dumps env (push_row env ts title body chat_id) = a @ u @ b"
    and "u \<in> {bytes [194, 133], bytes [226, 128, 168], bytes [226, 128, 169]}"
    and "one_line a" and "one_line b" and "strip a \<noteq> []" and "b \<noteq> []"
    and "pq_loads env a = None"
    and "enqueue_failed_push env ts title body chat_id None = Inr f"
  shows "drain_push_queue env push blocked max_items f w = (Inl ''JSONDecodeError'', f, w)"
proof -
  have u: "is_break u \<and> cps u = [u] \<and> lead_text u"
  proof -
    have "list_all (\<lambda>u. is_break u \<and> cps u = [u] \<and> lead_text u)
        [bytes [194, 133], bytes [226, 128, 168], bytes [226, 128, 169]]" by code_simp
    then show ?thesis using assms(2) by (auto simp: list_all_iff)
  qed
  have "a \<noteq> []" using assms(5) by auto
  then have lines: "splitlines (write_lines [a @ u @ b]) = [a, b]" using splitlines_two assms u by blast
  then have f: "f = Some (write_lines [a @ u @ b])"
    using assms(1,8) by (simp add: enqueue_failed_push_def Let_def trim_queue_def max_queue_def)
  have "nonblank_lines (write_lines [a @ u @ b]) = a # filter (\<lambda>l. strip l \<noteq> []) [b]"
    using assms(5) by (simp add: nonblank_lines_def lines)
  then show ?thesis using assms(7) by (simp add: f drain_push_queue_def Let_def)
qed

section \<open>Concrete inputs\<close>

definition demo_row :: "string \<Rightarrow> jval" where
  "demo_row t = JObj [(''title'', JStr t), (''body'', JStr ''b'')]"

text \<open>A library that reads back the two rows it is given, and a sender that fails the second time.\<close>

definition demo_push :: push_env where
  "demo_push = \<lparr>pq_loads = (\<lambda>s. if s = pyrepr (demo_row ''t1'') then Some (demo_row ''t1'')
     else if s = pyrepr (demo_row ''t2'') then Some (demo_row ''t2'') else None),
   pq_dumps = pyrepr, pq_sha256 = (\<lambda>s. s)\<rparr>"

definition demo_sender :: "nat sender" where
  "demo_sender w t b c = (w = 0, Suc w)"

lemma demo_storable: "\<forall>r \<in> set [demo_row ''t1'', demo_row ''t2'']. storable demo_push r"
  by code_simp

theorem drain_conserves_witness:
  "\<exists>sent rest. mset sent + mset rest = mset [demo_row ''t1'', demo_row ''t2''] \<and>
     subseq rest [demo_row ''t1'', demo_row ''t2''] \<and> 1 = length sent \<and> 1 = length rest \<and>
     file_of demo_push [demo_row ''t1''] = file_of demo_push rest"
proof -
  have "drain_push_queue demo_push demo_sender (\<lambda>_. False) 3 (file_of demo_push [demo_row ''t1'', demo_row ''t2'']) 0 =
    (Inr \<lparr>ds_drained = 2, ds_remaining = 1, ds_sent = 1, ds_failed = 1, ds_skipped = False\<rparr>,
     file_of demo_push [demo_row ''t1''], 2)"
    by code_simp
  from drain_conserves [OF demo_storable _ this] show ?thesis by simp
qed

theorem zero_limit_keeps_sent_row_witness:
  "drain_push_queue demo_push demo_sender (\<lambda>_. False) 0 (file_of demo_push [demo_row ''t1'', demo_row ''t2'']) 0 =
    (Inr \<lparr>ds_drained = 1, ds_remaining = 2, ds_sent = 1, ds_failed = 0, ds_skipped = False\<rparr>,
     file_of demo_push [demo_row ''t1'', demo_row ''t2''], 1)"
  using zero_limit_keeps_sent_row [OF demo_storable, of "[demo_row ''t1'']" "[(''title'', JStr ''t2''), (''body'', JStr ''b'')]"
      "\<lambda>_. False" 0 demo_sender 1]
  by (simp add: demo_row_def demo_sender_def)

definition split_push :: push_env where
  "split_push = \<lparr>pq_loads = (\<lambda>_. None), pq_dumps = (\<lambda>r. case r of JObj d \<Rightarrow> pystr (jget d ''body'') | _ \<Rightarrow> []), pq_sha256 = (\<lambda>s. s)\<rparr>"

theorem separator_blocks_queue_witness:
  "drain_push_queue split_push demo_sender (\<lambda>_. False) 3
     (Some (write_lines [''one'' @ bytes [226, 128, 168] @ ''two''])) 0 =
   (Inl ''JSONDecodeError'', Some (write_lines [''one'' @ bytes [226, 128, 168] @ ''two'']), 0)"
proof (rule separator_blocks_queue)
  show "pq_dumps split_push (push_row split_push JNull ''t'' (''one'' @ bytes [226, 128, 168] @ ''two'') []) =
    ''one'' @ bytes [226, 128, 168] @ ''two''" by code_simp
  show "one_line ''one''" by code_simp
  show "one_line ''two''" by code_simp
  show "strip ''one'' \<noteq> []" by code_simp
  show "pq_loads split_push ''one'' = None" by (simp add: split_push_def)
  show "enqueue_failed_push split_push JNull ''t'' (''one'' @ bytes [226, 128, 168] @ ''two'') [] None =
    Inr (Some (write_lines [''one'' @ bytes [226, 128, 168] @ ''two'']))" by code_simp
qed simp_all

end
