(* ===== verification/Durable_Outbox.thy ===== *)
theory Durable_Outbox
  imports Json_Values
begin

text \<open>
  The outbox of gateway messages (\<open>resilience/durable_outbox.py\<close>): three directories of entries,
  pending, sent and failed.  Every writer holds the exclusive lock, so an operation is one step.
  A directory lists its entries by modification time, oldest first; no two have the same time.
  The entries are written by these operations only, so they parse.
\<close>

section \<open>State\<close>

datatype delivery_state = Pending | Sent | Failed

record outbox_row =
  ob_chat_id :: string
  ob_kind :: string
  ob_body :: string
  ob_status :: delivery_state
  ob_attempts :: nat
  ob_created_at :: secs
  ob_moved_at :: "secs option"
  ob_error :: string

type_synonym entry_dir = "(string, outbox_row) dict"

record outbox =
  ox_pending :: entry_dir
  ox_sent :: entry_dir
  ox_failed :: entry_dir

definition empty_outbox :: outbox where
  "empty_outbox = \<lparr>ox_pending = [], ox_sent = [], ox_failed = []\<rparr>"

definition durable_outbox_enabled :: "os_env \<Rightarrow> bool" where
  "durable_outbox_enabled os = env_truthy os ''BUTLER_GATEWAY_DURABLE_OUTBOX'' True"

definition durable_outbox_max_entries :: "os_env \<Rightarrow> nat" where
  "durable_outbox_max_entries os = (case os ''BUTLER_GATEWAY_DURABLE_OUTBOX_MAX'' of
       None \<Rightarrow> 200
     | Some raw \<Rightarrow> if strip raw = [] then 200
         else (case int_of_text (strip raw) of Some n \<Rightarrow> nat (max 10 n) | None \<Rightarrow> 200))"

text \<open>A file written now is the newest of its directory.\<close>

definition write_entry :: "string \<Rightarrow> outbox_row \<Rightarrow> entry_dir \<Rightarrow> entry_dir" where
  "write_entry i row d = dpop i d @ [(i, row)]"

definition trim_state_dir :: "os_env \<Rightarrow> entry_dir \<Rightarrow> entry_dir" where
  "trim_state_dir os d = last_n (durable_outbox_max_entries os) d"

section \<open>Operations\<close>

text \<open>\<open>entry_id\<close> is the identifier \<open>uuid4\<close> yields.\<close>

definition enqueue_outbox_message :: "os_env \<Rightarrow> secs \<Rightarrow> string \<Rightarrow> string \<Rightarrow> string \<Rightarrow> string \<Rightarrow> outbox
    \<Rightarrow> string \<times> outbox" where
  "enqueue_outbox_message os now entry_id chat_id body kind st =
    (if \<not> durable_outbox_enabled os then ([], st)
     else (entry_id, st\<lparr>ox_pending := trim_state_dir os (write_entry entry_id
       \<lparr>ob_chat_id = strip chat_id, ob_kind = strip (str_or kind ''completion''), ob_body = utake 4000 body,
        ob_status = Pending, ob_attempts = 0, ob_created_at = now, ob_moved_at = None, ob_error = []\<rparr>
       (ox_pending st))\<rparr>))"

definition transition_outbox_entry :: "os_env \<Rightarrow> secs \<Rightarrow> string \<Rightarrow> bool \<Rightarrow> string \<Rightarrow> outbox \<Rightarrow> bool \<times> outbox" where
  "transition_outbox_entry os now entry_id sent err st =
    (if entry_id = [] \<or> \<not> durable_outbox_enabled os then (False, st)
     else case dget (ox_pending st) entry_id of
       None \<Rightarrow> (False, st)
     | Some row \<Rightarrow> (let
           row' = row\<lparr>ob_attempts := Suc (ob_attempts row), ob_status := (if sent then Sent else Failed),
             ob_moved_at := Some now, ob_error := (if err = [] then ob_error row else utake 500 err)\<rparr>;
           st' = st\<lparr>ox_pending := dpop entry_id (ox_pending st)\<rparr>
         in (True, if sent then st'\<lparr>ox_sent := trim_state_dir os (write_entry entry_id row' (ox_sent st))\<rparr>
                   else st'\<lparr>ox_failed := trim_state_dir os (write_entry entry_id row' (ox_failed st))\<rparr>)))"

definition mark_outbox_sent :: "os_env \<Rightarrow> secs \<Rightarrow> string \<Rightarrow> outbox \<Rightarrow> bool \<times> outbox" where
  "mark_outbox_sent os now entry_id st = transition_outbox_entry os now entry_id True [] st"

definition mark_outbox_failed :: "os_env \<Rightarrow> secs \<Rightarrow> string \<Rightarrow> string \<Rightarrow> outbox \<Rightarrow> bool \<times> outbox" where
  "mark_outbox_failed os now entry_id err st = transition_outbox_entry os now entry_id False err st"

definition list_pending_outbox :: "os_env \<Rightarrow> outbox \<Rightarrow> outbox_row list" where
  "list_pending_outbox os st = (if durable_outbox_enabled os then map snd (ox_pending st) else [])"

definition count_dir :: "string \<Rightarrow> entry_dir \<Rightarrow> nat" where
  "count_dir cid d = length (filter (\<lambda>(i, row). cid = [] \<or> strip (ob_chat_id row) = cid) d)"

definition outbox_counts :: "string \<Rightarrow> outbox \<Rightarrow> nat \<times> nat \<times> nat" where
  "outbox_counts chat_id st = (let cid = strip chat_id in
     (count_dir cid (ox_pending st), count_dir cid (ox_sent st), count_dir cid (ox_failed st)))"

section \<open>Runs\<close>

datatype outbox_op =
    Enqueue secs string string string string
  | Mark_Sent secs string
  | Mark_Failed secs string string

text \<open>A run logs the identifiers whose transition answered true.\<close>

fun outbox_step :: "os_env \<Rightarrow> outbox_op \<Rightarrow> string list \<times> outbox \<Rightarrow> string list \<times> outbox" where
  "outbox_step os (Enqueue now i chat body kind) (tr, st) = (tr, snd (enqueue_outbox_message os now i chat body kind st))"
| "outbox_step os (Mark_Sent now i) (tr, st) = (case mark_outbox_sent os now i st of
     (ok, st') \<Rightarrow> (if ok then tr @ [i] else tr, st'))"
| "outbox_step os (Mark_Failed now i err) (tr, st) = (case mark_outbox_failed os now i err st of
     (ok, st') \<Rightarrow> (if ok then tr @ [i] else tr, st'))"

definition run_outbox :: "os_env \<Rightarrow> outbox_op list \<Rightarrow> string list \<times> outbox" where
  "run_outbox os ops = fold (outbox_step os) ops ([], empty_outbox)"

fun enqueues :: "string \<Rightarrow> outbox_op \<Rightarrow> bool" where
  "enqueues i (Enqueue now j chat body kind) \<longleftrightarrow> j = i"
| "enqueues i _ \<longleftrightarrow> False"

fun_cases enqueuesE: "enqueues i op"

lemma set_last_n_keys: "k \<in> set (dkeys (last_n n d)) \<Longrightarrow> k \<in> set (dkeys d)"
  by (auto simp: last_n_def dest: in_set_dropD)

lemma set_dpop_keys [simp]: "fst ` set (dpop k d) = fst ` set d - {k}"
  using arg_cong [OF dkeys_dpop [of k d], of set] by auto

lemma pending_after_transition:
  assumes "transition_outbox_entry os now j sent err st = (ok, st')"
  shows "i \<in> set (dkeys (ox_pending st')) \<Longrightarrow> i \<in> set (dkeys (ox_pending st)) \<and> (ok \<longrightarrow> i \<noteq> j)"
    and "ok \<Longrightarrow> j \<in> set (dkeys (ox_pending st)) \<and> j \<notin> set (dkeys (ox_pending st'))"
  using assms by (auto simp: transition_outbox_entry_def Let_def AList.delete_eq split: if_splits option.splits
      dest: dget_in_set intro: rev_image_eqI)

lemma pending_after_enqueue:
  "i \<in> set (dkeys (ox_pending (snd (enqueue_outbox_message os now j chat body kind st)))) \<Longrightarrow>
     i \<in> set (dkeys (ox_pending st)) \<or> i = j"
  by (auto simp: enqueue_outbox_message_def trim_state_dir_def write_entry_def AList.delete_eq
      dest!: set_last_n_keys [simplified] split: if_splits)

text \<open>Transitions of an entry so far, and its pending file, each stem from an enqueue of their own.\<close>

definition within_enqueues :: "string \<Rightarrow> outbox_op list \<Rightarrow> string list \<times> outbox \<Rightarrow> bool" where
  "within_enqueues i ops s \<longleftrightarrow>
     count_list (fst s) i + (if i \<in> set (dkeys (ox_pending (snd s))) then 1 else 0) \<le> length (filter (enqueues i) ops)"

lemma within_enqueues_transition:
  assumes "within_enqueues i ops (tr, st)" and "transition_outbox_entry os now j sent err st = (ok, st')"
  shows "within_enqueues i ops (if ok then tr @ [j] else tr, st')"
  using assms(1) pending_after_transition [OF assms(2)]
  by (cases ok; cases "i = j") (auto simp: within_enqueues_def split: if_splits)

lemma within_enqueues_step:
  "within_enqueues i ops s \<Longrightarrow> within_enqueues i (ops @ [op]) (outbox_step os op s)"
proof (cases op)
  case (Enqueue now j chat body kind)
  assume "within_enqueues i ops s"
  then show ?thesis using pending_after_enqueue [of i os now j chat body kind "snd s"]
    by (cases s) (auto simp: Enqueue within_enqueues_def split: if_splits)
next
  case (Mark_Sent now j)
  assume w: "within_enqueues i ops s"
  obtain ok st' where t: "mark_outbox_sent os now j (snd s) = (ok, st')" by fastforce
  show ?thesis using within_enqueues_transition [OF _ t [unfolded mark_outbox_sent_def], of i ops "fst s"] w t
    by (cases s) (auto simp: Mark_Sent within_enqueues_def split: if_splits)
next
  case (Mark_Failed now j err)
  assume w: "within_enqueues i ops s"
  obtain ok st' where t: "mark_outbox_failed os now j err (snd s) = (ok, st')" by fastforce
  show ?thesis using within_enqueues_transition [OF _ t [unfolded mark_outbox_failed_def], of i ops "fst s"] w t
    by (cases s) (auto simp: Mark_Failed within_enqueues_def split: if_splits)
qed

lemma run_within_enqueues: "within_enqueues i ops (run_outbox os ops)"
proof (induction ops rule: rev_induct)
  case Nil
  show ?case by (simp add: run_outbox_def within_enqueues_def empty_outbox_def)
next
  case (snoc op ops)
  then show ?case using within_enqueues_step by (simp add: run_outbox_def)
qed

text \<open>
  an entry leaves the outbox once: in every run, in whatever order and however often
  entries are marked sent or failed, an identifier that was enqueued once is reported as moved
  at most once, and while it is pending it has not been reported.
\<close>

theorem outbox_moves_once:
  assumes "length (filter (enqueues i) ops) = 1" and "run_outbox os ops = (tr, st)"
  shows "count_list tr i \<le> 1 \<and> (i \<in> set (dkeys (ox_pending st)) \<longrightarrow> i \<notin> set tr)"
  using run_within_enqueues [of i ops os] assms
  by (auto simp: within_enqueues_def count_list_0_iff split: if_splits)

text \<open>
  the outbox is bounded: after any run each directory holds at most the configured number
  of entries, and that number is at least ten.
\<close>

theorem outbox_bounded:
  "(case snd (run_outbox os ops) of st \<Rightarrow>
     length (ox_pending st) \<le> durable_outbox_max_entries os \<and> length (ox_sent st) \<le> durable_outbox_max_entries os \<and>
     length (ox_failed st) \<le> durable_outbox_max_entries os) \<and> 10 \<le> durable_outbox_max_entries os"
proof
  have "length (dpop k d) \<le> n" if "length d \<le> n" for k and d :: entry_dir and n
    using that length_dpop_le [of k d] by simp
  then show "case snd (run_outbox os ops) of st \<Rightarrow>
     length (ox_pending st) \<le> durable_outbox_max_entries os \<and> length (ox_sent st) \<le> durable_outbox_max_entries os \<and>
     length (ox_failed st) \<le> durable_outbox_max_entries os"
  proof (induction ops rule: rev_induct)
    case (snoc op ops)
    then show ?case
      by (cases op; cases "run_outbox os ops")
        (auto simp: run_outbox_def enqueue_outbox_message_def mark_outbox_sent_def mark_outbox_failed_def
          transition_outbox_entry_def trim_state_dir_def Let_def split: option.splits if_splits prod.splits)
  qed (simp add: run_outbox_def empty_outbox_def)
  show "10 \<le> durable_outbox_max_entries os"
    by (auto simp: durable_outbox_max_entries_def le_nat_iff split: option.splits)
qed

section \<open>Concrete inputs\<close>

theorem outbox_moves_once_witness:
  "count_list (fst (run_outbox (\<lambda>_. None) [Enqueue 1 ''e1'' ''c'' ''hi'' ''completion'', Mark_Failed 2 ''e1'' ''x'',
     Mark_Sent 3 ''e1''])) ''e1'' \<le> 1"
proof -
  let ?ops = "[Enqueue 1 ''e1'' ''c'' ''hi'' ''completion'', Mark_Failed 2 ''e1'' ''x'', Mark_Sent 3 ''e1'']"
  have "length (filter (enqueues ''e1'') ?ops) = 1" by simp
  from outbox_moves_once [OF this prod.collapse [symmetric]] show ?thesis by blast
qed

end
