(* ===== verification/Saga.thy ===== *)
theory Saga
  imports Json_Values
begin

text \<open>
  Sagas (\<open>core/events/saga.py\<close>): steps run in order, and when one fails the steps that were
  completed are compensated in reverse.  Actions and compensations are functions on the shared
  context, which they may change whatever they answer.
\<close>

section \<open>Data\<close>

text \<open>The context is a dictionary of values.\<close>

type_synonym 'x saga_context = "(string, 'x) dict"

definition ctx_get :: "string \<Rightarrow> 'x \<Rightarrow> 'x saga_context \<Rightarrow> 'x" where
  "ctx_get k d c = (case dget c k of Some v \<Rightarrow> v | None \<Rightarrow> d)"

definition ctx_set :: "string \<Rightarrow> 'x \<Rightarrow> 'x saga_context \<Rightarrow> 'x saga_context" where
  "ctx_set k v c = dset k v c"

definition ctx_update :: "(string, 'x) dict \<Rightarrow> 'x saga_context \<Rightarrow> 'x saga_context" where
  "ctx_update d c = fold (\<lambda>(k, v). dset k v) d c"

definition ctx_contains :: "string \<Rightarrow> 'x saga_context \<Rightarrow> bool" where
  "ctx_contains k c \<longleftrightarrow> dget c k \<noteq> None"

text \<open>What an action does: it answers a result, a plain value, or it raises.\<close>

datatype 'v answer = Result_Ok 'v | Result_Err string | Plain 'v | Raises string

text \<open>A compensation answers whether it returned; one that raises is logged.\<close>

record ('c, 'v) saga_step =
  ss_name :: string
  ss_action :: "'c \<Rightarrow> 'v answer \<times> 'c"
  ss_compensate :: "('c \<Rightarrow> 'v \<Rightarrow> bool \<times> 'c) option"
  ss_compensate_on :: "string list"
  ss_timeout :: "secs option"

text \<open>
  The types of exceptions and the timeout of a step are fields of the class that no method reads; these are
  their defaults.
\<close>

definition default_step :: "('c, 'v) saga_step \<Rightarrow> bool" where
  "default_step s \<longleftrightarrow> ss_compensate_on s = [''Exception''] \<and> ss_timeout s = None"

definition execute_step :: "('c, 'v) saga_step \<Rightarrow> 'c \<Rightarrow> (string + 'v) \<times> 'c" where
  "execute_step s c = (case ss_action s c of (a, c') \<Rightarrow> (case a of
       Result_Ok v \<Rightarrow> Inr v | Result_Err e \<Rightarrow> Inl e | Plain v \<Rightarrow> Inr v | Raises e \<Rightarrow> Inl e, c'))"

definition compensate_step :: "('c, 'v) saga_step \<Rightarrow> 'v \<Rightarrow> 'c \<Rightarrow> 'c" where
  "compensate_step s v c = (case ss_compensate s of None \<Rightarrow> c | Some f \<Rightarrow> snd (f c v))"

section \<open>The orchestrator\<close>

record ('c, 'v) orchestrator =
  so_steps :: "('c, 'v) saga_step list"
  so_completed :: "(('c, 'v) saga_step \<times> 'v) list"

definition build_saga :: "('c, 'v) saga_step list \<Rightarrow> ('c, 'v) orchestrator" where
  "build_saga steps = \<lparr>so_steps = steps, so_completed = []\<rparr>"

definition compensate_all :: "(('c, 'v) saga_step \<times> 'v) list \<Rightarrow> 'c \<Rightarrow> 'c" where
  "compensate_all completed c = fold (\<lambda>(s, v). compensate_step s v) (rev completed) c"

fun run_saga :: "('c, 'v) saga_step list \<Rightarrow> (('c, 'v) saga_step \<times> 'v) list \<Rightarrow> 'c
    \<Rightarrow> (string + 'v option) \<times> (('c, 'v) saga_step \<times> 'v) list \<times> 'c" where
  "run_saga [] completed c =
     (Inr (if completed = [] then None else Some (snd (last completed))), completed, c)"
| "run_saga (s # steps) completed c = (case execute_step s c of
       (Inr v, c') \<Rightarrow> run_saga steps (completed @ [(s, v)]) c'
     | (Inl e, c') \<Rightarrow> (Inl e, completed, compensate_all completed c'))"

definition execute :: "('c, 'v) orchestrator \<Rightarrow> 'c \<Rightarrow> (string + 'v option) \<times> ('c, 'v) orchestrator \<times> 'c" where
  "execute orch c = (case run_saga (so_steps orch) [] c of
     (r, completed, c') \<Rightarrow> (r, orch\<lparr>so_completed := completed\<rparr>, c'))"

definition completed_count :: "('c, 'v) orchestrator \<Rightarrow> nat" where
  "completed_count orch = length (so_completed orch)"

definition has_failure :: "('c, 'v) orchestrator \<Rightarrow> bool" where
  "has_failure orch \<longleftrightarrow> length (so_completed orch) < length (so_steps orch)"

section \<open>What a saga does\<close>

text \<open>The steps complete from a context with these values and leave this context.\<close>

inductive completes :: "('c, 'v) saga_step list \<Rightarrow> 'c \<Rightarrow> 'v list \<Rightarrow> 'c \<Rightarrow> bool" where
  completes_Nil: "completes [] c [] c"
| completes_Cons: "execute_step s c = (Inr v, c1) \<Longrightarrow> completes ss c1 vs c2 \<Longrightarrow> completes (s # ss) c (v # vs) c2"

inductive_cases completes_ConsE: "completes (s # ss) c vs c2"
inductive_simps completes_Nil_iff [simp]: "completes [] c vs c2"

text \<open>The first failing step, after the steps before it completed.\<close>

definition fails_at :: "('c, 'v) saga_step list \<Rightarrow> 'c \<Rightarrow> ('c, 'v) saga_step list \<Rightarrow> 'v list \<Rightarrow> string \<Rightarrow> 'c \<Rightarrow> bool" where
  "fails_at steps c before vs e c2 \<longleftrightarrow> (\<exists>bad rest c1. steps = before @ bad # rest \<and> completes before c vs c1 \<and>
     execute_step bad c1 = (Inl e, c2))"

lemma compensate_all_foldr: "compensate_all completed c = foldr (\<lambda>(s, v). compensate_step s v) completed c"
  by (simp add: compensate_all_def foldr_conv_fold)

lemma run_saga_completes:
  "completes steps c vs c' \<Longrightarrow> run_saga steps acc c =
     (Inr (if acc @ zip steps vs = [] then None else Some (snd (last (acc @ zip steps vs)))), acc @ zip steps vs, c')"
  by (induction arbitrary: acc rule: completes.induct) simp_all

lemma run_saga_fails:
  assumes "completes before c vs c1" and "execute_step bad c1 = (Inl e, c2)"
  shows "run_saga (before @ bad # rest) acc c = (Inl e, acc @ zip before vs, compensate_all (acc @ zip before vs) c2)"
  using assms by (induction arbitrary: acc rule: completes.induct) simp_all

lemma completes_or_fails:
  "(\<exists>vs c'. completes steps c vs c') \<or> (\<exists>before vs e c2. fails_at steps c before vs e c2)"
proof (induction steps arbitrary: c)
  case (Cons s steps)
  obtain r c1 where x: "execute_step s c = (r, c1)" by fastforce
  show ?case
  proof (cases r)
    case (Inl e)
    then have "fails_at (s # steps) c [] [] e c1" using x completes_Nil unfolding fails_at_def by fastforce
    then show ?thesis by blast
  next
    case (Inr v)
    note x = x [unfolded Inr]
    from Cons.IH [of c1] show ?thesis
    proof (elim disjE exE)
      fix vs c'
      assume "completes steps c1 vs c'"
      then show ?thesis using completes_Cons [OF x] by blast
    next
      fix before vs e c2
      assume "fails_at steps c1 before vs e c2"
      then obtain bad rest c3 where "steps = before @ bad # rest" "completes before c1 vs c3"
        "execute_step bad c3 = (Inl e, c2)" by (auto simp: fails_at_def)
      then have "fails_at (s # steps) c (s # before) (v # vs) e c2"
        using completes_Cons [OF x] unfolding fails_at_def by (metis append_Cons)
      then show ?thesis by blast
    qed
  qed
next
  case Nil
  show ?case by (intro disjI1 exI) (rule completes_Nil)
qed

lemma completes_length: "completes steps c vs c' \<Longrightarrow> length vs = length steps"
  by (induction rule: completes.induct) simp_all

text \<open>
  C39: Outcome of a saga whose steps leave \<open>compensate_on\<close> and \<open>timeout\<close> at their defaults, so that every
  exception is to trigger the compensation: either every step completed, the saga answers the value of the last
  one and reports no failure, or it answers the error of the first failing step, exactly the
  steps before it count as completed, and these are compensated in reverse order, each with
  its own value and whether or not others raise, starting from the context the failing step
  left.
\<close>

theorem saga_outcome:
  assumes "list_all default_step (so_steps orch)"
  shows "(\<exists>vs c'. completes (so_steps orch) c vs c' \<and>
      execute orch c = (Inr (if vs = [] then None else Some (last vs)),
        orch\<lparr>so_completed := zip (so_steps orch) vs\<rparr>, c') \<and>
      \<not> has_failure (fst (snd (execute orch c)))) \<or>
   (\<exists>before vs e c2. fails_at (so_steps orch) c before vs e c2 \<and>
      execute orch c = (Inl e, orch\<lparr>so_completed := zip before vs\<rparr>,
        foldr (\<lambda>(s, v). compensate_step s v) (zip before vs) c2) \<and>
      completed_count (fst (snd (execute orch c))) = length before \<and> has_failure (fst (snd (execute orch c))))"
proof (rule disjE [OF completes_or_fails [of "so_steps orch" c]])
  assume "\<exists>vs c'. completes (so_steps orch) c vs c'"
  then obtain vs c' where k: "completes (so_steps orch) c vs c'" by blast
  have len: "length vs = length (so_steps orch)" by (rule completes_length [OF k])
  then have "zip (so_steps orch) vs \<noteq> [] \<Longrightarrow> snd (last (zip (so_steps orch) vs)) = last vs"
    by (simp add: last_zip)
  moreover have "zip (so_steps orch) vs = [] \<longleftrightarrow> vs = []" using len by (cases vs; cases "so_steps orch") auto
  ultimately have "execute orch c = (Inr (if vs = [] then None else Some (last vs)),
      orch\<lparr>so_completed := zip (so_steps orch) vs\<rparr>, c')"
    using run_saga_completes [OF k, of "[]"] by (auto simp: execute_def)
  with k len show ?thesis by (intro disjI1 exI [of _ vs] exI [of _ c']) (simp add: has_failure_def)
next
  assume "\<exists>before vs e c2. fails_at (so_steps orch) c before vs e c2"
  then obtain before vs e c2 where f: "fails_at (so_steps orch) c before vs e c2" by blast
  then obtain bad rest c1 where p: "so_steps orch = before @ bad # rest" "completes before c vs c1"
    "execute_step bad c1 = (Inl e, c2)" by (auto simp: fails_at_def)
  have "execute orch c = (Inl e, orch\<lparr>so_completed := zip before vs\<rparr>,
      foldr (\<lambda>(s, v). compensate_step s v) (zip before vs) c2)"
    using run_saga_fails [OF p(2,3), of rest "[]"] by (simp add: execute_def p(1) compensate_all_foldr)
  with f p(1) completes_length [OF p(2)] show ?thesis
    by (intro disjI2 exI [of _ before] exI [of _ vs] exI [of _ e] exI [of _ c2])
      (simp add: has_failure_def completed_count_def)
qed

section \<open>Rollback\<close>

text \<open>The compensation of a step undoes its action, and an action that fails changes nothing.\<close>

definition undoable :: "('c, 'v) saga_step \<Rightarrow> bool" where
  "undoable s \<longleftrightarrow> (\<forall>c. case execute_step s c of
     (Inr v, c') \<Rightarrow> compensate_step s v c' = c | (Inl e, c') \<Rightarrow> c' = c)"

lemma compensate_completed:
  "completes steps c vs c' \<Longrightarrow> (\<And>s. s \<in> set steps \<Longrightarrow> undoable s) \<Longrightarrow> compensate_all (zip steps vs) c' = c"
proof (induction rule: completes.induct)
  case (completes_Cons s c v c1 ss vs c2)
  have "compensate_step s v c1 = c" using completes_Cons.hyps(1) completes_Cons.prems [of s]
    by (auto simp: undoable_def split: prod.splits sum.splits dest!: spec [of _ c])
  then show ?case using completes_Cons by (simp add: compensate_all_def)
qed (simp add: compensate_all_def)

text \<open>
  rollback: when every compensation undoes its action and a failing action changes
  nothing, a saga that answers an error leaves the context exactly as it found it.
\<close>

theorem saga_rolls_back:
  assumes "\<forall>s \<in> set (so_steps orch). undoable s" and "execute orch c = (Inl e, orch', c')"
  shows "c' = c"
proof -
  have "\<not> (\<exists>vs c'. completes (so_steps orch) c vs c')"
    using assms(2) run_saga_completes [of "so_steps orch" c _ _ "[]"] by (auto simp: execute_def)
  then obtain before vs e' c2 where "fails_at (so_steps orch) c before vs e' c2"
    using completes_or_fails [of "so_steps orch" c] by blast
  then obtain bad rest c1 where p: "so_steps orch = before @ bad # rest" "completes before c vs c1"
    "execute_step bad c1 = (Inl e', c2)" by (auto simp: fails_at_def)
  have "undoable bad" using assms(1) p(1) by simp
  then have "c2 = c1" using p(3) by (auto simp: undoable_def dest!: spec [of _ c1])
  moreover have "compensate_all (zip before vs) c1 = c"
    by (rule compensate_completed [OF p(2)]) (use assms(1) p(1) in simp)
  moreover have "c' = compensate_all (zip before vs) c2"
    using assms(2) run_saga_fails [OF p(2,3), of rest "[]"] by (simp add: execute_def p(1))
  ultimately show ?thesis by simp
qed

section \<open>Concrete inputs\<close>

text \<open>Steps on a counter: adding is undone by subtracting, and a guard fails above its limit.\<close>

definition add_step :: "int \<Rightarrow> (int, int) saga_step" where
  "add_step n = \<lparr>ss_name = ''add'', ss_action = (\<lambda>c. (Plain n, c + n)), ss_compensate = Some (\<lambda>c v. (True, c - v)),
     ss_compensate_on = [''Exception''], ss_timeout = None\<rparr>"

definition guard_step :: "int \<Rightarrow> (int, int) saga_step" where
  "guard_step n = \<lparr>ss_name = ''guard'', ss_action = (\<lambda>c. (if c \<le> n then Result_Ok c else Raises ''limit'', c)),
     ss_compensate = None, ss_compensate_on = [''Exception''], ss_timeout = None\<rparr>"

theorem saga_rolls_back_witness:
  "snd (snd (execute (build_saga [add_step 2, guard_step 10, add_step 7, guard_step 10]) 5)) = 5"
proof -
  let ?o = "build_saga [add_step 2, guard_step 10, add_step 7, guard_step 10]"
  have u: "\<forall>s \<in> set (so_steps ?o). undoable s"
    by (simp add: build_saga_def undoable_def execute_step_def compensate_step_def add_step_def guard_step_def)
  obtain orch' c' where "execute ?o 5 = (Inl ''limit'', orch', c')"
    by (simp add: build_saga_def execute_def execute_step_def add_step_def guard_step_def)
  from saga_rolls_back [OF u this] this show ?thesis by simp
qed

theorem saga_outcome_witness:
  "has_failure (fst (snd (execute (build_saga [add_step 2, guard_step 10, add_step 7, guard_step 10]) 5)))
   \<and> snd (snd (execute (build_saga [add_step 2, guard_step 10, add_step 7, guard_step 10]) 5)) = 5"
proof -
  let ?o = "build_saga [add_step 2, guard_step 10, add_step 7, guard_step 10]"
  have d: "list_all default_step (so_steps ?o)"
    by (simp add: build_saga_def default_step_def add_step_def guard_step_def)
  have x: "fst (execute ?o 5) = Inl ''limit''" "snd (snd (execute ?o 5)) = 5"
    by (simp_all add: build_saga_def execute_def execute_step_def compensate_all_def compensate_step_def
        add_step_def guard_step_def)
  from saga_outcome [OF d, of 5] x(1) have "has_failure (fst (snd (execute ?o 5)))" by auto
  with x(2) show ?thesis by simp
qed

end
