(* ===== verification/Schema_Sanitizer.thy ===== *)
theory Schema_Sanitizer
  imports Json_Values
begin

text \<open>
  The tool schemas sent to strict providers (\<open>transport/schema_sanitizer.py\<close>).

  \<^item> \<open>sanitize_node\<close> rewrites a schema bottom up: bare type names become schemas, lists of
    types become one type, objects get a \<open>properties\<close> table and lose \<open>required\<close> names they
    do not declare.
  \<^item> \<open>strip_nullable_unions\<close> replaces \<open>anyOf\<close>/\<open>oneOf\<close> unions of one branch and
    \<open>null\<close> by the branch.  Its result is sanitised again, so the recursion is not
    structural: \<open>strip_nu\<close> carries fuel, and \<open>jsize\<close> of the argument is enough.
  \<^item> \<open>sanitize_single_tool\<close> puts the two together, and \<open>strip_keywords\<close> is the walk that
    deletes \<open>pattern\<close> and \<open>format\<close> after a grammar error.

  Schemas are trees (\<open>jval\<close>), so the deep copies of the source and the in-place edits of
  fresh dictionaries are the values returned; the paths built for the debug log are left out.
\<close>

section \<open>Sanitising a node\<close>

definition schema_types :: "string list" where
  "schema_types = [''object'', ''string'', ''number'', ''integer'', ''boolean'', ''array'', ''null'']"

definition top_level_forbidden_keys :: "string list" where
  "top_level_forbidden_keys = [''allOf'', ''anyOf'', ''oneOf'', ''enum'', ''not'']"

definition empty_object_schema :: jval where
  "empty_object_schema = JObj [(''type'', JStr ''object''), (''properties'', JObj [])]"

text \<open>A bare string where a schema is expected.\<close>

definition bare_string_schema :: "string \<Rightarrow> jval" where
  "bare_string_schema s =
     (if s \<in> set schema_types
      then if s \<noteq> ''object'' then JObj [(''type'', JStr s)] else empty_object_schema
      else empty_object_schema)"

fun is_jstr :: "jval \<Rightarrow> bool" where
  "is_jstr (JStr _) = True"
| "is_jstr _ = False"

fun is_jobj :: "jval \<Rightarrow> bool" where
  "is_jobj (JObj _) = True"
| "is_jobj _ = False"

fun is_jlist :: "jval \<Rightarrow> bool" where
  "is_jlist (JList _) = True"
| "is_jlist _ = False"

text \<open>\<open>d.setdefault(k, v)\<close>.\<close>

definition set_default :: "string \<Rightarrow> jval \<Rightarrow> (string, jval) dict \<Rightarrow> (string, jval) dict" where
  "set_default k v d = (if dget d k = None then dset k v d else d)"

text \<open>\<open>"type": [...]\<close> becomes one type name.\<close>

definition put_type_list :: "bool \<Rightarrow> jval list \<Rightarrow> (string, jval) dict \<Rightarrow> (string, jval) dict" where
  "put_type_list hint value out = (
     let non_null = filter (\<lambda>t. t \<noteq> JStr ''null'') value in
     if length non_null = 1 \<and> is_jstr (hd non_null)
     then (let out = dset ''type'' (hd non_null) out in
       if hint \<and> JStr ''null'' \<in> set value then set_default ''nullable'' (JBool True) out else out)
     else (case find (\<lambda>t. is_jstr t \<and> t \<noteq> JStr ''null'') value of
         Some t \<Rightarrow> dset ''type'' (jor t (JStr ''object'')) out
       | None \<Rightarrow> dset ''type'' (JStr ''object'') out))"

text \<open>One turn of the loop over the items of a dictionary, given the sanitised value.\<close>

definition put_entry :: "bool \<Rightarrow> string \<times> jval \<times> jval \<Rightarrow> (string, jval) dict \<Rightarrow> (string, jval) dict" where
  "put_entry hint e out = (case e of (key, value, sanitised) \<Rightarrow>
     (case value of
         JList ts \<Rightarrow> if key = ''type'' then put_type_list hint ts out else dset key sanitised out
       | _ \<Rightarrow> dset key sanitised out))"

definition ensure_properties :: "(string, jval) dict \<Rightarrow> (string, jval) dict" where
  "ensure_properties out =
     (if jget out ''type'' = JStr ''object'' \<and> \<not> is_jobj (jget out ''properties'')
      then dset ''properties'' (JObj []) out else out)"

fun prop_names :: "jval \<Rightarrow> string list" where
  "prop_names (JObj m) = dkeys m"
| "prop_names _ = []"

definition declared :: "string list \<Rightarrow> jval \<Rightarrow> bool" where
  "declared names item = (case item of JStr s \<Rightarrow> s \<in> set names | _ \<Rightarrow> False)"

definition prune_required :: "(string, jval) dict \<Rightarrow> (string, jval) dict" where
  "prune_required out =
     (if jget out ''type'' = JStr ''object'' then
        (case jget out ''required'' of
           JList items \<Rightarrow>
             (let valid = filter (declared (prop_names (jget out ''properties''))) items in
              if valid \<noteq> [] then dset ''required'' (JList valid) out else dpop ''required'' out)
         | _ \<Rightarrow> out)
      else out)"

text \<open>The keys with tables of schemas, with literal values, and with one schema.\<close>

definition table_keys :: "string list" where
  "table_keys = [''properties'', ''$defs'', ''definitions'']"

definition literal_keys :: "string list" where
  "literal_keys = [''required'', ''enum'', ''examples'']"

definition item_keys :: "string list" where
  "item_keys = [''items'', ''additionalProperties'']"

fun sanitize_node :: "bool \<Rightarrow> jval \<Rightarrow> jval"
  and sanitize_value :: "bool \<Rightarrow> string \<Rightarrow> jval \<Rightarrow> jval" where
  "sanitize_node hint (JStr s) = bare_string_schema s"
| "sanitize_node hint (JList xs) = JList (map (sanitize_node hint) xs)"
| "sanitize_node hint (JObj kvs) =
     JObj (prune_required (ensure_properties
       (fold (put_entry hint) (map (\<lambda>(k, v). (k, v, sanitize_value hint k v)) kvs) [])))"
| "sanitize_node hint JNull = JNull"
| "sanitize_node hint (JBool b) = JBool b"
| "sanitize_node hint (JInt i) = JInt i"
| "sanitize_value hint k (JObj m) =
     (if k \<in> set table_keys
      then JObj (map (\<lambda>(k', v'). (k', sanitize_node hint v')) m)
      else if k \<in> set literal_keys then JObj m
      else sanitize_node hint (JObj m))"
| "sanitize_value hint k (JList xs) =
     (if k \<in> set literal_keys then JList xs
      else JList (map (sanitize_node hint) xs))"
| "sanitize_value hint k (JStr s) =
     (if k \<in> set item_keys then bare_string_schema s else JStr s)"
| "sanitize_value hint k JNull = JNull"
| "sanitize_value hint k (JBool b) = JBool b"
| "sanitize_value hint k (JInt i) = JInt i"

section \<open>Nullable unions\<close>

definition is_null_schema :: "jval \<Rightarrow> bool" where
  "is_null_schema v = (case v of JObj m \<Rightarrow> jget m ''type'' = JStr ''null'' | _ \<Rightarrow> False)"

text \<open>The single branch of a union of it and \<open>null\<close>.\<close>

definition nullable_branch :: "(string, jval) dict \<Rightarrow> string \<Rightarrow> jval option" where
  "nullable_branch stripped key = (case jget stripped key of
       JList variants \<Rightarrow>
         (let non_null = filter (\<lambda>v. \<not> is_null_schema v) variants in
          if length non_null = 1 \<and> length non_null \<noteq> length variants then Some (hd non_null) else None)
     | _ \<Rightarrow> None)"

definition meta_keys :: "string list" where
  "meta_keys = [''title'', ''description'', ''default'', ''examples'']"

definition copy_meta :: "(string, jval) dict \<Rightarrow> string \<Rightarrow> (string, jval) dict \<Rightarrow> (string, jval) dict" where
  "copy_meta stripped k r = (case dget stripped k of
       Some v \<Rightarrow> if dget r k = None then dset k v r else r
     | None \<Rightarrow> r)"

definition replacement_of :: "bool \<Rightarrow> (string, jval) dict \<Rightarrow> jval \<Rightarrow> jval" where
  "replacement_of hint stripped branch =
     (let r = (case branch of JObj m \<Rightarrow> m | _ \<Rightarrow> []);
          r = (if hint then set_default ''nullable'' (JBool True) r else r)
      in JObj (fold (copy_meta stripped) meta_keys r))"

definition union_replacement :: "bool \<Rightarrow> (string, jval) dict \<Rightarrow> jval option" where
  "union_replacement hint stripped = (case nullable_branch stripped ''anyOf'' of
       Some branch \<Rightarrow> Some (replacement_of hint stripped branch)
     | None \<Rightarrow> map_option (replacement_of hint stripped) (nullable_branch stripped ''oneOf''))"

fun strip_nu :: "nat \<Rightarrow> bool \<Rightarrow> jval \<Rightarrow> jval option" where
  "strip_nu 0 hint v = None"
| "strip_nu (Suc fuel) hint v = (case v of
       JList xs \<Rightarrow> map_option JList (those (map (strip_nu fuel hint) xs))
     | JObj kvs \<Rightarrow>
         (case those (map (\<lambda>(k, w). map_option (Pair k) (strip_nu fuel hint w)) kvs) of
            None \<Rightarrow> None
          | Some stripped \<Rightarrow>
              (case union_replacement hint stripped of
                 Some r \<Rightarrow> strip_nu fuel hint r
               | None \<Rightarrow> Some (JObj stripped)))
     | _ \<Rightarrow> Some v)"

text \<open>The number of values of a tree: the fuel that is always enough.\<close>

fun jsize :: "jval \<Rightarrow> nat" where
  "jsize (JList xs) = Suc (sum_list (map jsize xs))"
| "jsize (JObj kvs) = Suc (sum_list (map (\<lambda>(k, v). jsize v) kvs))"
| "jsize _ = 1"

definition strip_nullable_unions :: "bool \<Rightarrow> jval \<Rightarrow> jval" where
  "strip_nullable_unions hint v = (case strip_nu (jsize v) hint v of Some r \<Rightarrow> r | None \<Rightarrow> v)"

section \<open>A tool\<close>

definition strip_top_level_combinators :: "(string, jval) dict \<Rightarrow> (string, jval) dict" where
  "strip_top_level_combinators params = fold dpop top_level_forbidden_keys params"

text \<open>
  The parameters of a function after \<open>_sanitize_node\<close>; \<open>dict(params)\<close> of the last step is
  only reached with a dictionary.
\<close>

definition finish_top :: "bool \<Rightarrow> (string, jval) dict \<Rightarrow> jval" where
  "finish_top hint p =
     (let p = (if jget p ''type'' \<noteq> JStr ''object'' then dset ''type'' (JStr ''object'') p else p);
          p = (if \<not> is_jobj (jget p ''properties'') then dset ''properties'' (JObj []) p else p)
      in (case strip_nullable_unions hint (JObj p) of
            JObj m \<Rightarrow> JObj (strip_top_level_combinators m)
          | v \<Rightarrow> v))"

definition sanitize_parameters :: "bool \<Rightarrow> jval \<Rightarrow> jval" where
  "sanitize_parameters hint params = (case params of
       JObj m \<Rightarrow> (case sanitize_node hint (JObj m) of
           JObj p \<Rightarrow> finish_top hint p
         | _ \<Rightarrow> empty_object_schema)
     | _ \<Rightarrow> empty_object_schema)"

definition sanitize_single_tool :: "bool \<Rightarrow> jval \<Rightarrow> jval" where
  "sanitize_single_tool hint tool = (case tool of
       JObj out \<Rightarrow>
         (case jget out ''function'' of
            JObj fn \<Rightarrow>
              JObj (dset ''function''
                (JObj (dset ''parameters'' (sanitize_parameters hint (jget fn ''parameters'')) fn)) out)
          | _ \<Rightarrow> tool)
     | _ \<Rightarrow> tool)"

definition sanitize_tool_schemas :: "bool \<Rightarrow> jval list option \<Rightarrow> jval list option" where
  "sanitize_tool_schemas hint tools = map_option (map (sanitize_single_tool hint)) tools"

section \<open>Recovery from grammar errors\<close>

definition strip_on_recovery_keys :: "string list" where
  "strip_on_recovery_keys = [''pattern'', ''format'']"

definition is_schema_node :: "(string, 'a) dict \<Rightarrow> bool" where
  "is_schema_node kvs \<longleftrightarrow>
     (\<exists>k \<in> set [''type'', ''anyOf'', ''oneOf'', ''allOf'']. k \<in> set (dkeys kvs))"

text \<open>\<open>_walk\<close>: the value after the walk and the number of keywords it deleted.\<close>

definition recovery_drops :: "(string, 'a) dict \<Rightarrow> string \<Rightarrow> bool" where
  "recovery_drops kvs k \<longleftrightarrow> is_schema_node kvs \<and> k \<in> set strip_on_recovery_keys"

fun strip_keywords :: "jval \<Rightarrow> jval" where
  "strip_keywords (JObj kvs) =
     JObj (filter (\<lambda>(k, v). \<not> recovery_drops kvs k) (map (\<lambda>(k, v). (k, strip_keywords v)) kvs))"
| "strip_keywords (JList xs) = JList (map strip_keywords xs)"
| "strip_keywords v = v"

fun stripped_count :: "jval \<Rightarrow> nat" where
  "stripped_count (JObj kvs) =
     sum_list (map (\<lambda>(k, v). if recovery_drops kvs k then 1 else stripped_count v) kvs)"
| "stripped_count (JList xs) = sum_list (map stripped_count xs)"
| "stripped_count v = 0"

definition walk_tool :: "jval \<Rightarrow> jval \<times> nat" where
  "walk_tool tool = (case tool of
       JObj out \<Rightarrow>
         (case jget out ''function'' of
            JObj fn \<Rightarrow>
              (case jget fn ''parameters'' of
                 JObj params \<Rightarrow>
                   (JObj (dset ''function''
                      (JObj (dset ''parameters'' (strip_keywords (JObj params)) fn)) out),
                    stripped_count (JObj params))
               | _ \<Rightarrow> (tool, 0))
          | _ \<Rightarrow> (tool, 0))
     | _ \<Rightarrow> (tool, 0))"

definition strip_pattern_and_format :: "jval list option \<Rightarrow> jval list option \<times> nat" where
  "strip_pattern_and_format tools = (case tools of
       None \<Rightarrow> (None, 0)
     | Some ts \<Rightarrow> (Some (map (fst \<circ> walk_tool) ts), sum_list (map (snd \<circ> walk_tool) ts)))"

text \<open>The text of the error and of its \<open>body\<close>, when it has one.\<close>

definition is_schema_grammar_error :: "string \<Rightarrow> string option \<Rightarrow> bool" where
  "is_schema_grammar_error msg body = (
     let t = join '' '' (lower msg # (case body of Some b \<Rightarrow> [lower b] | None \<Rightarrow> []))
     in contains ''unable to generate parser'' t \<or> contains ''json schema conversion failed'' t
        \<or> contains ''json-schema-to-grammar'' t \<or> (contains ''grammar'' t \<and> contains ''schema'' t))"

end
