(* ===== verification/Schema_Sanitizer_Props.thy ===== *)
theory Schema_Sanitizer_Props
  imports Schema_Sanitizer
begin

text \<open>
  What the sanitised schemas look like: a typing of schema trees that every result of
  \<open>sanitize_node\<close> satisfies, termination and normal forms of \<open>strip_nullable_unions\<close>,
  the shape of a sanitised tool, and the recovery walk.
\<close>

section \<open>Well-formed schemas\<close>

text \<open>The entries a node looks at itself.\<close>

definition node_entries_ok :: "(string, jval) dict \<Rightarrow> bool" where
  "node_entries_ok kvs \<longleftrightarrow> \<not> is_jlist (jget kvs ''type'') \<and>
     (jget kvs ''type'' = JStr ''object'' \<longrightarrow> is_jobj (jget kvs ''properties'') \<and>
        (case jget kvs ''required'' of
           JList items \<Rightarrow> items \<noteq> [] \<and> list_all (declared (prop_names (jget kvs ''properties''))) items
         | _ \<Rightarrow> True))"

fun schema_ok :: "jval \<Rightarrow> bool"
  and entry_ok :: "string \<Rightarrow> jval \<Rightarrow> bool" where
  "schema_ok (JStr s) \<longleftrightarrow> False"
| "schema_ok (JList xs) \<longleftrightarrow> list_all schema_ok xs"
| "schema_ok (JObj kvs) \<longleftrightarrow> list_all (\<lambda>(k, v). entry_ok k v) kvs \<and> node_entries_ok kvs"
| "schema_ok _ \<longleftrightarrow> True"
| "entry_ok k (JObj m) \<longleftrightarrow>
     (if k \<in> set table_keys then list_all (\<lambda>(k', v'). schema_ok v') m
      else k \<in> set literal_keys \<or> schema_ok (JObj m))"
| "entry_ok k (JList xs) \<longleftrightarrow> k \<in> set literal_keys \<or> list_all schema_ok xs"
| "entry_ok k (JStr s) \<longleftrightarrow> k \<notin> set item_keys"
| "entry_ok k _ \<longleftrightarrow> True"

text \<open>What the loop over the items keeps of the dictionary it builds.\<close>

definition out_ok :: "(string, jval) dict \<Rightarrow> bool" where
  "out_ok out \<longleftrightarrow> (\<forall>(k, v) \<in> set out. entry_ok k v \<and> (k = ''type'' \<longrightarrow> \<not> is_jlist v))"

lemma out_ok_dset:
  "out_ok out \<Longrightarrow> entry_ok k v \<Longrightarrow> (k = ''type'' \<Longrightarrow> \<not> is_jlist v) \<Longrightarrow> out_ok (dset k v out)"
  unfolding out_ok_def by (auto dest!: set_dset)

lemma out_ok_dpop: "out_ok out \<Longrightarrow> out_ok (dpop k out)"
  unfolding out_ok_def using set_dpop [of k out] by blast

lemma out_ok_jget: "out_ok out \<Longrightarrow> \<not> is_jlist (jget out ''type'')"
  by (auto simp: out_ok_def jget_def dest!: dget_in_set split: option.splits)

lemma is_jstr_conv: "is_jstr v \<longleftrightarrow> (\<exists>s. v = JStr s)"
  by (cases v) auto

lemma is_jobj_conv: "is_jobj v \<longleftrightarrow> (\<exists>m. v = JObj m)"
  by (cases v) auto

lemma is_jlist_value [simp]: "is_jlist (sanitize_value hint k v) = is_jlist v"
  by (cases v) (auto simp: bare_string_schema_def empty_object_schema_def)

lemma key_classes [simp]:
  "''type'' \<notin> set item_keys" "''properties'' \<in> set table_keys" "''required'' \<in> set literal_keys"
  by (simp_all add: item_keys_def table_keys_def literal_keys_def)

lemma out_ok_type_list: "out_ok out \<Longrightarrow> out_ok (put_type_list hint ts out)"
proof -
  assume out: "out_ok out"
  have t: "out_ok (dset ''type'' (JStr s) out)" for s by (rule out_ok_dset [OF out]) auto
  have n: "out_ok (set_default ''nullable'' (JBool True) (dset ''type'' (JStr s) out))" for s
    unfolding set_default_def by (auto intro!: out_ok_dset t)
  show ?thesis
    unfolding put_type_list_def Let_def
    using t n by (auto simp: is_jstr_conv jor_def find_Some_iff split: option.splits)
qed

lemma out_ok_entry:
  "out_ok out \<Longrightarrow> entry_ok k v' \<Longrightarrow> is_jlist v' = is_jlist v \<Longrightarrow> out_ok (put_entry hint (k, v, v') out)"
  by (cases v) (auto simp: put_entry_def intro!: out_ok_dset out_ok_type_list)

lemma out_ok_fold:
  "(\<And>k v. (k, v) \<in> set kvs \<Longrightarrow> entry_ok k (sanitize_value hint k v)) \<Longrightarrow> out_ok out \<Longrightarrow>
     out_ok (fold (put_entry hint) (map (\<lambda>(k, v). (k, v, sanitize_value hint k v)) kvs) out)"
proof (induction kvs arbitrary: out)
  case (Cons p kvs)
  obtain k v where p: "p = (k, v)" by (cases p)
  have "out_ok (put_entry hint (k, v, sanitize_value hint k v) out)"
    using Cons.prems p by (intro out_ok_entry) auto
  with Cons p show ?case by auto
qed simp

lemma out_ok_ensure: "out_ok out \<Longrightarrow> out_ok (ensure_properties out)"
  by (auto simp: ensure_properties_def intro: out_ok_dset)

lemma ensure_properties_jobj:
  "jget (ensure_properties out) ''type'' = JStr ''object'' \<Longrightarrow>
     is_jobj (jget (ensure_properties out) ''properties'')"
  by (auto simp: ensure_properties_def split: if_splits)

lemma jget_dpop [simp]: "jget (dpop k d) k' = (if k' = k then JNull else jget d k')"
  by (simp add: jget_def)

lemma prune_required_ok:
  assumes "out_ok out" and "jget out ''type'' = JStr ''object'' \<Longrightarrow> is_jobj (jget out ''properties'')"
  shows "out_ok (prune_required out) \<and> node_entries_ok (prune_required out)"
proof -
  have t: "\<not> is_jlist (jget out ''type'')" by (rule out_ok_jget) (rule assms(1))
  have "out_ok (prune_required out)"
    using assms(1) by (auto simp: prune_required_def Let_def intro!: out_ok_dset out_ok_dpop split: jval.splits)
  moreover have "node_entries_ok (prune_required out)"
    using assms(2) t
    by (auto simp: prune_required_def node_entries_ok_def Let_def list_all_iff split: jval.splits)
  ultimately show ?thesis ..
qed

lemma schema_ok_obj: "out_ok kvs \<Longrightarrow> node_entries_ok kvs \<Longrightarrow> schema_ok (JObj kvs)"
  by (auto simp: out_ok_def list_all_iff)

lemma bare_string_ok: "schema_ok (bare_string_schema s)"
  by (auto simp: bare_string_schema_def empty_object_schema_def node_entries_ok_def)

lemma bare_string_jobj: "\<exists>m. bare_string_schema s = JObj m"
  by (auto simp: bare_string_schema_def empty_object_schema_def)

lemma schema_ok_entry: "schema_ok v \<Longrightarrow> k \<notin> set table_keys \<Longrightarrow> entry_ok k v"
  by (cases v) auto

lemma item_not_table: "k \<in> set item_keys \<Longrightarrow> k \<notin> set table_keys"
  by (auto simp: item_keys_def table_keys_def)

lemma sanitize_ok:
  "schema_ok (sanitize_node hint v)"
  "entry_ok k (sanitize_value hint k v)"
proof (induction hint v and hint k v rule: sanitize_node_sanitize_value.induct)
  case (3 hint kvs)
  let ?out = "fold (put_entry hint) (map (\<lambda>(k, v). (k, v, sanitize_value hint k v)) kvs) []"
  have "out_ok ?out" using 3 by (intro out_ok_fold) (auto simp: out_ok_def)
  from prune_required_ok [OF out_ok_ensure [OF this] ensure_properties_jobj]
  show ?case unfolding sanitize_node.simps by (intro schema_ok_obj) simp_all
next
  case (7 hint k m)
  then show ?case by (auto simp: list_all_iff simp del: sanitize_node.simps intro: schema_ok_entry)
next
  case (9 hint k s)
  show ?case
  proof (cases "k \<in> set item_keys")
    case True
    with schema_ok_entry [OF bare_string_ok item_not_table] show ?thesis by simp
  qed simp
qed (auto simp: bare_string_ok list_all_iff)

section \<open>Nullable unions\<close>

text \<open>A tree without a union of one branch and \<open>null\<close>.\<close>

fun union_free :: "jval \<Rightarrow> bool" where
  "union_free (JList xs) = list_all union_free xs"
| "union_free (JObj kvs) \<longleftrightarrow> list_all (\<lambda>(k, v). union_free v) kvs
     \<and> nullable_branch kvs ''anyOf'' = None \<and> nullable_branch kvs ''oneOf'' = None"
| "union_free _ = True"

lemma those_map_iff: "those (map f xs) = Some ys \<longleftrightarrow> list_all2 (\<lambda>x y. f x = Some y) xs ys"
  by (induction xs arbitrary: ys) (auto simp: list_all2_Cons1 split: option.splits)

lemma those_map_ex: "(\<And>x. x \<in> set xs \<Longrightarrow> \<exists>y. f x = Some y \<and> P x y) \<Longrightarrow>
    \<exists>ys. those (map f xs) = Some ys \<and> list_all2 P xs ys"
  by (induction xs) force+

abbreviation entry_strip :: "nat \<Rightarrow> bool \<Rightarrow> string \<times> jval \<Rightarrow> (string \<times> jval) option" where
  "entry_strip n hint \<equiv> \<lambda>(k, w). map_option (Pair k) (strip_nu n hint w)"

definition weight :: "(string, jval) dict \<Rightarrow> nat" where
  "weight kvs = sum_list (map (\<lambda>(k, v). jsize v) kvs)"

definition wt_at :: "(string, jval) dict \<Rightarrow> string \<Rightarrow> nat" where
  "wt_at kvs k = (case dget kvs k of Some v \<Rightarrow> jsize v | None \<Rightarrow> 0)"

lemma jsize_obj: "jsize (JObj kvs) = Suc (weight kvs)"
  by (simp add: weight_def)

lemma jsize_pos: "0 < jsize v"
  by (cases v) auto

lemma weight_dset: "weight (dset k v r) \<le> weight r + jsize v"
  by (induction r) (auto simp: weight_def)

lemma weight_keys: "distinct ks \<Longrightarrow> sum_list (map (wt_at kvs) ks) \<le> weight kvs"
proof (induction kvs arbitrary: ks)
  case Nil
  have "map (wt_at []) ks = map (\<lambda>_. 0) ks" by (simp add: wt_at_def)
  then show ?case by (simp only: sum_list_0)
next
  case (Cons p kvs)
  obtain k v where p: "p = (k, v)" by (cases p)
  have eq: "map (wt_at (p # kvs)) (remove1 k ks) = map (wt_at kvs) (remove1 k ks)"
    using Cons.prems by (auto simp: p wt_at_def)
  have "sum_list (map (wt_at (p # kvs)) ks) \<le> jsize v + sum_list (map (wt_at (p # kvs)) (remove1 k ks))"
  proof (cases "k \<in> set ks")
    case True
    from sum_list_map_remove1 [OF True, of "wt_at (p # kvs)"] show ?thesis
      by (simp add: p wt_at_def)
  qed (simp add: remove1_idem)
  also have "\<dots> \<le> jsize v + weight kvs"
    unfolding eq using Cons.IH [of "remove1 k ks"] Cons.prems by simp
  finally show ?case by (simp add: p weight_def)
qed

lemma weight_copy: "weight (copy_meta st k r) \<le> weight r + wt_at st k"
  using weight_dset [of k _ r] by (auto simp: copy_meta_def wt_at_def split: option.splits)

lemma weight_copies: "weight (fold (copy_meta st) ks r) \<le> weight r + sum_list (map (wt_at st) ks)"
proof (induction ks arbitrary: r)
  case (Cons k ks)
  show ?case using Cons.IH [of "copy_meta st k r"] weight_copy [of st k r] by simp
qed simp

lemma weight_default: "weight (set_default k (JBool b) r) \<le> Suc (weight r)"
  using weight_dset [of k "JBool b" r] by (auto simp: set_default_def)

lemma null_schema_size: "is_null_schema v \<Longrightarrow> 2 \<le> jsize v"
proof -
  assume "is_null_schema v"
  then obtain m where m: "v = JObj m" "jget m ''type'' = JStr ''null''"
    by (auto simp: is_null_schema_def split: jval.splits)
  have "wt_at m ''type'' \<le> weight m" using weight_keys [of "[''type'']" m] by simp
  then have "1 \<le> weight m" using m(2) by (auto simp: wt_at_def jget_def split: option.splits)
  then show ?thesis unfolding m(1) jsize_obj by simp
qed

lemma sum_list_split:
  "sum_list (map f xs) = sum_list (map f (filter P xs)) + (sum_list (map f (filter (\<lambda>x. \<not> P x) xs)) :: nat)"
  by (induction xs) auto

lemma nullable_branch_size:
  assumes "nullable_branch st key = Some b"
  shows "jsize b + 3 \<le> wt_at st key"
proof -
  obtain vs where vs: "jget st key = JList vs"
    and one: "length (filter (\<lambda>v. \<not> is_null_schema v) vs) = 1"
    and more: "length (filter (\<lambda>v. \<not> is_null_schema v) vs) \<noteq> length vs"
    and b: "b = hd (filter (\<lambda>v. \<not> is_null_schema v) vs)"
    using assms by (auto simp: nullable_branch_def Let_def split: jval.splits if_splits)
  from one b have f: "filter (\<lambda>v. \<not> is_null_schema v) vs = [b]"
    by (cases "filter (\<lambda>v. \<not> is_null_schema v) vs") auto
  obtain n where n: "n \<in> set vs" "is_null_schema n" using more by (metis filter_True)
  then have "n \<in> set (filter is_null_schema vs)" by simp
  then have "jsize n \<le> sum_list (map jsize (filter is_null_schema vs))"
    by (intro member_le_sum_list) auto
  with f null_schema_size [OF n(2)] have "jsize b + 2 \<le> sum_list (map jsize vs)"
    by (simp add: sum_list_split [where f = jsize and P = is_null_schema and xs = vs])
  with vs show ?thesis by (auto simp: wt_at_def jget_def split: option.splits)
qed

lemma replacement_smaller:
  assumes "nullable_branch st key = Some b" and "key \<notin> set meta_keys"
  shows "jsize (replacement_of hint st b) < jsize (JObj st)"
proof -
  define r where "r = (case b of JObj m \<Rightarrow> m | _ \<Rightarrow> [])"
  define r' where "r' = (if hint then set_default ''nullable'' (JBool True) r else r)"
  have "Suc (weight r) \<le> jsize b" by (auto simp: r_def weight_def split: jval.splits)
  moreover have "weight r' \<le> Suc (weight r)" by (auto simp: r'_def weight_default)
  moreover have "weight (fold (copy_meta st) meta_keys r') \<le> weight r' + sum_list (map (wt_at st) meta_keys)"
    by (rule weight_copies)
  moreover have "sum_list (map (wt_at st) (key # meta_keys)) \<le> weight st"
    using assms(2) by (intro weight_keys) (simp add: meta_keys_def)
  moreover have "jsize b + 3 \<le> wt_at st key" by (rule nullable_branch_size) (rule assms(1))
  moreover have "replacement_of hint st b = JObj (fold (copy_meta st) meta_keys r')"
    by (simp add: replacement_of_def r_def r'_def Let_def)
  ultimately show ?thesis by (simp add: jsize_obj del: jsize.simps)
qed

lemma union_keys: "''anyOf'' \<notin> set meta_keys" "''oneOf'' \<notin> set meta_keys"
  by (simp_all add: meta_keys_def)

lemma union_replacement_smaller:
  "union_replacement hint st = Some r \<Longrightarrow> jsize r < jsize (JObj st)"
  using replacement_smaller union_keys
  by (auto simp: union_replacement_def simp del: jsize.simps split: option.splits)

lemma union_replacement_None:
  "union_replacement hint st = None \<longleftrightarrow> nullable_branch st ''anyOf'' = None \<and> nullable_branch st ''oneOf'' = None"
  by (auto simp: union_replacement_def split: option.splits)

lemma sum_list_all2: "list_all2 (\<lambda>x y. f y \<le> (f x :: nat)) xs ys \<Longrightarrow> sum_list (map f ys) \<le> sum_list (map f xs)"
  by (induction rule: list_all2_induct) auto

lemma list_all2_right: "list_all2 (\<lambda>x y. R x y \<and> Q y) xs ys \<Longrightarrow> list_all2 R xs ys \<and> list_all Q ys"
  by (induction rule: list_all2_induct) auto

lemma strip_total:
  "jsize v \<le> n \<Longrightarrow> \<exists>r. strip_nu n hint v = Some r \<and> jsize r \<le> jsize v \<and> union_free r"
proof (induction n arbitrary: v)
  case 0
  then show ?case using jsize_pos [of v] by simp
next
  case (Suc n)
  show ?case
  proof (cases v)
    case (JList xs)
    have "\<exists>ys. those (map (strip_nu n hint) xs) = Some ys \<and> list_all2 (\<lambda>x y. jsize y \<le> jsize x \<and> union_free y) xs ys"
    proof (rule those_map_ex)
      fix x assume "x \<in> set xs"
      then have "jsize x \<le> sum_list (map jsize xs)" by (intro member_le_sum_list) auto
      then show "\<exists>y. strip_nu n hint x = Some y \<and> jsize y \<le> jsize x \<and> union_free y"
        using Suc.prems JList by (intro Suc.IH) simp
    qed
    then show ?thesis using JList by (auto dest!: list_all2_right sum_list_all2)
  next
    case (JObj kvs)
    have "\<exists>st. those (map (entry_strip n hint) kvs) = Some st
        \<and> list_all2 (\<lambda>x y. jsize (snd y) \<le> jsize (snd x) \<and> union_free (snd y)) kvs st"
    proof (rule those_map_ex)
      fix x assume "x \<in> set kvs"
      then have "jsize (snd x) \<le> sum_list (map (jsize \<circ> snd) kvs)" by (intro member_le_sum_list) auto
      then have "jsize (snd x) \<le> n" using Suc.prems JObj by (simp add: case_prod_unfold comp_def)
      from Suc.IH [OF this]
      show "\<exists>y. entry_strip n hint x = Some y \<and> jsize (snd y) \<le> jsize (snd x) \<and> union_free (snd y)"
        by (auto simp: case_prod_unfold)
    qed
    then obtain st where st: "those (map (entry_strip n hint) kvs) = Some st"
      and l: "list_all2 (\<lambda>x y. jsize (snd y) \<le> jsize (snd x)) kvs st" and u: "list_all (union_free \<circ> snd) st"
      by (auto dest!: list_all2_right simp: comp_def)
    have le: "jsize (JObj st) \<le> jsize v"
      using sum_list_all2 [of "jsize \<circ> snd", simplified, OF l] JObj by (simp add: case_prod_unfold comp_def)
    show ?thesis
    proof (cases "union_replacement hint st")
      case None
      with u have "union_free (JObj st)" by (simp add: union_replacement_None case_prod_unfold comp_def)
      moreover have "strip_nu (Suc n) hint v = Some (JObj st)" using st None JObj by simp
      ultimately show ?thesis using le by blast
    next
      case (Some r)
      from union_replacement_smaller [OF this] le have r: "jsize r < jsize v" by simp
      then have "jsize r \<le> n" using Suc.prems by simp
      from Suc.IH [OF this] obtain w where "strip_nu n hint r = Some w" "jsize w \<le> jsize r" "union_free w"
        by blast
      with r st Some JObj show ?thesis by (auto simp del: jsize.simps)
    qed
  qed auto
qed

lemma strip_more: "strip_nu n hint v = Some r \<Longrightarrow> strip_nu (Suc n) hint v = Some r"
proof (induction n arbitrary: v r)
  case (Suc n)
  have up: "list_all2 (\<lambda>x y. strip_nu n hint x = Some y) xs ys \<Longrightarrow>
      list_all2 (\<lambda>x y. strip_nu (Suc n) hint x = Some y) xs ys" for xs ys
    by (erule list_all2_mono) (rule Suc.IH)
  have upo: "list_all2 (\<lambda>x y. entry_strip n hint x = Some y) xs ys \<Longrightarrow>
      list_all2 (\<lambda>x y. entry_strip (Suc n) hint x = Some y) xs ys" for xs ys
    by (erule list_all2_mono) (use Suc.IH in \<open>auto simp: case_prod_unfold simp del: strip_nu.simps\<close>)
  show ?case
  proof (cases v)
    case (JList xs)
    with Suc.prems obtain ys where "those (map (strip_nu n hint) xs) = Some ys" "r = JList ys" by auto
    then have "those (map (strip_nu (Suc n) hint) xs) = Some ys" unfolding those_map_iff by (intro up)
    then show ?thesis using JList \<open>r = JList ys\<close> by (subst strip_nu.simps) simp
  next
    case (JObj kvs)
    with Suc.prems obtain st where st: "those (map (entry_strip n hint) kvs) = Some st"
      and r: "(case union_replacement hint st of Some r \<Rightarrow> strip_nu n hint r | None \<Rightarrow> Some (JObj st)) = Some r"
      by (auto split: option.splits)
    from st have "those (map (entry_strip (Suc n) hint) kvs) = Some st" unfolding those_map_iff by (rule upo)
    moreover have "(case union_replacement hint st of Some r \<Rightarrow> strip_nu (Suc n) hint r | None \<Rightarrow> Some (JObj st)) = Some r"
      using r Suc.IH by (auto simp del: strip_nu.simps split: option.splits)
    ultimately show ?thesis using JObj by (subst strip_nu.simps) simp
  qed (use Suc.prems in auto)
qed simp

lemma strip_fuel: "strip_nu (jsize v + extra) hint v = Some (strip_nullable_unions hint v)"
proof (induction extra)
  case 0
  from strip_total [of v "jsize v" hint] show ?case by (auto simp: strip_nullable_unions_def)
next
  case (Suc extra)
  then show ?case by (simp add: strip_more del: strip_nu.simps)
qed

lemma strip_result: "union_free (strip_nullable_unions hint v)" "jsize (strip_nullable_unions hint v) \<le> jsize v"
  using strip_total [of v "jsize v" hint] strip_fuel [of v 0 hint] by auto

lemma those_fixed: "(\<And>x. x \<in> set xs \<Longrightarrow> f x = Some x) \<Longrightarrow> those (map f xs) = Some xs"
  by (simp add: those_map_iff list_all2_same)

lemma strip_fixed: "jsize v \<le> n \<Longrightarrow> union_free v \<Longrightarrow> strip_nu n hint v = Some v"
proof (induction n arbitrary: v)
  case 0
  then show ?case using jsize_pos [of v] by simp
next
  case (Suc n)
  show ?case
  proof (cases v)
    case (JList xs)
    have "those (map (strip_nu n hint) xs) = Some xs"
    proof (rule those_fixed)
      fix x assume x: "x \<in> set xs"
      then have "jsize x \<le> sum_list (map jsize xs)" by (intro member_le_sum_list) auto
      with x Suc.prems JList show "strip_nu n hint x = Some x" by (intro Suc.IH) (auto simp: list_all_iff)
    qed
    then show ?thesis using JList by simp
  next
    case (JObj kvs)
    have "those (map (entry_strip n hint) kvs) = Some kvs"
    proof (rule those_fixed)
      fix x assume x: "x \<in> set kvs"
      then have "jsize (snd x) \<le> sum_list (map (jsize \<circ> snd) kvs)" by (intro member_le_sum_list) auto
      with x Suc.prems JObj have "strip_nu n hint (snd x) = Some (snd x)"
        by (intro Suc.IH) (auto simp: list_all_iff case_prod_unfold comp_def)
      then show "entry_strip n hint x = Some x" by (simp add: case_prod_unfold)
    qed
    moreover have "union_replacement hint kvs = None"
      using Suc.prems JObj by (simp add: union_replacement_None)
    ultimately show ?thesis using JObj by simp
  qed auto
qed

section \<open>A tool\<close>

lemma strip_scalar [simp]:
  "strip_nullable_unions hint (JStr s) = JStr s" "strip_nullable_unions hint (JBool b) = JBool b"
  by (simp_all add: strip_nullable_unions_def)

lemma strip_nu_obj: "strip_nu n hint (JObj m) = Some r \<Longrightarrow> is_jobj r"
proof (induction n arbitrary: m)
  case (Suc n)
  then obtain st where "(case union_replacement hint st of Some q \<Rightarrow> strip_nu n hint q | None \<Rightarrow> Some (JObj st)) = Some r"
    by (auto split: option.splits)
  note q = this
  show ?case
  proof (cases "union_replacement hint st")
    case (Some q)
    then obtain m' where "q = JObj m'"
      by (auto simp: union_replacement_def replacement_of_def Let_def split: option.splits)
    with Some Suc.IH q show ?thesis by simp
  qed (use q in auto)
qed simp

lemma strip_obj: "\<exists>m'. strip_nullable_unions hint (JObj m) = JObj m'"
  using strip_nu_obj [OF strip_fuel [of "JObj m" 0 hint]] by (simp add: is_jobj_conv)

text \<open>Without a union of its own a dictionary keeps its keys, each value stripped.\<close>

lemma those_entries:
  "list_all2 (\<lambda>x y. entry_strip n hint x = Some y) kvs st \<Longrightarrow>
     dget st k = (case dget kvs k of Some w \<Rightarrow> strip_nu n hint w | None \<Rightarrow> None)"
  by (induction rule: list_all2_induct) (auto split: prod.splits)

lemma strip_no_union:
  assumes "dget m ''anyOf'' = None" and "dget m ''oneOf'' = None"
  shows "\<exists>st. strip_nullable_unions hint (JObj m) = JObj st
     \<and> (\<forall>k. dget st k = map_option (strip_nullable_unions hint) (dget m k))"
proof -
  let ?n = "weight m"
  have "strip_nu (Suc ?n) hint (JObj m) = Some (strip_nullable_unions hint (JObj m))"
    using strip_fuel [of "JObj m" 0 hint] by (simp add: jsize_obj del: jsize.simps strip_nu.simps)
  then obtain st where st: "list_all2 (\<lambda>x y. entry_strip ?n hint x = Some y) m st"
    and r: "(case union_replacement hint st of Some q \<Rightarrow> strip_nu ?n hint q | None \<Rightarrow> Some (JObj st))
      = Some (strip_nullable_unions hint (JObj m))"
    by (auto simp: those_map_iff split: option.splits)
  have e: "dget st k = (case dget m k of Some w \<Rightarrow> strip_nu ?n hint w | None \<Rightarrow> None)" for k
    using st by (rule those_entries)
  have "union_replacement hint st = None"
    using e [of "''anyOf''"] e [of "''oneOf''"] assms
    by (simp add: union_replacement_None nullable_branch_def jget_def)
  with r have s: "strip_nullable_unions hint (JObj m) = JObj st" by simp
  have "dget st k = map_option (strip_nullable_unions hint) (dget m k)" for k
  proof (cases "dget m k")
    case (Some w)
    have "wt_at m k \<le> ?n" using weight_keys [of "[k]" m] by simp
    with Some have "jsize w \<le> ?n" by (simp add: wt_at_def)
    then obtain extra where "?n = jsize w + extra" using le_Suc_ex by blast
    then have "strip_nu ?n hint w = Some (strip_nullable_unions hint w)" using strip_fuel by simp
    with Some e [of k] show ?thesis by simp
  qed (simp add: e)
  with s show ?thesis by blast
qed

text \<open>The loop adds no keys but \<open>type\<close> and \<open>nullable\<close>.\<close>

lemma put_entry_keys:
  "k \<notin> {''type'', ''nullable''} \<Longrightarrow> k \<noteq> k' \<Longrightarrow> dget (put_entry hint (k', v, v') out) k = dget out k"
  by (cases v) (auto simp: put_entry_def put_type_list_def set_default_def Let_def split: option.splits)

lemma put_entries_keys:
  "k \<notin> {''type'', ''nullable''} \<Longrightarrow> dget kvs k = None \<Longrightarrow> dget out k = None \<Longrightarrow>
     dget (fold (put_entry hint) (map (\<lambda>(k, v). (k, v, sanitize_value hint k v)) kvs) out) k = None"
proof (induction kvs arbitrary: out)
  case (Cons p kvs)
  then show ?case by (cases p) (auto simp: put_entry_keys split: if_splits)
qed simp

lemma sanitize_keys:
  assumes "dget m k = None" and "k \<notin> {''type'', ''nullable'', ''properties'', ''required''}"
  shows "\<exists>q. sanitize_node hint (JObj m) = JObj q \<and> dget q k = None"
  using put_entries_keys [of k m "[]" hint] assms
  by (auto simp: prune_required_def ensure_properties_def Let_def split: jval.splits)

lemma strip_top_keys: "dget (fold dpop ks d) k = (if k \<in> set ks then None else dget d k)"
  by (induction ks arbitrary: d) auto

text \<open>The parameters of a tool before the last two steps: an object schema.\<close>

definition as_object :: "(string, jval) dict \<Rightarrow> (string, jval) dict" where
  "as_object p =
     (let p = (if jget p ''type'' \<noteq> JStr ''object'' then dset ''type'' (JStr ''object'') p else p)
      in if \<not> is_jobj (jget p ''properties'') then dset ''properties'' (JObj []) p else p)"

lemma finish_top_as_object:
  "finish_top hint p = (case strip_nullable_unions hint (JObj (as_object p)) of
      JObj m \<Rightarrow> JObj (strip_top_level_combinators m) | v \<Rightarrow> v)"
  by (simp add: finish_top_def as_object_def Let_def)

lemma as_object_shape:
  "dget (as_object p) ''type'' = Some (JStr ''object'')
   \<and> (\<exists>m. dget (as_object p) ''properties'' = Some (JObj m))
   \<and> (k \<notin> {''type'', ''properties''} \<longrightarrow> dget (as_object p) k = dget p k)"
  by (auto simp: as_object_def Let_def jget_def is_jobj_conv split: option.splits)

lemma sanitize_parameters_obj: "\<exists>p. sanitize_parameters hint params = JObj p
    \<and> list_all (\<lambda>k. dget p k = None) top_level_forbidden_keys"
proof (cases params)
  case (JObj m)
  obtain q where q: "sanitize_node hint (JObj m) = JObj q" by simp
  obtain st where "strip_nullable_unions hint (JObj (as_object q)) = JObj st" using strip_obj by blast
  with q JObj show ?thesis
    by (simp add: sanitize_parameters_def finish_top_as_object strip_top_level_combinators_def
        strip_top_keys list_all_iff del: sanitize_node.simps)
qed (auto simp: sanitize_parameters_def empty_object_schema_def top_level_forbidden_keys_def)

lemma sanitize_parameters_typed:
  assumes "\<And>m. params = JObj m \<Longrightarrow> dget m ''anyOf'' = None \<and> dget m ''oneOf'' = None"
    and "sanitize_parameters hint params = JObj p"
  shows "jget p ''type'' = JStr ''object'' \<and> is_jobj (jget p ''properties'')"
proof (cases params)
  case (JObj m)
  obtain q where q: "sanitize_node hint (JObj m) = JObj q" by simp
  have "dget q ''anyOf'' = None" "dget q ''oneOf'' = None"
    using sanitize_keys [of m "''anyOf''" hint] sanitize_keys [of m "''oneOf''" hint] assms(1) [OF JObj] q
    by (auto simp del: sanitize_node.simps)
  then have "dget (as_object q) ''anyOf'' = None" "dget (as_object q) ''oneOf'' = None"
    using as_object_shape [of q "''anyOf''"] as_object_shape [of q "''oneOf''"] by auto
  from strip_no_union [OF this] obtain st where
    st: "strip_nullable_unions hint (JObj (as_object q)) = JObj st"
    and e: "\<And>k. dget st k = map_option (strip_nullable_unions hint) (dget (as_object q) k)" by blast
  have "p = strip_top_level_combinators st"
    using assms(2) JObj q st by (simp add: sanitize_parameters_def finish_top_as_object del: sanitize_node.simps)
  then have k: "dget p ''type'' = dget st ''type''" "dget p ''properties'' = dget st ''properties''"
    by (simp_all add: strip_top_level_combinators_def strip_top_keys top_level_forbidden_keys_def)
  obtain m' where o: "dget (as_object q) ''type'' = Some (JStr ''object'')"
    "dget (as_object q) ''properties'' = Some (JObj m')"
    using as_object_shape [of q "''type''"] by blast
  obtain m'' where "strip_nullable_unions hint (JObj m') = JObj m''" using strip_obj by blast
  with o k e show ?thesis by (simp add: jget_def)
qed (use assms(2) in \<open>auto simp: sanitize_parameters_def empty_object_schema_def\<close>)

section \<open>Properties\<close>

text \<open>
  C38: Every schema that \<open>_sanitize_node\<close> returns is well formed at every depth: no bare string
  stands where a schema is expected, no \<open>type\<close> is a list, every object schema has a table
  of properties, and its \<open>required\<close> list, when it has one, is a nonempty list of names of
  that table.
\<close>

theorem schema_nodes_well_formed: "schema_ok (sanitize_node hint v)"
  by (rule sanitize_ok)

text \<open>
  \<open>strip_nullable_unions\<close> sanitises its own result again; it returns on every schema (fuel
  for as many levels as the schema has values is enough, and more changes nothing), its
  result holds no union of one branch and \<open>null\<close> at any depth and no more values than the
  schema, and a second run changes nothing.
\<close>

theorem strip_unions_terminates:
  "strip_nu (jsize v + extra) hint v = Some (strip_nullable_unions hint v)
   \<and> union_free (strip_nullable_unions hint v)
   \<and> jsize (strip_nullable_unions hint v) \<le> jsize v
   \<and> strip_nullable_unions hint (strip_nullable_unions hint v) = strip_nullable_unions hint v"
proof -
  let ?r = "strip_nullable_unions hint v"
  have "strip_nullable_unions hint ?r = ?r"
    using strip_fixed [of ?r "jsize ?r" hint] strip_fuel [of ?r 0 hint] strip_result by simp
  then show ?thesis using strip_fuel strip_result by blast
qed

text \<open>
  A tool with a \<open>function\<close> leaves the sanitiser with an object schema as its parameters:
  type \<open>object\<close>, a table of properties and none of the five keywords strict providers
  refuse at the top, whatever the parameters were, provided that they hold no union at the
  top level.
\<close>

theorem sanitized_tool_is_object:
  assumes "jget tool ''function'' = JObj fn"
    and "\<And>m. jget fn ''parameters'' = JObj m \<Longrightarrow> dget m ''anyOf'' = None \<and> dget m ''oneOf'' = None"
  shows "\<exists>tool' fn' p. sanitize_single_tool hint (JObj tool) = JObj tool'
    \<and> jget tool' ''function'' = JObj fn' \<and> jget fn' ''parameters'' = JObj p
    \<and> jget p ''type'' = JStr ''object'' \<and> is_jobj (jget p ''properties'')
    \<and> list_all (\<lambda>k. dget p k = None) top_level_forbidden_keys
    \<and> (\<forall>k. k \<noteq> ''parameters'' \<longrightarrow> dget fn' k = dget fn k)"
proof -
  obtain p where "sanitize_parameters hint (jget fn ''parameters'') = JObj p"
    and "list_all (\<lambda>k. dget p k = None) top_level_forbidden_keys"
    using sanitize_parameters_obj by blast
  with sanitize_parameters_typed [OF assms(2) this(1)] assms(1) show ?thesis
    by (simp add: sanitize_single_tool_def)
qed

theorem sanitized_tool_is_object_witness:
  "\<exists>tool' fn' p. sanitize_single_tool True (JObj [(''function'', JObj [(''name'', JStr ''t''),
        (''parameters'', JObj [(''type'', JList [JStr ''string'', JStr ''null'']), (''enum'', JList [])])])])
      = JObj tool'
    \<and> jget tool' ''function'' = JObj fn' \<and> jget fn' ''parameters'' = JObj p
    \<and> jget p ''type'' = JStr ''object'' \<and> is_jobj (jget p ''properties'')
    \<and> list_all (\<lambda>k. dget p k = None) top_level_forbidden_keys
    \<and> (\<forall>k. k \<noteq> ''parameters'' \<longrightarrow> dget fn' k = dget [(''name'', JStr ''t''),
        (''parameters'', JObj [(''type'', JList [JStr ''string'', JStr ''null'']), (''enum'', JList [])])] k)"
  by (rule sanitized_tool_is_object) auto

text \<open>
  With a union at the top level the promise fails: the object type is put beside the union
  first and the union is replaced by its branch afterwards, so the provider receives
  parameters that are not an object schema and hold no properties.
\<close>

theorem nullable_union_replaces_object:
  assumes "t \<in> set schema_types" and "t \<noteq> ''null''" and "t \<noteq> ''object''"
  shows "sanitize_parameters True (JObj [(''anyOf'', JList [JStr t, JStr ''null''])])
    = JObj [(''type'', JStr t), (''nullable'', JBool True)]"
proof -
  let ?u = "JList [JObj [(''type'', JStr t)], JObj [(''type'', JStr ''null'')]]"
  let ?v = "JObj [(''anyOf'', ?u), (''type'', JStr ''object''), (''properties'', JObj [])]"
  have n: "sanitize_node True (JObj [(''anyOf'', JList [JStr t, JStr ''null''])]) = JObj [(''anyOf'', ?u)]"
    using assms by (simp add: literal_keys_def put_entry_def prune_required_def ensure_properties_def
        bare_string_schema_def schema_types_def)
  have o: "JObj (as_object [(''anyOf'', ?u)]) = ?v"
    by (simp add: as_object_def)
  have j: "jsize ?v = 8" by simp
  have "strip_nu 8 True ?v = Some (JObj [(''type'', JStr t), (''nullable'', JBool True)])"
    using assms(2) by (simp add: eval_nat_numeral union_replacement_def nullable_branch_def is_null_schema_def
        replacement_of_def set_default_def copy_meta_def meta_keys_def)
  then have "strip_nullable_unions True ?v = JObj [(''type'', JStr t), (''nullable'', JBool True)]"
    unfolding strip_nullable_unions_def j by simp
  with n o show ?thesis
    by (simp add: sanitize_parameters_def finish_top_as_object strip_top_level_combinators_def
        top_level_forbidden_keys_def del: sanitize_node.simps)
qed

theorem nullable_union_replaces_object_witness:
  "sanitize_parameters True (JObj [(''anyOf'', JList [JStr ''string'', JStr ''null''])])
    = JObj [(''type'', JStr ''string''), (''nullable'', JBool True)]"
  by (rule nullable_union_replaces_object) (simp_all add: schema_types_def)

text \<open>
  Parameters without a type are made an object after their node was sanitised: \<open>required\<close> names that they do
  not declare stay.
\<close>

lemma untyped_parameters_keep_required:
  "sanitize_parameters True (JObj [(''required'', JList [JStr ''x''])])
    = JObj [(''required'', JList [JStr ''x'']), (''type'', JStr ''object''), (''properties'', JObj [])]"
  by code_simp

text \<open>
  A list of strings given as the default of a parameter does not survive: every element is
  read as a bare schema and replaced by one, so the default sent to the provider has the
  wrong type.
\<close>

theorem default_list_rewritten:
  "sanitize_node hint (JObj [(''type'', JStr ''array''), (''default'', JList (map JStr ss))])
    = JObj [(''type'', JStr ''array''), (''default'', JList (map bare_string_schema ss))]
   \<and> list_all is_jobj (map bare_string_schema ss)"
  by (simp add: put_entry_def prune_required_def ensure_properties_def literal_keys_def list_all_iff
      is_jobj_conv bare_string_jobj)

section \<open>Recovery\<close>

lemma recovery_drops_mono:
  "set (dkeys a) \<subseteq> set (dkeys b) \<Longrightarrow> recovery_drops a k \<Longrightarrow> recovery_drops b k"
  unfolding recovery_drops_def is_schema_node_def by blast

lemma strip_keywords_fixed:
  assumes "\<And>x. x \<in> set ks \<Longrightarrow>
      \<not> recovery_drops ks (fst x) \<and> stripped_count (snd x) = 0 \<and> strip_keywords (snd x) = snd x"
  shows "stripped_count (JObj ks) = 0 \<and> strip_keywords (JObj ks) = JObj ks"
proof -
  have "map (\<lambda>(k, v). (k, strip_keywords v)) ks = ks"
    using assms by (intro map_idI) (simp add: case_prod_unfold)
  moreover have "filter (\<lambda>(k, v). \<not> recovery_drops ks k) ks = ks"
    using assms by (intro filter_True) (simp add: case_prod_unfold)
  ultimately show ?thesis using assms by (simp add: case_prod_unfold)
qed

lemma filter_keys: "set (dkeys (filter P (map (\<lambda>(k, v). (k, f v)) kvs))) \<subseteq> set (dkeys kvs)"
  by force

text \<open>
  The walk that prepares the retry after a grammar error reaches a fixed point in one pass:
  a second pass deletes nothing and changes nothing, so a provider that still refuses the
  schemas cannot keep the recovery going.
\<close>

theorem recovery_walk_complete:
  "stripped_count (strip_keywords v) = 0 \<and> strip_keywords (strip_keywords v) = strip_keywords v"
proof (induction v rule: strip_keywords.induct)
  case (1 kvs)
  let ?kvs = "filter (\<lambda>(k, v). \<not> recovery_drops kvs k) (map (\<lambda>(k, v). (k, strip_keywords v)) kvs)"
  have e: "\<not> recovery_drops ?kvs (fst x) \<and> stripped_count (snd x) = 0 \<and> strip_keywords (snd x) = snd x"
    if x: "x \<in> set ?kvs" for x
  proof -
    from x obtain k v where v: "(k, v) \<in> set kvs" "x = (k, strip_keywords v)" "\<not> recovery_drops kvs k" by auto
    then have "\<not> recovery_drops ?kvs k" using recovery_drops_mono [OF filter_keys] by metis
    with v 1 [OF v(1) refl] show ?thesis by simp
  qed
  from strip_keywords_fixed [of ?kvs, OF e]
  have "stripped_count (JObj ?kvs) = 0 \<and> strip_keywords (JObj ?kvs) = JObj ?kvs" .
  then show ?case by (simp only: strip_keywords.simps(1) [of kvs, symmetric])
qed (auto intro!: map_idI)

text \<open>
  The walk asks of every dictionary whether it has a key \<open>type\<close>, the table of a tool's
  parameters included: a tool that takes a parameter called \<open>type\<close> and one called
  \<open>format\<close> loses the second, while \<open>required\<close> still names it, so the
  schema is no longer well formed.
\<close>

theorem recovery_drops_parameter:
  "\<exists>s'. strip_keywords (JObj [(''type'', JStr ''object''),
       (''properties'', JObj [(''type'', a), (''format'', b)]),
       (''required'', JList [JStr ''type'', JStr ''format''])]) = s'
   \<and> s' = JObj [(''type'', JStr ''object''), (''properties'', JObj [(''type'', strip_keywords a)]),
       (''required'', JList [JStr ''type'', JStr ''format''])]
   \<and> \<not> schema_ok s'"
  by (simp add: recovery_drops_def is_schema_node_def strip_on_recovery_keys_def node_entries_ok_def
      declared_def)

end
