(* ===== verification/Runtime_Jobs.thy ===== *)
theory Runtime_Jobs
  imports Json_Values
begin

text \<open>
  Runtime jobs: their definitions (\<open>runtime/loader.py\<close>, \<open>runtime/schema.py\<close>), the one-shot
  approvals of jobs that change files (\<open>runtime/approval.py\<close>), the lock a job runs under
  (\<open>runtime/audit.py\<close>), the execution itself (\<open>run_job\<close>, \<open>approve_and_run\<close> and
  \<open>run_due_jobs\<close> of \<open>runtime/service.py\<close>) and the failure streaks
  (\<open>runtime/failure_tracker.py\<close>).

  The files of the approvals, the locks, the notification stamps and the streaks are
  dictionaries keyed by what names the file.  The records are written and read by these
  functions only and are typed.  Executing the command of a job, the letters beyond ASCII
  for which \<open>isalnum\<close> holds, and writes that fail are parameters.
\<close>

section \<open>Job definitions\<close>

record notify_config =
  nc_on_success :: bool
  nc_on_failure :: bool
  nc_max_summary_chars :: int

record approval_config =
  ac_required :: bool
  ac_expires_hours :: int

record job_def =
  jd_id :: string
  jd_description :: string
  jd_mode :: string
  jd_enabled :: bool
  jd_schedule :: string
  jd_command :: "string list"
  jd_handler :: string
  jd_timeout_seconds :: int
  jd_notify :: notify_config
  jd_approval :: approval_config

definition is_readonly :: "job_def \<Rightarrow> bool" where
  "is_readonly job \<longleftrightarrow> lower (strip (str_or (jd_mode job) ''readonly'')) = ''readonly''"

definition is_builtin :: "job_def \<Rightarrow> bool" where
  "is_builtin job \<longleftrightarrow> prefix ''builtin:'' (strip (jd_handler job))"

record jobs_file =
  jf_version :: int
  jf_project :: string
  jf_defaults :: "(string, jval) dict"
  jf_jobs :: "job_def list"

text \<open>\<open>bool(d.get(k, True))\<close>, a dictionary or \<open>{}\<close>, and \<open>int(a or b or n)\<close>, which may raise.\<close>

definition flag_field :: "(string, jval) dict \<Rightarrow> string \<Rightarrow> bool" where
  "flag_field d k = (case dget d k of Some v \<Rightarrow> truthy v | None \<Rightarrow> True)"

definition as_dict :: "jval \<Rightarrow> (string, jval) dict" where
  "as_dict v = (case v of JObj m \<Rightarrow> m | _ \<Rightarrow> [])"

definition int_field :: "(string, jval) dict \<Rightarrow> (string, jval) dict \<Rightarrow> string \<Rightarrow> int \<Rightarrow> int option" where
  "int_field d defaults k n = int_of_jval (jor (jget d k) (jor (jget defaults k) (JInt n)))"

text \<open>The command of a job: a string stands for a list of one; anything iterable is read.\<close>

definition command_list :: "jval \<Rightarrow> string list option" where
  "command_list v = (let keep = filter (\<lambda>s. strip s \<noteq> []) in
     if \<not> truthy v then Some []
     else case v of
       JStr s \<Rightarrow> Some (keep [s])
     | JList xs \<Rightarrow> Some (keep (map pystr xs))
     | JObj m \<Rightarrow> Some (keep (dkeys m))
     | _ \<Rightarrow> None)"

text \<open>One item of \<open>jobs\<close>: nothing to add, a job, or an exception (\<open>None\<close>).\<close>

definition parse_job :: "(string, jval) dict \<Rightarrow> jval \<Rightarrow> job_def option option" where
  "parse_job defaults item = (case item of
       JObj d \<Rightarrow>
         (let jid = strip (str_field d ''id'' ''''); n = as_dict (jget d ''notify''); a = as_dict (jget d ''approval'')
          in if jid = [] then Some None
             else case (command_list (jget d ''command''), int_field d defaults ''timeout_seconds'' 900,
                        int_field n defaults ''max_summary_chars'' 1200, int_field a [] ''expires_hours'' 48) of
               (Some cmd, Some timeout, Some chars, Some hours) \<Rightarrow>
                 Some (Some \<lparr>jd_id = jid, jd_description = str_field d ''description'' '''',
                   jd_mode = str_field d ''mode'' ''readonly'', jd_enabled = flag_field d ''enabled'',
                   jd_schedule = strip (str_field d ''schedule'' ''''), jd_command = cmd,
                   jd_handler = strip (str_field d ''handler'' ''''), jd_timeout_seconds = timeout,
                   jd_notify = \<lparr>nc_on_success = flag_field n ''on_success'',
                     nc_on_failure = flag_field n ''on_failure'', nc_max_summary_chars = chars\<rparr>,
                   jd_approval = \<lparr>ac_required = flag_field a ''required'', ac_expires_hours = hours\<rparr>\<rparr>)
             | _ \<Rightarrow> None)
     | _ \<Rightarrow> Some None)"

fun parse_jobs :: "(string, jval) dict \<Rightarrow> jval list \<Rightarrow> job_def list option" where
  "parse_jobs defaults [] = Some []"
| "parse_jobs defaults (item # items) = (case parse_job defaults item of
       None \<Rightarrow> None
     | Some j \<Rightarrow> (case parse_jobs defaults items of
           None \<Rightarrow> None
         | Some js \<Rightarrow> Some (case j of Some job \<Rightarrow> job # js | None \<Rightarrow> js)))"

datatype 'a loaded = Raises | Loaded "'a option"

text \<open>
  The argument is what the YAML parser returns for the file (\<open>None\<close> when there is no file or
  it is corrupt); iterating over a string or a dictionary meets no dictionaries.
\<close>

definition load_jobs_file :: "jval option \<Rightarrow> jobs_file loaded" where
  "load_jobs_file yaml = (case yaml of
       None \<Rightarrow> Loaded None
     | Some v \<Rightarrow> (case (if truthy v then v else JObj []) of
         JObj raw \<Rightarrow>
           (let defaults = as_dict (jget raw ''defaults'') in
            case (case jor (jget raw ''jobs'') (JList []) of
                    JList xs \<Rightarrow> parse_jobs defaults xs
                  | JStr _ \<Rightarrow> Some []
                  | JObj _ \<Rightarrow> Some []
                  | _ \<Rightarrow> None) of
              None \<Rightarrow> Raises
            | Some jobs \<Rightarrow>
                (case int_of_jval (jor (jget raw ''version'') (JInt 1)) of
                   None \<Rightarrow> Raises
                 | Some ver \<Rightarrow> Loaded (Some \<lparr>jf_version = ver, jf_project = str_field raw ''project'' '''',
                     jf_defaults = defaults, jf_jobs = jobs\<rparr>)))
       | _ \<Rightarrow> Loaded None))"

definition find_job :: "jobs_file option \<Rightarrow> string \<Rightarrow> job_def option" where
  "find_job jf job_id = (case jf of
       None \<Rightarrow> None
     | Some f \<Rightarrow> find (\<lambda>j. jd_id j = strip job_id) (jf_jobs f))"

definition list_jobs :: "jobs_file option \<Rightarrow> bool \<Rightarrow> job_def list" where
  "list_jobs jf enabled_only = (case jf of
       None \<Rightarrow> []
     | Some f \<Rightarrow> if enabled_only then filter jd_enabled (jf_jobs f) else jf_jobs f)"

section \<open>Approvals\<close>

text \<open>
  \<open>_slug\<close> keeps the letters and digits (\<open>alnum\<close> says which characters beyond ASCII are),
  the dash and the underscore.
\<close>

definition ascii_alnum :: "char \<Rightarrow> bool" where
  "ascii_alnum c = (let n = (of_char c :: nat) in
     48 \<le> n \<and> n \<le> 57 \<or> 65 \<le> n \<and> n \<le> 90 \<or> 97 \<le> n \<and> n \<le> 122)"

definition slug_char :: "(string \<Rightarrow> bool) \<Rightarrow> string \<Rightarrow> string" where
  "slug_char alnum u = (case u of
       [c] \<Rightarrow> if ascii_alnum c \<or> c = CHR ''-'' \<or> c = CHR ''_'' then u else ''_''
     | _ \<Rightarrow> if alnum u then u else ''_'')"

definition slug :: "(string \<Rightarrow> bool) \<Rightarrow> string \<Rightarrow> string" where
  "slug alnum name = concat (map (slug_char alnum) (cps (str_or name ''project'')))"

record job_approval =
  ja_project :: string
  ja_job_id :: string
  ja_approved_until :: secs
  ja_consumed :: bool

type_synonym job_key = "string \<times> string"

text \<open>A lock names the process and its nonce, here one number, and the time it was written.\<close>

record runtime_state =
  rs_approvals :: "(job_key, job_approval) dict"
  rs_notified :: "(job_key, secs) dict"
  rs_locks :: "(job_key, nat \<times> secs) dict"

definition record_key :: "(string \<Rightarrow> bool) \<Rightarrow> string \<Rightarrow> string \<Rightarrow> job_key" where
  "record_key alnum project job_id = (slug alnum project, job_id)"

definition grant_approval :: "(string \<Rightarrow> bool) \<Rightarrow> secs \<Rightarrow> string \<Rightarrow> string \<Rightarrow> int \<Rightarrow> runtime_state \<Rightarrow> runtime_state" where
  "grant_approval alnum now project job_id expires_hours st = st\<lparr>rs_approvals :=
     dset (record_key alnum project job_id)
       \<lparr>ja_project = project, ja_job_id = job_id,
        ja_approved_until = now + 3600 * of_int (max 1 expires_hours), ja_consumed = False\<rparr>
       (rs_approvals st)\<rparr>"

definition approval_valid :: "secs \<Rightarrow> job_approval \<Rightarrow> bool" where
  "approval_valid now rec \<longleftrightarrow> \<not> ja_consumed rec \<and> \<not> ja_approved_until rec \<le> now"

definition get_approval :: "(string \<Rightarrow> bool) \<Rightarrow> secs \<Rightarrow> string \<Rightarrow> string \<Rightarrow> runtime_state \<Rightarrow> job_approval option" where
  "get_approval alnum now project job_id st = (case dget (rs_approvals st) (record_key alnum project job_id) of
       None \<Rightarrow> None
     | Some rec \<Rightarrow> if approval_valid now rec then Some rec else None)"

definition job_approved :: "(string \<Rightarrow> bool) \<Rightarrow> secs \<Rightarrow> string \<Rightarrow> string \<Rightarrow> runtime_state \<Rightarrow> bool" where
  "job_approved alnum now project job_id st \<longleftrightarrow> get_approval alnum now project job_id st \<noteq> None"

text \<open>\<open>writable\<close> is false when writing the file fails, which is ignored.\<close>

definition consume_approval :: "(string \<Rightarrow> bool) \<Rightarrow> bool \<Rightarrow> string \<Rightarrow> string \<Rightarrow> runtime_state \<Rightarrow> runtime_state" where
  "consume_approval alnum writable project job_id st =
     (case dget (rs_approvals st) (record_key alnum project job_id) of
        None \<Rightarrow> st
      | Some rec \<Rightarrow> if writable
          then st\<lparr>rs_approvals := dset (record_key alnum project job_id) (rec\<lparr>ja_consumed := True\<rparr>) (rs_approvals st)\<rparr>
          else st)"

definition approval_required :: "job_def \<Rightarrow> bool" where
  "approval_required job \<longleftrightarrow> \<not> is_readonly job \<and> ac_required (jd_approval job)"

definition notify_cooldown :: secs where "notify_cooldown = 21600"

definition should_notify_mutating_due :: "(string \<Rightarrow> bool) \<Rightarrow> secs \<Rightarrow> string \<Rightarrow> string \<Rightarrow> runtime_state \<Rightarrow> bool" where
  "should_notify_mutating_due alnum now project job_id st =
     (case dget (rs_notified st) (record_key alnum project job_id) of
        None \<Rightarrow> True
      | Some t \<Rightarrow> notify_cooldown \<le> now - t)"

definition mark_mutating_due_notified :: "(string \<Rightarrow> bool) \<Rightarrow> secs \<Rightarrow> string \<Rightarrow> string \<Rightarrow> runtime_state \<Rightarrow> runtime_state" where
  "mark_mutating_due_notified alnum now project job_id st =
     st\<lparr>rs_notified := dset (record_key alnum project job_id) now (rs_notified st)\<rparr>"

section \<open>The lock\<close>

definition stale_seconds :: secs where "stale_seconds = 7200"

text \<open>One process alone: the create, the look at the age, the unlink and the second create.\<close>

definition try_acquire_lock :: "(string \<Rightarrow> bool) \<Rightarrow> secs \<Rightarrow> nat \<Rightarrow> string \<Rightarrow> string \<Rightarrow> runtime_state \<Rightarrow> bool \<times> runtime_state" where
  "try_acquire_lock alnum now me project job_id st =
     (let k = record_key alnum project job_id; mine = st\<lparr>rs_locks := dset k (me, now) (rs_locks st)\<rparr> in
      case dget (rs_locks st) k of
        None \<Rightarrow> (True, mine)
      | Some (_, t) \<Rightarrow> if now - t < stale_seconds then (False, st) else (True, mine))"

definition release_lock :: "(string \<Rightarrow> bool) \<Rightarrow> nat \<Rightarrow> string \<Rightarrow> string \<Rightarrow> runtime_state \<Rightarrow> runtime_state" where
  "release_lock alnum me project job_id st =
     (let k = record_key alnum project job_id in
      case dget (rs_locks st) k of
        None \<Rightarrow> st
      | Some (owner, _) \<Rightarrow> if owner = me then st\<lparr>rs_locks := dpop k (rs_locks st)\<rparr> else st)"

section \<open>Running a job\<close>

record job_env =
  je_alnum :: "string \<Rightarrow> bool"
  je_enabled :: bool
  je_jobs :: "string \<Rightarrow> jobs_file option option"  \<comment> \<open>no such project, or its jobs file\<close>
  je_me :: nat
  je_writable :: bool

text \<open>What \<open>runner.execute_job\<close> does: raise, or report success or failure.\<close>

type_synonym executor = "job_def \<Rightarrow> bool option"

datatype job_outcome =
    RuntimeDisabled | UnknownProject | UnknownJob | JobDisabled | Rejected | JobLocked
  | JobRaised | Finished bool | ReadonlyJob | Granted

definition run_job :: "job_env \<Rightarrow> executor \<Rightarrow> secs \<Rightarrow> bool \<Rightarrow> bool \<Rightarrow> string \<Rightarrow> string
    \<Rightarrow> runtime_state \<Rightarrow> job_outcome \<times> runtime_state" where
  "run_job env exec now force approved_run project job_id st =
     (if \<not> je_enabled env then (RuntimeDisabled, st)
      else case je_jobs env project of
        None \<Rightarrow> (UnknownProject, st)
      | Some jf \<Rightarrow> (case find_job jf job_id of
          None \<Rightarrow> (UnknownJob, st)
        | Some job \<Rightarrow>
            if \<not> jd_enabled job \<and> \<not> (force \<or> approved_run) then (JobDisabled, st)
            else if \<not> is_readonly job \<and> approval_required job
                 \<and> \<not> (approved_run \<or> job_approved (je_alnum env) now project job_id st) then (Rejected, st)
            else case try_acquire_lock (je_alnum env) now (je_me env) project job_id st of
              (False, st) \<Rightarrow> (JobLocked, st)
            | (True, st) \<Rightarrow>
                (let result = exec job; st = release_lock (je_alnum env) (je_me env) project job_id st in
                 case result of
                   None \<Rightarrow> (JobRaised, st)
                 | Some ok \<Rightarrow>
                     (Finished ok,
                      if \<not> is_readonly job \<and> approval_required job
                      then consume_approval (je_alnum env) (je_writable env) project job_id st else st))))"

definition approve_and_run :: "job_env \<Rightarrow> executor \<Rightarrow> secs \<Rightarrow> bool \<Rightarrow> string \<Rightarrow> string
    \<Rightarrow> runtime_state \<Rightarrow> job_outcome \<times> runtime_state" where
  "approve_and_run env exec now run_now project job_id st = (case je_jobs env project of
       None \<Rightarrow> (UnknownProject, st)
     | Some jf \<Rightarrow> (case find_job jf job_id of
         None \<Rightarrow> (UnknownJob, st)
       | Some job \<Rightarrow>
           if is_readonly job then (ReadonlyJob, st)
           else (let st = grant_approval (je_alnum env) now project job_id (ac_expires_hours (jd_approval job)) st
                 in if \<not> run_now then (Granted, st)
                    else run_job env exec now True True project job_id st)))"

text \<open>The jobs whose schedule is due (\<open>due\<close> is the cron match of \<open>runtime/schedule.py\<close>).\<close>

definition list_due_jobs :: "job_env \<Rightarrow> (string \<Rightarrow> bool) \<Rightarrow> string \<Rightarrow> string list" where
  "list_due_jobs env due project = (case je_jobs env project of
       None \<Rightarrow> []
     | Some jf \<Rightarrow> map jd_id (filter (\<lambda>j. is_readonly j \<and> jd_schedule j \<noteq> [] \<and> due (jd_schedule j)) (list_jobs jf True)))"

definition list_due_mutating_jobs :: "job_env \<Rightarrow> (string \<Rightarrow> bool) \<Rightarrow> string \<Rightarrow> job_def list" where
  "list_due_mutating_jobs env due project = (case je_jobs env project of
       None \<Rightarrow> []
     | Some jf \<Rightarrow> filter (\<lambda>j. \<not> is_readonly j \<and> jd_schedule j \<noteq> [] \<and> due (jd_schedule j)) (list_jobs jf True))"

datatype due_result = Ran job_outcome | PendingApproval bool

fun run_readonly :: "job_env \<Rightarrow> executor \<Rightarrow> secs \<Rightarrow> string \<Rightarrow> string list \<Rightarrow> runtime_state
    \<Rightarrow> due_result list \<times> runtime_state" where
  "run_readonly env exec now project [] st = ([], st)"
| "run_readonly env exec now project (jid # jids) st =
     (case run_job env exec now False False project jid st of (r, st) \<Rightarrow>
       (case run_readonly env exec now project jids st of (rs, st) \<Rightarrow> (Ran r # rs, st)))"

definition notify_due :: "job_env \<Rightarrow> secs \<Rightarrow> string \<Rightarrow> string \<Rightarrow> runtime_state \<Rightarrow> due_result \<times> runtime_state" where
  "notify_due env now project job_id st =
     (if \<not> should_notify_mutating_due (je_alnum env) now project job_id st then (PendingApproval False, st)
      else (PendingApproval True, mark_mutating_due_notified (je_alnum env) now project job_id st))"

fun run_mutating :: "job_env \<Rightarrow> executor \<Rightarrow> secs \<Rightarrow> string \<Rightarrow> job_def list \<Rightarrow> runtime_state
    \<Rightarrow> due_result list \<times> runtime_state" where
  "run_mutating env exec now project [] st = ([], st)"
| "run_mutating env exec now project (job # jobs) st =
     (case (if job_approved (je_alnum env) now project (jd_id job) st
            then (case run_job env exec now False True project (jd_id job) st of (r, st) \<Rightarrow> (Ran r, st))
            else notify_due env now project (jd_id job) st) of (r, st) \<Rightarrow>
       (case run_mutating env exec now project jobs st of (rs, st) \<Rightarrow> (r # rs, st)))"

definition run_due_jobs :: "job_env \<Rightarrow> executor \<Rightarrow> (string \<Rightarrow> bool) \<Rightarrow> secs \<Rightarrow> string \<Rightarrow> runtime_state
    \<Rightarrow> due_result list \<times> runtime_state" where
  "run_due_jobs env exec due now project st =
     (if \<not> je_enabled env then ([Ran RuntimeDisabled], st)
      else case run_readonly env exec now project (list_due_jobs env due project) st of (rs, st) \<Rightarrow>
        (case run_mutating env exec now project (list_due_mutating_jobs env due project) st of
           (ms, st) \<Rightarrow> (rs @ ms, st)))"

section \<open>Failure streaks\<close>

record streak =
  sk_streak :: int
  sk_last_failure_at :: secs
  sk_last_audit :: string
  sk_last_alert_at :: secs

type_synonym streaks = "(string, streak) dict"

definition alert_threshold :: "os_env \<Rightarrow> int" where
  "alert_threshold env = int_env env ''BUTLER_RUNTIME_FAIL_ALERT_STREAK'' 3 1"

definition job_key_text :: "string \<Rightarrow> string \<Rightarrow> string" where
  "job_key_text project job_id = strip project @ ''::'' @ strip job_id"

text \<open>
  The streak, whether the alert went out, and the table; \<open>pushed\<close> is what the push of the
  alert returns if there is one.
\<close>

definition record_job_outcome :: "os_env \<Rightarrow> secs \<Rightarrow> bool \<Rightarrow> string \<Rightarrow> string \<Rightarrow> bool \<Rightarrow> string \<Rightarrow> streaks
    \<Rightarrow> (int \<times> bool) \<times> streaks" where
  "record_job_outcome env now pushed project job_id success audit data =
     (let key = job_key_text project job_id; threshold = alert_threshold env in
      if success then ((0, False), dpop key data)
      else
        (let s = (case dget data key of Some e \<Rightarrow> sk_streak e | None \<Rightarrow> 0) + 1;
             e = \<lparr>sk_streak = s, sk_last_failure_at = now, sk_last_audit = audit,
                  sk_last_alert_at = (case dget data key of Some e \<Rightarrow> sk_last_alert_at e | None \<Rightarrow> 0)\<rparr>;
             alerted = (threshold \<le> s \<and> s = threshold \<and> pushed)
         in ((s, alerted), dset key (if alerted then e\<lparr>sk_last_alert_at := now\<rparr> else e) data)))"

end
