(* ===== verification/Runtime_Jobs_Props.thy ===== *)
theory Runtime_Jobs_Props
  imports Runtime_Jobs
begin

text \<open>
  One approval, one run: for operations that follow one another, by counting over arbitrary
  sequences of events; for the steps of several processes, as an inductive step relation
  over the lock file and the approval file, with the mutual exclusion the lock gives and the
  interleavings in which an approval is used twice or a stale lock is taken twice.
\<close>

section \<open>One process\<close>

abbreviation appr :: "runtime_state \<Rightarrow> job_key \<Rightarrow> job_approval option" where
  "appr st k \<equiv> dget (rs_approvals st) k"

definition open_approval :: "runtime_state \<Rightarrow> job_key \<Rightarrow> nat" where
  "open_approval st k = (case appr st k of Some rec \<Rightarrow> if ja_consumed rec then 0 else 1 | None \<Rightarrow> 0)"

lemma acquire_approvals [simp]: "try_acquire_lock alnum now me p j st = (b, st') \<Longrightarrow> rs_approvals st' = rs_approvals st"
  by (auto simp: try_acquire_lock_def Let_def split: option.splits if_splits)

lemma release_approvals [simp]: "rs_approvals (release_lock alnum me p j st) = rs_approvals st"
  by (auto simp: release_lock_def Let_def split: option.splits)

lemma open_consume:
  "open_approval (consume_approval alnum w p j st) k =
     (if k = record_key alnum p j \<and> w then 0 else open_approval st k)"
  by (auto simp: consume_approval_def open_approval_def split: option.splits)

lemma open_grant:
  "open_approval (grant_approval alnum now p j h st) k = (if k = record_key alnum p j then 1 else open_approval st k)"
  by (simp add: grant_approval_def open_approval_def)

lemma job_approved_open: "job_approved alnum now p j st \<Longrightarrow> open_approval st (record_key alnum p j) = 1"
  by (auto simp: job_approved_def get_approval_def approval_valid_def open_approval_def
      split: option.splits if_splits)

text \<open>Whether the job that would run needs an approval.\<close>

definition needs_approval :: "job_env \<Rightarrow> string \<Rightarrow> string \<Rightarrow> bool" where
  "needs_approval env p j = (case je_jobs env p of
       None \<Rightarrow> False
     | Some jf \<Rightarrow> (case find_job jf j of None \<Rightarrow> False | Some job \<Rightarrow> approval_required job))"

lemma approval_required_mutates: "approval_required job \<Longrightarrow> \<not> is_readonly job"
  by (simp add: approval_required_def)

text \<open>The cases of a run, as far as approvals go.\<close>

lemma run_job_cases:
  assumes "run_job env exec now force approved p j st = (r, st')"
  shows "(\<exists>ok. r = Finished ok \<and> needs_approval env p j
            \<and> (approved \<or> job_approved (je_alnum env) now p j st)
            \<and> open_approval st' k =
                 (if k = record_key (je_alnum env) p j \<and> je_writable env then 0 else open_approval st k))
       \<or> (\<not> (\<exists>ok. r = Finished ok \<and> needs_approval env p j)
            \<and> open_approval st' k = open_approval st k)"
proof (cases "je_jobs env p")
  case (Some jf)
  show ?thesis
  proof (cases "find_job jf j")
    case None
    with assms Some show ?thesis by (auto simp: run_job_def split: if_splits)
  next
    case job: (Some job)
    obtain b st1 where a: "try_acquire_lock (je_alnum env) now (je_me env) p j st = (b, st1)" by fastforce
    have o: "open_approval (release_lock (je_alnum env) (je_me env) p j st1) k = open_approval st k"
      "open_approval st1 k = open_approval st k"
      using acquire_approvals [OF a] by (simp_all add: open_approval_def)
    show ?thesis
      using assms Some job a o
      by (auto simp: run_job_def needs_approval_def Let_def open_consume
          split: if_splits bool.splits option.splits dest: approval_required_mutates)
  qed
qed (use assms in \<open>auto simp: run_job_def split: if_splits\<close>)

datatype job_event =
    Approve secs string string int
  | Run job_env executor secs bool string string
  | ApproveAndRun job_env executor secs bool string string
  | Due job_env executor secs string job_def

definition finished_at :: "job_key \<Rightarrow> job_env \<Rightarrow> string \<Rightarrow> string \<Rightarrow> job_outcome \<Rightarrow> nat" where
  "finished_at k env p j r =
     (if record_key (je_alnum env) p j = k \<and> needs_approval env p j \<and> (\<exists>ok \<in> {True, False}. r = Finished ok) then 1 else 0)"

definition granted_at :: "job_key \<Rightarrow> (string \<Rightarrow> bool) \<Rightarrow> string \<Rightarrow> string \<Rightarrow> nat" where
  "granted_at k alnum p j = (if record_key alnum p j = k then 1 else 0)"

text \<open>The state with the approvals given and the runs finished for one key.\<close>

fun job_event_step :: "(string \<Rightarrow> bool) \<Rightarrow> job_key \<Rightarrow> job_event \<Rightarrow> nat \<times> nat \<times> runtime_state
    \<Rightarrow> nat \<times> nat \<times> runtime_state" where
  "job_event_step alnum k (Approve now p j h) (g, n, st) =
     (g + granted_at k alnum p j, n, grant_approval alnum now p j h st)"
| "job_event_step alnum k (Run env exec now force p j) (g, n, st) =
     (case run_job env exec now force False p j st of (r, st') \<Rightarrow> (g, n + finished_at k env p j r, st'))"
| "job_event_step alnum k (ApproveAndRun env exec now run_now p j) (g, n, st) =
     (case approve_and_run env exec now run_now p j st of (r, st') \<Rightarrow>
        (g + (if r \<in> {UnknownProject, UnknownJob, ReadonlyJob} then 0 else granted_at k alnum p j),
         n + finished_at k env p j r, st'))"
| "job_event_step alnum k (Due env exec now p job) (g, n, st) =
     (case run_mutating env exec now p [job] st of (rs, st') \<Rightarrow>
        (g, n + (case rs of Ran r # _ \<Rightarrow> finished_at k env p (jd_id job) r | _ \<Rightarrow> 0), st'))"

text \<open>
  Every process takes the same characters for letters and can write its files: when the record of an approval
  cannot be written, the source swallows the error and the approval stays open.
\<close>

fun event_env_ok :: "(string \<Rightarrow> bool) \<Rightarrow> job_event \<Rightarrow> bool" where
  "event_env_ok alnum (Approve now p j h) = True"
| "event_env_ok alnum (Run env exec now force p j) = (je_alnum env = alnum \<and> je_writable env)"
| "event_env_ok alnum (ApproveAndRun env exec now run_now p j) = (je_alnum env = alnum \<and> je_writable env)"
| "event_env_ok alnum (Due env exec now p job) = (je_alnum env = alnum \<and> je_writable env)"

definition counted :: "job_key \<Rightarrow> nat \<times> nat \<times> runtime_state \<Rightarrow> bool" where
  "counted k s = (case s of (g, n, st) \<Rightarrow> n + open_approval st k \<le> g)"

lemma run_job_counted:
  assumes "je_writable env" and "run_job env exec now force approved p j st = (r, st')"
    and "approved \<Longrightarrow> open_approval st (record_key (je_alnum env) p j) = 1"
  shows "finished_at k env p j r + open_approval st' k \<le> open_approval st k"
  using run_job_cases [OF assms(2), of k] assms(1,3) job_approved_open [of "je_alnum env" now p j st]
  by (auto simp: finished_at_def)

lemma job_event_counted:
  assumes "event_env_ok alnum e" and "counted k s"
  shows "counted k (job_event_step alnum k e s)"
proof -
  obtain g n st where s: "s = (g, n, st)" by (cases s)
  show ?thesis
  proof (cases e)
    case (Approve now p j h)
    with assms s show ?thesis by (simp add: counted_def granted_at_def open_grant)
  next
    case (Run env exec now force p j)
    obtain r st' where r: "run_job env exec now force False p j st = (r, st')" by fastforce
    from run_job_counted [OF _ r, of k] assms s Run r show ?thesis by (auto simp: counted_def)
  next
    case (Due env exec now p job)
    show ?thesis
    proof (cases "job_approved (je_alnum env) now p (jd_id job) st")
      case True
      obtain r st' where r: "run_job env exec now False True p (jd_id job) st = (r, st')" by fastforce
      from run_job_counted [OF _ r job_approved_open [OF True], of k] assms s Due r True
      show ?thesis by (auto simp: counted_def)
    next
      case False
      with assms s Due show ?thesis
        by (auto simp: counted_def notify_due_def mark_mutating_due_notified_def open_approval_def)
    qed
  next
    case (ApproveAndRun env exec now run_now p j)
    show ?thesis
    proof (cases "\<exists>jf job. je_jobs env p = Some jf \<and> find_job jf j = Some job \<and> \<not> is_readonly job")
      case False
      with assms s ApproveAndRun show ?thesis
        by (auto simp: approve_and_run_def counted_def finished_at_def split: option.splits)
    next
      case True
      then obtain jf job where job: "je_jobs env p = Some jf" "find_job jf j = Some job" "\<not> is_readonly job"
        by blast
      define st1 where "st1 = grant_approval alnum now p j (ac_expires_hours (jd_approval job)) st"
      have c: "n + open_approval st1 k \<le> g + granted_at k alnum p j"
        using assms(2) s by (auto simp: st1_def open_grant granted_at_def counted_def)
      obtain r st' where r: "run_job env exec now True True p j st1 = (r, st')" by fastforce
      have u: "r \<notin> {UnknownProject, UnknownJob, ReadonlyJob}"
        using r job by (auto simp: run_job_def Let_def split: if_splits prod.splits bool.splits option.splits)
      have "approve_and_run env exec now run_now p j st = (if run_now then (r, st') else (Granted, st1))"
        using job r assms(1) ApproveAndRun by (simp add: approve_and_run_def st1_def)
      moreover have "finished_at k env p j r + open_approval st' k \<le> open_approval st1 k"
        using assms(1) ApproveAndRun r by (intro run_job_counted) (auto simp: st1_def open_grant)
      ultimately show ?thesis
        using c u s ApproveAndRun by (auto simp: counted_def finished_at_def)
    qed
  qed
qed

lemma job_events_counted:
  "list_all (event_env_ok alnum) evs \<Longrightarrow> counted k s \<Longrightarrow> counted k (fold (job_event_step alnum k) evs s)"
  by (induction evs arbitrary: s) (simp_all add: job_event_counted)

text \<open>
  C29: Whatever the sequence of approvals, runs, approve-and-runs and timer runs, by any number of
  processes one after another, a job that needs an approval has finished at most as often as
  an approval was given under its key, and a usable approval is one that no run has used.
\<close>

theorem one_run_per_approval:
  assumes "list_all (event_env_ok alnum) evs"
    and "fold (job_event_step alnum k) evs (0, 0, \<lparr>rs_approvals = [], rs_notified = [], rs_locks = []\<rparr>)
       = (granted, finished, st)"
  shows "finished + open_approval st k \<le> granted"
  using job_events_counted [OF assms(1), of k "(0, 0, \<lparr>rs_approvals = [], rs_notified = [], rs_locks = []\<rparr>)"]
    assms(2) by (simp add: counted_def open_approval_def)

definition demo_job :: job_def where
  "demo_job = \<lparr>jd_id = ''j'', jd_description = '''', jd_mode = ''mutating'', jd_enabled = True,
     jd_schedule = '''', jd_command = [''x''], jd_handler = '''', jd_timeout_seconds = 900,
     jd_notify = \<lparr>nc_on_success = True, nc_on_failure = True, nc_max_summary_chars = 1200\<rparr>,
     jd_approval = \<lparr>ac_required = True, ac_expires_hours = 48\<rparr>\<rparr>"

definition demo_job_env :: job_env where
  "demo_job_env = \<lparr>je_alnum = (\<lambda>u. True), je_enabled = True,
     je_jobs = (\<lambda>p. Some (Some \<lparr>jf_version = 1, jf_project = p, jf_defaults = [], jf_jobs = [demo_job]\<rparr>)),
     je_me = 1, je_writable = True\<rparr>"

theorem one_run_per_approval_witness:
  "\<exists>g n st. fold (job_event_step (\<lambda>u. True) (''p'', ''j''))
      [Approve 0 ''p'' ''j'' 48, Run demo_job_env (\<lambda>_. Some True) 1 False ''p'' ''j'',
       Run demo_job_env (\<lambda>_. Some True) 2 False ''p'' ''j'']
      (0, 0, \<lparr>rs_approvals = [], rs_notified = [], rs_locks = []\<rparr>) = (g, n, st)
    \<and> n + open_approval st (''p'', ''j'') \<le> g"
proof -
  have ok: "list_all (event_env_ok (\<lambda>u. True))
      [Approve 0 ''p'' ''j'' 48, Run demo_job_env (\<lambda>_. Some True) 1 False ''p'' ''j'',
       Run demo_job_env (\<lambda>_. Some True) 2 False ''p'' ''j'']"
    by (simp add: demo_job_env_def)
  obtain g n st where "fold (job_event_step (\<lambda>u. True) (''p'', ''j''))
      [Approve 0 ''p'' ''j'' 48, Run demo_job_env (\<lambda>_. Some True) 1 False ''p'' ''j'',
       Run demo_job_env (\<lambda>_. Some True) 2 False ''p'' ''j'']
      (0, 0, \<lparr>rs_approvals = [], rs_notified = [], rs_locks = []\<rparr>) = (g, n, st)"
    by (metis prod.exhaust)
  with one_run_per_approval [OF ok this] show ?thesis by blast
qed

text \<open>
  The key of an approval is the name of the project with its other characters replaced: an
  approval given for one project lets the job of the same id run in another.
\<close>

theorem approval_shared_by_slug:
  assumes "slug alnum p = slug alnum q" and "0 \<le> elapsed" and "elapsed < 3600"
  shows "job_approved alnum (now + elapsed) q j (grant_approval alnum now p j hours st)"
proof -
  have "3600 * 1 \<le> 3600 * (of_int (max 1 hours) :: rat)" by (rule mult_left_mono) simp_all
  with assms show ?thesis
    by (auto simp: job_approved_def get_approval_def grant_approval_def approval_valid_def record_key_def)
qed

theorem approval_shared_by_slug_witness:
  "job_approved (\<lambda>u. False) (0 + 60) ''shop_a'' ''deploy''
     (grant_approval (\<lambda>u. False) 0 ''shop/a'' ''deploy'' 48
        \<lparr>rs_approvals = [], rs_notified = [], rs_locks = []\<rparr>)"
  by (rule approval_shared_by_slug) (code_simp, simp_all)

section \<open>Several processes\<close>

text \<open>
  One job that needs an approval, and the places a process can be in while it runs it: the
  operations on the lock file that \<open>try_acquire_lock\<close> and \<open>release_lock\<close> consist of are
  separate steps.
\<close>

datatype place = Idle | Creating | Stating | Unlinking | Recreating | Holding | Executed | Releasing | Released

record job_world =
  jw_now :: secs
  jw_lock :: "(nat \<times> secs) option"
  jw_approval :: "job_approval option"
  jw_place :: "nat \<Rightarrow> place"
  jw_runs :: "nat list"
  jw_grants :: nat

datatype job_action =
    Tick secs | Grant job_approval | Start nat | Create nat | Stat nat | Unlink nat | Recreate nat
  | Execute nat | ReadLock nat | Remove nat | Consume nat

definition move :: "nat \<Rightarrow> place \<Rightarrow> job_world \<Rightarrow> job_world" where
  "move p q w = w\<lparr>jw_place := (jw_place w)(p := q)\<rparr>"

inductive job_step :: "job_world \<Rightarrow> job_action \<Rightarrow> job_world \<Rightarrow> bool" where
  tick: "0 \<le> d \<Longrightarrow> job_step w (Tick d) (w\<lparr>jw_now := jw_now w + d\<rparr>)"
| grant: "job_step w (Grant rec) (w\<lparr>jw_approval := Some (rec\<lparr>ja_consumed := False\<rparr>), jw_grants := Suc (jw_grants w)\<rparr>)"
| start: "jw_place w p = Idle \<Longrightarrow> jw_approval w = Some rec \<Longrightarrow> approval_valid (jw_now w) rec \<Longrightarrow>
     job_step w (Start p) (move p Creating w)"
| create: "jw_place w p = Creating \<Longrightarrow> jw_lock w = None \<Longrightarrow>
     job_step w (Create p) (move p Holding (w\<lparr>jw_lock := Some (p, jw_now w)\<rparr>))"
| create_exists: "jw_place w p = Creating \<Longrightarrow> jw_lock w = Some l \<Longrightarrow> job_step w (Create p) (move p Stating w)"
| stat_gone: "jw_place w p = Stating \<Longrightarrow> jw_lock w = None \<Longrightarrow> job_step w (Stat p) (move p Idle w)"
| stat_fresh: "jw_place w p = Stating \<Longrightarrow> jw_lock w = Some (q, t) \<Longrightarrow> jw_now w - t < stale_seconds \<Longrightarrow>
     job_step w (Stat p) (move p Idle w)"
| stat_stale: "jw_place w p = Stating \<Longrightarrow> jw_lock w = Some (q, t) \<Longrightarrow> \<not> jw_now w - t < stale_seconds \<Longrightarrow>
     job_step w (Stat p) (move p Unlinking w)"
| unlink: "jw_place w p = Unlinking \<Longrightarrow> job_step w (Unlink p) (move p Recreating (w\<lparr>jw_lock := None\<rparr>))"
| recreate: "jw_place w p = Recreating \<Longrightarrow> jw_lock w = None \<Longrightarrow>
     job_step w (Recreate p) (move p Holding (w\<lparr>jw_lock := Some (p, jw_now w)\<rparr>))"
| recreate_exists: "jw_place w p = Recreating \<Longrightarrow> jw_lock w = Some l \<Longrightarrow> job_step w (Recreate p) (move p Idle w)"
| execute: "jw_place w p = Holding \<Longrightarrow> job_step w (Execute p) (move p Executed (w\<lparr>jw_runs := p # jw_runs w\<rparr>))"
| read_mine: "jw_place w p = Executed \<Longrightarrow> jw_lock w = Some (p, t) \<Longrightarrow> job_step w (ReadLock p) (move p Releasing w)"
| read_other: "jw_place w p = Executed \<Longrightarrow> jw_lock w = Some (q, t) \<Longrightarrow> q \<noteq> p \<Longrightarrow>
     job_step w (ReadLock p) (move p Released w)"
| read_gone: "jw_place w p = Executed \<Longrightarrow> jw_lock w = None \<Longrightarrow> job_step w (ReadLock p) (move p Released w)"
| remove: "jw_place w p = Releasing \<Longrightarrow> job_step w (Remove p) (move p Released (w\<lparr>jw_lock := None\<rparr>))"
| consume: "jw_place w p = Released \<Longrightarrow>
     job_step w (Consume p) (move p Idle (w\<lparr>jw_approval := map_option (ja_consumed_update (\<lambda>_. True)) (jw_approval w)\<rparr>))"

code_pred (modes: i \<Rightarrow> i \<Rightarrow> o \<Rightarrow> bool) job_step .

definition job_world_start :: "secs \<Rightarrow> job_world" where
  "job_world_start t = \<lparr>jw_now = t, jw_lock = None, jw_approval = None, jw_place = (\<lambda>_. Idle), jw_runs = [], jw_grants = 0\<rparr>"

inductive job_run :: "job_world \<Rightarrow> job_action list \<Rightarrow> job_world \<Rightarrow> bool" where
  job_run_Nil: "job_run w [] w"
| job_run_Cons: "job_step w a w' \<Longrightarrow> job_run w' acts w'' \<Longrightarrow> job_run w (a # acts) w''"

inductive_simps job_run_simps: "job_run w [] w'" "job_run w (a # acts) w'"

inductive_simps job_step_simps:
  "job_step w (Tick d) w'" "job_step w (Grant rec) w'" "job_step w (Start p) w'" "job_step w (Create p) w'"
  "job_step w (Stat p) w'" "job_step w (Unlink p) w'" "job_step w (Recreate p) w'" "job_step w (Execute p) w'"
  "job_step w (ReadLock p) w'" "job_step w (Remove p) w'"

definition inside :: "job_world \<Rightarrow> nat \<Rightarrow> bool" where
  "inside w p \<longleftrightarrow> jw_place w p \<in> {Holding, Executed, Releasing}"

definition demo_approval :: job_approval where
  "demo_approval = \<lparr>ja_project = ''p'', ja_job_id = ''j'', ja_approved_until = 172800, ja_consumed = False\<rparr>"

text \<open>While no lock can be stale, a process inside holds the lock and nobody takes it over.\<close>

definition lock_times :: "secs \<Rightarrow> job_world \<Rightarrow> bool" where
  "lock_times t0 w \<longleftrightarrow> t0 \<le> jw_now w \<and> (\<forall>q t. jw_lock w = Some (q, t) \<longrightarrow> t0 \<le> t)"

definition lock_owned :: "job_world \<Rightarrow> bool" where
  "lock_owned w \<longleftrightarrow> (\<forall>p. (inside w p \<longrightarrow> map_option fst (jw_lock w) = Some p)
     \<and> jw_place w p \<noteq> Unlinking \<and> jw_place w p \<noteq> Recreating)"

lemma lock_ownedD: "lock_owned w \<Longrightarrow> inside w p \<Longrightarrow> map_option fst (jw_lock w) = Some p"
  unfolding lock_owned_def by blast

lemma lock_owned_place: "lock_owned w \<Longrightarrow> jw_place w p \<noteq> Unlinking" "lock_owned w \<Longrightarrow> jw_place w p \<noteq> Recreating"
  unfolding lock_owned_def by blast+

lemma lock_owned_upd [simp]:
  "lock_owned (w\<lparr>jw_now := t\<rparr>) = lock_owned w" "lock_owned (w\<lparr>jw_approval := a, jw_grants := n\<rparr>) = lock_owned w"
  by (simp_all add: lock_owned_def inside_def)

lemma lock_owned_move:
  assumes "lock_owned w" and "jw_place w0 = jw_place w" and "q \<noteq> Unlinking" and "q \<noteq> Recreating"
    and "q \<in> {Holding, Executed, Releasing} \<Longrightarrow> map_option fst (jw_lock w0) = Some p"
    and "jw_lock w0 = jw_lock w \<or> (\<forall>r. inside w r \<longrightarrow> r = p)"
  shows "lock_owned (move p q w0)"
  unfolding lock_owned_def
proof
  fix r
  let ?w = "move p q w0"
  have l: "jw_lock ?w = jw_lock w0" by (simp add: move_def)
  show "(inside ?w r \<longrightarrow> map_option fst (jw_lock ?w) = Some r) \<and> jw_place ?w r \<noteq> Unlinking \<and> jw_place ?w r \<noteq> Recreating"
  proof (cases "r = p")
    case True
    with assms(3-5) l show ?thesis by (simp add: move_def inside_def)
  next
    case False
    then have e: "jw_place ?w r = jw_place w r" "inside ?w r = inside w r"
      using assms(2) by (simp_all add: move_def inside_def)
    have "inside w r \<Longrightarrow> map_option fst (jw_lock w) = Some r \<and> jw_lock w0 = jw_lock w"
      using lock_ownedD [OF assms(1)] assms(6) False by blast
    then show ?thesis using lock_owned_place [OF assms(1)] e l by simp
  qed
qed

lemma step_now: "job_step w a w' \<Longrightarrow> jw_now w \<le> jw_now w'"
  by (induction rule: job_step.induct) (auto simp: move_def)

lemma step_lock_times: "job_step w a w' \<Longrightarrow> lock_times t0 w \<Longrightarrow> lock_times t0 w'"
  by (induction rule: job_step.induct) (auto simp: move_def lock_times_def)

lemma step_lock_owned:
  "job_step w a w' \<Longrightarrow> lock_times t0 w \<Longrightarrow> jw_now w - t0 < stale_seconds \<Longrightarrow> lock_owned w \<Longrightarrow> lock_owned w'"
proof (induction rule: job_step.induct)
  case (stat_stale w p q t)
  then have "t0 \<le> t" by (auto simp: lock_times_def)
  with stat_stale show ?case by simp
next
  case (remove w p)
  then have "map_option fst (jw_lock w) = Some p" by (intro lock_ownedD) (simp_all add: inside_def)
  with remove show ?case by (intro lock_owned_move [where w = w]) (auto dest: lock_ownedD)
next
  case (create w p)
  then show ?case by (intro lock_owned_move [where w = w]) (auto dest: lock_ownedD)
next
  case (execute w p)
  then have "map_option fst (jw_lock w) = Some p" by (intro lock_ownedD) (simp_all add: inside_def)
  with execute show ?case by (intro lock_owned_move [where w = w]) auto
qed (auto intro!: lock_owned_move dest: lock_owned_place)

lemma lock_run:
  "job_run w acts w' \<Longrightarrow> lock_times t0 w \<Longrightarrow> (jw_now w - t0 < stale_seconds \<Longrightarrow> lock_owned w) \<Longrightarrow>
     jw_now w' - t0 < stale_seconds \<Longrightarrow> lock_owned w' \<and> jw_now w \<le> jw_now w'"
proof (induction rule: job_run.induct)
  case (job_run_Cons w a w' acts w'')
  have le: "jw_now w \<le> jw_now w'" by (rule step_now) (rule job_run_Cons.hyps)
  have "lock_owned w'" if "jw_now w' - t0 < stale_seconds"
  proof (rule step_lock_owned [OF job_run_Cons.hyps(1) job_run_Cons.prems(1)])
    show "jw_now w - t0 < stale_seconds" using that le by simp
    then show "lock_owned w" by (rule job_run_Cons.prems(2))
  qed
  with job_run_Cons.IH step_lock_times [OF job_run_Cons.hyps(1) job_run_Cons.prems(1)] job_run_Cons.prems(3) le
  show ?case by fastforce
qed simp

text \<open>
  C33: In a run shorter than the two hours after which a lock counts as stale, two processes are
  never between taking and releasing the lock of a job at the same time.
\<close>

theorem lock_excludes:
  assumes "job_run (job_world_start t0) acts w" and "jw_now w - t0 < stale_seconds"
    and "inside w p" and "inside w q"
  shows "p = q"
proof -
  have "lock_times t0 (job_world_start t0)" "lock_owned (job_world_start t0)"
    by (simp_all add: lock_times_def lock_owned_def job_world_start_def inside_def)
  then have "lock_owned w" using lock_run [OF assms(1)] assms(2) by blast
  from lock_ownedD [OF this assms(3)] lock_ownedD [OF this assms(4)] show ?thesis by simp
qed

theorem lock_excludes_witness:
  "\<exists>w. job_run (job_world_start 0) [Grant demo_approval, Start 1, Create 1] w \<and> inside w 1
    \<and> (\<forall>q. inside w q \<longrightarrow> 1 = q)"
proof -
  obtain w where w: "job_run (job_world_start 0) [Grant demo_approval, Start 1, Create 1] w"
      "jw_now w - 0 < stale_seconds" "inside w 1"
    by (simp add: job_run_simps job_step_simps job_world_start_def move_def approval_valid_def demo_approval_def
        inside_def stale_seconds_def)
  from lock_excludes [OF w] w show ?thesis by blast
qed

text \<open>
  The lock does not cover the approval: a process that found the approval while another was
  executing takes the lock between the release and the consumption of the other, and one
  approval has started the job twice.
\<close>

theorem approval_used_twice:
  "\<exists>acts w. job_run (job_world_start 0) acts w \<and> jw_grants w = 1 \<and> jw_runs w = [2, 1]
     \<and> jw_now w = 0 \<and> inside w 2"
proof -
  have "\<exists>w. job_run (job_world_start 0)
      [Grant demo_approval, Start 1, Create 1, Execute 1, Start 2, ReadLock 1, Remove 1, Create 2, Execute 2] w
    \<and> jw_grants w = 1 \<and> jw_runs w = [2, 1] \<and> jw_now w = 0 \<and> inside w 2"
    by (simp add: job_run_simps job_step_simps job_world_start_def move_def approval_valid_def demo_approval_def inside_def)
  then show ?thesis by blast
qed

text \<open>
  Taking over a stale lock is two operations, and the second process that saw the lock stale
  removes the new lock of the first: both then hold it.
\<close>

theorem takeover_breaks_lock:
  "\<exists>acts w. job_run (job_world_start 0) acts w \<and> jw_grants w = 1 \<and> inside w 2 \<and> inside w 3"
proof -
  have "\<exists>w. job_run (job_world_start 0)
      [Grant demo_approval, Start 1, Create 1, Tick 7200, Start 2, Start 3, Create 2, Create 3, Stat 2, Stat 3,
       Unlink 2, Recreate 2, Unlink 3, Recreate 3] w
    \<and> jw_grants w = 1 \<and> inside w 2 \<and> inside w 3"
    by (simp add: job_run_simps job_step_simps job_world_start_def move_def approval_valid_def demo_approval_def
        inside_def stale_seconds_def)
  then show ?thesis by blast
qed

section \<open>Failure streaks\<close>

text \<open>A failure is the time, whether a push would succeed, and the audit path.\<close>

fun record_failures :: "os_env \<Rightarrow> string \<Rightarrow> string \<Rightarrow> (secs \<times> bool \<times> string) list \<Rightarrow> streaks \<Rightarrow> (int \<times> bool) list" where
  "record_failures env p j [] data = []"
| "record_failures env p j ((now, pushed, audit) # fs) data =
     (case record_job_outcome env now pushed p j False audit data of
        (r, data) \<Rightarrow> r # record_failures env p j fs data)"

definition streak_of :: "streaks \<Rightarrow> string \<Rightarrow> int" where
  "streak_of data k = (case dget data k of Some e \<Rightarrow> sk_streak e | None \<Rightarrow> 0)"

lemma record_failure:
  "fst (record_job_outcome env now pushed p j False audit data) =
      (streak_of data (job_key_text p j) + 1, streak_of data (job_key_text p j) + 1 = alert_threshold env \<and> pushed)
   \<and> streak_of (snd (record_job_outcome env now pushed p j False audit data)) (job_key_text p j)
     = streak_of data (job_key_text p j) + 1"
  unfolding record_job_outcome_def streak_of_def [symmetric] Let_def by (auto simp: streak_of_def)

lemma record_failures_from:
  "streak_of data (job_key_text p j) = s \<Longrightarrow> record_failures env p j fs data =
     map (\<lambda>(i, now, pushed, audit). (i, i = alert_threshold env \<and> pushed)) (zip [s + 1..s + int (length fs)] fs)"
proof (induction fs arbitrary: data s)
  case (Cons f fs)
  obtain now pushed audit where f: "f = (now, pushed, audit)" by (cases f)
  have l: "[s + 1..s + int (length (f # fs))] = (s + 1) # [s + 1 + 1..s + 1 + int (length fs)]"
    by (subst upto.simps) (simp add: algebra_simps)
  note r = record_failure [of env now pushed p j audit data, unfolded Cons.prems]
  from Cons.IH [OF r [THEN conjunct2]] r l show ?case by (simp add: f case_prod_beta)
qed simp

text \<open>
  After a success (or on a new job) the failures in a row are counted from one, and the owner
  is alerted exactly by the failure whose number is the threshold: if that push fails, no
  later failure of the streak is reported.
\<close>

theorem streak_alerts_once:
  "record_failures env p j fs (snd (record_job_outcome env now pushed p j True audit data)) =
     map (\<lambda>(i, now, pushed, audit). (i, i = alert_threshold env \<and> pushed)) (zip [1..int (length fs)] fs)"
  using record_failures_from [of "snd (record_job_outcome env now pushed p j True audit data)" p j 0 env fs]
  by (simp add: record_job_outcome_def streak_of_def Let_def)

end
