(* ===== verification/Read_State.thy ===== *)
theory Read_State
  imports Text_Lines
begin

text \<open>
  The files a session has read (\<open>core/read_state.py\<close>): an edit of an existing file is let
  through only when the session, or the session that delegated to it, has read the file in
  full and the file has not changed since.  Sessions and entries are bounded; the entries of
  a session are an ordered dictionary, the least recently used first.

  The file system is the record \<open>file_sys\<close> of what the calls of \<open>pathlib\<close> return, the hash is
  that of \<open>py_lib\<close>, and the audit session key of the execution context is an argument.
  \<open>tool_read_file\<close> is the part of the tool in \<open>tools/file_io.py\<close> that selects lines and
  records the read.
\<close>

section \<open>State\<close>

definition max_entries :: int where "max_entries = 100"
definition max_read_sessions :: nat where "max_read_sessions = 512"
definition max_content_bytes :: nat where "max_content_bytes = 25 * 1024 * 1024"

record read_entry =
  re_path :: string
  re_mtime_ns :: int
  re_size :: int
  re_content_hash :: string
  re_read_turn :: nat
  re_is_partial_view :: bool

record file_stat =
  st_mtime_ns :: int
  st_size :: int

record file_sys =
  fs_resolve :: "string \<Rightarrow> string"
  fs_exists :: "string \<Rightarrow> bool"
  fs_is_file :: "string \<Rightarrow> bool"
  fs_stat :: "string \<Rightarrow> string + file_stat"  \<comment> \<open>the text of the \<open>OSError\<close>, or the status\<close>
  fs_read_bytes :: "string \<Rightarrow> string option"

record read_states =
  rd_by_session :: "(string, (string, read_entry) dict) dict"
  rd_recent_edits :: "(string, string list) dict"

definition read_before_edit_enabled :: "os_env \<Rightarrow> bool" where
  "read_before_edit_enabled env = env_truthy env ''BUTLER_READ_BEFORE_EDIT'' True"

definition read_state_max_entries :: "os_env \<Rightarrow> nat" where
  "read_state_max_entries env = nat (int_env env ''BUTLER_READ_STATE_MAX_ENTRIES'' max_entries 10)"

text \<open>Oldest first, until there is room for \<open>keep\<close>.\<close>

fun evict_oldest_session :: "string \<Rightarrow> (string, 'v) dict \<Rightarrow> (string, 'v) dict" where
  "evict_oldest_session keep [] = []"
| "evict_oldest_session keep (x # xs) =
     (if max_read_sessions \<le> length (x # xs) \<and> keep \<notin> set (dkeys (x # xs))
      then evict_oldest_session keep xs else x # xs)"

fun evict_lru :: "nat \<Rightarrow> (string, 'v) dict \<Rightarrow> (string, 'v) dict" where
  "evict_lru limit [] = []"
| "evict_lru limit (x # xs) = (if limit < length (x # xs) then evict_lru limit xs else x # xs)"

text \<open>\<open>move_to_end(k)\<close> and an assignment.\<close>

definition put_last :: "string \<Rightarrow> 'v \<Rightarrow> (string, 'v) dict \<Rightarrow> (string, 'v) dict" where
  "put_last k v d = dpop k d @ [(k, v)]"

definition read_session_key :: "string \<Rightarrow> string option \<Rightarrow> string" where
  "read_session_key audit explicit = (case explicit of
       Some k \<Rightarrow> if strip k \<noteq> [] then strip k else audit
     | None \<Rightarrow> audit)"

definition reset_read_state :: "string \<Rightarrow> string option \<Rightarrow> read_states \<Rightarrow> read_states" where
  "reset_read_state audit session_key st = (case session_key of
       None \<Rightarrow> \<lparr>rd_by_session = [], rd_recent_edits = []\<rparr>
     | Some k \<Rightarrow> (let sk = read_session_key audit (Some k) in
         \<lparr>rd_by_session = dpop sk (rd_by_session st), rd_recent_edits = dpop sk (rd_recent_edits st)\<rparr>))"

section \<open>Recording\<close>

definition record_read_state :: "os_env \<Rightarrow> py_lib \<Rightarrow> file_sys \<Rightarrow> string \<Rightarrow> string option \<Rightarrow> string \<Rightarrow> file_stat
    \<Rightarrow> string \<Rightarrow> bool \<Rightarrow> read_states \<Rightarrow> read_states" where
  "record_read_state env lib fs audit session_key path stat content is_partial st =
     (let is_partial = (is_partial \<or> max_content_bytes < length content);
          path_key = fs_resolve fs path;
          sk = read_session_key audit session_key;
          sessions = (if dget (rd_by_session st) sk = None
                      then dset sk [] (evict_oldest_session sk (rd_by_session st)) else rd_by_session st);
          store = (case dget sessions sk of Some d \<Rightarrow> d | None \<Rightarrow> []);
          entry = \<lparr>re_path = path_key, re_mtime_ns = st_mtime_ns stat, re_size = st_size stat,
                   re_content_hash = lib_sha256 lib content, re_read_turn = length store + 1,
                   re_is_partial_view = is_partial\<rparr>
      in st\<lparr>rd_by_session :=
           dset sk (evict_lru (read_state_max_entries env) (put_last path_key entry store)) sessions\<rparr>)"

definition record_partial_view_path :: "os_env \<Rightarrow> py_lib \<Rightarrow> file_sys \<Rightarrow> string \<Rightarrow> string option \<Rightarrow> string
    \<Rightarrow> read_states \<Rightarrow> read_states" where
  "record_partial_view_path env lib fs audit session_key path st =
     (let resolved = fs_resolve fs path in
      case fs_stat fs resolved of
        Inl _ \<Rightarrow> st
      | Inr stat \<Rightarrow> record_read_state env lib fs audit session_key resolved stat [] True st)"

definition record_edit_path :: "file_sys \<Rightarrow> string \<Rightarrow> string option \<Rightarrow> string \<Rightarrow> read_states \<Rightarrow> read_states" where
  "record_edit_path fs audit session_key path st =
     (let sk = read_session_key audit session_key;
          path_key = fs_resolve fs path;
          edits = (if dget (rd_recent_edits st) sk = None
                   then evict_oldest_session sk (rd_recent_edits st) else rd_recent_edits st);
          recent = (case dget edits sk of Some l \<Rightarrow> l | None \<Rightarrow> [])
      in st\<lparr>rd_recent_edits := dset sk (last_n 5 (remove1 path_key recent @ [path_key])) edits\<rparr>)"

text \<open>\<open>list[-limit:]\<close>: a limit of zero is the whole list, a negative one drops from the front.\<close>

definition get_recent_edit_paths :: "string \<Rightarrow> string option \<Rightarrow> int \<Rightarrow> read_states \<Rightarrow> string list" where
  "get_recent_edit_paths audit session_key limit st =
     (let l = (case dget (rd_recent_edits st) (read_session_key audit session_key) of Some l \<Rightarrow> l | None \<Rightarrow> [])
      in if limit > 0 then last_n (nat limit) l else drop (nat (- limit)) l)"

section \<open>Looking up\<close>

text \<open>The text before the first occurrence of a marker.\<close>

fun text_before :: "string \<Rightarrow> string \<Rightarrow> string option" where
  "text_before p [] = (if p = [] then Some [] else None)"
| "text_before p (c # s) = (if prefix p (c # s) then Some [] else map_option (Cons c) (text_before p s))"

definition parent_delegate_session_key :: "string \<Rightarrow> string option" where
  "parent_delegate_session_key session_key = (let sk = strip session_key in
     case text_before ''::delegate::'' sk of
       None \<Rightarrow> None
     | Some p \<Rightarrow> if strip p \<noteq> [] \<and> strip p \<noteq> sk then Some (strip p) else None)"

definition lookup_read_state :: "string \<Rightarrow> string \<Rightarrow> read_states \<Rightarrow> read_entry option \<times> read_states" where
  "lookup_read_state path_key sk st = (case dget (rd_by_session st) sk of
       None \<Rightarrow> (None, st)
     | Some store \<Rightarrow> (case dget store path_key of
         None \<Rightarrow> (None, st)
       | Some entry \<Rightarrow> (Some entry, st\<lparr>rd_by_session := dset sk (put_last path_key entry store) (rd_by_session st)\<rparr>)))"

definition get_read_state :: "file_sys \<Rightarrow> string \<Rightarrow> string option \<Rightarrow> string \<Rightarrow> read_states
    \<Rightarrow> read_entry option \<times> read_states" where
  "get_read_state fs audit session_key path st =
     (let path_key = fs_resolve fs path; sk = read_session_key audit session_key in
      case lookup_read_state path_key sk st of
        (Some entry, st) \<Rightarrow> (Some entry, st)
      | (None, st) \<Rightarrow> (case parent_delegate_session_key sk of
            Some parent \<Rightarrow> lookup_read_state path_key parent st
          | None \<Rightarrow> (None, st)))"

section \<open>The guard\<close>

definition stat_matches :: "read_entry \<Rightarrow> file_stat \<Rightarrow> bool" where
  "stat_matches entry current \<longleftrightarrow> (re_size entry, re_mtime_ns entry) = (st_size current, st_mtime_ns current)"

definition read_state_hint :: "string \<Rightarrow> string" where
  "read_state_hint code = (case map_of
     [(''READ_STATE_REQUIRED'', (''Call read_file on this path first, then patch/write with content copied exactly from that output (whitespace and quotes matter).'')),
      (''READ_STATE_PARTIAL_VIEW'', (''read_file the full file without offset/limit, then edit.'')),
      (''READ_STATE_STALE'', (''File changed since read_file '' @ bytes [226, 128, 148] @ '' read_file again, then retry patch.'')),
      (''READ_STATE_NOT_FILE'', ''read-before-edit applies to regular files only.''),
      (''READ_STATE_STAT_FAILED'', (''Could not stat file; verify path with list_directory.''))] code of
       Some h \<Rightarrow> h | None \<Rightarrow> [])"

definition guard_payload :: "string \<Rightarrow> string \<Rightarrow> string \<Rightarrow> (string, jval) dict \<Rightarrow> jval" where
  "guard_payload code error path extra =
     (let payload = [(''ok'', JBool False), (''error'', JStr error), (''code'', JStr code), (''path'', JStr path)];
          payload = (if read_state_hint code \<noteq> [] then dset ''hint'' (JStr (read_state_hint code)) payload else payload)
      in JObj (fold (\<lambda>(k, v). dset k v) extra payload))"

text \<open>\<open>None\<close> lets the edit through.\<close>

definition check_entry :: "py_lib \<Rightarrow> file_sys \<Rightarrow> string \<Rightarrow> read_entry option \<Rightarrow> jval option" where
  "check_entry lib fs resolved entry = (case entry of
       None \<Rightarrow> Some (guard_payload ''READ_STATE_REQUIRED'' (bytes [229, 191, 133, 233, 161, 187, 229, 133, 136, 232, 176, 131, 231, 148, 168] @ '' read_file '' @ bytes [232, 175, 187, 229, 143, 150, 232, 175, 165, 230, 150, 135, 228, 187, 182, 229, 144, 142, 229, 134, 141, 231, 188, 150, 232, 190, 145]) resolved [])
     | Some e \<Rightarrow>
         if re_is_partial_view e
         then Some (guard_payload ''READ_STATE_PARTIAL_VIEW''
           (bytes [229, 189, 147, 229, 137, 141, 228, 184, 186, 233, 131, 168, 229, 136, 134, 232, 167, 134, 229, 155, 190, 239, 188, 136, 229, 166, 130, 232, 135, 170, 229, 138, 168, 230, 179, 168, 229, 133, 165, 230, 145, 152, 232, 166, 129, 239, 188, 137, 239, 188, 140, 232, 175, 183] @ '' read_file '' @ bytes [229, 174, 140, 230, 149, 180, 232, 175, 187, 229, 143, 150, 229, 144, 142, 229, 134, 141, 231, 188, 150, 232, 190, 145]) resolved [])
         else case fs_stat fs resolved of
           Inl exc \<Rightarrow> Some (guard_payload ''READ_STATE_STAT_FAILED'' exc resolved [])
         | Inr current \<Rightarrow>
             if stat_matches e current then None
             else if (case fs_read_bytes fs resolved of
                        Some disk \<Rightarrow> \<not> re_is_partial_view e \<and> lib_sha256 lib disk = re_content_hash e
                      | None \<Rightarrow> False) then None
             else Some (guard_payload ''READ_STATE_STALE''
               (bytes [230, 150, 135, 228, 187, 182, 229, 156, 168] @ '' read_file '' @ bytes [228, 185, 139, 229, 144, 142, 229, 183, 178, 232, 162, 171, 229, 164, 150, 233, 131, 168, 228, 191, 174, 230, 148, 185, 239, 188, 140, 232, 175, 183, 233, 135, 141, 230, 150, 176] @ '' read_file '' @ bytes [229, 144, 142, 229, 134, 141, 231, 188, 150, 232, 190, 145]) resolved
               [(''read_mtime_ns'', JInt (re_mtime_ns e)), (''current_mtime_ns'', JInt (st_mtime_ns current))]))"

definition check_read_state_for_resolved :: "os_env \<Rightarrow> py_lib \<Rightarrow> file_sys \<Rightarrow> string \<Rightarrow> string \<Rightarrow> read_states
    \<Rightarrow> jval option \<times> read_states" where
  "check_read_state_for_resolved env lib fs audit resolved st =
     (if \<not> read_before_edit_enabled env then (None, st)
      else if \<not> fs_exists fs resolved then (None, st)
      else if \<not> fs_is_file fs resolved
      then (Some (guard_payload ''READ_STATE_NOT_FILE'' (''read-before-edit '' @ bytes [228, 187, 133, 233, 128, 130, 231, 148, 168, 228, 186, 142, 230, 153, 174, 233, 128, 154, 230, 150, 135, 228, 187, 182]) resolved []), st)
      else case get_read_state fs audit None resolved st of
        (entry, st) \<Rightarrow> (check_entry lib fs resolved entry, st))"

text \<open>\<open>safety\<close> is \<open>check_tool_path\<close> of \<open>tools/path_safety.py\<close>: whether the path is allowed, and it resolved.\<close>

definition require_read_before_edit :: "os_env \<Rightarrow> py_lib \<Rightarrow> file_sys \<Rightarrow> (string \<Rightarrow> bool \<Rightarrow> bool \<times> string) \<Rightarrow> string
    \<Rightarrow> string \<Rightarrow> bool \<Rightarrow> read_states \<Rightarrow> jval option \<times> read_states" where
  "require_read_before_edit env lib fs safety audit path for_write st =
     (if \<not> read_before_edit_enabled env then (None, st)
      else case safety path for_write of
        (False, _) \<Rightarrow> (None, st)
      | (True, resolved) \<Rightarrow> check_read_state_for_resolved env lib fs audit resolved st)"

section \<open>Rebuilding from a transcript\<close>

text \<open>One of the first three lines of a tool result; \<open>candidate\<close> is what stands before a colon.\<close>

definition line_candidate :: "string \<Rightarrow> string" where
  "line_candidate line = (case text_before '':'' (strip line) of
       Some p \<Rightarrow> strip p | None \<Rightarrow> strip line)"

definition rehydrate_line :: "os_env \<Rightarrow> py_lib \<Rightarrow> file_sys \<Rightarrow> string \<Rightarrow> string option \<Rightarrow> string
    \<Rightarrow> nat \<times> read_states \<Rightarrow> nat \<times> read_states" where
  "rehydrate_line env lib fs audit session_key line s = (case s of (n, st) \<Rightarrow>
     (let candidate = line_candidate line in
      if (prefix ''/'' candidate \<or> prefix ''.'' candidate) \<and> fs_is_file fs candidate
      then (case (fs_read_bytes fs candidate, fs_stat fs candidate) of
          (Some data, Inr stat) \<Rightarrow>
            (n + 1, record_read_state env lib fs audit session_key candidate stat (take max_content_bytes data) False st)
        | _ \<Rightarrow> (n, st))
      else (n, st)))"

definition rehydrate_message :: "os_env \<Rightarrow> py_lib \<Rightarrow> file_sys \<Rightarrow> string \<Rightarrow> string option \<Rightarrow> (string, jval) dict
    \<Rightarrow> nat \<times> read_states \<Rightarrow> nat \<times> read_states" where
  "rehydrate_message env lib fs audit session_key msg s =
     (if jget msg ''role'' \<noteq> JStr ''tool'' then s
      else (let content = str_field msg ''content'' '''' in
        if \<not> contains ''read_file'' (lower content) \<and> \<not> prefix ''/'' (strip content) then s
        else fold (rehydrate_line env lib fs audit session_key) (take 3 (splitlines content)) s))"

definition rehydrate_read_state_from_messages :: "os_env \<Rightarrow> py_lib \<Rightarrow> file_sys \<Rightarrow> string \<Rightarrow> string option
    \<Rightarrow> (string, jval) dict list \<Rightarrow> read_states \<Rightarrow> nat \<times> read_states" where
  "rehydrate_read_state_from_messages env lib fs audit session_key messages st =
     fold (rehydrate_message env lib fs audit session_key) messages (0, st)"

section \<open>Summary and the reading tool\<close>

record read_summary =
  sm_tracked_files :: nat
  sm_paths :: "string list"
  sm_partial_views :: nat

definition read_state_summary :: "string \<Rightarrow> string option \<Rightarrow> read_states \<Rightarrow> read_summary" where
  "read_state_summary audit session_key st =
     (case dget (rd_by_session st) (read_session_key audit session_key) of
        None \<Rightarrow> \<lparr>sm_tracked_files = 0, sm_paths = [], sm_partial_views = 0\<rparr>
      | Some store \<Rightarrow> \<lparr>sm_tracked_files = length store, sm_paths = take 5 (dkeys store),
          sm_partial_views = length (filter (re_is_partial_view \<circ> snd) store)\<rparr>)"

definition max_read_file_lines :: int where "max_read_file_lines = 1000"

datatype read_reply =
    Bad_Limit | Bad_Offset | Read_Error string | File_Summary string | Lines_Read "string list"

text \<open>
  \<open>_tool_read_file\<close> with integer arguments: \<open>source\<close> is what \<open>_read_regular_file_bytes\<close> returns
  and \<open>threshold\<close> the length from which a file is summarised.
\<close>

definition tool_read_file :: "os_env \<Rightarrow> py_lib \<Rightarrow> file_sys \<Rightarrow> string \<Rightarrow> string \<Rightarrow> nat
    \<Rightarrow> string + string \<times> string \<times> file_stat \<Rightarrow> string \<Rightarrow> int \<Rightarrow> int \<Rightarrow> read_states \<Rightarrow> read_reply \<times> read_states" where
  "tool_read_file env lib fs audit session threshold source path off lines_max st =
     (if lines_max < 1 \<or> max_read_file_lines < lines_max then (Bad_Limit, st)
      else if off < 1 then (Bad_Offset, st)
      else case source of
        Inl error \<Rightarrow> (Read_Error error, st)
      | Inr (data, p, stat) \<Rightarrow>
          (let lines = splitlines data in
           if off = 1 \<and> threshold < length lines \<and> 100 \<le> lines_max then (File_Summary path, st)
           else (Lines_Read (take (nat lines_max) (drop (nat (off - 1)) lines)),
                 record_read_state env lib fs audit
                   (if strip session = [] then None else Some (strip session)) p stat data False st)))"

end
