(* ===== verification/Read_State_Props.thy ===== *)
theory Read_State_Props
  imports Read_State
begin

text \<open>
  The read-before-edit guard over runs of a session.  The bounded, evicting tables refine the
  map of everything that was ever read: an edit is let through only on a full read whose
  status or content still is that of the file.  The tables keep their bounds.  The
  exceptions are stated too: what a partial read, and a path in a transcript, record.
\<close>

section \<open>Tables\<close>

lemma dget_put_last [simp]: "dget (put_last k v d) k' = (if k' = k then Some v else dget d k')"
  by (simp add: put_last_def map_add_def split: option.splits)

lemma dwf_put_last [simp]: "dwf d \<Longrightarrow> dwf (put_last k v d)"
  by (auto simp: put_last_def dwf_def dkeys_dpop distinct_removeAll)

lemma evict_lru_last_n: "evict_lru n d = last_n n d"
  by (induction d) (auto simp: last_n_def Suc_diff_le)

lemma evict_session_suffix: "suffix (evict_oldest_session keep d) d"
  by (induction d) (auto intro: suffix_ConsI)

lemma dwf_suffix: "suffix d' d \<Longrightarrow> dwf d \<Longrightarrow> dwf d'"
  by (auto simp: suffix_def dwf_def)

lemma dget_suffix: "suffix d' d \<Longrightarrow> dwf d \<Longrightarrow> dget d' k = Some v \<Longrightarrow> dget d k = Some v"
  by (intro dwf_dget) (auto simp: suffix_def dest: map_of_SomeD)

lemma suffix_last_n: "suffix (last_n n d) d"
  by (simp add: last_n_def suffix_drop)

lemmas dwf_last_n = dwf_suffix [OF suffix_last_n]
lemmas dget_last_n = dget_suffix [OF suffix_last_n]
lemmas dwf_evict = dwf_suffix [OF evict_session_suffix]
lemmas dget_evict = dget_suffix [OF evict_session_suffix]

lemma length_evict: "keep \<notin> set (dkeys d) \<Longrightarrow> length (evict_oldest_session keep d) < max_read_sessions"
  by (induction d) (auto simp: max_read_sessions_def)

lemma length_put_last: "length (put_last k v d) \<le> Suc (length d)"
  using length_dpop_le [of k d] by (simp add: put_last_def)

section \<open>Runs\<close>

datatype read_event =
    Read file_sys string "string option" string file_stat string bool
  | Partial_View file_sys string "string option" string
  | Edited file_sys string "string option" string
  | Check file_sys string string
  | Reset string "string option"

fun read_event_step :: "os_env \<Rightarrow> py_lib \<Rightarrow> read_event \<Rightarrow> read_states \<Rightarrow> read_states" where
  "read_event_step env lib (Read fs audit sk path stat content partial) st =
     record_read_state env lib fs audit sk path stat content partial st"
| "read_event_step env lib (Partial_View fs audit sk path) st = record_partial_view_path env lib fs audit sk path st"
| "read_event_step env lib (Edited fs audit sk path) st = record_edit_path fs audit sk path st"
| "read_event_step env lib (Check fs audit path) st = snd (check_read_state_for_resolved env lib fs audit path st)"
| "read_event_step env lib (Reset audit sk) st = reset_read_state audit sk st"

text \<open>
  The specification: for every session and file the status, the content and whether it was
  partial of its latest read, since the last reset of the session; nothing is forgotten.
\<close>

type_synonym read_log = "string \<Rightarrow> string \<Rightarrow> (file_stat \<times> string \<times> bool) option"

definition log_read :: "string \<Rightarrow> string \<Rightarrow> file_stat \<times> string \<times> bool \<Rightarrow> read_log \<Rightarrow> read_log" where
  "log_read sk key r rl = rl(sk := (rl sk)(key \<mapsto> r))"

fun log_step :: "read_event \<Rightarrow> read_log \<Rightarrow> read_log" where
  "log_step (Read fs audit sk path stat content partial) rl =
     log_read (read_session_key audit sk) (fs_resolve fs path)
       (stat, content, partial \<or> max_content_bytes < length content) rl"
| "log_step (Partial_View fs audit sk path) rl = (case fs_stat fs (fs_resolve fs path) of
       Inl _ \<Rightarrow> rl
     | Inr stat \<Rightarrow> log_read (read_session_key audit sk) (fs_resolve fs (fs_resolve fs path)) (stat, [], True) rl)"
| "log_step (Reset audit sk) rl = (case sk of
       None \<Rightarrow> (\<lambda>_ _. None)
     | Some k \<Rightarrow> rl(read_session_key audit (Some k) := (\<lambda>_. None)))"
| "log_step _ rl = rl"

definition entry_of :: "py_lib \<Rightarrow> read_entry \<Rightarrow> file_stat \<times> string \<times> bool \<Rightarrow> bool" where
  "entry_of lib e r = (case r of (stat, content, partial) \<Rightarrow>
     re_mtime_ns e = st_mtime_ns stat \<and> re_size e = st_size stat
     \<and> re_content_hash e = lib_sha256 lib content \<and> re_is_partial_view e = partial)"

text \<open>Every entry that is still held is the latest read of its file in its session.\<close>

definition holds_read :: "py_lib \<Rightarrow> (string \<Rightarrow> (file_stat \<times> string \<times> bool) option) \<Rightarrow> string \<Rightarrow> read_entry \<Rightarrow> bool" where
  "holds_read lib m k e \<longleftrightarrow> (case m k of Some r \<Rightarrow> entry_of lib e r | None \<Rightarrow> False)"

definition store_ok :: "py_lib \<Rightarrow> (string, read_entry) dict \<Rightarrow> (string \<Rightarrow> (file_stat \<times> string \<times> bool) option) \<Rightarrow> bool" where
  "store_ok lib d m \<longleftrightarrow> dwf d \<and> (\<forall>k e. dget d k = Some e \<longrightarrow> holds_read lib m k e)"

definition refines :: "py_lib \<Rightarrow> read_states \<Rightarrow> read_log \<Rightarrow> bool" where
  "refines lib st rl \<longleftrightarrow> dwf (rd_by_session st)
     \<and> (\<forall>sk d. dget (rd_by_session st) sk = Some d \<longrightarrow> store_ok lib d (rl sk))"

lemma store_ok_Nil [simp]: "store_ok lib [] m"
  by (simp add: store_ok_def)

lemma store_ok_put: "store_ok lib d m \<Longrightarrow> entry_of lib e r \<Longrightarrow> store_ok lib (put_last k e d) (m(k \<mapsto> r))"
  by (simp add: store_ok_def holds_read_def)

lemma store_ok_move: "store_ok lib d m \<Longrightarrow> dget d k = Some e \<Longrightarrow> store_ok lib (put_last k e d) m"
  by (simp add: store_ok_def)

lemma store_ok_last: "store_ok lib d m \<Longrightarrow> store_ok lib (last_n n d) m"
  unfolding store_ok_def using dget_last_n dwf_last_n by metis

lemma refines_sessions:
  assumes "refines lib st rl" and "dwf ss"
    and "\<And>sk d. dget ss sk = Some d \<Longrightarrow> dget (rd_by_session st) sk = Some d"
    and "store_ok lib d (rl' sk)" and "\<And>k. k \<noteq> sk \<Longrightarrow> rl' k = rl k"
  shows "refines lib (st\<lparr>rd_by_session := dset sk d ss\<rparr>) rl'"
  using assms by (auto simp: refines_def)

lemma refines_record:
  assumes "refines lib st rl" and "entry_of lib e r" and "sk' = sk"
    and ss: "ss = (if dget (rd_by_session st) sk = None then evict_oldest_session sk (rd_by_session st) else rd_by_session st)"
    and d: "d = (case dget (rd_by_session st) sk of Some d \<Rightarrow> d | None \<Rightarrow> [])"
  shows "refines lib (st\<lparr>rd_by_session := dset sk (last_n n (put_last k e d)) ss\<rparr>) (log_read sk' k r rl)"
proof (rule refines_sessions [OF assms(1)])
  have dw: "dwf (rd_by_session st)" using assms(1) by (simp add: refines_def)
  then show "dwf ss" by (simp add: ss dwf_evict)
  show "dget (rd_by_session st) k = Some v" if "dget ss k = Some v" for k v
    using that dget_evict [OF dw, of sk k v] by (simp add: ss split: if_splits)
  have "store_ok lib d (rl sk)" using assms(1) by (auto simp: d refines_def split: option.splits)
  from store_ok_last [OF store_ok_put [OF this assms(2)]]
  show "store_ok lib (last_n n (put_last k e d)) (log_read sk' k r rl sk)"
    by (simp add: log_read_def assms(3))
qed (simp add: log_read_def assms(3))

lemma dset_dset: "dset k v (dset k w d) = dset k v d"
  by (induction d) auto

definition read_of :: "py_lib \<Rightarrow> file_sys \<Rightarrow> string \<Rightarrow> file_stat \<Rightarrow> string \<Rightarrow> bool \<Rightarrow> nat \<Rightarrow> read_entry" where
  "read_of lib fs path stat content partial turn = \<lparr>re_path = fs_resolve fs path, re_mtime_ns = st_mtime_ns stat,
     re_size = st_size stat, re_content_hash = lib_sha256 lib content, re_read_turn = turn,
     re_is_partial_view = (partial \<or> max_content_bytes < length content)\<rparr>"

lemma record_read_eq:
  fixes sk st audit
  defines "k \<equiv> read_session_key audit sk"
  defines "d \<equiv> (case dget (rd_by_session st) k of Some d \<Rightarrow> d | None \<Rightarrow> [])"
  shows "record_read_state env lib fs audit sk path stat content partial st =
     st\<lparr>rd_by_session := dset k
        (last_n (read_state_max_entries env)
          (put_last (fs_resolve fs path) (read_of lib fs path stat content partial (length d + 1)) d))
        (if dget (rd_by_session st) k = None then evict_oldest_session k (rd_by_session st) else rd_by_session st)\<rparr>"
  by (auto simp: record_read_state_def Let_def dset_dset evict_lru_last_n read_of_def k_def d_def)

lemma refines_read:
  "refines lib st rl \<Longrightarrow> refines lib (record_read_state env lib fs audit sk path stat content partial st)
     (log_read (read_session_key audit sk) (fs_resolve fs path)
        (stat, content, partial \<or> max_content_bytes < length content) rl)"
  unfolding record_read_eq by (rule refines_record) (simp_all add: entry_of_def read_of_def)

lemma refines_lookup:
  assumes "refines lib st rl" and "lookup_read_state k sk st = (e, st')"
  shows "refines lib st' rl" and "e = Some x \<Longrightarrow> holds_read lib (rl sk) k x"
proof -
  show "refines lib st' rl"
  proof (cases "dget (rd_by_session st) sk")
    case (Some d)
    show ?thesis
    proof (cases "dget d k")
      case e: (Some x)
      have "st' = st\<lparr>rd_by_session := dset sk (put_last k x d) (rd_by_session st)\<rparr>"
        using assms(2) Some e by (simp add: lookup_read_state_def)
      moreover have "store_ok lib d (rl sk)" "dwf (rd_by_session st)"
        using assms(1) Some by (simp_all add: refines_def)
      ultimately show ?thesis
        using refines_sessions [OF assms(1), where rl' = rl] store_ok_move [OF _ e] by blast
    qed (use assms Some in \<open>simp add: lookup_read_state_def\<close>)
  qed (use assms in \<open>simp add: lookup_read_state_def\<close>)
  show "holds_read lib (rl sk) k x" if "e = Some x"
    using assms that by (auto simp: lookup_read_state_def refines_def store_ok_def split: option.splits)
qed

text \<open>The session whose read answers a look-up: its own, or the one it was delegated by.\<close>

definition reading_session :: "string \<Rightarrow> string \<Rightarrow> bool" where
  "reading_session sk sk' \<longleftrightarrow> sk' = sk \<or> parent_delegate_session_key sk = Some sk'"

lemma refines_get:
  assumes "refines lib st rl" and "get_read_state fs audit sk path st = (e, st')"
  shows "refines lib st' rl"
    and "e = Some x \<Longrightarrow> \<exists>k. reading_session (read_session_key audit sk) k \<and> holds_read lib (rl k) (fs_resolve fs path) x"
proof -
  let ?k = "read_session_key audit sk"
  obtain e1 st1 where 1: "lookup_read_state (fs_resolve fs path) ?k st = (e1, st1)" by fastforce
  note r = refines_lookup [OF assms(1) 1]
  have n: "e1 = None \<Longrightarrow> st1 = st"
    using 1 by (auto simp: lookup_read_state_def split: option.splits)
  show "refines lib st' rl"
    using assms(2) 1 r(1) refines_lookup(1) n
    by (auto simp: get_read_state_def Let_def split: option.splits)
  show "\<exists>k. reading_session ?k k \<and> holds_read lib (rl k) (fs_resolve fs path) x" if "e = Some x"
    using assms that 1 r(2) refines_lookup(2) n
    by (auto simp: get_read_state_def Let_def reading_session_def split: option.splits)
qed

lemma refines_check:
  "refines lib st rl \<Longrightarrow> refines lib (snd (check_read_state_for_resolved env lib fs audit path st)) rl"
  using refines_get(1) [of lib st rl fs audit None path]
  by (auto simp: check_read_state_for_resolved_def split: prod.splits)

lemma refines_step: "refines lib st rl \<Longrightarrow> refines lib (read_event_step env lib e st) (log_step e rl)"
proof (induction e)
  case (Read fs audit sk path stat content partial)
  then show ?case by (simp add: refines_read)
next
  case (Partial_View fs audit sk path)
  then show ?case
    using refines_read [of lib st rl env fs audit sk "fs_resolve fs path" _ "[]" True]
    by (auto simp: record_partial_view_path_def Let_def split: sum.splits)
next
  case (Edited fs audit sk path)
  then show ?case by (simp add: record_edit_path_def refines_def Let_def)
next
  case (Check fs audit path)
  then show ?case by (simp add: refines_check)
next
  case (Reset audit sk)
  then show ?case by (auto simp: reset_read_state_def refines_def Let_def split: option.splits)
qed

text \<open>The table of everything read, and the tables of the program, after a run.\<close>

definition log_of :: "read_event list \<Rightarrow> read_log" where
  "log_of evs = fold log_step evs (\<lambda>_ _. None)"

definition no_reads :: read_states where
  "no_reads = \<lparr>rd_by_session = [], rd_recent_edits = []\<rparr>"

lemma refines_run: "refines lib (fold (read_event_step env lib) evs no_reads) (log_of evs)"
proof -
  have "refines lib st rl \<Longrightarrow> refines lib (fold (read_event_step env lib) evs st) (fold log_step evs rl)" for st rl
    by (induction evs arbitrary: st rl) (simp_all add: refines_step)
  moreover have "refines lib no_reads (\<lambda>_ _. None)" by (simp add: refines_def no_reads_def)
  ultimately show ?thesis unfolding log_of_def by blast
qed

text \<open>
  C19: The guard lets an edit of an existing file through only when the session, or the session it
  was delegated by, has read it: the latest read of the file in that session was a full one,
  and the status of the file is the one of that read or its content has the same hash.  This
  holds after any run of reads, injected views, edits, checks and resets of any sessions,
  with files that change in any way meanwhile.
\<close>

theorem edit_needs_full_read:
  assumes "check_read_state_for_resolved env lib fs audit path (fold (read_event_step env lib) evs no_reads) = (None, st')"
    and "read_before_edit_enabled env" and "fs_exists fs path"
  shows "fs_is_file fs path \<and> (\<exists>sk stat content now.
      reading_session audit sk \<and> log_of evs sk (fs_resolve fs path) = Some (stat, content, False)
    \<and> fs_stat fs path = Inr now
    \<and> (now = stat \<or> (\<exists>disk. fs_read_bytes fs path = Some disk \<and> lib_sha256 lib disk = lib_sha256 lib content)))"
proof -
  let ?st = "fold (read_event_step env lib) evs no_reads"
  obtain e st1 where g: "get_read_state fs audit None path ?st = (e, st1)" by fastforce
  have isf: "fs_is_file fs path" and c: "check_entry lib fs path e = None"
    using assms g by (auto simp: check_read_state_for_resolved_def split: if_splits)
  then obtain x where x: "e = Some x" "\<not> re_is_partial_view x"
    by (auto simp: check_entry_def split: option.splits if_splits)
  from refines_get(2) [OF refines_run g x(1)] obtain sk where
    sk: "reading_session audit sk" "holds_read lib (log_of evs sk) (fs_resolve fs path) x"
    by (auto simp: read_session_key_def)
  then obtain stat content where r: "log_of evs sk (fs_resolve fs path) = Some (stat, content, False)"
    and h: "re_mtime_ns x = st_mtime_ns stat" "re_size x = st_size stat" "re_content_hash x = lib_sha256 lib content"
    using x(2) by (auto simp: holds_read_def entry_of_def split: option.splits)
  obtain now where n: "fs_stat fs path = Inr now"
    using c x by (auto simp: check_entry_def split: sum.splits)
  have "now = stat \<or> (\<exists>disk. fs_read_bytes fs path = Some disk \<and> lib_sha256 lib disk = lib_sha256 lib content)"
    using c x h n by (auto simp: check_entry_def stat_matches_def split: if_splits option.splits)
  with isf sk(1) r n show ?thesis by blast
qed

text \<open>A file system with one file, its status and content as given.\<close>

definition one_file :: "string \<Rightarrow> file_stat \<Rightarrow> string \<Rightarrow> file_sys" where
  "one_file p stat content = \<lparr>fs_resolve = (\<lambda>q. q), fs_exists = (\<lambda>q. q = p), fs_is_file = (\<lambda>q. q = p),
     fs_stat = (\<lambda>q. if q = p then Inr stat else Inl ''ENOENT''),
     fs_read_bytes = (\<lambda>q. if q = p then Some content else None)\<rparr>"

definition plain_lib :: py_lib where
  "plain_lib = \<lparr>lib_loads = (\<lambda>s. None), lib_dumps = (\<lambda>v. []), lib_sha256 = (\<lambda>s. s)\<rparr>"

text \<open>The file was read, then touched: same content, new time stamp.\<close>

theorem edit_needs_full_read_witness:
  "\<exists>sk stat content now. reading_session ''s'' sk
    \<and> log_of [Read (one_file ''/a'' \<lparr>st_mtime_ns = 1, st_size = 2\<rparr> ''xy'') ''s'' None ''/a'' \<lparr>st_mtime_ns = 1, st_size = 2\<rparr> ''xy'' False]
        sk ''/a'' = Some (stat, content, False)
    \<and> fs_stat (one_file ''/a'' \<lparr>st_mtime_ns = 9, st_size = 2\<rparr> ''xy'') ''/a'' = Inr now
    \<and> (now = stat \<or> (\<exists>disk. fs_read_bytes (one_file ''/a'' \<lparr>st_mtime_ns = 9, st_size = 2\<rparr> ''xy'') ''/a'' = Some disk
         \<and> lib_sha256 plain_lib disk = lib_sha256 plain_lib content))"
proof -
  let ?old = "one_file ''/a'' \<lparr>st_mtime_ns = 1, st_size = 2\<rparr> ''xy''"
  let ?new = "one_file ''/a'' \<lparr>st_mtime_ns = 9, st_size = 2\<rparr> ''xy''"
  let ?evs = "[Read ?old ''s'' None ''/a'' \<lparr>st_mtime_ns = 1, st_size = 2\<rparr> ''xy'' False]"
  obtain st' where "check_read_state_for_resolved (\<lambda>_. None) plain_lib ?new ''s'' ''/a''
      (fold (read_event_step (\<lambda>_. None) plain_lib) ?evs no_reads) = (None, st')"
    by (simp add: no_reads_def record_read_state_def check_read_state_for_resolved_def get_read_state_def
        lookup_read_state_def check_entry_def stat_matches_def one_file_def plain_lib_def Let_def
        read_session_key_def read_before_edit_enabled_def env_truthy_def read_state_max_entries_def int_env_def
        max_entries_def put_last_def max_content_bytes_def)
  moreover have "read_before_edit_enabled (\<lambda>_. None)" "fs_exists ?new ''/a''"
    by (simp_all add: read_before_edit_enabled_def env_truthy_def one_file_def)
  ultimately have "\<exists>sk stat content now. reading_session ''s'' sk
      \<and> log_of ?evs sk (fs_resolve ?new ''/a'') = Some (stat, content, False) \<and> fs_stat ?new ''/a'' = Inr now
      \<and> (now = stat \<or> (\<exists>disk. fs_read_bytes ?new ''/a'' = Some disk
           \<and> lib_sha256 plain_lib disk = lib_sha256 plain_lib content))"
    by (rule edit_needs_full_read [THEN conjunct2])
  moreover have "fs_resolve ?new ''/a'' = ''/a''" by (simp add: one_file_def)
  ultimately show ?thesis by simp
qed

section \<open>Bounds\<close>

definition table_ok :: "('v \<Rightarrow> bool) \<Rightarrow> (string, 'v) dict \<Rightarrow> bool" where
  "table_ok P d \<longleftrightarrow> length d \<le> max_read_sessions \<and> (\<forall>x \<in> set d. P (snd x))"

definition read_bounds :: "os_env \<Rightarrow> read_states \<Rightarrow> bool" where
  "read_bounds env st \<longleftrightarrow> table_ok (\<lambda>d. length d \<le> read_state_max_entries env) (rd_by_session st)
     \<and> table_ok (\<lambda>l. length l \<le> 5) (rd_recent_edits st)"

lemma set_evict: "x \<in> set (evict_oldest_session keep d) \<Longrightarrow> x \<in> set d"
  using evict_session_suffix by (rule set_mono_suffix [THEN subsetD])

lemma table_put:
  assumes "table_ok P d" and "P v"
  shows "table_ok P (dset k v (if dget d k = None then evict_oldest_session k d else d))"
proof (cases "dget d k")
  case None
  then have "k \<notin> set (dkeys d)" by (rule dget_None [THEN iffD1])
  then have "length (evict_oldest_session k d) < max_read_sessions" by (rule length_evict)
  moreover have "length (dset k v (evict_oldest_session k d)) \<le> Suc (length (evict_oldest_session k d))"
    by (simp add: length_dset)
  moreover have "P (snd x)" if "x \<in> set (dset k v (evict_oldest_session k d))" for x
    using set_dset [OF that] assms by (auto simp: table_ok_def dest: set_evict)
  ultimately show ?thesis using None by (simp add: table_ok_def)
next
  case (Some w)
  then have "k \<in> set (dkeys d)" by (force dest: map_of_SomeD)
  then have "length (dset k v d) = length d" by (simp add: length_dset)
  moreover have "P (snd x)" if "x \<in> set (dset k v d)" for x
    using set_dset [OF that] assms by (auto simp: table_ok_def)
  ultimately show ?thesis using Some assms(1) by (simp add: table_ok_def)
qed

lemma table_upd: "table_ok P d \<Longrightarrow> dget d k = Some w \<Longrightarrow> P v \<Longrightarrow> table_ok P (dset k v d)"
  using table_put [of P d v k] by simp

lemma table_dpop: "table_ok P d \<Longrightarrow> table_ok P (dpop k d)"
  unfolding table_ok_def using length_dpop_le [of k d] set_dpop [of k d] by fastforce

lemma bounds_sessions:
  "read_bounds env st \<Longrightarrow> table_ok (\<lambda>d. length d \<le> read_state_max_entries env) ss \<Longrightarrow>
     read_bounds env (st\<lparr>rd_by_session := ss\<rparr>)"
  by (simp add: read_bounds_def)

lemma bounds_edits:
  "read_bounds env st \<Longrightarrow> table_ok (\<lambda>l. length l \<le> 5) es \<Longrightarrow> read_bounds env (st\<lparr>rd_recent_edits := es\<rparr>)"
  by (simp add: read_bounds_def)

lemma bounds_record:
  "read_bounds env st \<Longrightarrow> read_bounds env (record_read_state env lib fs audit sk path stat content partial st)"
  unfolding record_read_eq by (intro bounds_sessions table_put) (simp_all add: read_bounds_def)

lemma length_dpop_mem: "dget d k = Some v \<Longrightarrow> length (dpop k d) < length d"
  by (induction d) (auto simp: less_Suc_eq_le length_dpop_le split: if_splits)

lemma bounds_lookup: "read_bounds env st \<Longrightarrow> read_bounds env (snd (lookup_read_state k sk st))"
proof (cases "dget (rd_by_session st) sk")
  case (Some d)
  assume b: "read_bounds env st"
  show ?thesis
  proof (cases "dget d k")
    case e: (Some x)
    have "length d \<le> read_state_max_entries env"
      using b map_of_SomeD [OF Some] by (auto simp: read_bounds_def table_ok_def)
    then have "length (put_last k x d) \<le> read_state_max_entries env"
      using length_dpop_mem [OF e] by (simp add: put_last_def)
    then have "table_ok (\<lambda>d. length d \<le> read_state_max_entries env) (dset sk (put_last k x d) (rd_by_session st))"
      using b Some by (intro table_upd) (simp_all add: read_bounds_def)
    then show ?thesis using b Some e by (simp add: lookup_read_state_def read_bounds_def)
  qed (use b Some in \<open>simp add: lookup_read_state_def\<close>)
qed (simp add: lookup_read_state_def)

lemma bounds_get: "read_bounds env st \<Longrightarrow> read_bounds env (snd (get_read_state fs audit sk path st))"
proof -
  assume "read_bounds env st"
  then have 1: "lookup_read_state k s st = (e, st') \<Longrightarrow> read_bounds env st'" for k s e st'
    using bounds_lookup [of env st k s] by simp
  then have "lookup_read_state k s st = (e, st') \<Longrightarrow> read_bounds env (snd (lookup_read_state k' s' st'))" for k s e st' k' s'
    by (intro bounds_lookup) blast
  with 1 show ?thesis by (auto simp: get_read_state_def Let_def split: prod.splits option.splits)
qed

lemma bounds_edit: "read_bounds env st \<Longrightarrow> read_bounds env (record_edit_path fs audit sk path st)"
  unfolding record_edit_path_def Let_def by (intro bounds_edits table_put) (simp_all add: read_bounds_def)

lemma bounds_step: "read_bounds env st \<Longrightarrow> read_bounds env (read_event_step env lib e st)"
proof (induction e)
  case (Partial_View fs audit sk path)
  then show ?case by (auto simp: record_partial_view_path_def Let_def bounds_record split: sum.splits)
next
  case (Check fs audit path)
  then show ?case
    using bounds_get [of env st fs audit None path]
    by (auto simp: check_read_state_for_resolved_def split: prod.splits)
next
  case (Reset audit sk)
  then show ?case
    by (cases sk) (simp_all add: reset_read_state_def read_bounds_def table_dpop Let_def, simp add: table_ok_def)
qed (simp_all add: bounds_record bounds_edit)

interpretation read_sys: guarded_system "read_event_step env lib" "read_bounds env" no_reads for env lib
  by unfold_locales (simp_all add: bounds_step, simp add: read_bounds_def no_reads_def table_ok_def)

text \<open>
  After any run at most 512 sessions are remembered, each with at most the configured number
  of files and the last five edited paths.
\<close>

theorem read_state_bounded:
  "read_bounds env (fold (read_event_step env lib) evs no_reads)"
  by (rule read_sys.inv_run)

section \<open>What counts as a full read\<close>

lemma dget_last_put: "0 < n \<Longrightarrow> dget (last_n n (put_last k e d)) k = Some e"
proof (cases n)
  case (Suc m)
  have "k \<notin> set (dkeys (dpop k d))" by (simp add: dkeys_dpop del: set_map)
  then have "dget (last_n m (dpop k d)) k = None"
    using set_last_n [of m "dpop k d"] by (intro dget_None [THEN iffD2]) auto
  then show ?thesis by (simp add: Suc put_last_def last_n_snoc map_add_def)
qed simp

text \<open>A read recorded as full opens the file for editing while its status stays.\<close>

lemma recorded_unlocks:
  assumes "read_session_key audit sk = audit" and "length data \<le> max_content_bytes" and "fs_resolve fs p = p"
    and "fs_is_file fs p" and "fs_stat fs p = Inr stat"
  shows "fst (check_read_state_for_resolved env lib fs audit p
      (record_read_state env lib fs audit sk p stat data False st)) = None"
proof -
  let ?st = "record_read_state env lib fs audit sk p stat data False st"
  let ?d = "case dget (rd_by_session st) audit of Some d \<Rightarrow> d | None \<Rightarrow> []"
  let ?e = "read_of lib fs p stat data False (length ?d + 1)"
  let ?store = "last_n (read_state_max_entries env) (put_last p ?e ?d)"
  have "0 < read_state_max_entries env"
    using int_env_min [of 10 env "''BUTLER_READ_STATE_MAX_ENTRIES''" max_entries]
    by (simp add: read_state_max_entries_def)
  then have "dget ?store p = Some ?e" by (rule dget_last_put)
  moreover have "dget (rd_by_session ?st) audit = Some ?store"
    using assms(1,3) by (simp add: record_read_eq)
  ultimately have "fst (get_read_state fs audit None p ?st) = Some ?e"
    using assms(3) by (simp add: get_read_state_def lookup_read_state_def read_session_key_def)
  moreover have "\<not> re_is_partial_view ?e" "stat_matches ?e stat"
    using assms(2) by (simp_all add: read_of_def stat_matches_def)
  ultimately show ?thesis
    using assms(4,5) by (auto simp: check_read_state_for_resolved_def check_entry_def split: prod.splits)
qed

text \<open>
  Reading any single line of a file with \<open>offset\<close> and \<open>limit\<close> records the whole file as
  read: the edit that follows is let through although the rest was never shown.
\<close>

theorem partial_read_unlocks_edit:
  assumes "1 \<le> off" and "\<not> (off = 1 \<and> threshold < length (splitlines data) \<and> 100 \<le> n)" and "1 \<le> n" and "n \<le> max_read_file_lines"
    and "length data \<le> max_content_bytes" and "fs_resolve fs p = p"
    and "fs_is_file fs p" and "fs_stat fs p = Inr stat"
  shows "\<exists>st'. tool_read_file env lib fs audit [] threshold (Inr (data, p, stat)) path off n st
        = (Lines_Read (take (nat n) (drop (nat (off - 1)) (splitlines data))), st')
      \<and> fst (check_read_state_for_resolved env lib fs audit p st') = None"
  using assms recorded_unlocks [of audit None data fs p stat env lib st]
  by (simp add: tool_read_file_def read_session_key_def Let_def)

theorem partial_read_unlocks_edit_witness:
  "\<exists>st'. tool_read_file (\<lambda>_. None) plain_lib (one_file ''/a'' \<lparr>st_mtime_ns = 1, st_size = 2\<rparr> ''xy'') ''s'' [] 400
        (Inr (''xy'', ''/a'', \<lparr>st_mtime_ns = 1, st_size = 2\<rparr>)) ''/a'' 7 1 no_reads
      = (Lines_Read (take (nat 1) (drop (nat (7 - 1)) (splitlines ''xy''))), st')
    \<and> fst (check_read_state_for_resolved (\<lambda>_. None) plain_lib (one_file ''/a'' \<lparr>st_mtime_ns = 1, st_size = 2\<rparr> ''xy'') ''s'' ''/a'' st') = None"
  by (rule partial_read_unlocks_edit) (simp_all add: one_file_def max_read_file_lines_def max_content_bytes_def)

text \<open>
  A path at the start of any tool result counts as a full read of the file when a session is
  rebuilt from its transcript: a directory listing opens files for editing that were never
  read.
\<close>

theorem transcript_path_unlocks_edit:
  assumes "prefix ''/'' p" and "strip p = p" and "splitlines p = [p]" and "text_before '':'' p = None"
    and "read_session_key audit sk = audit" and "fs_resolve fs p = p" and "fs_is_file fs p"
    and "fs_stat fs p = Inr stat" and "fs_read_bytes fs p = Some data"
  shows "fst (check_read_state_for_resolved env lib fs audit p
      (snd (rehydrate_read_state_from_messages env lib fs audit sk
         [[(''role'', JStr ''tool''), (''content'', JStr p)]] st))) = None"
proof -
  have "p \<noteq> []" using assms(1) by auto
  then have "rehydrate_read_state_from_messages env lib fs audit sk [[(''role'', JStr ''tool''), (''content'', JStr p)]] st
      = (1, record_read_state env lib fs audit sk p stat (take max_content_bytes data) False st)"
    using assms
    by (simp add: rehydrate_read_state_from_messages_def rehydrate_message_def rehydrate_line_def line_candidate_def
        str_field_def jor_def Let_def)
  then show ?thesis using recorded_unlocks [of audit sk "take max_content_bytes data"] assms by simp
qed

theorem transcript_path_unlocks_edit_witness:
  "fst (check_read_state_for_resolved (\<lambda>_. None) plain_lib (one_file ''/a'' \<lparr>st_mtime_ns = 1, st_size = 2\<rparr> ''xy'') ''s'' ''/a''
      (snd (rehydrate_read_state_from_messages (\<lambda>_. None) plain_lib
         (one_file ''/a'' \<lparr>st_mtime_ns = 1, st_size = 2\<rparr> ''xy'') ''s'' None
         [[(''role'', JStr ''tool''), (''content'', JStr ''/a'')]] no_reads))) = None"
proof (rule transcript_path_unlocks_edit)
  show "strip ''/a'' = ''/a''" "splitlines ''/a'' = [''/a'']" by code_simp+
qed (simp_all add: one_file_def read_session_key_def)

end
