(* ===== verification/Batch_Guard.thy ===== *)
theory Batch_Guard
  imports Guardrails
begin

text \<open>
  The calls of one batch of tools (\<open>core/batch_sequence_guard.py\<close>): reads of a file are moved
  ahead of the patches of it before the batch starts, and reads of a path that a tool of the
  batch has changed are skipped.  The loop that moves the reads is \<open>reorder_loop\<close>, with its
  termination proved here; one turn of it is \<open>reorder_once\<close>, where the elements before,
  at and after the position of the patch are the parts of the list.  \<open>resolve\<close> is
  \<open>Path(...).expanduser().resolve()\<close>.
\<close>

section \<open>Kinds of tools\<close>

definition destructive_batch_tools :: "string list" where
  "destructive_batch_tools = [''write_file'', ''patch'', ''edit_file'', ''apply_patch'']"

definition stale_read_batch_tools :: "string list" where
  "stale_read_batch_tools = [''read_file'', ''grep'', ''search_files'', ''search_code'', ''glob'', ''list_directory'', ''list_dir'']"

definition starts_with_any :: "string list \<Rightarrow> string \<Rightarrow> bool" where
  "starts_with_any ps s \<longleftrightarrow> (\<exists>p \<in> set ps. prefix p s)"

definition batch_stale_guard_enabled :: "os_env \<Rightarrow> bool" where
  "batch_stale_guard_enabled env = env_truthy env ''BUTLER_BATCH_STALE_GUARD'' True"

definition is_destructive_batch_tool :: "string \<Rightarrow> bool" where
  "is_destructive_batch_tool tool \<longleftrightarrow> (let name = lower (strip tool) in
     name \<in> set destructive_batch_tools \<or> starts_with_any [''write_'', ''edit_'', ''patch''] name)"

definition is_stale_read_batch_tool :: "string \<Rightarrow> bool" where
  "is_stale_read_batch_tool tool \<longleftrightarrow> (let name = lower (strip tool) in
     name \<in> set stale_read_batch_tools \<or> starts_with_any [''read_'', ''search_'', ''grep'', ''list_''] name)"

section \<open>Calls\<close>

text \<open>A call is an object with a name and arguments, or the dictionary of a transcript.\<close>

datatype tool_call = Call_Obj string "(string, jval) dict" | Call_Dict "(string, jval) dict"

fun attr_name :: "tool_call \<Rightarrow> string" where
  "attr_name (Call_Obj name args) = name"
| "attr_name (Call_Dict d) = []"

definition batch_has_destructive_and_reads :: "tool_call list \<Rightarrow> bool" where
  "batch_has_destructive_and_reads calls \<longleftrightarrow>
     list_ex (is_destructive_batch_tool \<circ> attr_name) calls \<and> list_ex (is_stale_read_batch_tool \<circ> attr_name) calls"

definition sub_dict :: "jval \<Rightarrow> (string, jval) dict" where
  "sub_dict v = (case v of JObj m \<Rightarrow> m | _ \<Rightarrow> [])"

fun tool_call_name :: "tool_call \<Rightarrow> string" where
  "tool_call_name (Call_Obj name args) = name"
| "tool_call_name (Call_Dict d) =
     pystr (jor (jget (sub_dict (jget d ''function'')) ''name'') (jor (jget d ''name'') (JStr [])))"

fun tool_call_args :: "py_lib \<Rightarrow> tool_call \<Rightarrow> (string, jval) dict" where
  "tool_call_args lib (Call_Obj name args) = args"
| "tool_call_args lib (Call_Dict d) =
     (case dget (sub_dict (jget d ''function'')) ''arguments'' of
        None \<Rightarrow> []
      | Some (JStr raw) \<Rightarrow> (case lib_loads lib raw of Some v \<Rightarrow> sub_dict v | None \<Rightarrow> [])
      | Some v \<Rightarrow> sub_dict v)"

section \<open>Paths\<close>

definition paths_overlap :: "(string \<Rightarrow> string) \<Rightarrow> string \<Rightarrow> string \<Rightarrow> bool" where
  "paths_overlap resolve a b \<longleftrightarrow> a \<noteq> [] \<and> b \<noteq> [] \<and>
     (resolve a = resolve b \<or> prefix (resolve b @ ''/'') (resolve a) \<or> prefix (resolve a @ ''/'') (resolve b))"

definition path_keys :: "string list" where
  "path_keys = [''path'', ''file'', ''directory'', ''root'', ''target'']"

definition extract_tool_scope_paths :: "string \<Rightarrow> (string, jval) dict \<Rightarrow> string list" where
  "extract_tool_scope_paths tool args =
     (let name = lower (strip tool);
          paths = filter (\<lambda>p. p \<noteq> []) (map (\<lambda>k. strip (str_field args k [])) path_keys);
          pattern = strip (str_field args ''pattern'' [])
      in if name \<in> set [''grep'', ''search_files''] \<and> paths = []
            \<and> pattern \<noteq> [] \<and> (prefix ''/'' pattern \<or> prefix ''.'' pattern)
         then [pattern] else paths)"

section \<open>Reads before patches\<close>

text \<open>Whether \<open>read_tc\<close> is a \<open>read_file\<close> of a path that the patch touches.\<close>

definition reads_for :: "(string \<Rightarrow> string) \<Rightarrow> py_lib \<Rightarrow> tool_call \<Rightarrow> tool_call \<Rightarrow> bool" where
  "reads_for resolve lib dest_tc read_tc \<longleftrightarrow> tool_call_name read_tc = ''read_file'' \<and>
     (\<exists>dp \<in> set (extract_tool_scope_paths (tool_call_name dest_tc) (tool_call_args lib dest_tc)).
        \<exists>rp \<in> set (extract_tool_scope_paths ''read_file'' (tool_call_args lib read_tc)). paths_overlap resolve dp rp)"

text \<open>\<open>ordered.pop(j)\<close> at the first such read behind the patch.\<close>

fun pop_read :: "(string \<Rightarrow> string) \<Rightarrow> py_lib \<Rightarrow> tool_call \<Rightarrow> tool_call list \<Rightarrow> (tool_call \<times> tool_call list) option" where
  "pop_read resolve lib dest_tc [] = None"
| "pop_read resolve lib dest_tc (t # ts) =
     (if reads_for resolve lib dest_tc t then Some (t, ts)
      else map_option (\<lambda>(r, rest). (r, t # rest)) (pop_read resolve lib dest_tc ts))"

fun reorder_once :: "(string \<Rightarrow> string) \<Rightarrow> py_lib \<Rightarrow> tool_call list \<Rightarrow> tool_call list \<Rightarrow> tool_call list option" where
  "reorder_once resolve lib before [] = None"
| "reorder_once resolve lib before (t # ts) =
     (if tool_call_name t = ''patch'' \<and> \<not> list_ex (reads_for resolve lib t) before
      then (case pop_read resolve lib t ts of
              Some (r, rest) \<Rightarrow> Some (before @ r # t # rest)
            | None \<Rightarrow> reorder_once resolve lib (before @ [t]) ts)
      else reorder_once resolve lib (before @ [t]) ts)"

text \<open>The patches no read of the same file precedes: fewer after every turn.\<close>

fun unread_patches :: "(string \<Rightarrow> string) \<Rightarrow> py_lib \<Rightarrow> tool_call set \<Rightarrow> tool_call list \<Rightarrow> nat" where
  "unread_patches resolve lib seen [] = 0"
| "unread_patches resolve lib seen (t # ts) =
     (if tool_call_name t = ''patch'' \<and> \<not> (\<exists>r \<in> seen. reads_for resolve lib t r) then 1 else 0)
     + unread_patches resolve lib (insert t seen) ts"

lemma unread_patches_mono: "seen \<subseteq> seen' \<Longrightarrow> unread_patches resolve lib seen' ts \<le> unread_patches resolve lib seen ts"
proof (induction ts arbitrary: seen seen')
  case (Cons t ts)
  have "unread_patches resolve lib (insert t seen') ts \<le> unread_patches resolve lib (insert t seen) ts"
    using Cons.prems by (intro Cons.IH) auto
  moreover have "(\<exists>r \<in> seen. reads_for resolve lib t r) \<Longrightarrow> (\<exists>r \<in> seen'. reads_for resolve lib t r)"
    using Cons.prems by auto
  ultimately show ?case by auto
qed simp

lemma unread_patches_append:
  "unread_patches resolve lib seen (xs @ ys) =
     unread_patches resolve lib seen xs + unread_patches resolve lib (seen \<union> set xs) ys"
  by (induction xs arbitrary: seen) simp_all

lemma pop_read_split:
  "pop_read resolve lib d ts = Some (r, rest) \<Longrightarrow>
     \<exists>ys zs. ts = ys @ r # zs \<and> rest = ys @ zs \<and> reads_for resolve lib d r"
proof (induction ts arbitrary: rest)
  case (Cons t ts)
  show ?case
  proof (cases "reads_for resolve lib d t")
    case True
    with Cons.prems show ?thesis by (intro exI [of _ "[]"] exI [of _ ts]) auto
  next
    case False
    with Cons.prems obtain rest' where "pop_read resolve lib d ts = Some (r, rest')" "rest = t # rest'" by auto
    with Cons.IH obtain ys zs where "ts = ys @ r # zs" "rest' = ys @ zs" "reads_for resolve lib d r" by blast
    with \<open>rest = t # rest'\<close> show ?thesis by (intro exI [of _ "t # ys"] exI [of _ zs]) auto
  qed
qed simp

lemma reads_for_name: "reads_for resolve lib d r \<Longrightarrow> tool_call_name r = ''read_file''"
  by (simp add: reads_for_def)

lemma reorder_once_split:
  "reorder_once resolve lib before ts = Some res \<Longrightarrow>
     \<exists>xs d ys r zs. before @ ts = xs @ d # ys @ r # zs \<and> res = xs @ r # d # ys @ zs
       \<and> reads_for resolve lib d r \<and> tool_call_name d = ''patch'' \<and> \<not> list_ex (reads_for resolve lib d) xs"
proof (induction ts arbitrary: before)
  case (Cons t ts)
  show ?case
  proof (cases "tool_call_name t = ''patch'' \<and> \<not> list_ex (reads_for resolve lib t) before \<and> pop_read resolve lib t ts \<noteq> None")
    case True
    then obtain r rest where p: "pop_read resolve lib t ts = Some (r, rest)" by auto
    with True Cons.prems have "res = before @ r # t # rest" by simp
    moreover obtain ys zs where "ts = ys @ r # zs" "rest = ys @ zs" "reads_for resolve lib t r"
      using pop_read_split [OF p] by blast
    ultimately show ?thesis using True
      by (intro exI [of _ before] exI [of _ t] exI [of _ ys] exI [of _ r] exI [of _ zs]) simp
  next
    case False
    then have "reorder_once resolve lib (before @ [t]) ts = Some res"
      using Cons.prems by (auto split: if_splits option.splits)
    from Cons.IH [OF this] show ?thesis by simp
  qed
qed simp

lemma reorder_once_measure:
  assumes "reorder_once resolve lib [] ts = Some res"
  shows "unread_patches resolve lib {} res < unread_patches resolve lib {} ts"
proof -
  obtain xs d ys r zs where s: "ts = xs @ d # ys @ r # zs" "res = xs @ r # d # ys @ zs"
    and r: "reads_for resolve lib d r" and d: "tool_call_name d = ''patch''" "\<not> list_ex (reads_for resolve lib d) xs"
    using reorder_once_split [OF assms] by auto
  have n: "tool_call_name r \<noteq> ''patch''" using reads_for_name [OF r] by simp
  have y: "unread_patches resolve lib (insert d (insert r (set xs))) ys \<le> unread_patches resolve lib (insert d (set xs)) ys"
    by (rule unread_patches_mono) auto
  have z: "insert d (insert r (set xs)) \<union> set ys = insert r (insert d (set xs) \<union> set ys)" by auto
  show ?thesis
    using r d n y by (auto simp: s unread_patches_append z list_ex_iff insert_commute)
qed

function reorder_loop :: "(string \<Rightarrow> string) \<Rightarrow> py_lib \<Rightarrow> tool_call list \<Rightarrow> tool_call list" where
  "reorder_loop resolve lib ordered = (case reorder_once resolve lib [] ordered of
       None \<Rightarrow> ordered
     | Some ordered' \<Rightarrow> reorder_loop resolve lib ordered')"
  by pat_completeness auto
termination
  by (relation "measure (\<lambda>(resolve, lib, ordered). unread_patches resolve lib {} ordered)")
    (auto intro: reorder_once_measure)

declare reorder_loop.simps [simp del]

definition reorder_reads_before_destructive :: "(string \<Rightarrow> string) \<Rightarrow> py_lib \<Rightarrow> tool_call list \<Rightarrow> tool_call list" where
  "reorder_reads_before_destructive resolve lib calls =
     (if \<not> batch_has_destructive_and_reads calls then calls else reorder_loop resolve lib calls)"

section \<open>Stale reads\<close>

definition destructive_tool_succeeded :: "py_lib \<Rightarrow> string \<Rightarrow> string \<Rightarrow> bool" where
  "destructive_tool_succeeded lib tool result =
     (if \<not> is_destructive_batch_tool tool then False
      else if fst (classify_tool_failure lib tool (Some result)) then False
      else (case lib_loads lib result of
              Some (JObj data) \<Rightarrow> \<not> (jget data ''ok'' = JBool False) \<and> \<not> truthy (jget data ''error'')
            | _ \<Rightarrow> True))"

record batch_guard =
  bg_invalidated :: "string list"
  bg_last_writer :: string
  bg_skips :: nat

definition new_guard :: batch_guard where
  "new_guard = \<lparr>bg_invalidated = [], bg_last_writer = [], bg_skips = 0\<rparr>"

definition should_skip_stale_read :: "os_env \<Rightarrow> (string \<Rightarrow> string) \<Rightarrow> string \<Rightarrow> (string, jval) dict \<Rightarrow> batch_guard \<Rightarrow> bool" where
  "should_skip_stale_read env resolve tool args g =
     (if \<not> batch_stale_guard_enabled env then False
      else if \<not> is_stale_read_batch_tool tool then False
      else list_ex (\<lambda>scope. list_ex (paths_overlap resolve scope) (bg_invalidated g)) (extract_tool_scope_paths tool args))"

definition invalidate_path :: "(string \<Rightarrow> string) \<Rightarrow> string \<Rightarrow> batch_guard \<Rightarrow> batch_guard" where
  "invalidate_path resolve path g =
     (if resolve path \<noteq> [] \<and> resolve path \<notin> set (bg_invalidated g)
      then g\<lparr>bg_invalidated := bg_invalidated g @ [resolve path]\<rparr> else g)"

text \<open>The edited paths it also records for the session, best effort, belong to \<open>Read_State\<close> and are left out here.\<close>

definition note_tool_result :: "os_env \<Rightarrow> (string \<Rightarrow> string) \<Rightarrow> py_lib \<Rightarrow> string \<Rightarrow> (string, jval) dict \<Rightarrow> string
    \<Rightarrow> batch_guard \<Rightarrow> batch_guard" where
  "note_tool_result env resolve lib tool args result g =
     (if \<not> batch_stale_guard_enabled env then g
      else if \<not> destructive_tool_succeeded lib tool result then g
      else (fold (invalidate_path resolve) (extract_tool_scope_paths tool args) g)\<lparr>bg_last_writer := strip tool\<rparr>)"

definition record_skip :: "batch_guard \<Rightarrow> batch_guard" where
  "record_skip g = g\<lparr>bg_skips := Suc (bg_skips g)\<rparr>"

text \<open>The payload, without the text of its \<open>error\<close>, which repeats the other fields.\<close>

record stale_payload =
  sp_tool :: string
  sp_code :: string
  sp_invalidated_by :: string
  sp_path :: string

definition build_stale_batch_skip_payload :: "string \<Rightarrow> string \<Rightarrow> string \<Rightarrow> string \<Rightarrow> stale_payload" where
  "build_stale_batch_skip_payload tool code invalidated_by path =
     \<lparr>sp_tool = tool, sp_code = code, sp_invalidated_by = str_or invalidated_by ''write/patch'',
      sp_path = str_or path ''(unknown)''\<rparr>"

definition stale_skip_result :: "string \<Rightarrow> (string, jval) dict \<Rightarrow> string \<Rightarrow> batch_guard \<Rightarrow> stale_payload \<times> batch_guard" where
  "stale_skip_result tool args code g =
     (let path = (case extract_tool_scope_paths tool args of [] \<Rightarrow> [] | p # _ \<Rightarrow> p)
      in (build_stale_batch_skip_payload tool code (bg_last_writer g) path, record_skip g))"

section \<open>What the order of a batch becomes\<close>

lemma pop_read_None: "pop_read resolve lib d ts = None \<longleftrightarrow> \<not> list_ex (reads_for resolve lib d) ts"
  by (induction ts) auto

text \<open>A batch on which the loop stops: every patch with a read of its file has one before it.\<close>

lemma reorder_once_None:
  "reorder_once resolve lib before ts = None \<Longrightarrow> ts = xs @ d # ys \<Longrightarrow> tool_call_name d = ''patch'' \<Longrightarrow>
     list_ex (reads_for resolve lib d) ys \<Longrightarrow> list_ex (reads_for resolve lib d) (before @ xs)"
proof (induction ts arbitrary: before xs)
  case (Cons t ts)
  show ?case
  proof (cases xs)
    case Nil
    with Cons.prems show ?thesis by (auto simp: pop_read_None split: if_splits option.splits)
  next
    case (Cons x xs')
    with Cons.prems have "reorder_once resolve lib (before @ [t]) ts = None" "ts = xs' @ d # ys" "x = t"
      by (auto split: if_splits option.splits)
    from Cons.IH [OF this(1,2) Cons.prems(3,4)] \<open>x = t\<close> Cons show ?thesis by simp
  qed
qed simp

text \<open>What every turn keeps.\<close>

definition same_batch :: "tool_call list \<Rightarrow> tool_call list \<Rightarrow> bool" where
  "same_batch ts ts' \<longleftrightarrow> mset ts' = mset ts
     \<and> filter (\<lambda>t. tool_call_name t \<noteq> ''read_file'') ts' = filter (\<lambda>t. tool_call_name t \<noteq> ''read_file'') ts"

lemma reorder_once_same: "reorder_once resolve lib [] ts = Some res \<Longrightarrow> same_batch ts res"
  using reorder_once_split [of resolve lib "[]" ts res] reads_for_name by (auto simp: same_batch_def)

lemma reorder_loop_same: "same_batch ts (reorder_loop resolve lib ts)"
proof (induction resolve lib ts rule: reorder_loop.induct)
  case (1 resolve lib ordered)
  show ?case
  proof (cases "reorder_once resolve lib [] ordered")
    case (Some o')
    with 1 [OF Some] reorder_once_same [OF Some] show ?thesis
      by (simp add: reorder_loop.simps [of resolve lib ordered] same_batch_def)
  qed (simp add: reorder_loop.simps [of resolve lib ordered] same_batch_def)
qed

lemma reorder_loop_stops: "reorder_once resolve lib [] (reorder_loop resolve lib ts) = None"
proof (induction resolve lib ts rule: reorder_loop.induct)
  case (1 resolve lib ordered)
  show ?case
    by (cases "reorder_once resolve lib [] ordered") (use 1 in \<open>simp_all add: reorder_loop.simps [of resolve lib ordered]\<close>)
qed

fun is_object_call :: "tool_call \<Rightarrow> bool" where
  "is_object_call (Call_Obj name args) = True"
| "is_object_call (Call_Dict d) = False"

lemma reorder_same: "same_batch calls (reorder_reads_before_destructive resolve lib calls)"
  using reorder_loop_same by (simp add: reorder_reads_before_destructive_def) (simp add: same_batch_def)

lemma kinds_of_pair:
  assumes "list_all is_object_call calls" and "d \<in> set calls" and "tool_call_name d = ''patch''"
    and "list_ex (reads_for resolve lib d) calls"
  shows "batch_has_destructive_and_reads calls"
proof -
  have name: "attr_name c = tool_call_name c" if "c \<in> set calls" for c
  proof -
    have "is_object_call c" using that assms(1) by (simp add: list_all_iff)
    then show ?thesis by (cases c) simp_all
  qed
  obtain r where r: "r \<in> set calls" "tool_call_name r = ''read_file''"
    using assms(4) by (auto simp: list_ex_iff reads_for_def)
  have k: "is_destructive_batch_tool ''patch''" "is_stale_read_batch_tool ''read_file''" by code_simp+
  have "(is_destructive_batch_tool \<circ> attr_name) d" "(is_stale_read_batch_tool \<circ> attr_name) r"
    using r assms(3) k name[OF r(1)] name[OF assms(2)] by simp_all
  then show ?thesis
    using r(1) assms(2) unfolding batch_has_destructive_and_reads_def list_ex_iff by blast
qed

text \<open>
  C26: The loop that moves reads ahead of patches ends (its recursion is total).  The batch keeps its calls, and
  the order of all but the \<open>read_file\<close> calls is as it was; and in a batch of call objects every patch for
  which the batch holds a read of its file, wherever it was, has such a read ahead of it.
\<close>

theorem reads_precede_patches:
  assumes "list_all is_object_call calls"
  shows "same_batch calls (reorder_reads_before_destructive resolve lib calls)
    \<and> (\<forall>xs d ys. reorder_reads_before_destructive resolve lib calls = xs @ d # ys
         \<and> tool_call_name d = ''patch'' \<and> list_ex (reads_for resolve lib d) calls
         \<longrightarrow> list_ex (reads_for resolve lib d) xs)"
proof (intro conjI allI impI)
  show same: "same_batch calls (reorder_reads_before_destructive resolve lib calls)" by (rule reorder_same)
  fix xs d ys
  assume h: "reorder_reads_before_destructive resolve lib calls = xs @ d # ys
      \<and> tool_call_name d = ''patch'' \<and> list_ex (reads_for resolve lib d) calls"
  have elems: "set calls = set (xs @ d # ys)"
    using same h by (metis same_batch_def mset_eq_setD)
  have "batch_has_destructive_and_reads calls" using kinds_of_pair[OF assms] h elems by auto
  then have l: "reorder_loop resolve lib calls = xs @ d # ys"
    using h by (simp add: reorder_reads_before_destructive_def)
  have none: "reorder_once resolve lib [] (xs @ d # ys) = None"
    using reorder_loop_stops [of resolve lib calls] by (simp add: l)
  have "\<not> reads_for resolve lib d d" using h by (auto simp: reads_for_def)
  then have "list_ex (reads_for resolve lib d) xs \<or> list_ex (reads_for resolve lib d) ys"
    using h elems by (auto simp: list_ex_iff)
  then show "list_ex (reads_for resolve lib d) xs"
    using reorder_once_None [OF none refl] h by auto
qed

definition batch_lib :: py_lib where
  "batch_lib = \<lparr>lib_loads = (\<lambda>s. None), lib_dumps = (\<lambda>v. []), lib_sha256 = (\<lambda>s. s)\<rparr>"

theorem reads_precede_patches_witness:
  "let p = Call_Obj ''patch'' [(''path'', JStr ''/a'')]; r = Call_Obj ''read_file'' [(''path'', JStr ''/a'')]
   in reorder_reads_before_destructive (\<lambda>s. s) batch_lib [p, r] = [r] @ p # []
      \<and> same_batch [p, r] [r, p] \<and> list_ex (reads_for (\<lambda>s. s) batch_lib p) [r]"
proof -
  let ?p = "Call_Obj ''patch'' [(''path'', JStr ''/a'')]" and ?r = "Call_Obj ''read_file'' [(''path'', JStr ''/a'')]"
  have o: "list_all is_object_call [?p, ?r]" by simp
  have l: "reorder_reads_before_destructive (\<lambda>s. s) batch_lib [?p, ?r] = [?r] @ ?p # []" by code_simp
  have h: "list_ex (reads_for (\<lambda>s. s) batch_lib ?p) [?p, ?r]" by code_simp
  have "same_batch [?p, ?r] ([?r] @ ?p # [])" "list_ex (reads_for (\<lambda>s. s) batch_lib ?p) [?r]"
    using reads_precede_patches [OF o, of "\<lambda>s. s" batch_lib] l h by (simp, metis tool_call_name.simps(1))
  with l show ?thesis by (simp add: Let_def)
qed

text \<open>Calls given as dictionaries have no attribute \<open>name\<close>: such a batch is never reordered.\<close>

theorem dict_calls_never_reordered:
  "reorder_reads_before_destructive resolve lib (map Call_Dict ds) = map Call_Dict ds"
proof -
  have "\<not> is_destructive_batch_tool []" by code_simp
  then have "\<not> list_ex (is_destructive_batch_tool \<circ> attr_name) (map Call_Dict ds)"
    by (induction ds) auto
  then have "\<not> batch_has_destructive_and_reads (map Call_Dict ds)"
    by (simp add: batch_has_destructive_and_reads_def)
  then show ?thesis by (simp add: reorder_reads_before_destructive_def)
qed

section \<open>No stale read\<close>

text \<open>The results of a batch noted in order.\<close>

definition note_all :: "os_env \<Rightarrow> (string \<Rightarrow> string) \<Rightarrow> py_lib \<Rightarrow> (string \<times> (string, jval) dict \<times> string) list
    \<Rightarrow> batch_guard \<Rightarrow> batch_guard" where
  "note_all env resolve lib results g =
     fold (\<lambda>(tool, args, result). note_tool_result env resolve lib tool args result) results g"

lemma invalidate_keeps: "set (bg_invalidated g) \<subseteq> set (bg_invalidated (fold (invalidate_path resolve) ps g))"
proof (induction ps arbitrary: g)
  case (Cons p ps)
  have "set (bg_invalidated g) \<subseteq> set (bg_invalidated (invalidate_path resolve p g))"
    by (auto simp: invalidate_path_def)
  with Cons.IH [of "invalidate_path resolve p g"] show ?case by simp
qed simp

lemma invalidate_all:
  "p \<in> set ps \<Longrightarrow> resolve p \<noteq> [] \<Longrightarrow> resolve p \<in> set (bg_invalidated (fold (invalidate_path resolve) ps g))"
proof (induction ps arbitrary: g)
  case (Cons q ps)
  show ?case
  proof (cases "p = q")
    case True
    then have "resolve p \<in> set (bg_invalidated (invalidate_path resolve q g))"
      using Cons.prems by (simp add: invalidate_path_def)
    then show ?thesis using invalidate_keeps by fastforce
  qed (use Cons in simp)
qed simp

lemma note_keeps: "set (bg_invalidated g) \<subseteq> set (bg_invalidated (note_tool_result env resolve lib tool args result g))"
  using invalidate_keeps by (simp add: note_tool_result_def)

lemma note_all_keeps: "set (bg_invalidated g) \<subseteq> set (bg_invalidated (note_all env resolve lib results g))"
proof (induction results arbitrary: g)
  case (Cons x results)
  obtain tool args result where x: "x = (tool, args, result)" by (cases x)
  have "note_all env resolve lib (x # results) g = note_all env resolve lib results (note_tool_result env resolve lib tool args result g)"
    by (simp add: note_all_def x)
  with Cons.IH note_keeps show ?case by (metis order_trans)
qed (simp add: note_all_def)

lemma note_all_marks:
  assumes "(tool, args, result) \<in> set results" and "batch_stale_guard_enabled env"
    and "destructive_tool_succeeded lib tool result" and "p \<in> set (extract_tool_scope_paths tool args)"
    and "resolve p \<noteq> []"
  shows "resolve p \<in> set (bg_invalidated (note_all env resolve lib results g))"
  using assms(1)
proof (induction results arbitrary: g)
  case (Cons x results)
  obtain tool' args' result' where x: "x = (tool', args', result')" by (cases x)
  let ?g = "note_tool_result env resolve lib tool' args' result' g"
  have n: "note_all env resolve lib (x # results) g = note_all env resolve lib results ?g"
    by (simp add: note_all_def x)
  show ?case
  proof (cases "x = (tool, args, result)")
    case True
    then have "resolve p \<in> set (bg_invalidated ?g)"
      using assms(2-5) x by (simp add: note_tool_result_def invalidate_all)
    then show ?thesis using note_all_keeps n by fastforce
  next
    case False
    with Cons show ?thesis by (simp add: n)
  qed
qed simp

text \<open>
  C27: Within a batch no tool that reads is run on a path that overlaps one a tool of the batch
  has written with success: whatever else the batch did before and after the write, the read
  is skipped.
\<close>

theorem no_stale_read:
  assumes "batch_stale_guard_enabled env" and "\<And>p. resolve (resolve p) = resolve p"
    and "(tool, args, result) \<in> set results" and "destructive_tool_succeeded lib tool result"
    and "p \<in> set (extract_tool_scope_paths tool args)" and "resolve p \<noteq> []"
    and "is_stale_read_batch_tool reader" and "s \<in> set (extract_tool_scope_paths reader args')"
    and "paths_overlap resolve s p"
  shows "should_skip_stale_read env resolve reader args' (note_all env resolve lib results g)"
proof -
  have "resolve p \<in> set (bg_invalidated (note_all env resolve lib results g))"
    by (rule note_all_marks) (use assms in blast)+
  moreover have "paths_overlap resolve s (resolve p)"
    using assms(2,6,9) by (simp add: paths_overlap_def)
  ultimately show ?thesis
    using assms(1,7,8) by (auto simp: should_skip_stale_read_def list_ex_iff)
qed

theorem no_stale_read_witness:
  "should_skip_stale_read (\<lambda>_. None) (\<lambda>s. s) ''grep'' [(''path'', JStr ''/a'')]
     (note_all (\<lambda>_. None) (\<lambda>s. s) batch_lib
       [(''edit_file'', [(''path'', JStr ''/a/b'')], ''ok''), (''terminal'', [], ''x'')] new_guard)"
proof (rule no_stale_read)
  show "(''edit_file'', [(''path'', JStr ''/a/b'')], ''ok'')
      \<in> set [(''edit_file'', [(''path'', JStr ''/a/b'')], ''ok''), (''terminal'', [], ''x'')]" by simp
  show "destructive_tool_succeeded batch_lib ''edit_file'' ''ok''" by code_simp
  show "''/a/b'' \<in> set (extract_tool_scope_paths ''edit_file'' [(''path'', JStr ''/a/b'')])" by code_simp
  show "is_stale_read_batch_tool ''grep''" by code_simp
  show "''/a'' \<in> set (extract_tool_scope_paths ''grep'' [(''path'', JStr ''/a'')])" by code_simp
  show "paths_overlap (\<lambda>s. s) ''/a'' ''/a/b''" by code_simp
qed (simp_all add: batch_stale_guard_enabled_def env_truthy_def)

end
