(* ===== verification/Exec_Policy.thy ===== *)
theory Exec_Policy
  imports Json_Values
begin

text \<open>
  Which terminal commands run: the prefix rules of \<open>execpolicy/engine.py\<close>, read from the
  policy files of the workspace, the home directory and the package, and the patterns of
  \<open>tools/terminal_danger.py\<close> that block what no rule allows.

  \<open>shlex.split\<close> is the state machine of the standard library (POSIX mode, split at white
  space, no comments), and \<open>re.search\<close> the search with a small datatype of regular
  expressions over encoded characters.  The YAML parser, the letters beyond ASCII that count
  as word characters and the approvals of patterns are parameters.
\<close>

section \<open>Tokens\<close>

datatype lex_state = Between | In_Word | In_Quote char | Escaped | Escaped_In char

definition shlex_white :: "char \<Rightarrow> bool" where
  "shlex_white c \<longleftrightarrow> (of_char c :: nat) \<in> {32, 9, 13, 10}"

definition quote_char :: "char \<Rightarrow> bool" where
  "quote_char c \<longleftrightarrow> c = CHR 0x27 \<or> c = CHR 0x22"

definition backslash :: char where "backslash = CHR 0x5C"

text \<open>The state, the token so far, whether it was quoted, and the rest; \<open>None\<close> is a \<open>ValueError\<close>.\<close>

fun shlex_split :: "lex_state \<Rightarrow> string \<Rightarrow> bool \<Rightarrow> string \<Rightarrow> string list option" where
  "shlex_split Between token quoted [] = Some []"
| "shlex_split Between token quoted (c # cs) =
     (if shlex_white c then shlex_split Between [] False cs
      else if c = backslash then shlex_split Escaped [] False cs
      else if quote_char c then shlex_split (In_Quote c) [] False cs
      else shlex_split In_Word [c] False cs)"
| "shlex_split In_Word token quoted [] = Some (if token = [] \<and> \<not> quoted then [] else [token])"
| "shlex_split In_Word token quoted (c # cs) =
     (if shlex_white c
      then (if token \<noteq> [] \<or> quoted then map_option (Cons token) (shlex_split Between [] False cs)
            else shlex_split Between [] False cs)
      else if quote_char c then shlex_split (In_Quote c) token quoted cs
      else if c = backslash then shlex_split Escaped token quoted cs
      else shlex_split In_Word (token @ [c]) quoted cs)"
| "shlex_split (In_Quote q) token quoted [] = None"
| "shlex_split (In_Quote q) token quoted (c # cs) =
     (if c = q then shlex_split In_Word token True cs
      else if c = backslash \<and> q = CHR 0x22 then shlex_split (Escaped_In q) token True cs
      else shlex_split (In_Quote q) (token @ [c]) True cs)"
| "shlex_split Escaped token quoted [] = None"
| "shlex_split Escaped token quoted (c # cs) = shlex_split In_Word (token @ [c]) quoted cs"
| "shlex_split (Escaped_In q) token quoted [] = None"
| "shlex_split (Escaped_In q) token quoted (c # cs) =
     shlex_split (In_Quote q) (token @ (if c \<noteq> backslash \<and> c \<noteq> q then [backslash, c] else [c])) quoted cs"

text \<open>\<open>str.split()\<close> on the encoded characters.\<close>

fun split_white :: "string \<Rightarrow> string list \<Rightarrow> string list" where
  "split_white cur [] = (if cur = [] then [] else [cur])"
| "split_white cur (u # us) =
     (if is_ws u then (if cur = [] then split_white [] us else cur # split_white [] us)
      else split_white (cur @ u) us)"

definition tokenize_command :: "string \<Rightarrow> string list" where
  "tokenize_command command = (let t = strip command in
     if t = [] then [] else case shlex_split Between [] False t of Some ts \<Rightarrow> ts | None \<Rightarrow> split_white [] (cps t))"

section \<open>Rules\<close>

datatype policy_decision = Policy_Allow | Policy_Prompt | Policy_Forbidden

record policy_result =
  pr_decision :: policy_decision
  pr_matched_rule :: string
  pr_justification :: string

datatype token_spec = One_Token string | Any_Of "string list"

record prefix_rule =
  px_name :: string
  px_pattern :: "token_spec list"
  px_decision :: policy_decision
  px_justification :: string
  px_match :: "string list list"
  px_not_match :: "string list list"

definition execpolicy_enabled :: "os_env \<Rightarrow> bool" where
  "execpolicy_enabled env = env_truthy env ''BUTLER_EXECPOLICY'' True"

definition normalize_example :: "jval \<Rightarrow> string list" where
  "normalize_example v = (case v of
       JList xs \<Rightarrow> map pystr xs | JStr s \<Rightarrow> tokenize_command s | _ \<Rightarrow> [])"

fun pattern_item :: "jval \<Rightarrow> token_spec option" where
  "pattern_item (JList xs) =
     (let alts = map (strip \<circ> pystr) (filter (\<lambda>a. strip (pystr a) \<noteq> []) xs)
      in if alts = [] then None else Some (Any_Of alts))"
| "pattern_item v = (if strip (pystr v) = [] then None else Some (One_Token (strip (pystr v))))"

definition decision_of_text :: "string \<Rightarrow> policy_decision" where
  "decision_of_text s = (if s = ''allow'' then Policy_Allow else if s = ''prompt'' then Policy_Prompt
     else Policy_Forbidden)"

text \<open>
  \<open>[... for x in (raw.get(k) or [])]\<close>: strings and dictionaries are iterated too, and
  anything else raises (\<open>None\<close>).
\<close>

definition example_list :: "jval \<Rightarrow> string list list option" where
  "example_list v = map_option (filter (\<lambda>m. m \<noteq> []))
     (if \<not> truthy v then Some []
      else case v of
        JList xs \<Rightarrow> Some (map normalize_example xs)
      | JStr s \<Rightarrow> Some (map tokenize_command (cps s))
      | JObj m \<Rightarrow> Some (map tokenize_command (dkeys m))
      | _ \<Rightarrow> None)"

datatype 'a parsed = Parse_Error | Not_A_Rule | Parsed 'a

definition parse_rule :: "(string, jval) dict \<Rightarrow> nat \<Rightarrow> prefix_rule parsed" where
  "parse_rule raw index = (case jget raw ''pattern'' of
       JList items \<Rightarrow>
         (let pattern = List.map_filter pattern_item items in
          if items = [] \<or> pattern = [] then Not_A_Rule
          else case (example_list (jget raw ''match''), example_list (jget raw ''not_match'')) of
            (Some match, Some not_match) \<Rightarrow> Parsed
              \<lparr>px_name = str_field raw ''name'' (''rule_'' @ str_of_nat index), px_pattern = pattern,
               px_decision = decision_of_text (lower (strip (str_field raw ''decision'' ''allow''))),
               px_justification = strip (str_field raw ''justification'' []),
               px_match = match, px_not_match = not_match\<rparr>
          | _ \<Rightarrow> Parse_Error)
     | _ \<Rightarrow> Not_A_Rule)"

fun matches_spec :: "string \<Rightarrow> token_spec \<Rightarrow> bool" where
  "matches_spec tok (One_Token s) = (tok = s)"
| "matches_spec tok (Any_Of ss) = (tok \<in> set ss)"

fun matches_pattern :: "string list \<Rightarrow> token_spec list \<Rightarrow> bool" where
  "matches_pattern tokens [] = True"
| "matches_pattern [] (spec # pattern) = False"
| "matches_pattern (tok # tokens) (spec # pattern) = (matches_spec tok spec \<and> matches_pattern tokens pattern)"

text \<open>The examples a rule gets wrong; they are logged only.\<close>

definition validate_rule :: "prefix_rule \<Rightarrow> string list list" where
  "validate_rule rule = filter (\<lambda>ex. \<not> matches_pattern ex (px_pattern rule)) (px_match rule)
     @ filter (\<lambda>ex. matches_pattern ex (px_pattern rule)) (px_not_match rule)"

section \<open>Policy files\<close>

text \<open>
  A file is what the parser returns, \<open>None\<close> when it cannot be read.  Anything but a dictionary
  counts as empty.
\<close>

definition load_execpolicy_yaml :: "jval option \<Rightarrow> (string, jval) dict option" where
  "load_execpolicy_yaml yaml = map_option (\<lambda>v. case v of JObj m \<Rightarrow> m | _ \<Rightarrow> []) yaml"

fun add_rules :: "nat \<Rightarrow> jval list \<Rightarrow> prefix_rule list \<Rightarrow> prefix_rule list option" where
  "add_rules i [] rules = Some rules"
| "add_rules i (raw # raws) rules =
     (case parse_rule (case raw of JObj m \<Rightarrow> m | _ \<Rightarrow> []) i of
        Parse_Error \<Rightarrow> None
      | Not_A_Rule \<Rightarrow> add_rules (Suc i) raws rules
      | Parsed rule \<Rightarrow> add_rules (Suc i) raws
          (if px_name rule \<in> px_name ` set rules then rules else rules @ [rule]))"

definition add_file :: "jval option \<Rightarrow> prefix_rule list \<Rightarrow> prefix_rule list option" where
  "add_file yaml rules = (case load_execpolicy_yaml yaml of
       None \<Rightarrow> Some rules
     | Some data \<Rightarrow> (case jget data ''rules'' of JList block \<Rightarrow> add_rules 0 block rules | _ \<Rightarrow> Some rules))"

text \<open>The files that exist: of the workspace, of the home directory, of the package.\<close>

fun add_files :: "jval option list \<Rightarrow> prefix_rule list \<Rightarrow> prefix_rule list option" where
  "add_files [] rules = Some rules"
| "add_files (f # fs) rules = (case add_file f rules of None \<Rightarrow> None | Some rules' \<Rightarrow> add_files fs rules')"

definition load_policy_rules :: "jval option list \<Rightarrow> prefix_rule list option" where
  "load_policy_rules files = add_files files []"

datatype policy_answer = Policy_Raises | No_Policy | Policy_Says policy_result

definition evaluate_command :: "os_env \<Rightarrow> jval option list \<Rightarrow> string \<Rightarrow> policy_answer" where
  "evaluate_command env files command =
     (if \<not> execpolicy_enabled env then No_Policy
      else let tokens = tokenize_command command in
        if tokens = [] then No_Policy
        else case load_policy_rules files of
          None \<Rightarrow> Policy_Raises
        | Some rules \<Rightarrow>
            (case find (\<lambda>rule. matches_pattern tokens (px_pattern rule)) rules of
               None \<Rightarrow> No_Policy
             | Some rule \<Rightarrow> Policy_Says \<lparr>pr_decision = px_decision rule, pr_matched_rule = px_name rule,
                 pr_justification = px_justification rule\<rparr>))"

text \<open>The caller turns an exception into no answer.\<close>

definition evaluate_execpolicy_safe :: "os_env \<Rightarrow> jval option list \<Rightarrow> string \<Rightarrow> policy_result option" where
  "evaluate_execpolicy_safe env files command = (case evaluate_command env files command of
       Policy_Says r \<Rightarrow> Some r | _ \<Rightarrow> None)"

text \<open>\<open>execpolicy/builtin_rules.yaml\<close>.\<close>

definition builtin_rules :: jval where
  "builtin_rules = JObj [(''rules'', JList [
     JObj [(''name'', JStr ''git_readonly''),
       (''pattern'', JList [JStr ''git'', JList [JStr ''status'', JStr ''diff'', JStr ''log'', JStr ''show'', JStr ''branch'']]),
       (''decision'', JStr ''allow''), (''justification'', JStr (bytes [229, 143, 170, 232, 175, 187] @ '' git '' @ bytes [229, 173, 144, 229, 145, 189, 228, 187, 164])),
       (''match'', JList [JList [JStr ''git'', JStr ''status''], JStr ''git diff'']),
       (''not_match'', JList [JList [JStr ''git'', JStr ''push'']])],
     JObj [(''name'', JStr ''pytest_collect''),
       (''pattern'', JList [JStr ''pytest'', JList [JStr ''--collect-only'', JStr ''-q'']]),
       (''decision'', JStr ''allow''), (''match'', JList [JStr ''pytest --collect-only -q'']),
       (''not_match'', JList [JList [JStr ''pytest'', JStr []]])]])]"

section \<open>Regular expressions\<close>

datatype rx =
    R_Set "string \<Rightarrow> bool"
  | R_Seq rx rx
  | R_Alt rx rx
  | R_Star rx
  | R_Empty
  | R_Boundary

text \<open>The positions reached from \<open>is\<close> by at most \<open>n\<close> steps.\<close>

fun reach :: "nat \<Rightarrow> (nat \<Rightarrow> nat list) \<Rightarrow> nat list \<Rightarrow> nat list" where
  "reach 0 f is = is"
| "reach (Suc n) f is = reach n f (remdups (is @ concat (map f is)))"

text \<open>The positions at which a match that starts at \<open>i\<close> can end.\<close>

fun rx_ends :: "(string \<Rightarrow> bool) \<Rightarrow> string list \<Rightarrow> rx \<Rightarrow> nat \<Rightarrow> nat list" where
  "rx_ends w s (R_Set p) i = (if i < length s \<and> p (s ! i) then [Suc i] else [])"
| "rx_ends w s (R_Seq a b) i = remdups (concat (map (rx_ends w s b) (rx_ends w s a i)))"
| "rx_ends w s (R_Alt a b) i = remdups (rx_ends w s a i @ rx_ends w s b i)"
| "rx_ends w s (R_Star a) i =
     reach (length s) (rx_ends w s a) [i]"
| "rx_ends w s R_Empty i = [i]"
| "rx_ends w s R_Boundary i =
     (if (0 < i \<and> i \<le> length s \<and> w (s ! (i - 1))) \<noteq> (i < length s \<and> w (s ! i)) then [i] else [])"

definition rx_search :: "(string \<Rightarrow> bool) \<Rightarrow> rx \<Rightarrow> string \<Rightarrow> bool" where
  "rx_search w r t = (let s = cps t in list_ex (\<lambda>i. rx_ends w s r i \<noteq> []) [0..<Suc (length s)])"

text \<open>A character with its case ignored; two letters beyond ASCII fold to \<open>s\<close> and \<open>k\<close>.\<close>

definition same_letter :: "char \<Rightarrow> string \<Rightarrow> bool" where
  "same_letter c u \<longleftrightarrow> lower u = lower [c] \<or> (lower [c] = ''s'' \<and> u = bytes [197, 191])
     \<or> (lower [c] = ''k'' \<and> u = bytes [226, 132, 170])"

fun r_text :: "string \<Rightarrow> rx" where
  "r_text [] = R_Empty"
| "r_text (c # cs) = R_Seq (R_Set (same_letter c)) (r_text cs)"

fun r_seq :: "rx list \<Rightarrow> rx" where
  "r_seq [] = R_Empty"
| "r_seq (r # rs) = R_Seq r (r_seq rs)"

definition r_plus :: "rx \<Rightarrow> rx" where "r_plus r = R_Seq r (R_Star r)"
definition r_opt :: "rx \<Rightarrow> rx" where "r_opt r = R_Alt r R_Empty"
definition r_space :: rx where "r_space = R_Set is_ws"
definition r_nonspace :: rx where "r_nonspace = R_Set (\<lambda>u. \<not> is_ws u)"
definition r_dot :: rx where "r_dot = R_Set (\<lambda>u. u \<noteq> nl)"

text \<open>\<open>\b\<close> asks for letters, digits and the underscore; \<open>alnum\<close> is \<open>isalnum\<close> beyond ASCII.\<close>

definition word_char :: "(string \<Rightarrow> bool) \<Rightarrow> string \<Rightarrow> bool" where
  "word_char alnum u = (case u of
       [c] \<Rightarrow> let n = (of_char c :: nat) in
         48 \<le> n \<and> n \<le> 57 \<or> 65 \<le> n \<and> n \<le> 90 \<or> 97 \<le> n \<and> n \<le> 122 \<or> n = 95
     | _ \<Rightarrow> alnum u)"

lemma word_char_byte: "word_char alnum [Char b0 b1 b2 b3 b4 b5 b6 b7] \<longleftrightarrow> \<not> b7 \<and>
     (if b6 then ((b0 \<or> b1 \<or> b2 \<or> b3 \<or> b4) \<and> \<not> (b4 \<and> b3 \<and> (b2 \<or> b1 \<and> b0)) \<or> \<not> b5 \<and> b4 \<and> b3 \<and> b2 \<and> b1 \<and> b0) else b5 \<and> b4 \<and> (\<not> b3 \<or> \<not> b2 \<and> \<not> b1))"
  by (cases b7; cases b6; cases b5; cases b4; cases b3; cases b2; cases b1; cases b0; simp add: word_char_def)

lemma word_char_code [code]:
  "word_char alnum [] = alnum []"
  "word_char alnum [Char b0 b1 b2 b3 b4 b5 b6 b7] \<longleftrightarrow> \<not> b7 \<and>
     (if b6 then ((b0 \<or> b1 \<or> b2 \<or> b3 \<or> b4) \<and> \<not> (b4 \<and> b3 \<and> (b2 \<or> b1 \<and> b0)) \<or> \<not> b5 \<and> b4 \<and> b3 \<and> b2 \<and> b1 \<and> b0) else b5 \<and> b4 \<and> (\<not> b3 \<or> \<not> b2 \<and> \<not> b1))"
  "word_char alnum (c # d # u) = alnum (c # d # u)"
  by (simp add: word_char_def, rule word_char_byte, simp add: word_char_def)

definition danger_patterns :: "(string \<times> rx) list" where
  "danger_patterns = [
     (''rm_rf'', r_seq [R_Boundary, r_text ''rm'', r_plus r_space,
        R_Star (r_seq [r_text ''-'', r_plus r_nonspace, r_plus r_space]), R_Star r_nonspace, r_text ''/'']),
     (''curl_pipe_sh'', r_seq [R_Boundary, R_Alt (r_text ''curl'') (r_text ''wget''), R_Boundary,
        R_Star (R_Set (\<lambda>u. u \<noteq> nl \<and> u \<noteq> ''|'')), r_text ''|'', R_Star r_space, r_opt (r_text ''ba''), r_text ''sh'', R_Boundary]),
     (''chmod_777'', r_seq [R_Boundary, r_text ''chmod'', r_plus r_space, r_opt (R_Alt (r_text ''-'') (r_text ''+'')),
        r_text ''777'', R_Boundary]),
     (''disk_destroy'', R_Alt (r_seq [R_Boundary, r_text ''mkfs.''])
        (r_seq [r_text ''dd'', r_plus r_space, r_text ''if='', R_Star r_dot, r_text ''of=/dev/''])),
     (''reverse_shell'', r_seq [R_Boundary, R_Alt (r_text ''nc'') (r_text ''netcat''), R_Boundary, R_Star r_dot,
        R_Alt (r_text ''-e'') (r_text ''--exec''), r_plus r_space, r_text ''/bin/''])]"

section \<open>The check\<close>

datatype danger_reason = No_Reason | Policy_Reason string | Pattern_Reason string

record danger_result =
  dc_allowed :: bool
  dc_reason :: danger_reason
  dc_pattern :: string

definition danger_ok :: danger_result where
  "danger_ok = \<lparr>dc_allowed = True, dc_reason = No_Reason, dc_pattern = []\<rparr>"

definition danger_patterns_enabled :: "os_env \<Rightarrow> bool" where
  "danger_patterns_enabled env \<longleftrightarrow>
     lower (strip (case env ''BUTLER_TERMINAL_DANGER_CHECK'' of Some s \<Rightarrow> s | None \<Rightarrow> ''1''))
       \<notin> set [''0'', ''false'', ''no'', ''off'']"

text \<open>\<open>session\<close> is the session of the terminal; \<open>approved\<close> asks its approvals of patterns.\<close>

definition check_dangerous_command :: "os_env \<Rightarrow> (string \<Rightarrow> bool) \<Rightarrow> jval option list
    \<Rightarrow> (string \<Rightarrow> string \<Rightarrow> bool) \<Rightarrow> string \<Rightarrow> string \<Rightarrow> danger_result" where
  "check_dangerous_command env alnum files approved session command =
     (if \<not> danger_patterns_enabled env then danger_ok
      else let t = strip command in
        if t = [] then danger_ok
        else let pol = evaluate_execpolicy_safe env files t in
          if (case pol of Some p \<Rightarrow> pr_decision p = Policy_Forbidden | None \<Rightarrow> False)
          then \<lparr>dc_allowed = False,
            dc_reason = Policy_Reason (str_or (case pol of Some p \<Rightarrow> pr_justification p | None \<Rightarrow> []) ''execpolicy forbidden''),
            dc_pattern = (case pol of Some p \<Rightarrow> pr_matched_rule p | None \<Rightarrow> [])\<rparr>
          else if (case pol of Some p \<Rightarrow> pr_decision p = Policy_Allow | None \<Rightarrow> False) then danger_ok
          else case find (\<lambda>(name, r). rx_search (word_char alnum) r t) danger_patterns of
            None \<Rightarrow> danger_ok
          | Some (name, _) \<Rightarrow>
              if session \<noteq> [] \<and> approved session name then danger_ok
              else \<lparr>dc_allowed = False, dc_reason = Pattern_Reason name, dc_pattern = name\<rparr>)"

end
