(* ===== verification/Exec_Policy_Props.thy ===== *)
theory Exec_Policy_Props
  imports Exec_Policy
begin

text \<open>
  The order of policy files and rules, and where a policy says more, or less, than its author
  wrote: commands chained behind an allowed prefix, rules without a name, and a malformed
  example.
\<close>

section \<open>Order of files and rules\<close>

lemma add_rules_extends: "add_rules i raws rules = Some rules' \<Longrightarrow> \<exists>extra. rules' = rules @ extra"
proof (induction raws arbitrary: i rules)
  case (Cons raw raws)
  show ?case
    using Cons.prems Cons.IH
    by (cases "parse_rule (case raw of JObj m \<Rightarrow> m | _ \<Rightarrow> []) i") (auto split: if_splits, metis append_assoc)
qed simp

lemma add_file_extends: "add_file f rules = Some rules' \<Longrightarrow> \<exists>extra. rules' = rules @ extra"
  by (auto simp: add_file_def dest: add_rules_extends split: option.splits jval.splits)

lemma add_files_extends: "add_files fs rules = Some rules' \<Longrightarrow> \<exists>extra. rules' = rules @ extra"
proof (induction fs arbitrary: rules)
  case (Cons f fs)
  then show ?case by (auto split: option.splits dest!: add_file_extends, metis append_assoc)
qed simp

lemma add_rules_distinct:
  "add_rules i raws rules = Some rules' \<Longrightarrow> distinct (map px_name rules) \<Longrightarrow> distinct (map px_name rules')"
  by (induction raws arbitrary: i rules) (auto split: parsed.splits if_splits)

lemma add_files_distinct:
  "add_files fs rules = Some rules' \<Longrightarrow> distinct (map px_name rules) \<Longrightarrow> distinct (map px_name rules')"
proof (induction fs arbitrary: rules)
  case (Cons f fs)
  then obtain r where r: "add_file f rules = Some r" "add_files fs r = Some rules'" by (auto split: option.splits)
  then have "distinct (map px_name r)"
    using Cons.prems(2) by (auto simp: add_file_def dest: add_rules_distinct split: option.splits jval.splits)
  with Cons.IH r show ?case by blast
qed simp

text \<open>
  The first file has the last word: a rule of it that matches decides the command whatever
  the other files say, so a policy in the workspace overrides the one of the owner's home
  directory, prohibitions included.
\<close>

theorem first_file_decides:
  assumes "execpolicy_enabled env" and "tokenize_command c \<noteq> []"
    and "add_file f [] = Some own" and "load_policy_rules (f # fs) \<noteq> None"
    and "find (\<lambda>r. matches_pattern (tokenize_command c) (px_pattern r)) own = Some rule"
  shows "evaluate_command env (f # fs) c =
     Policy_Says \<lparr>pr_decision = px_decision rule, pr_matched_rule = px_name rule, pr_justification = px_justification rule\<rparr>"
proof -
  obtain rules where r: "add_files fs own = Some rules"
    using assms(3,4) by (auto simp: load_policy_rules_def split: option.splits)
  then obtain extra where "rules = own @ extra" using add_files_extends by blast
  then have "find (\<lambda>r. matches_pattern (tokenize_command c) (px_pattern r)) rules = Some rule"
    using assms(5) by (induction own arbitrary: rules) (auto split: if_splits)
  with r assms(1-3) show ?thesis by (simp add: evaluate_command_def load_policy_rules_def Let_def)
qed

definition allow_all_rm :: jval where
  "allow_all_rm = JObj [(''rules'', JList [JObj [(''name'', JStr ''w''), (''pattern'', JList [JStr ''rm'']), (''decision'', JStr ''allow'')]])]"

definition forbid_rm :: jval where
  "forbid_rm = JObj [(''rules'', JList [JObj [(''name'', JStr ''h''), (''pattern'', JList [JStr ''rm'']), (''decision'', JStr ''forbidden'')]])]"

theorem first_file_decides_witness:
  "evaluate_command (\<lambda>_. None) [Some allow_all_rm, Some forbid_rm] ''rm x'' =
     Policy_Says \<lparr>pr_decision = Policy_Allow, pr_matched_rule = ''w'', pr_justification = []\<rparr>"
proof -
  let ?rule = "\<lparr>px_name = ''w'', px_pattern = [One_Token ''rm''], px_decision = Policy_Allow, px_justification = [],
      px_match = [], px_not_match = []\<rparr>"
  have t: "tokenize_command ''rm x'' = [''rm'', ''x'']" by code_simp
  have f: "add_file (Some allow_all_rm) [] = Some [?rule]" by code_simp
  have "load_policy_rules [Some allow_all_rm, Some forbid_rm] \<noteq> None" by code_simp
  moreover have "execpolicy_enabled (\<lambda>_. None)" by (simp add: execpolicy_enabled_def env_truthy_def)
  ultimately show ?thesis
    using first_file_decides [of "\<lambda>_. None" "''rm x''" "Some allow_all_rm" "[?rule]" "[Some forbid_rm]" ?rule] f t
    by simp
qed

section \<open>Chained commands\<close>

lemma tokenize_git_status:
  assumes "strip c = c" and "c = ''git status '' @ s" and "lead_text s"
  shows "\<exists>ts. tokenize_command c = ''git'' # ''status'' # ts"
proof -
  have "shlex_split Between [] False (''git status '' @ s)
      = map_option (\<lambda>ts. ''git'' # ''status'' # ts) (shlex_split Between [] False s)"
    by (simp add: shlex_white_def quote_char_def backslash_def option.map_comp comp_def)
  moreover have "cps (''git status '' @ s)
      = [''g'', ''i'', ''t'', '' '', ''s'', ''t'', ''a'', ''t'', ''u'', ''s'', '' ''] @ cps s"
  proof -
    have "cps ''git status '' = [''g'', ''i'', ''t'', '' '', ''s'', ''t'', ''a'', ''t'', ''u'', ''s'', '' '']" by code_simp
    with cps_append [OF assms(3), of "''git status ''"] show ?thesis by simp
  qed
  moreover have "split_white [] ([''g'', ''i'', ''t'', '' '', ''s'', ''t'', ''a'', ''t'', ''u'', ''s'', '' ''] @ us)
      = ''git'' # ''status'' # split_white [] us" for us
    by (simp add: is_ws_def ws_codes_def)
  ultimately show ?thesis
    using assms(1,2) by (auto simp: tokenize_command_def Let_def split: option.splits)
qed

lemma builtin_policy:
  "load_policy_rules [Some builtin_rules] = Some [
     \<lparr>px_name = ''git_readonly'', px_pattern = [One_Token ''git'', Any_Of [''status'', ''diff'', ''log'', ''show'', ''branch'']],
      px_decision = Policy_Allow, px_justification = (bytes [229, 143, 170, 232, 175, 187] @ '' git '' @ bytes [229, 173, 144, 229, 145, 189, 228, 187, 164]),
      px_match = [[''git'', ''status''], [''git'', ''diff'']], px_not_match = [[''git'', ''push'']]\<rparr>,
     \<lparr>px_name = ''pytest_collect'', px_pattern = [One_Token ''pytest'', Any_Of [''--collect-only'', ''-q'']],
      px_decision = Policy_Allow, px_justification = [],
      px_match = [[''pytest'', ''--collect-only'', ''-q'']], px_not_match = [[''pytest'', []]]\<rparr>]"
  by code_simp

text \<open>
  The rules look at the first tokens of the line only, and a rule that allows ends the check:
  with the rules of the package alone, whatever stands behind \<open>git status\<close> runs, the commands
  chained to it with \<open>&&\<close> or a pipe included, and the patterns for dangerous commands are
  never tried.
\<close>

theorem allowed_prefix_hides_rest:
  assumes "strip c = c" and "c = ''git status '' @ s" and "lead_text s" and "execpolicy_enabled env"
  shows "check_dangerous_command env alnum [Some builtin_rules] approved session c = danger_ok"
proof -
  obtain ts where "tokenize_command c = ''git'' # ''status'' # ts"
    using tokenize_git_status assms(1-3) by blast
  then obtain r where "evaluate_execpolicy_safe env [Some builtin_rules] c = Some r" "pr_decision r = Policy_Allow"
    using assms(4) by (simp add: evaluate_execpolicy_safe_def evaluate_command_def builtin_policy)
  then show ?thesis using assms(1,2) by (simp add: check_dangerous_command_def)
qed

text \<open>The same tail alone is blocked.\<close>

lemma find_hd: "xs \<noteq> [] \<Longrightarrow> P (hd xs) \<Longrightarrow> find P xs = Some (hd xs)"
  by (cases xs) simp_all

lemma rm_matches: "rx_search (word_char (\<lambda>u. True)) (snd (hd danger_patterns)) ''rm /''"
proof -
  have "cps ''rm /'' = [''r'', ''m'', '' '', ''/'']" by code_simp
  moreover have "rx_ends (word_char (\<lambda>u. True)) [''r'', ''m'', '' '', ''/''] (snd (hd danger_patterns)) 0 = [4]"
    by code_simp
  ultimately show ?thesis unfolding rx_search_def Let_def list_ex_iff by (intro bexI [of _ 0]) simp_all
qed

lemma rm_alone_blocked:
  "\<not> dc_allowed (check_dangerous_command (\<lambda>_. None) (\<lambda>u. True) [Some builtin_rules] (\<lambda>_ _. False) [] ''rm /'')"
proof -
  have "strip ''rm /'' = ''rm /''" by code_simp
  moreover have "tokenize_command ''rm /'' = [''rm'', ''/'']" by code_simp
  then have "evaluate_execpolicy_safe (\<lambda>_. None) [Some builtin_rules] ''rm /'' = None"
    by (simp add: evaluate_execpolicy_safe_def evaluate_command_def builtin_policy)
  moreover have "find (\<lambda>(name, r). rx_search (word_char (\<lambda>u. True)) r ''rm /'') danger_patterns = Some (hd danger_patterns)"
    by (rule find_hd) (simp add: danger_patterns_def, simp add: case_prod_unfold rm_matches)
  moreover have "danger_patterns_enabled (\<lambda>_. None)" by code_simp
  ultimately show ?thesis by (simp add: check_dangerous_command_def case_prod_unfold)
qed

theorem allowed_prefix_hides_rest_witness:
  "check_dangerous_command (\<lambda>_. None) (\<lambda>u. True) [Some builtin_rules] (\<lambda>_ _. False) [] ''git status && rm /'' = danger_ok
   \<and> check_dangerous_command (\<lambda>_. None) (\<lambda>u. True) [Some builtin_rules] (\<lambda>_ _. False) [] ''rm /'' \<noteq> danger_ok"
proof -
  have "strip ''git status && rm /'' = ''git status && rm /''" by code_simp
  moreover have "''git status && rm /'' = ''git status '' @ ''&& rm /''" by simp
  moreover have "lead_text ''&& rm /''" by code_simp
  moreover have "execpolicy_enabled (\<lambda>_. None)" by (simp add: execpolicy_enabled_def env_truthy_def)
  ultimately have "check_dangerous_command (\<lambda>_. None) (\<lambda>u. True) [Some builtin_rules] (\<lambda>_ _. False) [] ''git status && rm /'' = danger_ok"
    by (rule allowed_prefix_hides_rest)
  moreover have "check_dangerous_command (\<lambda>_. None) (\<lambda>u. True) [Some builtin_rules] (\<lambda>_ _. False) [] ''rm /'' \<noteq> danger_ok"
    using rm_alone_blocked by (auto simp: danger_ok_def)
  ultimately show ?thesis ..
qed

section \<open>Rules that are lost\<close>

text \<open>
  A rule without a name is named by its position in its file, and a name seen before is
  skipped: the unnamed rule of the workspace at some position removes the unnamed rule of the
  home directory at the same position, a prohibition included.
\<close>

theorem unnamed_rules_collide:
  assumes "parse_rule w 0 = Parsed rw" and "parse_rule h 0 = Parsed rh"
    and "\<not> truthy (jget w ''name'')" and "\<not> truthy (jget h ''name'')"
  shows "load_policy_rules [Some (JObj [(''rules'', JList [JObj w])]), Some (JObj [(''rules'', JList [JObj h])])]
    = load_policy_rules [Some (JObj [(''rules'', JList [JObj w])])]"
proof -
  have "px_name r = ''rule_'' @ str_of_nat 0" if "parse_rule d 0 = Parsed r" "\<not> truthy (jget d ''name'')" for d r
    using that by (auto simp: parse_rule_def str_field_def jor_def Let_def split: jval.splits if_splits option.splits)
  then have "px_name rw = px_name rh" using assms by simp
  then show ?thesis using assms(1,2) by (simp add: load_policy_rules_def add_file_def load_execpolicy_yaml_def)
qed

theorem unnamed_rules_collide_witness:
  "load_policy_rules
     [Some (JObj [(''rules'', JList [JObj [(''pattern'', JList [JStr ''ls''])]])]),
      Some (JObj [(''rules'', JList [JObj [(''pattern'', JList [JStr ''rm'']), (''decision'', JStr ''forbidden'')]])])]
   = load_policy_rules [Some (JObj [(''rules'', JList [JObj [(''pattern'', JList [JStr ''ls''])]])])]"
proof -
  have "\<exists>r. parse_rule [(''pattern'', JList [JStr ''ls''])] 0 = Parsed r"
    "\<exists>r. parse_rule [(''pattern'', JList [JStr ''rm'']), (''decision'', JStr ''forbidden'')] 0 = Parsed r"
    by (simp_all add: parse_rule_def List.map_filter_def example_list_def is_ws_def ws_codes_def strip_def)
  then show ?thesis by (auto intro: unnamed_rules_collide)
qed

text \<open>
  The examples of a rule are only checked to be logged, but a rule whose example is not a list
  or a text raises while the rules are loaded; the caller reads that as no policy, and no
  prohibition of any file is in force.
\<close>

theorem malformed_example_disables_policy:
  assumes "jget raw ''pattern'' = JList [JStr p]" and "strip p \<noteq> []" and "jget raw ''match'' = JInt n" and "n \<noteq> 0"
    and "add_files before [] = Some rules"
  shows "evaluate_execpolicy_safe env (before @ Some (JObj [(''rules'', JList (JObj raw # extra))]) # after) c = None"
proof -
  have "parse_rule raw 0 = Parse_Error"
    using assms(1-4) by (simp add: parse_rule_def example_list_def List.map_filter_def)
  then have "add_file (Some (JObj [(''rules'', JList (JObj raw # extra))])) rules = None"
    by (simp add: add_file_def load_execpolicy_yaml_def)
  moreover have "add_files (before @ fs) rs = (case add_files before rs of None \<Rightarrow> None | Some rs' \<Rightarrow> add_files fs rs')" for fs rs
    by (induction before arbitrary: rs) (auto split: option.splits)
  ultimately have "load_policy_rules (before @ Some (JObj [(''rules'', JList (JObj raw # extra))]) # after) = None"
    using assms(5) by (simp add: load_policy_rules_def)
  then show ?thesis by (simp add: evaluate_execpolicy_safe_def evaluate_command_def Let_def)
qed

theorem malformed_example_disables_policy_witness:
  "evaluate_execpolicy_safe (\<lambda>_. None)
     ([Some forbid_rm] @ Some (JObj [(''rules'', JList [JObj [(''pattern'', JList [JStr ''ls'']), (''match'', JInt 1)]])]) # []) ''rm x'' = None"
proof -
  have "strip ''ls'' \<noteq> []" by code_simp
  moreover have "\<exists>rules. add_files [Some forbid_rm] [] = Some rules"
    by (simp add: add_file_def load_execpolicy_yaml_def forbid_rm_def parse_rule_def example_list_def
        List.map_filter_def is_ws_def ws_codes_def strip_def)
  ultimately obtain rules where "strip ''ls'' \<noteq> []" "add_files [Some forbid_rm] [] = Some rules" by blast
  then show ?thesis
    by (intro malformed_example_disables_policy [where n = 1 and p = "''ls''"]) simp_all
qed

end
