(* ===== verification/Message_Repair.thy ===== *)
theory Message_Repair
  imports Text_Lines
begin

text \<open>
  The history an agent sends to the model, and the repairs made on it just before the call:
  \<open>core/message_repair.py\<close>, \<open>core/tool_pair_repair.py\<close>, \<open>core/json_repair.py\<close>,
  \<open>core/message_sanitize.py\<close>, the validator of \<open>core/message_ir.py\<close> and the last step of
  \<open>ContextPipeline.prepare_messages_for_api\<close> (\<open>core/context_pipeline.py\<close>), which composes them.

  A message is a JSON value; the code tests for dictionaries where the model matches on
  \<open>JObj\<close>.  Identifiers go through Python sets, so they are compared by \<open>hkey\<close> and a
  list or an object among them raises \<open>TypeError\<close>; a function that can raise returns an option.
  The parsers and the printer of the \<open>json\<close> module are the fields of \<open>arg_lib\<close>.  Log lines
  and the transcript event of a repair are left out.
\<close>

section \<open>Messages\<close>

type_synonym msg = "(string \<times> jval) list"

text \<open>What a dictionary or set compares: \<open>True\<close> equals \<open>1\<close>.\<close>

fun hkey :: "jval \<Rightarrow> jval" where
  "hkey (JBool b) = JInt (if b then 1 else 0)"
| "hkey v = v"

fun hashable :: "jval \<Rightarrow> bool" where
  "hashable (JList xs) = False"
| "hashable (JObj kvs) = False"
| "hashable v = True"

definition has_role :: "string \<Rightarrow> jval \<Rightarrow> bool" where
  "has_role r m = (case m of JObj d \<Rightarrow> jget d ''role'' = JStr r | _ \<Rightarrow> False)"

text \<open>\<open>for tc in msg.get("tool_calls") or []\<close>: the entries, and whether the loop raises.\<close>

definition iterable :: "jval \<Rightarrow> bool" where
  "iterable v = (truthy v \<longrightarrow> (case v of JList xs \<Rightarrow> True | JObj kvs \<Rightarrow> True | JStr s \<Rightarrow> True | _ \<Rightarrow> False))"

definition tool_calls :: "msg \<Rightarrow> jval list" where
  "tool_calls d = (case jget d ''tool_calls'' of
       JList xs \<Rightarrow> xs
     | JStr s \<Rightarrow> map JStr (cps s)
     | JObj kvs \<Rightarrow> map (\<lambda>(k, v). JStr k) kvs
     | _ \<Rightarrow> [])"

text \<open>The entries that are dictionaries, and the truthy identifiers of those.\<close>

definition call_dicts :: "msg \<Rightarrow> msg list" where
  "call_dicts d = concat (map (\<lambda>tc. case tc of JObj c \<Rightarrow> [c] | _ \<Rightarrow> []) (tool_calls d))"

definition call_ids :: "msg \<Rightarrow> jval list" where
  "call_ids d = filter truthy (map (\<lambda>c. jget c ''id'') (call_dicts d))"

definition call_id_list :: "jval \<Rightarrow> jval list" where
  "call_id_list m = (case m of JObj d \<Rightarrow> if has_role ''assistant'' m then call_ids d else [] | _ \<Rightarrow> [])"

definition result_id_list :: "jval \<Rightarrow> jval list" where
  "result_id_list m = (case m of
       JObj d \<Rightarrow> if has_role ''tool'' m then filter truthy [jget d ''tool_call_id''] else []
     | _ \<Rightarrow> [])"

section \<open>Orphan results and consecutive user messages\<close>

definition content_str :: "jval \<Rightarrow> string" where
  "content_str content = (case content of
       JNull \<Rightarrow> []
     | JStr s \<Rightarrow> s
     | JList ps \<Rightarrow> join nl (map (\<lambda>p. case p of
           JObj d \<Rightarrow> if jget d ''type'' = JStr ''text''
             then (case dget d ''text'' of Some t \<Rightarrow> pystr t | None \<Rightarrow> []) else pystr p
         | _ \<Rightarrow> pystr p) ps)
     | v \<Rightarrow> pystr v)"

text \<open>Truthy identifiers reach \<open>set.add\<close> and \<open>in\<close>.\<close>

definition sequence_raises :: "jval list \<Rightarrow> bool" where
  "sequence_raises ms = list_ex (\<lambda>m. case m of
       JObj d \<Rightarrow> (has_role ''assistant'' m \<and> \<not> iterable (jget d ''tool_calls''))
         \<or> list_ex (\<lambda>v. \<not> hashable v) (call_id_list m @ result_id_list m)
     | _ \<Rightarrow> False) ms"

fun drop_orphans :: "jval list \<Rightarrow> jval list \<Rightarrow> jval list \<times> nat" where
  "drop_orphans known [] = ([], 0)"
| "drop_orphans known (m # ms) = (case m of
       JObj d \<Rightarrow>
         if has_role ''assistant'' m then
           (let (r, n) = drop_orphans (map hkey (call_ids d)) ms in (m # r, n))
         else if has_role ''tool'' m then
           (let tc_id = jget d ''tool_call_id''; (r, n) = drop_orphans known ms
            in if truthy tc_id \<and> hkey tc_id \<in> set known then (m # r, n) else (r, n + 1))
         else
           (let (r, n) = drop_orphans (if has_role ''user'' m then [] else known) ms in (m # r, n))
     | _ \<Rightarrow> (let (r, n) = drop_orphans known ms in (m # r, n)))"

definition merged_content :: "msg \<Rightarrow> msg \<Rightarrow> string" where
  "merged_content prev d = (let prev_c = content_str (jget prev ''content''); new_c = content_str (jget d ''content'')
     in if prev_c \<noteq> [] \<and> new_c \<noteq> [] then strip (prev_c @ nl @ nl @ new_c)
        else str_or prev_c new_c)"

fun merge_pair :: "jval \<Rightarrow> jval \<Rightarrow> jval" where
  "merge_pair (JObj prev) (JObj d) = JObj (dset ''content'' (JStr (merged_content prev d)) prev)"
| "merge_pair p m = p"

definition merge_step :: "jval list \<times> nat \<Rightarrow> jval \<Rightarrow> jval list \<times> nat" where
  "merge_step s m = (let (merged, n) = s in
     if merged \<noteq> [] \<and> has_role ''user'' m \<and> has_role ''user'' (List.last merged)
     then (butlast merged @ [merge_pair (List.last merged) m], n + 1)
     else (merged @ [m], n))"

definition repair_message_sequence :: "jval list \<Rightarrow> (jval list \<times> nat) option" where
  "repair_message_sequence ms = (if sequence_raises ms then None
     else Some (let (filtered, n) = drop_orphans [] ms in foldl merge_step ([], n) filtered))"

section \<open>Results for calls that have none\<close>

definition placeholder_content :: string where
  "placeholder_content = ''Tool output unavailable (context compacted)''"

definition tool_pair_repair_enabled :: "os_env \<Rightarrow> bool" where
  "tool_pair_repair_enabled env = (let raw = lower (strip (case env ''BUTLER_TOOL_PAIR_REPAIR'' of Some v \<Rightarrow> v | None \<Rightarrow> ''1''))
     in raw \<notin> {''0'', ''false'', ''no'', ''off''})"

definition function_of :: "msg \<Rightarrow> msg" where
  "function_of tc = (case jget tc ''function'' of JObj f \<Rightarrow> f | _ \<Rightarrow> [])"

definition placeholder :: "string \<Rightarrow> msg \<Rightarrow> jval" where
  "placeholder tc_id tc = JObj [(''role'', JStr ''tool''), (''tool_call_id'', JStr tc_id),
     (''name'', JStr (str_field (function_of tc) ''name'' ''tool'')),
     (''content'', JStr placeholder_content), (''_butler_synthetic_tool_result'', JBool True)]"

definition flush_pending :: "msg list \<Rightarrow> jval list" where
  "flush_pending pending = concat (map (\<lambda>tc.
     let tc_id = strip (str_field tc ''id'' '''') in if tc_id = [] then [] else [placeholder tc_id tc]) pending)"

fun pair_loop :: "msg list \<Rightarrow> jval list \<Rightarrow> jval list \<times> nat" where
  "pair_loop pending [] = (let syn = flush_pending pending in (syn, length syn))"
| "pair_loop pending (m # ms) =
    (if has_role ''tool'' m then
       (let tc_id = (case m of JObj d \<Rightarrow> str_field d ''tool_call_id'' '''' | _ \<Rightarrow> []);
            kept = (if tc_id = [] then pending else filter (\<lambda>t. str_field t ''id'' '''' \<noteq> tc_id) pending);
            (r, n) = pair_loop kept ms
        in (m # r, n))
     else
       (let syn = flush_pending pending;
            opened = (case m of JObj d \<Rightarrow> if has_role ''assistant'' m
              then filter (\<lambda>c. truthy (jget c ''id'')) (call_dicts d) else [] | _ \<Rightarrow> []);
            (r, n) = pair_loop opened ms
        in (syn @ m # r, length syn + n)))"

definition pairs_raise :: "jval list \<Rightarrow> bool" where
  "pairs_raise ms = list_ex (\<lambda>m. case m of
       JObj d \<Rightarrow> has_role ''assistant'' m \<and> \<not> iterable (jget d ''tool_calls'') | _ \<Rightarrow> False) ms"

definition repair_tool_pairs :: "os_env \<Rightarrow> jval list \<Rightarrow> (jval list \<times> nat) option" where
  "repair_tool_pairs env ms =
    (if \<not> tool_pair_repair_enabled env \<or> ms = [] then Some (ms, 0)
     else if pairs_raise ms then None
     else Some (pair_loop [] ms))"

definition unmark :: "jval \<Rightarrow> jval" where
  "unmark m = (case m of
       JObj d \<Rightarrow> if truthy (jget d ''_butler_synthetic_tool_result'')
                 then JObj (dpop ''_butler_synthetic_tool_result'' d) else m
     | _ \<Rightarrow> m)"

definition is_dict :: "jval \<Rightarrow> bool" where
  "is_dict m = (case m of JObj d \<Rightarrow> True | _ \<Rightarrow> False)"

definition repair_tool_pairs_json_safe :: "os_env \<Rightarrow> jval list \<Rightarrow> (jval list \<times> nat) option" where
  "repair_tool_pairs_json_safe env ms = (case repair_tool_pairs env ms of
       None \<Rightarrow> None
     | Some (repaired, n) \<Rightarrow> if list_all is_dict repaired then Some (map unmark repaired, n) else None)"

section \<open>Malformed arguments\<close>

record arg_lib =
  al_loads :: "string \<Rightarrow> jval option"       \<comment> \<open>\<open>json.loads\<close>; \<open>None\<close> when it raises\<close>
  al_loads_lax :: "string \<Rightarrow> jval option"   \<comment> \<open>\<open>json.loads(..., strict=False)\<close>\<close>
  al_dumps :: "jval \<Rightarrow> string"              \<comment> \<open>\<open>json.dumps(..., separators=(",", ":"))\<close>\<close>

definition hex_digit :: "nat \<Rightarrow> char" where
  "hex_digit n = (if n < 10 then char_of (48 + n) else char_of (87 + n))"

fun escape_chars :: "bool \<Rightarrow> string \<Rightarrow> string" where
  "escape_chars in_string [] = []"
| "escape_chars False (ch # s) = ch # escape_chars (ch = CHR 0x22) s"
| "escape_chars True (ch # s) =
    (if ch = CHR 0x5C \<and> s \<noteq> [] then ch # hd s # escape_chars True (tl s)
     else if ch = CHR 0x22 then ch # escape_chars False s
     else if (of_char ch :: nat) < 32
       then [CHR 0x5C, CHR ''u'', CHR ''0'', CHR ''0'', hex_digit (of_char ch div 16), hex_digit (of_char ch mod 16)]
              @ escape_chars True s
     else ch # escape_chars True s)"

definition escape_invalid_chars_in_json_strings :: "string \<Rightarrow> string" where
  "escape_invalid_chars_in_json_strings raw = escape_chars False raw"

text \<open>\<open>re.sub(r",\s*([}\]])", r"\1", fixed)\<close>, on the encoded characters.\<close>

function drop_commas :: "string list \<Rightarrow> string list" where
  "drop_commas [] = []"
| "drop_commas (c # cs) = (let r = dropWhile is_ws cs in
     if c = '','' \<and> r \<noteq> [] \<and> hd r \<in> {''}'', '']''} then hd r # drop_commas (tl r)
     else c # drop_commas cs)"
  by pat_completeness auto
termination
proof (relation "measure length")
  fix c :: string and cs r
  assume "r = dropWhile is_ws cs"
  then have "length (tl r) \<le> length cs" using length_dropWhile_le [of is_ws cs] by simp
  then show "(tl r, c # cs) \<in> measure length" by simp
qed auto

definition surplus :: "char \<Rightarrow> char \<Rightarrow> string \<Rightarrow> nat" where
  "surplus a b s = count_list s a - count_list s b"

definition close_brackets :: "string \<Rightarrow> string" where
  "close_brackets fixed = (let curly = surplus (CHR ''{'') (CHR ''}'') fixed;
       bracket = surplus (CHR ''['') (CHR '']'') fixed
     in fixed @ replicate curly (CHR ''}'') @ replicate bracket (CHR '']''))"

definition ends_in :: "char \<Rightarrow> string \<Rightarrow> bool" where
  "ends_in c s \<longleftrightarrow> s \<noteq> [] \<and> List.last s = c"

fun trim_loop :: "arg_lib \<Rightarrow> nat \<Rightarrow> string \<Rightarrow> string" where
  "trim_loop al 0 fixed = fixed"
| "trim_loop al (Suc k) fixed =
    (if al_loads al fixed \<noteq> None then fixed
     else if ends_in (CHR ''}'') fixed \<and> 0 < surplus (CHR ''}'') (CHR ''{'') fixed then trim_loop al k (butlast fixed)
     else if ends_in (CHR '']'') fixed \<and> 0 < surplus (CHR '']'') (CHR ''['') fixed then trim_loop al k (butlast fixed)
     else fixed)"

definition repair_tool_call_arguments :: "arg_lib \<Rightarrow> string \<Rightarrow> string" where
  "repair_tool_call_arguments al raw_args = (let raw = strip raw_args in
     if raw = [] \<or> raw = ''None'' then ''{}''
     else case al_loads_lax al raw of
       Some parsed \<Rightarrow> al_dumps al parsed
     | None \<Rightarrow>
         let fixed = trim_loop al 50 (close_brackets (concat (drop_commas (cps raw))));
             escaped = escape_invalid_chars_in_json_strings fixed
         in if al_loads al fixed \<noteq> None then fixed
            else if escaped \<noteq> fixed \<and> al_loads al escaped \<noteq> None then escaped
            else ''{}'')"

definition repair_call :: "arg_lib \<Rightarrow> jval \<Rightarrow> jval \<times> nat" where
  "repair_call al tc = (case tc of
       JObj c \<Rightarrow> (case jget c ''function'' of
           JObj f \<Rightarrow>
             let raw = (case dget f ''arguments'' of Some v \<Rightarrow> v | None \<Rightarrow> JStr ''{}'') in
             if f = [] \<or> is_dict raw then (tc, 0)
             else let raw_str = pystr raw; repaired = repair_tool_call_arguments al raw_str
               in if al_loads al (str_or raw_str ''{}'') = None \<and> repaired \<noteq> raw_str
                  then (JObj (dset ''function'' (JObj (dset ''arguments'' (JStr repaired) f)) c), 1)
                  else (tc, 0)
         | _ \<Rightarrow> (tc, 0))
     | _ \<Rightarrow> (tc, 0))"

definition repair_message_arguments :: "arg_lib \<Rightarrow> jval \<Rightarrow> jval \<times> nat" where
  "repair_message_arguments al m = (case m of
       JObj d \<Rightarrow> if has_role ''assistant'' m
         then (case jget d ''tool_calls'' of
             JList xs \<Rightarrow> (let rs = map (repair_call al) xs
               in (JObj (if xs = [] then d else dset ''tool_calls'' (JList (map fst rs)) d), sum_list (map snd rs)))
           | _ \<Rightarrow> (m, 0))
         else (m, 0)
     | _ \<Rightarrow> (m, 0))"

text \<open>The calls are changed in place; \<open>msg.get\<close> raises on what is not a dictionary.\<close>

definition repair_tool_arguments :: "arg_lib \<Rightarrow> jval list \<Rightarrow> (jval list \<times> nat) option" where
  "repair_tool_arguments al ms = (if \<not> list_all is_dict ms \<or> pairs_raise ms then None
     else let rs = map (repair_message_arguments al) ms in Some (map fst rs, sum_list (map snd rs)))"

section \<open>Sanitising\<close>

definition valid_roles :: "string list" where
  "valid_roles = [''system'', ''user'', ''assistant'', ''tool'']"

definition stub_tool_result :: string where
  "stub_tool_result = (''[Result unavailable '' @ bytes [226, 128, 148] @ '' see context summary above]'')"

definition valid_message :: "jval \<Rightarrow> bool" where
  "valid_message m = (case m of JObj d \<Rightarrow> jget d ''role'' \<in> JStr ` set valid_roles | _ \<Rightarrow> False)"

definition tool_call_name :: "msg \<Rightarrow> string" where
  "tool_call_name tc = (let f = jget tc ''function'' in
     if truthy f then (case f of JObj d \<Rightarrow> str_field d ''name'' ''unknown'' | _ \<Rightarrow> ''unknown'') else ''unknown'')"

definition stubs_for :: "jval list \<Rightarrow> jval \<Rightarrow> jval list" where
  "stubs_for missing m = (case m of
       JObj d \<Rightarrow> if has_role ''assistant'' m
         then map (\<lambda>tc. JObj [(''role'', JStr ''tool''), (''name'', JStr (tool_call_name tc)),
                (''content'', JStr stub_tool_result), (''tool_call_id'', jget tc ''id'')])
              (filter (\<lambda>tc. hkey (jget tc ''id'') \<in> set missing) (call_dicts d))
         else []
     | _ \<Rightarrow> [])"

definition orphan_result :: "jval list \<Rightarrow> jval \<Rightarrow> bool" where
  "orphan_result orphaned m = (has_role ''tool'' m \<and>
     (case m of JObj d \<Rightarrow> hkey (jget d ''tool_call_id'') \<in> set orphaned | _ \<Rightarrow> False))"

text \<open>
  The places where an identifier or a role reaches a hash: roles against the set of valid roles,
  truthy identifiers always, the others only when there is something to drop or to add.
\<close>

definition sanitize_raises :: "jval list \<Rightarrow> jval list \<Rightarrow> jval list \<Rightarrow> jval list \<Rightarrow> bool" where
  "sanitize_raises ms filtered orphaned missing = (
     list_ex (\<lambda>m. case m of JObj d \<Rightarrow> \<not> hashable (jget d ''role'') | _ \<Rightarrow> False) ms
     \<or> pairs_raise filtered
     \<or> list_ex (\<lambda>m. list_ex (\<lambda>v. \<not> hashable v) (call_id_list m @ result_id_list m)) filtered
     \<or> (orphaned \<noteq> [] \<and> list_ex (\<lambda>m. has_role ''tool'' m \<and>
          (case m of JObj d \<Rightarrow> \<not> hashable (jget d ''tool_call_id'') | _ \<Rightarrow> False)) filtered)
     \<or> (missing \<noteq> [] \<and> list_ex (\<lambda>m. has_role ''assistant'' m \<and>
          (case m of JObj d \<Rightarrow> list_ex (\<lambda>c. \<not> hashable (jget c ''id'')) (call_dicts d) | _ \<Rightarrow> False)) filtered))"

definition sanitize_api_messages :: "jval list \<Rightarrow> (jval list \<times> nat) option" where
  "sanitize_api_messages ms = (
     let filtered = filter valid_message ms;
         surviving = remdups (map hkey (concat (map call_id_list filtered)));
         result_ids = remdups (map hkey (concat (map result_id_list filtered)));
         orphaned = filter (\<lambda>i. i \<notin> set surviving) result_ids;
         missing = filter (\<lambda>i. i \<notin> set result_ids) surviving;
         kept = filter (\<lambda>m. \<not> orphan_result orphaned m) filtered;
         stubs = concat (map (stubs_for missing) kept)
     in if sanitize_raises ms filtered orphaned missing then None
        else Some (concat (map (\<lambda>m. m # stubs_for missing m) kept),
                   (length ms - length filtered) + length orphaned + length stubs))"

definition thinking_types :: "string list" where
  "thinking_types = [''thinking'', ''redacted_thinking'']"

text \<open>A block of the content that counts as an answer.\<close>

definition speaking_block :: "jval \<Rightarrow> bool" where
  "speaking_block b = (case b of
       JObj d \<Rightarrow>
         let btype = jget d ''type'' in
         if btype \<in> JStr ` set thinking_types then False
         else if btype = JStr ''text''
           then strip (case dget d ''text'' of Some t \<Rightarrow> pystr t | None \<Rightarrow> []) \<noteq> []
         else True
     | _ \<Rightarrow> truthy b)"

definition speaking_content :: "jval \<Rightarrow> bool" where
  "speaking_content content = (case content of
       JList bs \<Rightarrow> list_ex speaking_block bs
     | JNull \<Rightarrow> False
     | JStr s \<Rightarrow> s \<noteq> []
     | _ \<Rightarrow> True)"

definition is_thinking_only_assistant :: "jval \<Rightarrow> bool" where
  "is_thinking_only_assistant m = (case m of
       JObj d \<Rightarrow>
         has_role ''assistant'' m \<and> \<not> truthy (jget d ''tool_calls'') \<and> \<not> speaking_content (jget d ''content'') \<and>
         (case jor (jget d ''reasoning_content'') (jget d ''reasoning'') of
            JStr r \<Rightarrow> strip r \<noteq> [] \<or> (case jget d ''reasoning_details'' of JList xs \<Rightarrow> xs \<noteq> [] | _ \<Rightarrow> False)
          | _ \<Rightarrow> (case jget d ''reasoning_details'' of JList xs \<Rightarrow> xs \<noteq> [] | _ \<Rightarrow> False))
     | _ \<Rightarrow> False)"

definition drop_thinking_only_assistants :: "jval list \<Rightarrow> jval list \<times> nat" where
  "drop_thinking_only_assistants ms = (let kept = filter (\<lambda>m. \<not> is_thinking_only_assistant m) ms
     in (kept, length ms - length kept))"

section \<open>The last step before the call\<close>

definition repair_sanitize :: "os_env \<Rightarrow> arg_lib \<Rightarrow> jval list \<Rightarrow> jval list option" where
  "repair_sanitize env al ms =
     Option.bind (repair_message_sequence ms) (\<lambda>(a, _).
     Option.bind (repair_tool_pairs env a) (\<lambda>(b, _).
     Option.bind (repair_tool_arguments al b) (\<lambda>(c, _).
     Option.bind (sanitize_api_messages c) (\<lambda>(d, _).
     Some (fst (drop_thinking_only_assistants d))))))"

section \<open>The validator of sequences\<close>

datatype seq_error =
    Orphan_Result nat string          \<comment> \<open>\<open>msg[i]: orphan tool result id=...\<close>\<close>
  | User_Before_Results nat nat       \<comment> \<open>\<open>msg[i]: user message before tool results resolved (n pending)\<close>\<close>
  | Unresolved "string list"          \<comment> \<open>\<open>unresolved tool_call ids: ...\<close>\<close>

definition add_ids :: "string list \<Rightarrow> msg \<Rightarrow> string list" where
  "add_ids pending d = foldl (\<lambda>p c. let tid = str_field c ''id'' '''' in
     if tid \<noteq> [] \<and> tid \<notin> set p then p @ [tid] else p) pending (call_dicts d)"

fun validate_loop :: "nat \<Rightarrow> string list \<Rightarrow> msg list \<Rightarrow> seq_error list" where
  "validate_loop i pending [] = (if pending = [] then [] else [Unresolved (take 5 (sort pending))])"
| "validate_loop i pending (d # ds) = (let role = str_field d ''role'' '''' in
     if role = ''assistant'' then validate_loop (i + 1) (add_ids pending d) ds
     else if role = ''tool'' then
       (let tid = str_field d ''tool_call_id'' '''' in
        if tid \<noteq> [] \<and> tid \<in> set pending then validate_loop (i + 1) (removeAll tid pending) ds
        else if tid \<noteq> [] \<and> pending = [] then Orphan_Result i tid # validate_loop (i + 1) pending ds
        else validate_loop (i + 1) pending ds)
     else if role = ''user'' \<and> pending \<noteq> [] then
       User_Before_Results i (length pending) # validate_loop (i + 1) pending ds
     else validate_loop (i + 1) pending ds)"

definition validate_openai_sequence :: "msg list \<Rightarrow> seq_error list" where
  "validate_openai_sequence ds = validate_loop 0 [] ds"

end
