(* ===== verification/Message_Repair_Props.thy ===== *)
theory Message_Repair_Props
  imports Message_Repair
begin

text \<open>
  What the repairs guarantee of the history that goes to the model.  \<open>settled\<close> is the rule the
  providers state: after an assistant message come exactly the results of its calls, one each, and
  nothing else comes before the last of them.  \<open>orderly\<close> describes the histories on which
  the repairs reach it: calls with distinct trimmed identifiers, no second result for a call and no
  system message between a call and its result.  Missing results, results without a call,
  consecutive user messages and empty thinking turns may occur.
\<close>

section \<open>The rule\<close>

definition text_ids :: "jval \<Rightarrow> string list" where
  "text_ids m = map pystr (call_id_list m)"

definition trimmed_text :: "jval \<Rightarrow> bool" where
  "trimmed_text v = (case v of JStr s \<Rightarrow> s \<noteq> [] \<and> strip s = s | _ \<Rightarrow> False)"

definition fields :: "jval \<Rightarrow> msg" where
  "fields m = (case m of JObj d \<Rightarrow> d | _ \<Rightarrow> [])"

definition plain_calls :: "jval \<Rightarrow> bool" where
  "plain_calls m = (list_all trimmed_text (call_id_list m) \<and> distinct (text_ids m)
     \<and> (has_role ''assistant'' m \<longrightarrow> iterable (jget (fields m) ''tool_calls'')))"

definition result_text :: "jval \<Rightarrow> string" where
  "result_text m = (case jget (fields m) ''tool_call_id'' of JStr i \<Rightarrow> i | _ \<Rightarrow> [])"

text \<open>\<open>settled strict pending\<close>: with \<open>strict\<close> off a block may end before its last result.\<close>

fun settled :: "bool \<Rightarrow> string list \<Rightarrow> jval list \<Rightarrow> bool" where
  "settled strict pending [] = (strict \<longrightarrow> pending = [])"
| "settled strict pending (m # ms) = (valid_message m \<and>
     (if has_role ''tool'' m
      then result_text m \<noteq> [] \<and> result_text m \<in> set pending
             \<and> settled strict (remove1 (result_text m) pending) ms
      else (strict \<longrightarrow> pending = []) \<and> plain_calls m \<and> settled strict (text_ids m) ms))"

fun orderly :: "string list \<Rightarrow> string list \<Rightarrow> bool \<Rightarrow> jval list \<Rightarrow> bool" where
  "orderly known used sealed [] = True"
| "orderly known used sealed (m # ms) = (valid_message m \<and>
     (if has_role ''tool'' m then
        hashable (jget (fields m) ''tool_call_id'') \<and>
        (result_text m \<in> set known \<longrightarrow> \<not> sealed \<and> result_text m \<notin> set used)
          \<and> orderly known (result_text m # used) sealed ms
      else if has_role ''assistant'' m then plain_calls m \<and> orderly (text_ids m) [] False ms
      else if has_role ''user'' m then orderly [] [] False ms
      else orderly known used True ms))"

section \<open>Roles and identifiers\<close>

lemma valid_message_obj: "valid_message m \<Longrightarrow> \<exists>d. m = JObj d \<and> fields m = d"
  by (cases m) (simp_all add: valid_message_def fields_def)

lemma roles_exclusive:
  "has_role r m \<Longrightarrow> r \<noteq> r' \<Longrightarrow> \<not> has_role r' m"
  by (cases m) (simp_all add: has_role_def)

lemma ids_of_others: "\<not> has_role ''assistant'' m \<Longrightarrow> call_id_list m = [] \<and> text_ids m = []"
  by (cases m) (simp_all add: call_id_list_def text_ids_def)

lemma plain_of_others: "\<not> has_role ''assistant'' m \<Longrightarrow> plain_calls m"
  by (simp add: plain_calls_def ids_of_others text_ids_def)

lemma pystr_trimmed: "trimmed_text v \<Longrightarrow> v = JStr (pystr v) \<and> pystr v \<noteq> [] \<and> strip (pystr v) = pystr v"
  by (cases v) (simp_all add: trimmed_text_def)

lemma plain_ids:
  assumes "plain_calls m"
  shows "call_id_list m = map JStr (text_ids m)" "distinct (text_ids m)"
    "\<forall>s\<in>set (text_ids m). s \<noteq> [] \<and> strip s = s"
proof -
  have t: "\<forall>v\<in>set (call_id_list m). trimmed_text v"
    using assms by (simp add: plain_calls_def list_all_iff)
  show "call_id_list m = map JStr (text_ids m)"
    unfolding text_ids_def map_map using t pystr_trimmed by (intro map_idI [symmetric]) fastforce
  show "distinct (text_ids m)" using assms by (simp add: plain_calls_def)
  show "\<forall>s\<in>set (text_ids m). s \<noteq> [] \<and> strip s = s"
    using t pystr_trimmed by (auto simp: text_ids_def)
qed

lemma set_ids_Nil: "\<forall>s\<in>set (text_ids m). s \<noteq> []" if "plain_calls m"
  using plain_ids(3) [OF that] by blast

section \<open>Results without a call are dropped\<close>

lemma drop_orphans_settled:
  "orderly known used sealed ms \<Longrightarrow> distinct known \<Longrightarrow> [] \<notin> set known \<Longrightarrow>
   settled False (if sealed then [] else filter (\<lambda>i. i \<notin> set used) known)
     (fst (drop_orphans (map JStr known) ms))"
proof (induction ms arbitrary: known used sealed)
  case (Cons m ms)
  have v: "valid_message m" using Cons.prems(1) by simp
  obtain d where d: "m = JObj d" "fields m = d" using valid_message_obj [OF v] by blast
  show ?case
  proof (cases "has_role ''tool'' m")
    case True
    have na: "\<not> has_role ''assistant'' m" using True roles_exclusive by blast
    let ?v = "jget d ''tool_call_id''"
    have o: "orderly known (result_text m # used) sealed ms"
      and fresh: "result_text m \<in> set known \<Longrightarrow> \<not> sealed \<and> result_text m \<notin> set used"
      and hv: "hashable ?v" using Cons.prems(1) True d by simp_all
    note IH = Cons.IH [OF o Cons.prems(2,3)]
    have mem: "truthy ?v \<and> hkey ?v \<in> set (map JStr known) \<longleftrightarrow> result_text m \<in> set known"
      using Cons.prems(3) d by (cases ?v) (auto simp: result_text_def)
    show ?thesis
    proof (cases "result_text m \<in> set known")
      case in_known: True
      then have ns: "\<not> sealed" and nu: "result_text m \<notin> set used" using fresh by blast+
      have ne: "result_text m \<noteq> []" using in_known Cons.prems(3) by auto
      have "remove1 (result_text m) (filter (\<lambda>i. i \<notin> set used) known)
              = filter (\<lambda>i. i \<notin> set (result_text m # used)) known"
        using Cons.prems(2) by (auto simp: distinct_remove1_removeAll removeAll_filter_not_eq intro!: filter_cong)
      with IH ns have "settled False (remove1 (result_text m) (filter (\<lambda>i. i \<notin> set used) known))
                         (fst (drop_orphans (map JStr known) ms))" by simp
      moreover have "fst (drop_orphans (map JStr known) (m # ms)) = m # fst (drop_orphans (map JStr known) ms)"
        using True na mem in_known d by (simp add: Let_def split_beta)
      ultimately show ?thesis using v True in_known nu ns ne by simp
    next
      case False
      have e1: "fst (drop_orphans (map JStr known) (m # ms)) = fst (drop_orphans (map JStr known) ms)"
        using True na mem False d by (simp add: Let_def split_beta)
      have e2: "filter (\<lambda>i. i \<notin> set (result_text m # used)) known = filter (\<lambda>i. i \<notin> set used) known"
        using False by (intro filter_cong) auto
      show ?thesis using IH unfolding e1 e2 .
    qed
  next
    case nt: False
    show ?thesis
    proof (cases "has_role ''assistant'' m")
      case True
      have p: "plain_calls m" and o: "orderly (text_ids m) [] False ms"
        using Cons.prems(1) nt True by simp_all
      have "map hkey (call_ids d) = map JStr (text_ids m)"
        using plain_ids(1) [OF p] True d by (simp add: call_id_list_def)
      then have "fst (drop_orphans (map JStr known) (m # ms)) = m # fst (drop_orphans (map JStr (text_ids m)) ms)"
        using True d by (simp add: split_beta)
      with Cons.IH [OF o plain_ids(2) [OF p]] set_ids_Nil [OF p] show ?thesis
        using v nt p by auto
    next
      case na: False
      have e: "text_ids m = []" "plain_calls m" using ids_of_others plain_of_others na by auto
      show ?thesis
      proof (cases "has_role ''user'' m")
        case True
        then have "orderly [] [] False ms" using Cons.prems(1) nt na by simp
        from Cons.IH [OF this] show ?thesis using v nt na True e d by (simp add: split_beta)
      next
        case False
        then have "orderly known used True ms" using Cons.prems(1) nt na by simp
        from Cons.IH [OF this Cons.prems(2,3)] show ?thesis using v nt na False e d by (simp add: split_beta)
      qed
    qed
  qed
qed simp

section \<open>Merging user messages\<close>

lemma merge_pair_user: "has_role ''user'' u \<Longrightarrow> has_role ''user'' m \<Longrightarrow>
  has_role ''user'' (merge_pair u m) \<and> (valid_message u \<longrightarrow> valid_message (merge_pair u m))"
  by (cases u; cases m) (auto simp: has_role_def valid_message_def)

lemma settled_user: "has_role ''user'' m \<Longrightarrow>
  settled strict p (m # ms) \<longleftrightarrow> valid_message m \<and> (strict \<longrightarrow> p = []) \<and> settled strict [] ms"
  using roles_exclusive [of "''user''" m "''tool''"] roles_exclusive [of "''user''" m "''assistant''"]
    ids_of_others [of m] plain_of_others [of m] by simp

lemma settled_merge:
  assumes "has_role ''user'' u" "has_role ''user'' m" "settled strict p (xs @ u # m # ms)"
  shows "settled strict p (xs @ merge_pair u m # ms)"
  using assms(3)
proof (induction xs arbitrary: p)
  case Nil
  then have "valid_message u" "strict \<longrightarrow> p = []" "settled strict [] ms"
    using settled_user [OF assms(1)] settled_user [OF assms(2)] by (simp_all del: settled.simps)
  with merge_pair_user [OF assms(1,2)] show ?case
    by (simp add: settled_user del: settled.simps)
qed simp

lemma merge_step_simps:
  "acc \<noteq> [] \<and> has_role ''user'' m \<and> has_role ''user'' (List.last acc) \<Longrightarrow>
     merge_step (acc, n) m = (butlast acc @ [merge_pair (List.last acc) m], n + 1)"
  "\<not> (acc \<noteq> [] \<and> has_role ''user'' m \<and> has_role ''user'' (List.last acc)) \<Longrightarrow>
     merge_step (acc, n) m = (acc @ [m], n)"
  by (auto simp: merge_step_def)

lemma merge_settled:
  "settled strict p (acc @ ms) \<Longrightarrow> settled strict p (fst (foldl merge_step (acc, n) ms))"
proof (induction ms arbitrary: acc n)
  case (Cons m ms)
  show ?case
  proof (cases "acc \<noteq> [] \<and> has_role ''user'' m \<and> has_role ''user'' (List.last acc)")
    case True
    then have "acc @ m # ms = butlast acc @ List.last acc # m # ms"
      by (metis append_Cons append_Nil append_assoc append_butlast_last_id)
    then have "settled strict p (butlast acc @ List.last acc # m # ms)" using Cons.prems by metis
    with settled_merge [of "List.last acc" m] True
    have "settled strict p ((butlast acc @ [merge_pair (List.last acc) m]) @ ms)" by simp
    from Cons.IH [OF this] show ?thesis by (simp add: merge_step_simps(1) [OF True])
  next
    case False
    have "settled strict p ((acc @ [m]) @ ms)" using Cons.prems by simp
    from Cons.IH [OF this] show ?thesis by (simp add: merge_step_simps(2) [OF False])
  qed
qed simp

section \<open>Placeholders close every block\<close>

lemma placeholder_facts:
  "has_role ''tool'' (placeholder i tc)" "valid_message (placeholder i tc)" "result_text (placeholder i tc) = i"
  by (simp_all add: placeholder_def has_role_def valid_message_def valid_roles_def result_text_def fields_def)

lemma str_field_JStr: "jget c k = JStr s \<Longrightarrow> s \<noteq> [] \<Longrightarrow> str_field c k d = s"
  by (simp add: str_field_def jor_def)

lemma flush_settled:
  "map (\<lambda>c. jget c ''id'') pend = map JStr ids \<Longrightarrow> \<forall>s\<in>set ids. s \<noteq> [] \<and> strip s = s \<Longrightarrow>
   settled True ids (flush_pending pend @ rest) \<longleftrightarrow> settled True [] rest"
proof (induction pend arbitrary: ids)
  case Nil
  then show ?case by (simp add: flush_pending_def)
next
  case (Cons c pend)
  then obtain i ids' where i: "ids = i # ids'" "jget c ''id'' = JStr i"
    "map (\<lambda>c. jget c ''id'') pend = map JStr ids'" by (cases ids) auto
  have ne: "i \<noteq> []" "strip i = i" using Cons.prems(2) i(1) by simp_all
  have "flush_pending (c # pend) = placeholder i c # flush_pending pend"
    using str_field_JStr [OF i(2) ne(1), of "[]"] ne by (simp add: flush_pending_def)
  with Cons.IH [OF i(3)] Cons.prems(2) i(1) ne show ?case by (simp add: placeholder_facts)
qed

lemma opened_ids:
  "plain_calls m \<Longrightarrow> m = JObj d \<Longrightarrow> has_role ''assistant'' m \<Longrightarrow>
   map (\<lambda>c. jget c ''id'') (filter (\<lambda>c. truthy (jget c ''id'')) (call_dicts d)) = map JStr (text_ids m)"
  using plain_ids(1) [of m] by (simp add: call_id_list_def call_ids_def filter_map comp_def)

lemma kept_ids:
  "map (\<lambda>c. jget c ''id'') pend = map JStr ids \<Longrightarrow> distinct ids \<Longrightarrow> [] \<notin> set ids \<Longrightarrow>
   map (\<lambda>c. jget c ''id'') (filter (\<lambda>t. str_field t ''id'' '''' \<noteq> i) pend) = map JStr (remove1 i ids)"
proof (induction pend arbitrary: ids)
  case (Cons c pend)
  then obtain j ids' where j: "ids = j # ids'" "jget c ''id'' = JStr j"
    "map (\<lambda>c. jget c ''id'') pend = map JStr ids'" by (cases ids) auto
  have "str_field c ''id'' '''' = j" using str_field_JStr [OF j(2)] Cons.prems(3) j(1) by auto
  with Cons.IH [OF j(3)] Cons.prems(2,3) j show ?case by (auto simp: remove1_idem)
qed simp

lemma pair_loop_settled:
  "settled False ids ms \<Longrightarrow> map (\<lambda>c. jget c ''id'') pend = map JStr ids \<Longrightarrow> distinct ids \<Longrightarrow>
   \<forall>s\<in>set ids. s \<noteq> [] \<and> strip s = s \<Longrightarrow> settled True ids (fst (pair_loop pend ms))"
proof (induction ms arbitrary: ids pend)
  case Nil
  then show ?case using flush_settled [of pend ids "[]"] by (simp add: Let_def)
next
  case (Cons m ms)
  have v: "valid_message m" using Cons.prems(1) by simp
  obtain d where d: "m = JObj d" "fields m = d" using valid_message_obj [OF v] by blast
  show ?case
  proof (cases "has_role ''tool'' m")
    case True
    let ?i = "result_text m"
    have i: "?i \<noteq> []" "?i \<in> set ids" and t: "settled False (remove1 ?i ids) ms"
      using Cons.prems(1) True by simp_all
    have "str_field d ''tool_call_id'' '''' = ?i"
      using i(1) d by (cases "jget d ''tool_call_id''") (auto simp: result_text_def str_field_JStr)
    moreover have "map (\<lambda>c. jget c ''id'') (filter (\<lambda>t. str_field t ''id'' '''' \<noteq> ?i) pend)
        = map JStr (remove1 ?i ids)" using kept_ids Cons.prems(2-4) by blast
    from Cons.IH [OF t this] Cons.prems(3,4)
    have "settled True (remove1 ?i ids) (fst (pair_loop (filter (\<lambda>t. str_field t ''id'' '''' \<noteq> ?i) pend) ms))"
      using set_remove1_subset [of ?i ids] by auto
    ultimately show ?thesis using True i v d by (simp add: Let_def split_beta)
  next
    case False
    have p: "plain_calls m" and t: "settled False (text_ids m) ms" using Cons.prems(1) False by simp_all
    let ?opened = "if has_role ''assistant'' m then filter (\<lambda>c. truthy (jget c ''id'')) (call_dicts d) else []"
    have "map (\<lambda>c. jget c ''id'') ?opened = map JStr (text_ids m)"
      using opened_ids [OF p d(1)] ids_of_others [of m] by simp
    from Cons.IH [OF t this plain_ids(2) [OF p] plain_ids(3) [OF p]]
    have "settled True [] (m # fst (pair_loop ?opened ms))" using v False p by simp
    then have "settled True ids (flush_pending pend @ m # fst (pair_loop ?opened ms))"
      using flush_settled Cons.prems(2,4) by blast
    then show ?thesis using False d by (simp add: Let_def split_beta)
  qed
qed

section \<open>Arguments, sanitising, thinking turns\<close>

lemma repair_call_keeps:
  "(case fst (repair_call al tc) of JObj c \<Rightarrow> [jget c ''id''] | _ \<Rightarrow> [])
     = (case tc of JObj c \<Rightarrow> [jget c ''id''] | _ \<Rightarrow> [])"
  by (cases tc) (auto simp: repair_call_def Let_def split: jval.splits)

lemma call_ids_alt:
  "call_ids d = filter truthy (concat (map (\<lambda>tc. case tc of JObj c \<Rightarrow> [jget c ''id''] | _ \<Rightarrow> []) (tool_calls d)))"
proof -
  have "map (\<lambda>c. jget c ''id'') (concat (map (\<lambda>tc. case tc of JObj c \<Rightarrow> [c] | _ \<Rightarrow> []) xs))
      = concat (map (\<lambda>tc. case tc of JObj c \<Rightarrow> [jget c ''id''] | _ \<Rightarrow> []) xs)" for xs
    by (induction xs) (auto split: jval.splits)
  then show ?thesis by (simp add: call_ids_def call_dicts_def)
qed

lemma arguments_keep:
  fixes al m defines "m' \<equiv> fst (repair_message_arguments al m)"
  shows "has_role r m' = has_role r m" "valid_message m' = valid_message m"
    "result_text m' = result_text m" "call_id_list m' = call_id_list m"
    "has_role ''assistant'' m \<Longrightarrow> iterable (jget (fields m') ''tool_calls'') = iterable (jget (fields m) ''tool_calls'')"
    "is_dict m' = is_dict m"
proof -
  have e: "(case fst (repair_call al tc) of JObj c \<Rightarrow> [jget c ''id''] | _ \<Rightarrow> [])
     = (case tc of JObj c \<Rightarrow> [jget c ''id''] | _ \<Rightarrow> [])" for tc by (rule repair_call_keeps)
  show "has_role r m' = has_role r m" "valid_message m' = valid_message m"
    "result_text m' = result_text m" "is_dict m' = is_dict m"
    by (cases m; auto simp: m'_def repair_message_arguments_def has_role_def valid_message_def result_text_def
         fields_def is_dict_def Let_def split: jval.splits)+
  show "call_id_list m' = call_id_list m"
    by (cases m; auto simp: m'_def repair_message_arguments_def has_role_def call_id_list_def call_ids_alt
         tool_calls_def e comp_def Let_def split: jval.splits)
  show "has_role ''assistant'' m \<Longrightarrow> iterable (jget (fields m') ''tool_calls'') = iterable (jget (fields m) ''tool_calls'')"
    by (cases m; auto simp: m'_def repair_message_arguments_def has_role_def fields_def iterable_def Let_def
         split: jval.splits)
qed

lemma arguments_settled:
  "settled strict p ms \<Longrightarrow> settled strict p (map (fst \<circ> repair_message_arguments al) ms)"
proof (induction ms arbitrary: p)
  case (Cons m ms)
  have "text_ids (fst (repair_message_arguments al m)) = text_ids m"
    "plain_calls (fst (repair_message_arguments al m)) = plain_calls m"
    by (simp_all add: plain_calls_def text_ids_def arguments_keep cong: conj_cong imp_cong)
  with Cons show ?case by (simp add: arguments_keep)
qed simp

lemma settled_messages:
  assumes "settled strict p ms" "m \<in> set ms"
  shows "valid_message m" "plain_calls m" "has_role ''tool'' m \<Longrightarrow> result_text m \<noteq> []"
  using assms
proof (induction ms arbitrary: p)
  case (Cons x ms)
  { case 1 then show ?case using Cons.IH(1) by (auto split: if_splits) }
  { case 2 then show ?case
      using Cons.IH(2) plain_of_others roles_exclusive [of "''tool''" x "''assistant''"]
      by (auto split: if_splits) }
  { case 3 then show ?case using Cons.IH(3) by (auto split: if_splits) }
qed simp_all

lemma result_ids_text:
  "valid_message m \<Longrightarrow> has_role ''tool'' m \<Longrightarrow> result_text m \<noteq> [] \<Longrightarrow> result_id_list m = [JStr (result_text m)]"
  using valid_message_obj [of m]
  by (auto simp: result_id_list_def result_text_def fields_def split: jval.splits)

lemma ids_of_tool: "has_role ''tool'' m \<Longrightarrow> call_id_list m = []" "\<not> has_role ''tool'' m \<Longrightarrow> result_id_list m = []"
  using ids_of_others [of m] roles_exclusive [of "''tool''" m "''assistant''"]
  by (auto simp: result_id_list_def split: jval.splits)

text \<open>In a settled history the results answer exactly the calls.\<close>

lemma settled_ids:
  "settled True p ms \<Longrightarrow>
   set (concat (map result_id_list ms)) = JStr ` set p \<union> set (concat (map call_id_list ms))"
proof (induction ms arbitrary: p)
  case (Cons m ms)
  show ?case
  proof (cases "has_role ''tool'' m")
    case True
    then have r: "result_text m \<in> set p" "settled True (remove1 (result_text m) p) ms"
      "result_id_list m = [JStr (result_text m)]"
      using Cons.prems result_ids_text by auto
    have "set p = insert (result_text m) (set (remove1 (result_text m) p))"
      using r(1) set_remove1_subset [of "result_text m" p] in_set_remove1 by fastforce
    with Cons.IH [OF r(2)] r(3) ids_of_tool(1) [OF True] show ?thesis by auto
  next
    case False
    then have q: "p = []" "plain_calls m" "settled True (text_ids m) ms" using Cons.prems by simp_all
    have "set (call_id_list m) = JStr ` set (text_ids m)" using plain_ids(1) [OF q(2)] by simp
    with Cons.IH [OF q(3)] ids_of_tool(2) [OF False] q(1) show ?thesis by auto
  qed
qed simp

lemma sanitize_settled:
  assumes "settled True [] ms"
  shows "sanitize_api_messages ms = Some (ms, 0)"
proof -
  note m = settled_messages [OF assms]
  have f: "filter valid_message ms = ms" using m(1) by simp
  have texts: "\<forall>m\<in>set ms. \<forall>v\<in>set (call_id_list m @ result_id_list m). \<exists>s. v = JStr s"
  proof (intro ballI)
    fix x v assume x: "x \<in> set ms" and v: "v \<in> set (call_id_list x @ result_id_list x)"
    show "\<exists>s. v = JStr s"
      using v plain_ids(1) [OF m(2) [OF x]] result_ids_text [OF m(1) [OF x]] m(3) [OF x] ids_of_tool(2) [of x]
      by (cases "has_role ''tool'' x") auto
  qed
  have k: "map hkey (concat (map g ms)) = concat (map g ms)"
    if "\<And>x v. x \<in> set ms \<Longrightarrow> v \<in> set (g x) \<Longrightarrow> \<exists>s. v = JStr s" for g
    using that by (intro map_idI) fastforce
  have kc: "map hkey (concat (map call_id_list ms)) = concat (map call_id_list ms)"
    using texts by (intro k) auto
  have kr: "map hkey (concat (map result_id_list ms)) = concat (map result_id_list ms)"
    using texts by (intro k) auto
  have same: "set (concat (map result_id_list ms)) = set (concat (map call_id_list ms))"
    using settled_ids [OF assms] by simp
  have raises: "\<not> sanitize_raises ms ms [] []"
    using m texts unfolding sanitize_raises_def pairs_raise_def list_ex_iff
    by (fastforce simp: plain_calls_def fields_def valid_message_def split: jval.splits)
  have no: "filter (\<lambda>i. i \<notin> set (remdups (concat (map call_id_list ms)))) (remdups (concat (map result_id_list ms))) = []"
    "filter (\<lambda>i. i \<notin> set (remdups (concat (map result_id_list ms)))) (remdups (concat (map call_id_list ms))) = []"
    using same by (simp_all add: filter_empty_conv)
  have s: "stubs_for [] x = []" for x by (cases x) (simp_all add: stubs_for_def)
  have o: "orphan_result [] x = False" for x by (cases x) (simp_all add: orphan_result_def)
  have c: "concat (map (\<lambda>m. [m]) ms) = ms" by (induction ms) simp_all
  show ?thesis
    unfolding sanitize_api_messages_def Let_def f kc kr no s o
    using raises by (simp add: c)
qed

lemma thinking_settled:
  "settled True p ms \<Longrightarrow> settled True p (filter (\<lambda>m. \<not> is_thinking_only_assistant m) ms)"
proof (induction ms arbitrary: p)
  case (Cons m ms)
  show ?case
  proof (cases "is_thinking_only_assistant m")
    case True
    then obtain d where d: "m = JObj d" "has_role ''assistant'' m" "\<not> truthy (jget d ''tool_calls'')"
      by (cases m) (auto simp: is_thinking_only_assistant_def)
    then have "text_ids m = []"
      by (cases "jget d ''tool_calls''") (simp_all add: text_ids_def call_id_list_def call_ids_alt tool_calls_def)
    with Cons True roles_exclusive [OF d(2), of "''tool''"] show ?thesis by simp
  next
    case False
    with Cons show ?thesis by simp
  qed
qed simp

section \<open>The validator agrees\<close>

lemma add_ids_text:
  assumes "plain_calls m" "m = JObj d" "has_role ''assistant'' m"
  shows "add_ids [] d = text_ids m"
proof -
  have gen: "foldl (\<lambda>p c. let tid = str_field c ''id'' '''' in if tid \<noteq> [] \<and> tid \<notin> set p then p @ [tid] else p) acc cs
      = acc @ ids"
    if "filter truthy (map (\<lambda>c. jget c ''id'') cs) = map JStr ids" "distinct (acc @ ids)" for cs acc ids
    using that
  proof (induction cs arbitrary: acc ids)
    case (Cons c cs)
    show ?case
    proof (cases "truthy (jget c ''id'')")
      case True
      then obtain i ids' where i: "ids = i # ids'" "jget c ''id'' = JStr i"
        "filter truthy (map (\<lambda>c. jget c ''id'') cs) = map JStr ids'" using Cons.prems(1) by (cases ids) auto
      have "str_field c ''id'' [] = i" "i \<noteq> []" using str_field_JStr [OF i(2)] True i(2) by simp_all
      with Cons.IH [OF i(3), of "acc @ [i]"] Cons.prems(2) i(1) show ?thesis by (simp add: Let_def)
    next
      case False
      then have "str_field c ''id'' [] = []" by (simp add: str_field_def jor_def)
      with Cons.IH [of ids acc] Cons.prems False show ?thesis by (simp add: Let_def)
    qed
  qed simp
  show ?thesis
    using gen [of "call_dicts d" "text_ids m" "[]"] plain_ids(1,2) [OF assms(1)] assms(2,3)
    by (simp add: add_ids_def call_id_list_def call_ids_def)
qed

lemma role_field: "has_role r m \<Longrightarrow> r \<noteq> [] \<Longrightarrow> str_field (fields m) ''role'' '''' = r"
  by (cases m) (simp_all add: has_role_def fields_def str_field_JStr)

lemma role_cases:
  assumes "valid_message m"
  obtains "has_role ''assistant'' m" "str_field (fields m) ''role'' '''' = ''assistant''"
  | "has_role ''tool'' m" "str_field (fields m) ''role'' '''' = ''tool''"
  | "has_role ''user'' m" "str_field (fields m) ''role'' '''' = ''user''"
  | "has_role ''system'' m" "str_field (fields m) ''role'' '''' = ''system''"
  using assms role_field [of _ m]
  by (cases m) (auto simp: valid_message_def valid_roles_def has_role_def)

lemma settled_validates:
  "settled True p ms \<Longrightarrow> distinct p \<Longrightarrow> validate_loop i p (map fields ms) = []"
proof (induction ms arbitrary: p i)
  case (Cons m ms)
  have v: "valid_message m" using Cons.prems(1) by simp
  obtain d where d: "m = JObj d" "fields m = d" using valid_message_obj [OF v] by blast
  from v show ?case
  proof (cases rule: role_cases)
    case 1
    then have p: "p = []" "plain_calls m" "settled True (text_ids m) ms"
      using Cons.prems(1) roles_exclusive [OF 1(1), of "''tool''"] by simp_all
    from Cons.IH [OF p(3) plain_ids(2) [OF p(2)]] add_ids_text [OF p(2) d(1) 1(1)] p(1) d 1(2)
    show ?thesis by (simp add: Let_def)
  next
    case 2
    then have r: "result_text m \<noteq> []" "result_text m \<in> set p" "settled True (remove1 (result_text m) p) ms"
      using Cons.prems(1) by simp_all
    have "str_field d ''tool_call_id'' '''' = result_text m"
      using r(1) d by (cases "jget d ''tool_call_id''") (auto simp: result_text_def str_field_JStr)
    moreover have "removeAll (result_text m) p = remove1 (result_text m) p"
      using Cons.prems(2) by (simp add: distinct_remove1_removeAll)
    ultimately show ?thesis using Cons.IH [OF r(3)] Cons.prems(2) r d 2 by (simp add: Let_def)
  next
    case 3
    then have "p = []" "settled True [] ms" using Cons.prems(1) settled_user by auto
    with Cons.IH 3 d show ?thesis by (simp add: Let_def)
  next
    case 4
    then have "\<not> has_role ''tool'' m" "\<not> has_role ''assistant'' m" using roles_exclusive by blast+
    then have "p = []" "settled True [] ms" using Cons.prems(1) ids_of_others by simp_all
    with Cons.IH 4 d show ?thesis by (simp add: Let_def)
  qed
qed simp

section \<open>The last step as a whole\<close>

lemma orderly_hashable:
  "orderly known used sealed ms \<Longrightarrow> m \<in> set ms \<Longrightarrow>
   (has_role ''assistant'' m \<longrightarrow> plain_calls m) \<and> (has_role ''tool'' m \<longrightarrow> hashable (jget (fields m) ''tool_call_id''))"
proof (induction ms arbitrary: known used sealed)
  case (Cons x ms)
  then show ?case
    using roles_exclusive [of "''tool''" x "''assistant''"] by (auto split: if_splits)
qed simp

lemma orderly_repairs:
  assumes "orderly [] [] False ms"
  shows "\<not> sequence_raises ms"
proof -
  have "\<not> (case m of JObj d \<Rightarrow> (has_role ''assistant'' m \<and> \<not> iterable (jget d ''tool_calls''))
         \<or> list_ex (\<lambda>v. \<not> hashable v) (call_id_list m @ result_id_list m) | _ \<Rightarrow> False)"
    if m: "m \<in> set ms" for m
  proof (cases m)
    case (JObj d)
    note o = orderly_hashable [OF assms m]
    have "list_all hashable (call_id_list m)"
      using o plain_ids(1) [of m] ids_of_others [of m] by (cases "has_role ''assistant'' m") (auto simp: list_all_iff)
    moreover have "list_all hashable (result_id_list m)"
      using o JObj by (simp add: result_id_list_def fields_def)
    ultimately show ?thesis using o JObj by (simp add: plain_calls_def fields_def list_ex_iff list_all_iff ball_Un)
  qed simp_all
  then show ?thesis by (simp add: sequence_raises_def list_ex_iff)
qed

lemma settled_no_raise:
  assumes "settled strict p ms"
  shows "\<not> pairs_raise ms" "list_all is_dict ms"
proof -
  have "\<not> (case m of JObj d \<Rightarrow> has_role ''assistant'' m \<and> \<not> iterable (jget d ''tool_calls'') | _ \<Rightarrow> False)
      \<and> is_dict m" if m: "m \<in> set ms" for m
  proof -
    obtain d where "m = JObj d" "fields m = d"
      using valid_message_obj settled_messages(1) [OF assms m] by blast
    with settled_messages(2) [OF assms m] show ?thesis by (simp add: plain_calls_def is_dict_def)
  qed
  then show "\<not> pairs_raise ms" "list_all is_dict ms"
    by (simp_all add: pairs_raise_def list_ex_iff list_all_iff)
qed

lemma repair_sequence_settled:
  assumes "orderly [] [] False ms"
  obtains a n where "repair_message_sequence ms = Some (a, n)" "settled False [] a"
proof -
  let ?r = "foldl merge_step ([], snd (drop_orphans [] ms)) (fst (drop_orphans [] ms))"
  have "settled False [] (fst (drop_orphans [] ms))"
    using drop_orphans_settled [OF assms] by simp
  then have "settled False [] (fst ?r)" by (intro merge_settled) simp
  moreover have "repair_message_sequence ms = Some (fst ?r, snd ?r)"
    using orderly_repairs [OF assms] by (simp add: repair_message_sequence_def Let_def split_beta)
  ultimately show thesis using that by blast
qed

lemma repair_tool_pairs_settled:
  assumes "settled False [] a" "tool_pair_repair_enabled env"
  shows "\<exists>b n. repair_tool_pairs env a = Some (b, n) \<and> settled True [] b"
proof (cases "a = []")
  case False
  have "settled True [] (fst (pair_loop [] a))" by (rule pair_loop_settled [OF assms(1)]) simp_all
  moreover have "repair_tool_pairs env a = Some (fst (pair_loop [] a), snd (pair_loop [] a))"
    using False settled_no_raise [OF assms(1)] assms(2) by (simp add: repair_tool_pairs_def)
  ultimately show ?thesis by blast
qed (simp add: repair_tool_pairs_def)

lemma repair_sanitize_settled:
  assumes "orderly [] [] False ms" "tool_pair_repair_enabled env"
  shows "\<exists>out. repair_sanitize env al ms = Some out \<and> settled True [] out"
proof -
  obtain a n where a: "repair_message_sequence ms = Some (a, n)" "settled False [] a"
    by (rule repair_sequence_settled [OF assms(1)])
  from repair_tool_pairs_settled [OF a(2) assms(2)] obtain b n' where
    b: "repair_tool_pairs env a = Some (b, n')" "settled True [] b" by blast
  let ?c = "map (fst \<circ> repair_message_arguments al) b"
  have c: "settled True [] ?c" using arguments_settled [OF b(2)] .
  have rc: "\<exists>k. repair_tool_arguments al b = Some (?c, k)"
    using settled_no_raise [OF b(2)] by (simp add: repair_tool_arguments_def Let_def)
  have "repair_sanitize env al ms = Some (filter (\<lambda>m. \<not> is_thinking_only_assistant m) ?c)"
    using a(1) b(1) rc sanitize_settled [OF c]
    by (auto simp: repair_sanitize_def drop_thinking_only_assistants_def Let_def)
  with thinking_settled [OF c] show ?thesis by blast
qed

section \<open>The sequence repair is idempotent\<close>

fun owned :: "jval list \<Rightarrow> jval list \<Rightarrow> bool" where
  "owned known [] = True"
| "owned known (m # ms) = (
     if has_role ''assistant'' m then owned (map hkey (call_id_list m)) ms
     else if has_role ''tool'' m then
       truthy (jget (fields m) ''tool_call_id'') \<and> hkey (jget (fields m) ''tool_call_id'') \<in> set known \<and> owned known ms
     else owned (if has_role ''user'' m then [] else known) ms)"

lemma no_role: "\<not> is_dict m \<Longrightarrow> \<not> has_role r m"
  by (cases m) (simp_all add: is_dict_def has_role_def)

lemma drop_orphans_owned: "owned known (fst (drop_orphans known ms))"
proof (induction known ms rule: drop_orphans.induct)
  case (2 known m ms)
  show ?case
  proof (cases m)
    case (JObj d)
    with 2 show ?thesis
      using roles_exclusive [of "''assistant''" m "''tool''"]
      by (auto simp: Let_def split_beta call_id_list_def fields_def)
  qed (use 2 in \<open>simp_all add: split_beta has_role_def\<close>)
qed simp

lemma owned_fix: "owned known ms \<Longrightarrow> drop_orphans known ms = (ms, 0)"
proof (induction ms arbitrary: known)
  case (Cons m ms)
  show ?case
  proof (cases m)
    case (JObj d)
    with Cons show ?thesis
      by (auto simp: Let_def call_id_list_def fields_def split: if_splits)
  qed (use Cons in \<open>simp_all add: has_role_def\<close>)
qed simp

lemma owned_merge:
  assumes "has_role ''user'' u" "has_role ''user'' m" "owned known (xs @ u # m # ms)"
  shows "owned known (xs @ merge_pair u m # ms)"
  using assms(3)
proof (induction xs arbitrary: known)
  case Nil
  have "owned k (x # l) = owned [] l" if "has_role ''user'' x" for k x l
    using that roles_exclusive [of "''user''" x "''tool''"] roles_exclusive [of "''user''" x "''assistant''"] by simp
  with Nil assms(1,2) merge_pair_user [OF assms(1,2)] show ?case by (simp del: owned.simps)
qed (simp split: if_splits)

definition no_twins :: "jval list \<Rightarrow> bool" where
  "no_twins ms \<longleftrightarrow> successively (\<lambda>a b. \<not> (has_role ''user'' a \<and> has_role ''user'' b)) ms"

lemma no_twins_last:
  "no_twins (acc @ [m]) \<longleftrightarrow> no_twins acc \<and> (acc = [] \<or> \<not> (has_role ''user'' (List.last acc) \<and> has_role ''user'' m))"
  by (auto simp: no_twins_def successively_append_iff)

lemma no_twins_replace:
  assumes "no_twins acc" "acc \<noteq> []" "has_role ''user'' (List.last acc)" "has_role ''user'' u"
  shows "no_twins (butlast acc @ [u])"
proof -
  have "no_twins (butlast acc @ [List.last acc])" using assms(1,2) by simp
  then show ?thesis using assms(3,4) unfolding no_twins_last by blast
qed

lemma merge_no_twins: "no_twins acc \<Longrightarrow> no_twins (fst (foldl merge_step (acc, n) ms))"
proof (induction ms arbitrary: acc n)
  case (Cons m ms)
  show ?case
  proof (cases "acc \<noteq> [] \<and> has_role ''user'' m \<and> has_role ''user'' (List.last acc)")
    case True
    then have "no_twins (butlast acc @ [merge_pair (List.last acc) m])"
      using no_twins_replace Cons.prems merge_pair_user by blast
    from Cons.IH [OF this] show ?thesis by (simp add: merge_step_simps(1) [OF True])
  next
    case False
    then have "no_twins (acc @ [m])" using Cons.prems by (auto simp: no_twins_last)
    from Cons.IH [OF this] show ?thesis by (simp add: merge_step_simps(2) [OF False])
  qed
qed simp

lemma merge_fix: "no_twins (acc @ ms) \<Longrightarrow> foldl merge_step (acc, n) ms = (acc @ ms, n)"
proof (induction ms arbitrary: acc)
  case (Cons m ms)
  have "no_twins (acc @ [m])" using Cons.prems by (auto simp: no_twins_def successively_append_iff)
  then have "merge_step (acc, n) m = (acc @ [m], n)" by (auto simp: no_twins_last merge_step_def)
  with Cons.IH [of "acc @ [m]"] Cons.prems show ?case by simp
qed simp

lemma merge_owned: "owned known (acc @ ms) \<Longrightarrow> owned known (fst (foldl merge_step (acc, n) ms))"
proof (induction ms arbitrary: acc n)
  case (Cons m ms)
  show ?case
  proof (cases "acc \<noteq> [] \<and> has_role ''user'' m \<and> has_role ''user'' (List.last acc)")
    case True
    then have "acc @ m # ms = butlast acc @ List.last acc # m # ms"
      by (metis append_Cons append_Nil append_assoc append_butlast_last_id)
    then have "owned known (butlast acc @ List.last acc # m # ms)" using Cons.prems by metis
    with owned_merge [of "List.last acc" m] True
    have "owned known ((butlast acc @ [merge_pair (List.last acc) m]) @ ms)" by simp
    from Cons.IH [OF this] show ?thesis by (simp add: merge_step_simps(1) [OF True])
  next
    case False
    have "owned known ((acc @ [m]) @ ms)" using Cons.prems by simp
    from Cons.IH [OF this] show ?thesis by (simp add: merge_step_simps(2) [OF False])
  qed
qed simp

lemma merge_count: "length (fst (foldl merge_step (acc, n) ms)) + snd (foldl merge_step (acc, n) ms)
    = length acc + length ms + n"
proof (induction ms arbitrary: acc n)
  case (Cons m ms)
  show ?case
    by (cases "acc \<noteq> [] \<and> has_role ''user'' m \<and> has_role ''user'' (List.last acc)")
      (simp_all add: merge_step_simps Cons.IH)
qed simp

lemma drop_count: "length (fst (drop_orphans known ms)) + snd (drop_orphans known ms) = length ms"
  by (induction known ms rule: drop_orphans.induct) (auto simp: Let_def split_beta split: jval.splits)

lemma drop_set: "set (fst (drop_orphans known ms)) \<subseteq> set ms"
proof (induction ms arbitrary: known)
  case (Cons m ms)
  have s: "set (fst (drop_orphans k ms)) \<subseteq> insert x (set ms)" for k x using Cons.IH [of k] by blast
  show ?case by (cases m) (simp_all add: Let_def split_beta s)
qed simp

lemma user_safe: "has_role ''user'' u \<Longrightarrow> \<not> sequence_raises [u]"
  using roles_exclusive [of "''user''" u "''tool''"] roles_exclusive [of "''user''" u "''assistant''"]
    ids_of_others [of u] ids_of_tool(2) [of u]
  by (cases u) (simp_all add: sequence_raises_def)

lemma raises_Cons: "sequence_raises (m # ms) \<longleftrightarrow> sequence_raises [m] \<or> sequence_raises ms"
  by (simp add: sequence_raises_def)

lemma raises_append: "sequence_raises (xs @ ys) \<longleftrightarrow> sequence_raises xs \<or> sequence_raises ys"
  by (simp add: sequence_raises_def)

lemma raises_subset: "set xs \<subseteq> set ys \<Longrightarrow> \<not> sequence_raises ys \<Longrightarrow> \<not> sequence_raises xs"
  unfolding sequence_raises_def list_ex_iff by blast

lemma merge_safe:
  "\<not> sequence_raises (acc @ ms) \<Longrightarrow> \<not> sequence_raises (fst (foldl merge_step (acc, n) ms))"
proof (induction ms arbitrary: acc n)
  case (Cons m ms)
  show ?case
  proof (cases "acc \<noteq> [] \<and> has_role ''user'' m \<and> has_role ''user'' (List.last acc)")
    case True
    then have "\<not> sequence_raises [merge_pair (List.last acc) m]" using merge_pair_user user_safe by blast
    moreover have ms: "\<not> sequence_raises acc" "\<not> sequence_raises ms"
      using Cons.prems raises_append [of acc "m # ms"] raises_Cons [of m ms] by blast+
    moreover have "\<not> sequence_raises (butlast acc)"
      by (rule raises_subset [OF _ ms(1)]) (auto dest: in_set_butlastD)
    ultimately have "\<not> sequence_raises ((butlast acc @ [merge_pair (List.last acc) m]) @ ms)"
      using raises_append [of "butlast acc @ [merge_pair (List.last acc) m]" ms]
        raises_append [of "butlast acc" "[merge_pair (List.last acc) m]"] by blast
    from Cons.IH [OF this] show ?thesis by (simp add: merge_step_simps(1) [OF True])
  next
    case False
    have "\<not> sequence_raises ((acc @ [m]) @ ms)" using Cons.prems by simp
    from Cons.IH [OF this] show ?thesis by (simp add: merge_step_simps(2) [OF False])
  qed
qed simp

lemma repair_sequence_again:
  assumes "repair_message_sequence ms = Some (out, n)"
  shows "repair_message_sequence out = Some (out, 0)" "length out + n = length ms" "no_twins out"
proof -
  let ?f = "fst (drop_orphans [] ms)" and ?k = "snd (drop_orphans [] ms)"
  have safe: "\<not> sequence_raises ms"
    using assms by (simp add: repair_message_sequence_def split: if_splits)
  have out: "foldl merge_step ([], ?k) ?f = (out, n)"
    using assms safe by (simp add: repair_message_sequence_def Let_def split_beta)
  have "owned [] out" using merge_owned [of "[]" "[]" ?f ?k] drop_orphans_owned [of "[]" ms] out by simp
  moreover show t: "no_twins out"
    using merge_no_twins [of "[]" ?k ?f] out by (simp add: no_twins_def)
  moreover have "\<not> sequence_raises out"
    using merge_safe [of "[]" ?f ?k] raises_subset [OF drop_set [of "[]" ms] safe] out by simp
  ultimately show "repair_message_sequence out = Some (out, 0)"
    using merge_fix [of "[]" out 0] by (simp add: repair_message_sequence_def owned_fix)
  show "length out + n = length ms"
    using merge_count [of "[]" ?k ?f] drop_count [of "[]" ms] out by simp
qed

section \<open>Identifiers after sanitising\<close>

text \<open>The identifiers of the calls and of the results of a history, as sets hold them.\<close>

definition calls_of :: "jval list \<Rightarrow> jval set" where
  "calls_of ms = hkey ` set (concat (map call_id_list ms))"

definition results_of :: "jval list \<Rightarrow> jval set" where
  "results_of ms = hkey ` set (concat (map result_id_list ms))"

lemma truthy_hkey [simp]: "truthy (hkey v) = truthy v"
  by (cases v) auto

lemma stub_ids:
  assumes "s \<in> set (stubs_for missing m)"
  shows "call_id_list s = []"
    "\<exists>c. c \<in> set (call_dicts (fields m)) \<and> hkey (jget c ''id'') \<in> set missing
       \<and> result_id_list s = filter truthy [jget c ''id'']"
  using assms
  by (cases m; auto simp: stubs_for_def call_id_list_def result_id_list_def has_role_def fields_def split: if_splits)+

lemma stub_valid: "s \<in> set (stubs_for missing m) \<Longrightarrow> valid_message s"
  by (cases m) (auto simp: stubs_for_def valid_message_def valid_roles_def split: if_splits)

lemma stub_of_id:
  assumes "v \<in> set (call_id_list m)" "hkey v \<in> set missing"
  shows "\<exists>s\<in>set (stubs_for missing m). result_id_list s = [v]"
proof (cases m)
  case (JObj d)
  with assms(1) obtain c where c: "has_role ''assistant'' m" "c \<in> set (call_dicts d)" "jget c ''id'' = v" "truthy v"
    by (auto simp: call_id_list_def call_ids_def split: if_splits)
  let ?s = "JObj [(''role'', JStr ''tool''), (''name'', JStr (tool_call_name c)),
                (''content'', JStr stub_tool_result), (''tool_call_id'', jget c ''id'')]"
  have "?s \<in> set (stubs_for missing m)" using c assms(2) JObj by (auto simp: stubs_for_def)
  moreover have "result_id_list ?s = [v]" using c(3,4) by (simp add: result_id_list_def has_role_def)
  ultimately show ?thesis by blast
qed (use assms in \<open>simp_all add: call_id_list_def\<close>)

lemma sanitize_ids:
  assumes "sanitize_api_messages ms = Some (out, n)"
  shows "results_of out = calls_of out" "\<And>m. m \<in> set out \<Longrightarrow> valid_message m"
proof -
  define f where "f = filter valid_message ms"
  define sur where "sur = remdups (map hkey (concat (map call_id_list f)))"
  define res where "res = remdups (map hkey (concat (map result_id_list f)))"
  define orp where "orp = filter (\<lambda>i. i \<notin> set sur) res"
  define mis where "mis = filter (\<lambda>i. i \<notin> set res) sur"
  define kept where "kept = filter (\<lambda>m. \<not> orphan_result orp m) f"
  have out: "out = concat (map (\<lambda>m. m # stubs_for mis m) kept)"
    using assms unfolding sanitize_api_messages_def Let_def f_def [symmetric] sur_def [symmetric]
      res_def [symmetric] orp_def [symmetric] mis_def [symmetric] kept_def [symmetric]
    by (simp split: if_splits)
  have sets: "set sur = calls_of f" "set res = results_of f" "set orp = results_of f - calls_of f"
    "set mis = calls_of f - results_of f"
    by (auto simp: sur_def res_def orp_def mis_def calls_of_def results_of_def)
  have kc: "calls_of kept = calls_of f"
  proof -
    have "call_id_list m = []" if "orphan_result orp m" for m
      using that ids_of_tool(1) by (simp add: orphan_result_def)
    then show ?thesis by (force simp: calls_of_def kept_def)
  qed
  have kr: "results_of kept = results_of f - set orp"
  proof -
    have o: "orphan_result orp m \<longleftrightarrow> hkey v \<in> set orp" if "v \<in> set (result_id_list m)" for m v
      using that by (cases m) (auto simp: result_id_list_def orphan_result_def split: if_splits)
    show ?thesis
    proof (intro set_eqI iffI)
      fix k assume "k \<in> results_of kept"
      then obtain m v where "m \<in> set f" "\<not> orphan_result orp m" "v \<in> set (result_id_list m)" "k = hkey v"
        by (auto simp: results_of_def kept_def)
      with o show "k \<in> results_of f - set orp" by (auto simp: results_of_def)
    next
      fix k assume "k \<in> results_of f - set orp"
      then obtain m v where "m \<in> set f" "v \<in> set (result_id_list m)" "k = hkey v" "k \<notin> set orp"
        by (auto simp: results_of_def)
      with o show "k \<in> results_of kept" by (auto simp: results_of_def kept_def)
    qed
  qed
  have oc: "calls_of out = calls_of kept"
    using stub_ids(1) by (force simp: out calls_of_def)
  have os: "results_of out = results_of kept \<union> set mis"
  proof (intro set_eqI iffI)
    fix k assume "k \<in> results_of out"
    then obtain m v where m: "m \<in> set kept" "k = hkey v"
      "v \<in> set (result_id_list m) \<or> (\<exists>s\<in>set (stubs_for mis m). v \<in> set (result_id_list s))"
      by (auto simp: results_of_def out)
    then show "k \<in> results_of kept \<union> set mis"
      using stub_ids(2) by (fastforce simp: results_of_def split: if_splits)
  next
    fix k assume k: "k \<in> results_of kept \<union> set mis"
    show "k \<in> results_of out"
    proof (cases "k \<in> results_of kept")
      case True
      then show ?thesis by (auto simp: results_of_def out)
    next
      case False
      with k have "k \<in> set mis" "k \<in> calls_of kept" using sets(4) kc by auto
      then obtain m v where "m \<in> set kept" "v \<in> set (call_id_list m)" "k = hkey v" "hkey v \<in> set mis"
        by (auto simp: calls_of_def)
      with stub_of_id obtain s where "s \<in> set (stubs_for mis m)" "result_id_list s = [v]" by blast
      moreover have "s \<in> set out" using \<open>m \<in> set kept\<close> calculation(1) by (auto simp: out)
      moreover from this have "set (result_id_list s) \<subseteq> set (concat (map result_id_list out))" by auto
      ultimately have "v \<in> set (concat (map result_id_list out))" by simp
      then show ?thesis using \<open>k = hkey v\<close> by (auto simp: results_of_def)
    qed
  qed
  show "results_of out = calls_of out"
    unfolding os oc kr kc sets by auto
  show "valid_message m" if "m \<in> set out" for m
    using that stub_valid by (auto simp: out kept_def f_def)
qed

lemma thinking_ids: "is_thinking_only_assistant m \<Longrightarrow> call_id_list m = [] \<and> result_id_list m = []"
proof -
  assume a: "is_thinking_only_assistant m"
  then obtain d where d: "m = JObj d" "has_role ''assistant'' m" "\<not> truthy (jget d ''tool_calls'')"
    by (cases m) (auto simp: is_thinking_only_assistant_def)
  then have "call_id_list m = []"
    by (cases "jget d ''tool_calls''") (simp_all add: call_id_list_def call_ids_alt tool_calls_def)
  with ids_of_tool(2) [of m] roles_exclusive [OF d(2), of "''tool''"] show ?thesis by simp
qed

lemma repair_sanitize_ids:
  assumes "repair_sanitize env al ms = Some out"
  shows "results_of out = calls_of out \<and> (\<forall>m\<in>set out. valid_message m \<and> \<not> is_thinking_only_assistant m)"
proof -
  obtain c d n where s: "sanitize_api_messages c = Some (d, n)" "out = fst (drop_thinking_only_assistants d)"
    using assms by (auto simp: repair_sanitize_def bind_eq_Some_conv)
  have o: "out = filter (\<lambda>m. \<not> is_thinking_only_assistant m) d"
    using s(2) by (simp add: drop_thinking_only_assistants_def Let_def)
  have "calls_of out = calls_of d" "results_of out = results_of d"
    using thinking_ids by (force simp: o calls_of_def results_of_def)+
  with sanitize_ids [OF s(1)] o show ?thesis by auto
qed

section \<open>Arguments parse\<close>

lemma arguments_parse:
  assumes "al_loads al ''{}'' \<noteq> None" "\<And>v. al_loads al (al_dumps al v) \<noteq> None"
  shows "al_loads al (repair_tool_call_arguments al raw) \<noteq> None"
  using assms by (auto simp: repair_tool_call_arguments_def Let_def split: option.splits)

text \<open>The arguments of the calls of a history, as the model sees them.\<close>

definition call_argument :: "msg \<Rightarrow> string list" where
  "call_argument c = (case jget c ''function'' of
       JObj f \<Rightarrow> (case dget f ''arguments'' of Some (JStr s) \<Rightarrow> [str_or s ''{}''] | _ \<Rightarrow> [])
     | _ \<Rightarrow> [])"

definition argument_texts :: "jval \<Rightarrow> string list" where
  "argument_texts m = (if has_role ''assistant'' m then concat (map call_argument (call_dicts (fields m))) else [])"

lemma call_argument_cases:
  "s \<in> set (call_argument c) \<Longrightarrow>
   \<exists>f t. jget c ''function'' = JObj f \<and> dget f ''arguments'' = Some (JStr t) \<and> s = str_or t ''{}''"
proof (cases "jget c ''function''")
  case (JObj f)
  moreover assume "s \<in> set (call_argument c)"
  ultimately have s: "s \<in> set (case dget f ''arguments'' of Some (JStr s) \<Rightarrow> [str_or s ''{}''] | _ \<Rightarrow> [])"
    by (simp add: call_argument_def)
  then obtain v where v: "dget f ''arguments'' = Some v" by (cases "dget f ''arguments''") simp_all
  with s obtain t where "v = JStr t" "s = str_or t ''{}''" by (cases v) simp_all
  with JObj v show ?thesis by simp
qed (simp_all add: call_argument_def)

lemma repaired_call_parses:
  assumes "al_loads al ''{}'' \<noteq> None" "\<And>v. al_loads al (al_dumps al v) \<noteq> None"
    "fst (repair_call al tc) = JObj c" "jget c ''function'' = JObj f" "dget f ''arguments'' = Some (JStr s)"
  shows "al_loads al (str_or s ''{}'') \<noteq> None"
proof -
  note ok = arguments_parse [OF assms(1,2)]
  have e: "al_loads al (str_or (repair_tool_call_arguments al raw) ''{}'') \<noteq> None" for raw
    using ok [of raw] assms(1) by (simp add: str_or_def)
  obtain c0 where tc: "tc = JObj c0" using assms(3) by (cases tc) (simp_all add: repair_call_def)
  show ?thesis
  proof (cases "jget c0 ''function''")
    case (JObj f0)
    define raw where "raw = (case dget f0 ''arguments'' of Some v \<Rightarrow> v | None \<Rightarrow> JStr ''{}'')"
    define raw_str where "raw_str = pystr raw"
    define rep where "rep = repair_tool_call_arguments al raw_str"
    have r: "repair_call al tc = (if f0 = [] \<or> is_dict raw then (tc, 0)
        else if al_loads al (str_or raw_str ''{}'') = None \<and> rep \<noteq> raw_str
        then (JObj (dset ''function'' (JObj (dset ''arguments'' (JStr rep) f0)) c0), 1) else (tc, 0))"
      using JObj tc by (simp add: repair_call_def Let_def raw_def raw_str_def rep_def)
    show ?thesis
    proof (cases "\<not> (f0 = [] \<or> is_dict raw) \<and> al_loads al (str_or raw_str ''{}'') = None \<and> rep \<noteq> raw_str")
      case True
      then have "c = dset ''function'' (JObj (dset ''arguments'' (JStr rep) f0)) c0"
        using r assms(3) by auto
      then have "s = rep" using assms(4,5) by auto
      then show ?thesis using e by (simp add: rep_def)
    next
      case False
      then have "fst (repair_call al tc) = tc" using r by (auto split: if_splits)
      then have "c = c0" using assms(3) tc by simp
      then have f: "f = f0" using assms(4) JObj by simp
      then have "raw = JStr s" "raw_str = s" "f0 \<noteq> []" using assms(5) by (auto simp: raw_def raw_str_def)
      with False have "al_loads al (str_or s ''{}'') \<noteq> None \<or> rep = s" by (auto simp: is_dict_def)
      then show ?thesis using e [of raw_str] \<open>raw_str = s\<close> by (auto simp: rep_def)
    qed
  qed (use assms(3,4) tc in \<open>auto simp: repair_call_def\<close>)
qed

lemma repaired_message_parses:
  assumes "al_loads al ''{}'' \<noteq> None" "\<And>v. al_loads al (al_dumps al v) \<noteq> None"
    "s \<in> set (argument_texts (fst (repair_message_arguments al m)))"
  shows "al_loads al s \<noteq> None"
proof -
  have a: "has_role ''assistant'' m"
    using assms(3) arguments_keep(1) by (auto simp: argument_texts_def split: if_splits)
  then obtain d where d: "m = JObj d" by (cases m) (simp_all add: has_role_def)
  obtain c where c0: "c \<in> set (call_dicts (fields (fst (repair_message_arguments al m))))" "s \<in> set (call_argument c)"
    using assms(3) by (auto simp: argument_texts_def split: if_splits)
  then obtain f t where c: "c \<in> set (call_dicts (fields (fst (repair_message_arguments al m))))"
    "jget c ''function'' = JObj f" "dget f ''arguments'' = Some (JStr t)" "s = str_or t ''{}''"
    using call_argument_cases by blast
  have "JObj c \<in> range (\<lambda>tc. fst (repair_call al tc))"
    using c(1,2) a d
    by (cases "jget d ''tool_calls''")
      (auto simp: repair_message_arguments_def call_dicts_def tool_calls_def fields_def Let_def
         split: jval.splits if_splits)
  then obtain tc where "fst (repair_call al tc) = JObj c" by auto
  then show ?thesis using repaired_call_parses [OF assms(1,2)] c by blast
qed

section \<open>Properties\<close>

definition text_msg :: "string \<Rightarrow> string \<Rightarrow> jval" where
  "text_msg role content = JObj [(''role'', JStr role), (''content'', JStr content)]"

definition call_msg :: "string list \<Rightarrow> jval" where
  "call_msg ids = JObj [(''role'', JStr ''assistant''), (''tool_calls'', JList (map (\<lambda>i.
     JObj [(''id'', JStr i), (''function'', JObj [(''name'', JStr ''grep''), (''arguments'', JStr ''{'')])]) ids))]"

definition result_msg :: "string \<Rightarrow> string \<Rightarrow> jval" where
  "result_msg i content = JObj [(''role'', JStr ''tool''), (''tool_call_id'', JStr i), (''content'', JStr content)]"

definition thought_msg :: jval where
  "thought_msg = JObj [(''role'', JStr ''assistant''), (''content'', JNull), (''reasoning'', JStr ''hm'')]"

text \<open>A concrete \<open>json\<close> module for the examples: it reads the empty object only.\<close>

definition demo_args :: arg_lib where
  "demo_args = \<lparr>al_loads = (\<lambda>s. if s = ''{}'' then Some (JObj []) else None),
     al_loads_lax = (\<lambda>s. None), al_dumps = (\<lambda>v. ''{}'')\<rparr>"

definition no_env :: os_env where
  "no_env k = None"

text \<open>A missing result, a result without a call, two user messages in a row.\<close>

definition torn_history :: "jval list" where
  "torn_history = [text_msg ''system'' ''s'', text_msg ''user'' ''a'', text_msg ''user'' ''b'',
     call_msg [''c1'', ''c2''], result_msg ''c2'' ''r'', result_msg ''c9'' ''x'', thought_msg, text_msg ''user'' ''d'']"

text \<open>
  C2: On an orderly history the last step returns, and every block of calls it sends is followed by
  exactly one result per call before anything else; the program's own validator finds no error.
\<close>

theorem repaired_history_settled:
  assumes "orderly [] [] False ms" and "tool_pair_repair_enabled env"
  shows "\<exists>out. repair_sanitize env al ms = Some out \<and> settled True [] out
     \<and> validate_openai_sequence (map fields out) = []"
proof -
  obtain out where "repair_sanitize env al ms = Some out" "settled True [] out"
    using repair_sanitize_settled [OF assms] by blast
  then show ?thesis using settled_validates [of "[]" out 0] by (simp add: validate_openai_sequence_def)
qed

theorem repaired_history_settled_witness:
  "orderly [] [] False torn_history \<and> tool_pair_repair_enabled no_env
   \<and> (\<exists>out. repair_sanitize no_env demo_args torn_history = Some out \<and> settled True [] out
     \<and> validate_openai_sequence (map fields out) = [])"
proof -
  have o: "orderly [] [] False torn_history" by code_simp
  have e: "tool_pair_repair_enabled no_env" by code_simp
  from repaired_history_settled [OF o e, of demo_args] o e show ?thesis by blast
qed

text \<open>
  C16: Whatever the history, when the last step returns the identifiers of the calls it sends
  are exactly the identifiers of the results it sends, every message has one of the four roles
  and no turn of reasoning alone is left.
\<close>

theorem sent_ids_match:
  assumes "repair_sanitize env al ms = Some out"
  shows "results_of out = calls_of out \<and> (\<forall>m\<in>set out. valid_message m \<and> \<not> is_thinking_only_assistant m)"
  by (rule repair_sanitize_ids [OF assms])

definition doubled_history :: "jval list" where
  "doubled_history = [text_msg ''user'' ''a'', call_msg [''c1''], text_msg ''system'' ''note'', result_msg ''c1'' ''r'']"

definition sent_doubled :: "jval list" where
  "sent_doubled = the (repair_sanitize no_env demo_args doubled_history)"

theorem sent_ids_match_witness:
  "repair_sanitize no_env demo_args doubled_history = Some sent_doubled
   \<and> results_of sent_doubled = calls_of sent_doubled"
proof -
  have s: "repair_sanitize no_env demo_args doubled_history = Some sent_doubled" by code_simp
  from sent_ids_match [OF s] s show ?thesis by blast
qed

text \<open>
  C35: A second run of the sequence repair changes nothing, the count it returns is the
  number of messages removed, and no two user messages stay next to each other.
\<close>

theorem sequence_repair_idempotent:
  assumes "repair_message_sequence ms = Some (out, n)"
  shows "repair_message_sequence out = Some (out, 0) \<and> length out + n = length ms
     \<and> successively (\<lambda>a b. \<not> (has_role ''user'' a \<and> has_role ''user'' b)) out"
  using repair_sequence_again [OF assms] by (simp add: no_twins_def)

theorem sequence_repair_idempotent_witness:
  "\<exists>out. repair_message_sequence torn_history = Some (out, 2)
     \<and> repair_message_sequence out = Some (out, 0) \<and> length out + 2 = length torn_history"
proof -
  have s: "repair_message_sequence torn_history = Some (fst (the (repair_message_sequence torn_history)), 2)"
    by code_simp
  from sequence_repair_idempotent [OF s] s show ?thesis by blast
qed

text \<open>
  Every argument text the repair leaves in a call parses, given that the parser reads the
  empty object and what the printer writes.
\<close>

theorem sent_arguments_parse:
  assumes "al_loads al ''{}'' \<noteq> None" and "\<And>v. al_loads al (al_dumps al v) \<noteq> None"
    and "repair_tool_arguments al ms = Some (out, n)" and "m \<in> set out" and "s \<in> set (argument_texts m)"
  shows "al_loads al s \<noteq> None"
proof -
  have "out = map (fst \<circ> repair_message_arguments al) ms"
    using assms(3) by (simp add: repair_tool_arguments_def Let_def split: if_splits)
  with assms(4) obtain x where "m = fst (repair_message_arguments al x)" by auto
  with repaired_message_parses [OF assms(1,2)] assms(5) show ?thesis by blast
qed

theorem sent_arguments_parse_witness:
  "repair_tool_arguments demo_args [call_msg [''c1'']] = Some
     ([JObj [(''role'', JStr ''assistant''), (''tool_calls'', JList [
        JObj [(''id'', JStr ''c1''), (''function'', JObj [(''name'', JStr ''grep''), (''arguments'', JStr ''{}'')])]])]], 1)
   \<and> al_loads demo_args ''{}'' \<noteq> None"
proof -
  let ?m = "JObj [(''role'', JStr ''assistant''), (''tool_calls'', JList [
        JObj [(''id'', JStr ''c1''), (''function'', JObj [(''name'', JStr ''grep''), (''arguments'', JStr ''{}'')])]])]"
  have r: "repair_tool_arguments demo_args [call_msg [''c1'']] = Some ([?m], 1)" by code_simp
  have l: "al_loads demo_args ''{}'' \<noteq> None" and d: "\<And>v. al_loads demo_args (al_dumps demo_args v) \<noteq> None"
    by (simp_all add: demo_args_def)
  have a: "''{}'' \<in> set (argument_texts ?m)" by code_simp
  show ?thesis using sent_arguments_parse [OF l d r _ a] r by simp
qed

text \<open>
  A system message between a call and its result makes the repair answer the call
  a second time: two results with one identifier are sent, which the program's own validator
  reports as an orphan.
\<close>

theorem system_message_doubles_result:
  "\<exists>out. repair_sanitize no_env demo_args doubled_history = Some out
     \<and> length (filter (\<lambda>m. result_id_list m = [JStr ''c1'']) out) = 2
     \<and> validate_openai_sequence (map fields out) = [Orphan_Result 4 ''c1'']"
proof -
  have "repair_sanitize no_env demo_args doubled_history = Some sent_doubled" by code_simp
  moreover have "length (filter (\<lambda>m. result_id_list m = [JStr ''c1'']) sent_doubled) = 2" by code_simp
  moreover have "validate_openai_sequence (map fields sent_doubled) = [Orphan_Result 4 ''c1'']" by code_simp
  ultimately show ?thesis by blast
qed

text \<open>
  Thinking turns are dropped after user messages were merged, so what is sent may hold
  two user messages in a row although the sequence repair exists to prevent it.
\<close>

theorem dropped_thought_leaves_twins:
  "\<exists>out. repair_sanitize no_env demo_args [text_msg ''user'' ''a'', thought_msg, text_msg ''user'' ''b''] = Some out
     \<and> out = [text_msg ''user'' ''a'', text_msg ''user'' ''b'']
     \<and> repair_message_sequence out \<noteq> Some (out, 0)"
proof -
  let ?out = "[text_msg ''user'' ''a'', text_msg ''user'' ''b'']"
  have "repair_sanitize no_env demo_args [text_msg ''user'' ''a'', thought_msg, text_msg ''user'' ''b''] = Some ?out"
    by code_simp
  moreover have "map_option snd (repair_message_sequence ?out) = Some 1" by code_simp
  then have "repair_message_sequence ?out \<noteq> Some (?out, 0)" by auto
  ultimately show ?thesis by blast
qed

end
