(* ===== verification/Compaction.thy ===== *)
theory Compaction
  imports Message_Repair
begin

text \<open>
  How a history is cut down: pruning of tool outputs (\<open>core/tool_prune_policy.py\<close>,
  \<open>core/context_compressor.py\<close>, \<open>core/tool_output_prune.py\<close>), the boundary between what
  is summarised and what is kept (\<open>core/compaction_cutoff.py\<close>, \<open>_split_head_tail\<close>) and its
  choice by turns (\<open>core/turn_compaction.py\<close>).  The functions take lists of dictionaries, as
  their annotations say; entries of \<open>tool_calls\<close> that are not dictionaries are passed over.
  The token estimate is a parameter: it counts the output of \<open>json.dumps\<close>.
  Diagnostics are left out.
\<close>

definition role_is :: "string \<Rightarrow> msg \<Rightarrow> bool" where
  "role_is r d = (jget d ''role'' = JStr r)"

text \<open>\<open>str(m.get("content") or "")\<close>.\<close>

definition content_of :: "msg \<Rightarrow> string" where
  "content_of d = str_field d ''content'' ''''"

definition with_content :: "string \<Rightarrow> msg \<Rightarrow> msg" where
  "with_content c d = dset ''content'' (JStr c) d"

definition call_ref :: "msg \<Rightarrow> string" where
  "call_ref d = str_field d ''tool_call_id'' ''''"

section \<open>Tool tiers\<close>

record prune_settings =
  ts_keep_recent :: nat
  ts_pim_keep_recent :: nat
  ts_pii_chars :: nat
  ts_clearable_chars :: nat
  ts_preserve_chars :: nat
  ts_default_chars :: nat
  ts_backward_enabled :: bool
  ts_backward_minimum :: nat
  ts_backward_protect :: nat

definition default_settings :: prune_settings where
  "default_settings = \<lparr>ts_keep_recent = 4, ts_pim_keep_recent = 2, ts_pii_chars = 200, ts_clearable_chars = 400,
     ts_preserve_chars = 2400, ts_default_chars = 800, ts_backward_enabled = True,
     ts_backward_minimum = 20000, ts_backward_protect = 40000\<rparr>"

definition cleared_message :: string where
  "cleared_message = (''['' @ bytes [230, 151, 167, 229, 183, 165, 229, 133, 183, 231, 187, 147, 230, 158, 156, 229, 183, 178, 230, 184, 133, 231, 169, 186] @ '']'')"

definition compactable :: "string list" where
  "compactable = [''read_file'', ''grep'', ''search_files'', ''glob'', ''list_dir'', ''terminal'',
     ''run_terminal_cmd'', ''run_command'', ''execute_command'', ''web_search'', ''web_fetch'']"

definition pim_sensitive :: "string list" where
  "pim_sensitive = [''contact_find'', ''contact_list'', ''memo_list'', ''memo_search'', ''expense_list'',
     ''expense_summary'', ''expense_search'', ''habit_list'', ''habit_stats'', ''list_reminders'',
     ''reminder_list_active'']"

definition preserved_tools :: "string list" where
  "preserved_tools = [''write_file'', ''patch'', ''edit_file'', ''apply_patch'', ''delegate_task'',
     ''run_workflow'', ''run_runtime_job'']"

datatype tier = Pii_Clearable | Clearable | Preserve | Default_Tier

definition classify_tool :: "string \<Rightarrow> tier" where
  "classify_tool tool_name = (let name = lower (strip tool_name) in
     if name \<in> set pim_sensitive then Pii_Clearable
     else if name \<in> set compactable then Clearable
     else if name \<in> set preserved_tools then Preserve
     else if list_ex (\<lambda>p. prefix p name) [''read_'', ''search_'', ''grep''] then Clearable
     else if list_ex (\<lambda>p. prefix p name) [''write_'', ''edit_'', ''patch''] then Preserve
     else Default_Tier)"

definition build_tool_name_index :: "msg list \<Rightarrow> (string, string) dict" where
  "build_tool_name_index ms = foldl (\<lambda>out c. let tid = strip (str_field c ''id'' '''') in
     if tid = [] then out else dset tid (strip (str_field (function_of c) ''name'' '''')) out) []
     (concat (map call_dicts (filter (role_is ''assistant'') ms)))"

definition tool_message_indices :: "msg list \<Rightarrow> nat list" where
  "tool_message_indices ms = filter (\<lambda>i. role_is ''tool'' (ms ! i)) [0..<length ms]"

definition is_persisted_tool_result :: "string \<Rightarrow> bool" where
  "is_persisted_tool_result t = (contains ''<persisted-output>'' t \<or> contains ''<persisted-output-ref>'' t)"

definition prune_limit_chars :: "prune_settings \<Rightarrow> tier \<Rightarrow> nat" where
  "prune_limit_chars ts p = (case p of
       Pii_Clearable \<Rightarrow> ts_pii_chars ts
     | Clearable \<Rightarrow> ts_clearable_chars ts
     | Preserve \<Rightarrow> ts_preserve_chars ts
     | Default_Tier \<Rightarrow> ts_default_chars ts)"

definition flat_lines :: "string \<Rightarrow> string" where
  "flat_lines s = map (\<lambda>c. if [c] = nl then CHR '' '' else c) s"

definition prune_tool_message_content :: "prune_settings \<Rightarrow> string \<Rightarrow> string \<Rightarrow> bool \<Rightarrow> string" where
  "prune_tool_message_content ts content tool_name is_stale = (
     if is_persisted_tool_result content then content
     else let policy = classify_tool tool_name in
       if policy = Pii_Clearable \<and> is_stale \<or> policy = Clearable \<and> is_stale then cleared_message
       else let lim_chars = prune_limit_chars ts policy in
         if ulen content \<le> lim_chars then content
         else ''[Tool output pruned: '' @ str_of_nat (ulen content) @ '' chars] ''
                @ flat_lines (utake (min 300 lim_chars) content) @ ''...'')"

section \<open>Forward pruning\<close>

definition tool_name_of :: "(string, string) dict \<Rightarrow> msg \<Rightarrow> string" where
  "tool_name_of names d = (case dget names (call_ref d) of Some n \<Rightarrow> n | None \<Rightarrow> [])"

fun prune_one :: "prune_settings \<Rightarrow> (string, string) dict \<Rightarrow> nat list \<Rightarrow> nat list \<Rightarrow> nat \<times> msg \<Rightarrow> msg" where
  "prune_one ts names recent pim_recent (i, m) = (
     if \<not> role_is ''tool'' m then m
     else let tool_name = tool_name_of names m;
              is_stale = (i \<notin> set (if classify_tool tool_name = Pii_Clearable then pim_recent else recent));
              new = prune_tool_message_content ts (content_of m) tool_name is_stale
       in if new = content_of m then m else with_content new m)"

definition prune_tool_outputs :: "prune_settings \<Rightarrow> msg list \<Rightarrow> msg list" where
  "prune_tool_outputs ts ms = (
     let names = build_tool_name_index ms;
         tool_idxs = tool_message_indices ms;
         recent = last_n (ts_keep_recent ts) tool_idxs;
         pim = filter (\<lambda>i. classify_tool (tool_name_of names (ms ! i)) = Pii_Clearable) tool_idxs;
         pim_recent = last_n (ts_pim_keep_recent ts) pim
     in map (prune_one ts names recent pim_recent) (enumerate 0 ms))"

section \<open>Backward pruning\<close>

definition prune_protected_tools :: "string list" where
  "prune_protected_tools = [''skill_view'', ''skills_list'']"

text \<open>The name of the call a result answers, in the nearest assistant message before it.\<close>

definition caller_name :: "msg list \<Rightarrow> nat \<Rightarrow> string" where
  "caller_name ms idx = (case find (role_is ''assistant'') (rev (take idx ms)) of
       None \<Rightarrow> []
     | Some prev \<Rightarrow> (case find (\<lambda>c. str_field c ''id'' '''' = call_ref (ms ! idx)) (call_dicts prev) of
           None \<Rightarrow> [] | Some c \<Rightarrow> str_field (function_of c) ''name'' ''''))"

definition est_tokens :: "string \<Rightarrow> nat" where
  "est_tokens content = max 1 (ulen content div 4)"

definition is_cleared :: "string \<Rightarrow> bool" where
  "is_cleared content = (strip content = cleared_message)"

text \<open>The loop from the end: volume volume seen, volume to clear, indices to clear, user turns seen.\<close>

fun back_loop :: "nat \<Rightarrow> msg list \<Rightarrow> nat list \<Rightarrow> nat \<Rightarrow> nat \<Rightarrow> nat list \<Rightarrow> nat \<Rightarrow> nat \<times> nat list" where
  "back_loop protect ms [] volume pruned to_clear user_turns = (pruned, to_clear)"
| "back_loop protect ms (i # is) volume pruned to_clear user_turns = (
     let m = ms ! i; content = content_of m;
         turns = (if role_is ''user'' m then user_turns + 1 else user_turns);
         tool_name = caller_name ms i
     in if turns < 2 then back_loop protect ms is volume pruned to_clear turns
        else if role_is ''assistant'' m \<and> (contains ''[CONTEXT COMPACTION'' content \<or> contains ''## Goal'' (utake 200 content))
          then (pruned, to_clear)
        else if \<not> role_is ''tool'' m \<or> is_persisted_tool_result content then back_loop protect ms is volume pruned to_clear turns
        else if tool_name \<in> set prune_protected_tools \<or> classify_tool tool_name = Preserve
          then back_loop protect ms is volume pruned to_clear turns
        else if is_cleared content then (pruned, to_clear)
        else let est = est_tokens content in
          if volume + est \<le> protect then back_loop protect ms is (volume + est) pruned to_clear turns
          else back_loop protect ms is (volume + est) (pruned + est) (to_clear @ [i]) turns)"

fun extra_loop :: "nat \<Rightarrow> msg list \<Rightarrow> nat list \<Rightarrow> nat list \<Rightarrow> nat \<Rightarrow> nat list \<Rightarrow> nat \<times> nat list" where
  "extra_loop least ms to_clear [] pruned extra = (pruned, extra)"
| "extra_loop least ms to_clear (i # is) pruned extra = (
     let content = content_of (ms ! i) in
     if i \<in> set to_clear \<or> is_cleared content \<or> is_persisted_tool_result content
     then extra_loop least ms to_clear is pruned extra
     else let p = pruned + est_tokens content in
       if least \<le> p then (p, extra @ [i]) else extra_loop least ms to_clear is p (extra @ [i]))"

fun clear_one :: "nat list \<Rightarrow> nat \<times> msg \<Rightarrow> msg" where
  "clear_one idxs (i, m) = (if i \<in> set idxs then with_content cleared_message m else m)"

definition backward_prune_tool_outputs :: "prune_settings \<Rightarrow> msg list \<Rightarrow> msg list" where
  "backward_prune_tool_outputs ts ms = (
     let tool_idxs = tool_message_indices ms; least = ts_backward_minimum ts in
     if \<not> ts_backward_enabled ts \<or> length tool_idxs < 2 then ms
     else let (pruned, to_clear) = back_loop (ts_backward_protect ts) ms (rev [0..<length ms]) 0 0 [] 0;
              (pruned', extra) = (if pruned < least \<and> to_clear \<noteq> []
                 then extra_loop least ms to_clear tool_idxs pruned [] else (pruned, []))
       in if pruned' < least then ms
          else map (clear_one (to_clear @ extra)) (enumerate 0 ms))"

definition apply_tool_prune_pipeline :: "prune_settings \<Rightarrow> msg list \<Rightarrow> msg list" where
  "apply_tool_prune_pipeline ts ms = backward_prune_tool_outputs ts (prune_tool_outputs ts ms)"

section \<open>The boundary\<close>

fun open_ids :: "string list \<Rightarrow> msg list \<Rightarrow> string list" where
  "open_ids pending [] = pending"
| "open_ids pending (m # ms) = open_ids (
     if role_is ''assistant'' m then
       pending @ filter (\<lambda>t. t \<noteq> []) (map (\<lambda>c. strip (str_field c ''id'' '''')) (call_dicts m))
     else if role_is ''tool'' m then removeAll (strip (call_ref m)) pending
     else pending) ms"

definition prefix_tool_pairs_closed :: "msg list \<Rightarrow> nat \<Rightarrow> bool" where
  "prefix_tool_pairs_closed ms boundary = (open_ids [] (take boundary ms) = [])"

function skip_open :: "msg list \<Rightarrow> nat \<Rightarrow> nat" where
  "skip_open ms start = (if start < length ms \<and> \<not> prefix_tool_pairs_closed ms start
     then skip_open ms (start + 1) else start)"
  by pat_completeness auto
termination by (relation "measure (\<lambda>(ms, start). length ms - start)") auto

declare skip_open.simps [simp del]

definition block_end :: "msg list \<Rightarrow> nat \<Rightarrow> nat" where
  "block_end ms start = start + 1 + length (takeWhile (role_is ''tool'') (drop (start + 1) ms))"

definition find_safe_tail_start :: "msg list \<Rightarrow> int \<Rightarrow> nat" where
  "find_safe_tail_start ms proposed = (
     let n = length ms; start = skip_open ms (nat (max 0 (min proposed (int n)))) in
     if start < n then
       (if role_is ''assistant'' (ms ! start) \<and> truthy (jget (ms ! start) ''tool_calls'')
           \<and> start + 1 < block_end ms start
        then block_end ms start else start)
     else n)"

section \<open>Head, middle and tail by messages\<close>

definition split_system :: "msg list \<Rightarrow> msg list \<times> msg list" where
  "split_system ms = (filter (role_is ''system'') ms, filter (\<lambda>m. \<not> role_is ''system'' m) ms)"

text \<open>The loop over the reversed candidates: how many of them form the tail.\<close>

fun tail_count :: "nat \<Rightarrow> nat \<Rightarrow> nat \<Rightarrow> nat \<Rightarrow> msg list \<Rightarrow> nat" where
  "tail_count max_tail tok_budget k budget [] = k"
| "tail_count max_tail tok_budget k budget (m # ms) = (let b = budget + ulen (content_of m) div 4 in
     if max_tail \<le> k + 1 \<or> tok_budget \<le> b then k + 1 else tail_count max_tail tok_budget (k + 1) b ms)"

definition protected_indices :: "string list \<Rightarrow> msg list \<Rightarrow> nat list" where
  "protected_indices kws rest = filter (\<lambda>i.
     list_ex (\<lambda>kw. contains (lower kw) (lower (content_of (rest ! i)))) kws) [0..<length rest]"

definition split_head_tail :: "string list \<Rightarrow> nat \<Rightarrow> nat \<Rightarrow> nat \<Rightarrow> nat \<Rightarrow> msg list \<Rightarrow> msg list \<times> msg list \<times> msg list" where
  "split_head_tail kws head_count tail_budget max_tail min_tail ms = (
     let (system, rest) = split_system ms in
     if length rest \<le> head_count + min_tail then (system, [], rest)
     else
       let k = tail_count max_tail tail_budget 0 0 (rev (drop head_count rest));
           safe = find_safe_tail_start rest (int (length rest - k));
           inside = filter (\<lambda>i. head_count \<le> i \<and> i < safe) (protected_indices kws rest);
           middle_end = (if inside = [] then safe else Min (set inside))
       in (system,
           if head_count < middle_end then take (middle_end - head_count) (drop head_count rest) else [],
           take head_count rest @ drop middle_end rest))"

section \<open>Head, middle and tail by turns\<close>

definition summary_markers :: "string list" where
  "summary_markers = [''[CONTEXT COMPACTION'', ''[POST-COMPACT ANCHORS'']"

definition is_compaction_summary_message :: "msg \<Rightarrow> bool" where
  "is_compaction_summary_message m = (role_is ''user'' m \<and> list_ex (\<lambda>k. contains k (content_of m)) summary_markers)"

function group_turns :: "nat \<Rightarrow> msg list \<Rightarrow> (nat \<times> nat) list" where
  "group_turns i [] = []"
| "group_turns i (m # ms) = (
     if \<not> role_is ''user'' m \<or> is_compaction_summary_message m then group_turns (i + 1) ms
     else let k = length (takeWhile (\<lambda>x. \<not> role_is ''user'' x) ms)
       in (i, i + 1 + k) # group_turns (i + 1 + k) (drop k ms))"
  by pat_completeness auto
termination by (relation "measure (length \<circ> snd)") auto

definition group_messages_into_turns :: "msg list \<Rightarrow> (nat \<times> nat) list" where
  "group_messages_into_turns rest = group_turns 0 rest"

definition span_of :: "msg list \<Rightarrow> nat \<times> nat \<Rightarrow> msg list" where
  "span_of rest t = take (snd t - fst t) (drop (fst t) rest)"

definition split_turn_suffix :: "(msg list \<Rightarrow> int) \<Rightarrow> msg list \<Rightarrow> nat \<times> nat \<Rightarrow> int \<Rightarrow> (nat \<times> nat) option" where
  "split_turn_suffix estimate rest t budget =
     (if budget \<le> 0 \<or> snd t - fst t \<le> 1 then None
      else map_option (\<lambda>start. (start, snd t))
        (find (\<lambda>start. max 0 (estimate (span_of rest (start, snd t))) \<le> budget) [fst t + 1..<snd t]))"

fun keep_turns :: "(msg list \<Rightarrow> int) \<Rightarrow> bool \<Rightarrow> int \<Rightarrow> msg list \<Rightarrow> (nat \<times> nat) list \<Rightarrow> int \<Rightarrow> nat option \<Rightarrow> nat option" where
  "keep_turns estimate do_split budget rest [] volume keep_start = keep_start"
| "keep_turns estimate do_split budget rest (t # ts) volume keep_start = (
     let size_t = max 0 (estimate (span_of rest t)); remaining = budget - volume in
     if volume + size_t \<le> budget then keep_turns estimate do_split budget rest ts (volume + size_t) (Some (fst t))
     else if do_split \<and> 0 < remaining then
       (case split_turn_suffix estimate rest t remaining of
          Some s \<Rightarrow> Some (fst s)
        | None \<Rightarrow> if keep_start = None then Some (fst t) else keep_start)
     else if keep_start = None then Some (fst t) else keep_start)"

definition select_tail_start_index :: "(msg list \<Rightarrow> int) \<Rightarrow> nat \<Rightarrow> bool \<Rightarrow> int \<Rightarrow> msg list \<Rightarrow> nat" where
  "select_tail_start_index estimate turn_limit do_split budget rest = (
     let turns = group_messages_into_turns rest in
     if turn_limit = 0 \<or> rest = [] \<or> turns = [] then 0
     else (case keep_turns estimate do_split budget rest (rev (last_n turn_limit turns)) 0 None of
         Some k \<Rightarrow> k | None \<Rightarrow> 0))"

definition split_head_tail_turns :: "(msg list \<Rightarrow> int) \<Rightarrow> nat \<Rightarrow> bool \<Rightarrow> int \<Rightarrow> nat \<Rightarrow> nat \<Rightarrow> msg list
    \<Rightarrow> msg list \<times> msg list \<times> msg list" where
  "split_head_tail_turns estimate turn_limit do_split budget head_count min_tail ms = (
     let (system, rest) = split_system ms in
     if length rest \<le> head_count + min_tail then (system, [], rest)
     else
       let head = take head_count rest; body = drop head_count rest;
           start = select_tail_start_index estimate turn_limit do_split budget body
       in if start = 0 then (system, [], head @ body)
          else let cut = find_safe_tail_start body (int start)
            in (system, take cut body, head @ drop cut body))"

definition find_overflow_replay_user :: "msg list \<Rightarrow> msg option" where
  "find_overflow_replay_user ms = find (\<lambda>m. role_is ''user'' m \<and> \<not> is_compaction_summary_message m
     \<and> strip (content_of m) \<noteq> []) (rev ms)"

definition user_text :: "string \<Rightarrow> msg" where
  "user_text c = [(''role'', JStr ''user''), (''content'', JStr c)]"

definition append_overflow_replay :: "msg list \<Rightarrow> msg option \<Rightarrow> msg list" where
  "append_overflow_replay compressed replay = (case replay of
       None \<Rightarrow> compressed
     | Some r \<Rightarrow> let content = strip (content_of r) in
         if r = [] \<or> content = [] \<or> list_ex (\<lambda>m. role_is ''user'' m \<and> contains ''[OVERFLOW REPLAY'' (content_of m)) compressed
         then compressed
         else compressed @ [user_text (
           if list_ex (\<lambda>m. role_is ''user'' m \<and> strip (content_of m) = content) compressed
           then (''[OVERFLOW REPLAY '' @ bytes [226, 128, 148] @ '' continue the latest user task above]'')
           else (''[OVERFLOW REPLAY '' @ bytes [226, 128, 148] @ '' resume from this task]'' @ bytes [10, 10]) @ content)])"

end
