(* ===== verification/Compress.thy ===== *)
theory Compress
  imports Compaction
begin

text \<open>
  \<open>compress_messages\<close> and its steps: \<open>core/skill_compact_rescue.py\<close>,
  \<open>core/evidence_extract.py\<close>, \<open>core/compaction_phase.py\<close>, \<open>core/context_compress_hooks.py\<close>,
  \<open>core/context_compress_pipeline.py\<close> and the summary of \<open>core/context_compressor.py\<close>.
  The services are parameters in \<open>compress_env\<close>: the remote summariser, the auxiliary model (which
  receives the transcript and the previous summary inside a fixed prompt), the parser of JSON, the
  token estimate, and the character classes of Python's Unicode tables beyond ASCII.
  \<open>safe_best_effort\<close> turns an exception of a step into its default; telemetry, transcript
  events, diagnostics and the extraction of facts, which change no message, are left out.
\<close>

record compress_env =
  ce_env :: os_env
  ce_loads :: "string \<Rightarrow> jval option"
  ce_estimate :: "msg list \<Rightarrow> int"                 \<comment> \<open>\<open>_estimate_tokens\<close>\<close>
  ce_preserve_budget :: int                         \<comment> \<open>\<open>preserve_recent_token_budget(...)\<close>\<close>
  ce_prune :: prune_settings
  ce_remote :: "msg list \<Rightarrow> string \<Rightarrow> string option"
  ce_aux :: "string \<Rightarrow> string \<Rightarrow> string option"
  ce_word :: "string \<Rightarrow> bool"                       \<comment> \<open>a character beyond ASCII matches \<open>\\w\<close>\<close>
  ce_digit :: "string \<Rightarrow> bool"                      \<comment> \<open>a character beyond ASCII matches \<open>\\d\<close>\<close>

section \<open>Characters\<close>

definition ascii_code :: "string \<Rightarrow> nat option" where
  "ascii_code u = (case u of [c] \<Rightarrow> if (of_char c :: nat) < 128 then Some (of_char c) else None | _ \<Rightarrow> None)"

definition digit_unit :: "compress_env \<Rightarrow> string \<Rightarrow> bool" where
  "digit_unit ce u = (case ascii_code u of Some n \<Rightarrow> 48 \<le> n \<and> n \<le> 57 | None \<Rightarrow> ce_digit ce u)"

definition word_unit :: "compress_env \<Rightarrow> string \<Rightarrow> bool" where
  "word_unit ce u = (case ascii_code u of
       Some n \<Rightarrow> 48 \<le> n \<and> n \<le> 57 \<or> 65 \<le> n \<and> n \<le> 90 \<or> n = 95 \<or> 97 \<le> n \<and> n \<le> 122
     | None \<Rightarrow> ce_word ce u)"

definition upper_char :: "char \<Rightarrow> char" where
  "upper_char c = (let n = (of_char c :: nat) in if 97 \<le> n \<and> n \<le> 122 then char_of (n - 32) else c)"

section \<open>Evidence lines\<close>

definition score_keywords :: "string list" where
  "score_keywords = [(bytes [229, 134, 179, 229, 174, 154]), (bytes [228, 191, 174, 229, 164, 141]), (bytes [229, 174, 140, 230, 136, 144]), (bytes [233, 148, 153, 232, 175, 175]), ''failed'', ''pytest'', ''TODO'', (bytes [229, 155, 160, 228, 184, 186]), (bytes [229, 155, 160, 230, 173, 164]),
     ''verify'', ''assert'']"

definition sentence_ends :: "string list" where
  "sentence_ends = [(bytes [227, 128, 130]), (bytes [239, 188, 129]), (bytes [239, 188, 159]), ''.'', ''!'', ''?'']"

text \<open>\<open>re.compile(r"(?<=[\<dots>])\s+|\n+").split\<close>: the piece read so far and the character before.\<close>

function sent_split :: "string \<Rightarrow> string list \<Rightarrow> string \<Rightarrow> string list" where
  "sent_split prev [] cur = [cur]"
| "sent_split prev (u # us) cur = (
     if prev \<in> set sentence_ends \<and> is_ws u then cur # sent_split '' '' (dropWhile is_ws us) []
     else if u = nl then cur # sent_split nl (dropWhile (\<lambda>x. x = nl) us) []
     else sent_split u us (cur @ u))"
  by pat_completeness auto
termination
  by (relation "measure (\<lambda>(prev, us, cur). length us)") (auto simp: le_imp_less_Suc length_dropWhile_le)

definition split_sentences :: "string \<Rightarrow> string list" where
  "split_sentences text' = filter (\<lambda>c. c \<noteq> []) (map strip (sent_split [] (cps (strip text')) []))"

definition path_exts :: "string list" where
  "path_exts = [''py'', ''md'', ''json'', ''yaml'', ''yml'', ''sh'']"

text \<open>\<open>[\w./\\-]+\.(py|md|json|yaml|yml|sh)\b\<close>, searched: a dot after one character of the class.\<close>

definition ext_follows :: "compress_env \<Rightarrow> string list \<Rightarrow> string \<Rightarrow> bool" where
  "ext_follows ce us ext = (if prefix ext (lower (concat us))
     then (let after = drop (length ext) us in after = [] \<or> \<not> word_unit ce (hd after)) else False)"

fun path_hint :: "compress_env \<Rightarrow> string \<Rightarrow> string list \<Rightarrow> bool" where
  "path_hint ce prev [] = False"
| "path_hint ce prev (u # us) = (
     if u \<noteq> ''.'' \<or> prev = [] then path_hint ce u us
     else if (word_unit ce prev \<or> prev \<in> {''.'', ''/'', bytes [92], ''-''}) \<and> list_ex (ext_follows ce us) path_exts
       then True else path_hint ce u us)"

definition content_to_text :: "jval \<Rightarrow> string" where
  "content_to_text content = (case content of
       JStr s \<Rightarrow> s
     | JList bs \<Rightarrow> join nl (concat (map (\<lambda>b. case b of
           JObj d \<Rightarrow> if jget d ''type'' = JStr ''text'' then [str_field d ''text'' ''''] else []
         | _ \<Rightarrow> []) bs))
     | v \<Rightarrow> pystr (jor v (JStr [])))"

definition keyword_hit :: "string \<Rightarrow> string \<Rightarrow> bool" where
  "keyword_hit sent kw = (contains kw sent \<or> contains kw (lower sent))"

definition sentence_score :: "compress_env \<Rightarrow> string \<Rightarrow> string \<Rightarrow> nat" where
  "sentence_score ce role sent = (
     (if role = ''tool'' then 3 else if role = ''assistant'' then 1 else 0)
     + 2 * length (filter (keyword_hit sent) score_keywords)
     + (if path_hint ce [] (cps sent) then 2 else 0)
     + (if list_ex (digit_unit ce) (cps sent) then 1 else 0))"

definition evidence_candidates :: "compress_env \<Rightarrow> msg list \<Rightarrow> (nat \<times> string) list" where
  "evidence_candidates ce middle = concat (map (\<lambda>m.
     map (\<lambda>sent. (sentence_score ce (str_field m ''role'' '''') sent, utake 280 sent))
       (filter (\<lambda>sent. 12 \<le> ulen sent) (split_sentences (content_to_text (jget m ''content''))))) middle)"

text \<open>A stable sort by descending score, then by descending length.\<close>

definition sort_candidates :: "(nat \<times> string) list \<Rightarrow> (nat \<times> string) list" where
  "sort_candidates cs = sort_key (\<lambda>(s, l). - int s) (sort_key (\<lambda>(s, l). - int (ulen l)) cs)"

fun pick_lines :: "nat \<Rightarrow> string list \<Rightarrow> string list \<Rightarrow> (nat \<times> string) list \<Rightarrow> string list" where
  "pick_lines max_lines seen out [] = out"
| "pick_lines max_lines seen out ((score, line) # cs) = (let key = lower (utake 60 line) in
     if score < 2 \<or> key \<in> set seen then pick_lines max_lines seen out cs
     else if max_lines \<le> length out + 1 then out @ [line]
     else pick_lines max_lines (key # seen) (out @ [line]) cs)"

definition compact_evidence_lines_enabled :: "os_env \<Rightarrow> nat" where
  "compact_evidence_lines_enabled env = nat (min 8 (int_env env ''BUTLER_COMPACT_EVIDENCE_LINES'' 3 0))"

definition extract_compact_evidence :: "compress_env \<Rightarrow> msg list \<Rightarrow> string list" where
  "extract_compact_evidence ce middle = (let max_lines = compact_evidence_lines_enabled (ce_env ce) in
     if max_lines = 0 \<or> middle = [] then []
     else pick_lines max_lines [] [] (sort_candidates (evidence_candidates ce middle)))"

definition format_evidence_block :: "string list \<Rightarrow> string" where
  "format_evidence_block ls = (if ls = [] then []
     else ''## Compact evidence (auto-extracted)'' @ nl @ join nl (map (\<lambda>l. ''- '' @ l) ls) @ nl @ nl)"

definition append_evidence_to_summary :: "compress_env \<Rightarrow> string \<Rightarrow> msg list \<Rightarrow> string" where
  "append_evidence_to_summary ce summary middle = (
     let block = format_evidence_block (extract_compact_evidence ce middle)
     in if block = [] then summary else block @ summary)"

section \<open>The summary\<close>

definition summary_line :: "msg \<Rightarrow> string" where
  "summary_line m = (
     let role = map upper_char (case dget m ''role'' of Some v \<Rightarrow> pystr v | None \<Rightarrow> []);
         content = utake 600 (content_of m);
         shown = (if content = [] \<and> truthy (jget m ''tool_calls'')
           then ''[tool_calls: '' @ str_of_nat (length (tool_calls m)) @ '']'' else content)
     in ''['' @ role @ '']: '' @ shown)"

fun summary_parts :: "nat \<Rightarrow> nat \<Rightarrow> msg list \<Rightarrow> string list" where
  "summary_parts max_chars volume [] = []"
| "summary_parts max_chars volume (m # ms) = (let line = summary_line m in
     if max_chars < volume + ulen line then [] else line # summary_parts max_chars (volume + ulen line) ms)"

definition format_for_summary :: "msg list \<Rightarrow> string" where
  "format_for_summary ms = join (nl @ nl) (summary_parts 12000 0 ms)"

definition summarize_middle :: "compress_env \<Rightarrow> msg list \<Rightarrow> string \<Rightarrow> string" where
  "summarize_middle ce middle previous = (let transcript = format_for_summary middle in
     if ulen transcript < 100 then previous
     else case ce_remote ce middle previous of
       Some r \<Rightarrow> if strip r \<noteq> [] then strip r
         else (case ce_aux ce transcript previous of Some t \<Rightarrow> t | None \<Rightarrow> [])
     | None \<Rightarrow> (case ce_aux ce transcript previous of Some t \<Rightarrow> t | None \<Rightarrow> []))"

definition compress_tool_response_budget_tokens :: "os_env \<Rightarrow> nat" where
  "compress_tool_response_budget_tokens env = nat (max 5000 (int_env env ''BUTLER_COMPRESS_TOOL_RESPONSE_BUDGET'' 50000 0))"

definition trimmed_response :: "string \<Rightarrow> string" where
  "trimmed_response content = (let ls = splitlines content;
       tail = (if 30 < length ls then join nl (last_n 30 ls) else utake 4000 content)
     in utake 8000 tail @ nl @ nl @ ''<tool-result-truncated> (pre-compact budget; was ~''
          @ str_of_nat (est_tokens content * 4) @ '' chars)'' @ nl)"

fun truncate_loop :: "nat \<Rightarrow> msg list \<Rightarrow> msg list" where
  "truncate_loop remaining [] = []"
| "truncate_loop remaining (m # ms) = (
     if \<not> role_is ''tool'' m then m # truncate_loop remaining ms
     else let est = est_tokens (content_of m) in
       if 0 < remaining \<and> est \<le> remaining then m # truncate_loop (remaining - est) ms
       else with_content (trimmed_response (content_of m)) m # truncate_loop remaining ms)"

definition truncate_tool_responses_to_budget :: "os_env \<Rightarrow> msg list \<Rightarrow> msg list" where
  "truncate_tool_responses_to_budget env ms = (
     let raw = lower (strip (case env ''BUTLER_COMPRESS_TOOL_RESPONSE_BUDGET'' of Some v \<Rightarrow> v | None \<Rightarrow> ''50000''));
         budget = compress_tool_response_budget_tokens env;
         volume = sum_list (map (\<lambda>m. ulen (content_of m) div 4) (filter (role_is ''tool'') ms))
     in if raw \<in> {''0'', ''false'', ''no'', ''off''} \<or> volume \<le> budget then ms else truncate_loop budget ms)"

section \<open>Rescue of skill readings\<close>

definition skill_path_markers :: "string list" where
  "skill_path_markers = [''/skills/'', ''.butler/skills'', ''skills/'']"

definition slashes :: "string \<Rightarrow> string" where
  "slashes p = map (\<lambda>c. if [c] = bytes [92] then CHR ''/'' else c) p"

text \<open>One call; \<open>None\<close> where \<open>get\<close> is called on what is not a dictionary.\<close>

definition skill_call :: "compress_env \<Rightarrow> msg \<Rightarrow> bool option" where
  "skill_call ce tc = (let f = jget tc ''function'' in
     if truthy f \<and> \<not> is_dict f then None
     else let fn = function_of tc; name = str_field fn ''name'' '''' in
       if name \<in> {''skill_view'', ''skills_list''} then Some True
       else if name = ''read_file'' then
         (case ce_loads ce (str_field fn ''arguments'' ''{}'') of
            None \<Rightarrow> Some False
          | Some (JObj args) \<Rightarrow> Some (list_ex (\<lambda>k. contains k (slashes (str_field2 args ''path'' ''file'' ''''))) skill_path_markers)
          | Some v \<Rightarrow> None)
       else Some False)"

fun any_skill_call :: "compress_env \<Rightarrow> msg list \<Rightarrow> bool option" where
  "any_skill_call ce [] = Some False"
| "any_skill_call ce (c # cs) = (case skill_call ce c of
       None \<Rightarrow> None | Some True \<Rightarrow> Some True | Some False \<Rightarrow> any_skill_call ce cs)"

definition assistant_skill_call :: "compress_env \<Rightarrow> msg \<Rightarrow> bool option" where
  "assistant_skill_call ce m = (if role_is ''assistant'' m then any_skill_call ce (call_dicts m) else Some False)"

definition tool_at :: "msg list \<Rightarrow> nat \<Rightarrow> bool" where
  "tool_at ms j = role_is ''tool'' (ms ! j)"

definition skill_pair :: "compress_env \<Rightarrow> msg list \<Rightarrow> nat \<Rightarrow> nat list" where
  "skill_pair ce ms i = (if assistant_skill_call ce (ms ! i) = Some True
     then i # (case find (tool_at ms) [i + 1..<min (i + 4) (length ms)] of Some j \<Rightarrow> [j] | None \<Rightarrow> [])
     else [])"

definition skill_indices :: "compress_env \<Rightarrow> msg list \<Rightarrow> nat list" where
  "skill_indices ce ms = concat (map (skill_pair ce ms) [0..<length ms])"

definition bad_call_name :: "msg \<Rightarrow> bool" where
  "bad_call_name tc = (str_field tc ''id'' '''' \<noteq> [] \<and> truthy (jget tc ''function'') \<and> \<not> is_dict (jget tc ''function''))"

definition rescue_raises :: "compress_env \<Rightarrow> msg \<Rightarrow> bool" where
  "rescue_raises ce m = (role_is ''assistant'' m \<and> list_ex bad_call_name (call_dicts m) \<or> assistant_skill_call ce m = None)"

definition extract_skill_rescue_messages :: "compress_env \<Rightarrow> msg list \<Rightarrow> (msg list \<times> msg list) option" where
  "extract_skill_rescue_messages ce ms = (
     if \<not> env_truthy (ce_env ce) ''BUTLER_COMPACT_SKILL_PRESERVE'' True then Some (ms, [])
     else if list_ex (rescue_raises ce) ms then None
     else let idxs = skill_indices ce ms in
       if idxs = [] then Some (ms, [])
       else let start = Min (set (last_n 10 idxs)) in Some (take start ms, drop start ms))"

definition rescue_marker :: msg where
  "rescue_marker = user_text (''['' @ bytes [231, 179, 187, 231, 187, 159, 230, 143, 144, 231, 164, 186] @ ''] '' @ bytes [228, 187, 165, 228, 184, 139, 228, 184, 186, 229, 142, 139, 231, 188, 169, 230, 151, 182, 228, 191, 157, 231, 149, 153, 231, 154, 132, 230, 156, 128, 232, 191, 145] @ '' Skill '' @ bytes [232, 175, 187, 229, 143, 150, 228, 184, 138, 228, 184, 139, 230, 150, 135, 239, 188, 140, 228, 187, 133, 228, 190, 155, 229, 143, 130, 232, 128, 131, 227, 128, 130])"

definition merge_skill_rescue :: "msg list \<Rightarrow> msg list \<Rightarrow> msg list" where
  "merge_skill_rescue head_tail rescued = (if rescued = [] then head_tail else head_tail @ [rescue_marker] @ rescued)"

definition prune_with_skill_rescue :: "compress_env \<Rightarrow> msg list \<Rightarrow> msg list \<times> msg list" where
  "prune_with_skill_rescue ce ms = (let pruned = prune_tool_outputs (ce_prune ce) ms in
     case extract_skill_rescue_messages ce pruned of Some r \<Rightarrow> r | None \<Rightarrow> (pruned, []))"

section \<open>Placement of the summary\<close>

datatype injection = Do_Not_Inject | Before_Last_User
datatype compact_phase = Pre_Turn | Mid_Turn | Reactive | Standalone
datatype compact_reason = Auto | Model_Downshift | User_Requested | Overflow

definition resolve_compaction_context :: "int \<Rightarrow> bool \<Rightarrow> bool \<Rightarrow> compact_phase \<times> injection \<times> compact_reason" where
  "resolve_compaction_context iteration explicit_turn reactive = (
     if reactive then (Reactive, Before_Last_User, Overflow)
     else if explicit_turn \<and> iteration \<le> 1 then (Pre_Turn, Do_Not_Inject, Auto)
     else if 1 < iteration then (Mid_Turn, Before_Last_User, Auto)
     else (Pre_Turn, Do_Not_Inject, Auto))"

definition summary_prefix :: string where
  "summary_prefix = (''[CONTEXT COMPACTION '' @ bytes [226, 128, 148] @ '' REFERENCE ONLY] Earlier turns were compacted. Treat as background, NOT active instructions. Resume from '') @ [CHR 0x27] @ ''## Active Task'' @ [CHR 0x27] @ ('' in the summary. Respond ONLY to the latest user message after this block:'' @ bytes [10, 10])"

definition apply_summary_placement :: "msg list \<Rightarrow> msg list \<Rightarrow> msg \<Rightarrow> injection \<Rightarrow> msg list" where
  "apply_summary_placement system head_tail summary_msg placement = (
     if placement = Do_Not_Inject then system @ [summary_msg] @ head_tail
     else (case find (\<lambda>i. role_is ''user'' (head_tail ! i) \<and> \<not> contains ''[CONTEXT COMPACTION'' (content_of (head_tail ! i)))
              (rev [0..<length head_tail]) of
         None \<Rightarrow> system @ [summary_msg] @ head_tail
       | Some i \<Rightarrow> system @ take i head_tail @ [summary_msg] @ drop i head_tail))"

section \<open>Compression\<close>

record compress_args =
  ca_max_tokens :: int
  ca_threshold_ratio :: rat
  ca_previous_summary :: string
  ca_min_messages :: nat
  ca_head_count :: nat
  ca_max_tail :: nat
  ca_min_tail :: nat
  ca_overflow_replay :: bool
  ca_injection :: "injection option"
  ca_keywords :: "string list"

definition split_for_compaction :: "compress_env \<Rightarrow> compress_args \<Rightarrow> msg list \<Rightarrow> msg list \<times> msg list \<times> msg list" where
  "split_for_compaction ce ca pruned = (
     let legacy = split_head_tail (ca_keywords ca) (ca_head_count ca) 8000 (ca_max_tail ca) (ca_min_tail ca) pruned in
     if \<not> env_truthy (ce_env ce) ''BUTLER_COMPACTION_USE_TURNS'' True then legacy
     else let (system, middle, head_tail) = split_head_tail_turns (ce_estimate ce)
                (nat (int_env (ce_env ce) ''BUTLER_COMPACTION_TAIL_TURNS'' 2 0))
                (env_truthy (ce_env ce) ''BUTLER_COMPACTION_SPLIT_TURN'' True)
                (ce_preserve_budget ce) (ca_head_count ca) (ca_min_tail ca) pruned
       in if middle = [] \<and> fst (snd legacy) \<noteq> [] then legacy else (system, middle, head_tail))"

definition run_compress_messages :: "compress_env \<Rightarrow> compress_args \<Rightarrow> msg list \<Rightarrow> msg list \<times> string \<times> bool" where
  "run_compress_messages ce ca ms = (
     if ce_estimate ce ms \<le> \<lfloor>of_int (ca_max_tokens ca) * ca_threshold_ratio ca\<rfloor> \<or> length ms < ca_min_messages ca
     then (ms, ca_previous_summary ca, False)
     else
       let (pruned, rescued) = prune_with_skill_rescue ce ms;
           replay_user = (if ca_overflow_replay ca then find_overflow_replay_user pruned else None);
           (system, middle, head_tail) = split_for_compaction ce ca pruned
       in if middle = [] then
            (if rescued \<noteq> [] then system @ merge_skill_rescue head_tail rescued else pruned, ca_previous_summary ca, False)
          else
            let middle' = truncate_tool_responses_to_budget (ce_env ce) middle;
                summary = append_evidence_to_summary ce (summarize_middle ce middle' (ca_previous_summary ca)) middle'
            in if strip summary = [] then
                 (system @ merge_skill_rescue head_tail rescued @ middle', ca_previous_summary ca, False)
               else
                 let placement = (case ca_injection ca of Some i \<Rightarrow> i | None \<Rightarrow> Do_Not_Inject);
                     placed = apply_summary_placement system head_tail (user_text (summary_prefix @ summary)) placement;
                     compressed = (if rescued = [] then placed
                       else filter (role_is ''system'') placed
                            @ merge_skill_rescue (filter (\<lambda>m. \<not> role_is ''system'' m) placed) rescued)
                 in (if ca_overflow_replay ca then append_overflow_replay compressed replay_user else compressed, summary, True))"

text \<open>\<open>re.findall(r"[\w\u4e00-\u9fff]{3,}", content)[:10]\<close> of the latest user message.\<close>

definition keyword_unit :: "compress_env \<Rightarrow> string \<Rightarrow> bool" where
  "keyword_unit ce u = (word_unit ce u \<or>
     (length u = 3 \<and> (let b = map of_char u :: nat list in [228, 184, 128] \<le> b \<and> b \<le> [233, 191, 191])))"

function word_runs :: "compress_env \<Rightarrow> string list \<Rightarrow> string list list" where
  "word_runs ce [] = []"
| "word_runs ce (u # us) = (if keyword_unit ce u
     then (u # takeWhile (keyword_unit ce) us) # word_runs ce (dropWhile (keyword_unit ce) us)
     else word_runs ce us)"
  by pat_completeness auto
termination by (relation "measure (length \<circ> snd)") (auto simp: le_imp_less_Suc length_dropWhile_le)

definition extract_keywords_from_latest_user :: "compress_env \<Rightarrow> msg list \<Rightarrow> string list" where
  "extract_keywords_from_latest_user ce ms = (case find (role_is ''user'') (rev ms) of
       None \<Rightarrow> []
     | Some m \<Rightarrow> take 10 (map concat (filter (\<lambda>r. 3 \<le> length r) (word_runs ce (cps (content_of m))))))"

definition compress_messages :: "compress_env \<Rightarrow> compress_args \<Rightarrow> string list option \<Rightarrow> msg list \<Rightarrow> msg list \<times> string \<times> bool" where
  "compress_messages ce ca kws ms = run_compress_messages ce
     (ca\<lparr>ca_keywords := (case kws of Some k \<Rightarrow> k | None \<Rightarrow> extract_keywords_from_latest_user ce ms)\<rparr>) ms"

end
