(* ===== verification/Compaction_Props.thy ===== *)
theory Compaction_Props
  imports Compress Message_Repair_Props
begin

text \<open>
  What compaction keeps: pruning changes nothing but the contents of tool results, the boundary cuts
  a settled history into two settled ones, the split loses no message; and where the steps around it
  break what they set out to keep.
\<close>

abbreviation hist :: "msg list \<Rightarrow> jval list" where
  "hist ms \<equiv> map JObj ms"

section \<open>Pruning keeps the shape\<close>

definition same_but_content :: "msg \<Rightarrow> msg \<Rightarrow> bool" where
  "same_but_content m m' \<longleftrightarrow> m' = m \<or> (role_is ''tool'' m \<and> (\<exists>c. m' = with_content c m))"

lemma role_has [simp]: "has_role r (JObj m) \<longleftrightarrow> role_is r m"
  by (simp add: has_role_def role_is_def)

lemma with_content_keeps [simp]:
  "role_is r (with_content c m) = role_is r m"
  "valid_message (JObj (with_content c m)) = valid_message (JObj m)"
  "result_text (JObj (with_content c m)) = result_text (JObj m)"
  by (simp_all add: role_is_def with_content_def valid_message_def result_text_def fields_def)

lemma settled_content: "list_all2 same_but_content ms ms' \<Longrightarrow> settled strict p (hist ms) \<Longrightarrow> settled strict p (hist ms')"
proof (induction ms ms' arbitrary: p rule: list_all2_induct)
  case (Cons m ms m' ms')
  show ?case
  proof (cases "m' = m")
    case True
    then show ?thesis using Cons by auto
  next
    case False
    then obtain c where "role_is ''tool'' m" "m' = with_content c m"
      using Cons.hyps(1) by (auto simp: same_but_content_def)
    then show ?thesis using Cons by auto
  qed
qed simp

lemma list_all2_enumerate:
  "(\<And>i m. i < length ms \<Longrightarrow> m = ms ! i \<Longrightarrow> R m (f (i, m))) \<Longrightarrow> list_all2 R ms (map f (enumerate 0 ms))"
  by (simp add: list_all2_conv_all_nth nth_enumerate_eq)

lemma prune_shape: "list_all2 same_but_content ms (prune_tool_outputs ts ms)"
  unfolding prune_tool_outputs_def Let_def
  by (rule list_all2_enumerate) (auto simp: same_but_content_def Let_def)

lemma back_loop_tools:
  "j \<in> set (snd (back_loop protect ms is volume pruned to_clear turns)) \<Longrightarrow> j \<in> set to_clear \<or> role_is ''tool'' (ms ! j)"
proof (induction "is" arbitrary: volume pruned to_clear turns)
  case (Cons i "is")
  from Cons.prems show ?case
    by (auto simp: Let_def split: if_splits dest!: Cons.IH)
qed simp

lemma extra_loop_sub: "set (snd (extra_loop least ms to_clear is pruned extra)) \<subseteq> set extra \<union> set is"
proof (induction "is" arbitrary: pruned extra)
  case (Cons i "is")
  show ?case using Cons.IH [of pruned extra] Cons.IH [of "pruned + est_tokens (content_of (ms ! i))" "extra @ [i]"]
    by (auto simp: Let_def)
qed simp

lemma tool_indices: "i \<in> set (tool_message_indices ms) \<Longrightarrow> role_is ''tool'' (ms ! i)"
  by (simp add: tool_message_indices_def)

lemma backward_shape: "list_all2 same_but_content ms (backward_prune_tool_outputs ts ms)"
proof -
  let ?b = "back_loop (ts_backward_protect ts) ms (rev [0..<length ms]) 0 0 [] 0"
  let ?e = "if fst ?b < ts_backward_minimum ts \<and> snd ?b \<noteq> []
    then extra_loop (ts_backward_minimum ts) ms (snd ?b) (tool_message_indices ms) (fst ?b) [] else (fst ?b, [])"
  have tools: "role_is ''tool'' (ms ! i)" if "i \<in> set (snd ?b @ snd ?e)" for i
  proof -
    have "i \<in> set (snd ?b) \<Longrightarrow> role_is ''tool'' (ms ! i)" using back_loop_tools by fastforce
    moreover have "set (snd ?e) \<subseteq> set (tool_message_indices ms)"
      using extra_loop_sub [of "ts_backward_minimum ts" ms "snd ?b" "tool_message_indices ms" "fst ?b" "[]"] by auto
    ultimately show ?thesis using that tool_indices [of i ms] by auto
  qed
  let ?clear = "map (clear_one (snd ?b @ snd ?e)) (enumerate 0 ms)"
  have refl: "list_all2 same_but_content ms ms" by (simp add: list_all2_conv_all_nth same_but_content_def)
  have "list_all2 same_but_content ms ?clear"
    by (rule list_all2_enumerate) (use tools in \<open>auto simp: same_but_content_def\<close>)
  moreover have "backward_prune_tool_outputs ts ms = ms \<or> backward_prune_tool_outputs ts ms = ?clear"
    unfolding backward_prune_tool_outputs_def Let_def split_beta by auto
  ultimately show ?thesis using refl by (metis (no_types, lifting))
qed

lemma same_but_content_trans:
  "same_but_content a b \<Longrightarrow> same_but_content b c \<Longrightarrow> same_but_content a c"
proof -
  have "with_content x (with_content y m) = with_content x m" for x y m
    unfolding with_content_def by (induction m) auto
  then show "same_but_content a b \<Longrightarrow> same_but_content b c \<Longrightarrow> same_but_content a c"
    by (auto simp: same_but_content_def)
qed

lemma pipeline_shape: "list_all2 same_but_content ms (apply_tool_prune_pipeline ts ms)"
  unfolding apply_tool_prune_pipeline_def
  by (rule list_all2_trans [OF _ prune_shape backward_shape]) (rule same_but_content_trans)

section \<open>The boundary\<close>

lemma skip_open_bounds: "start \<le> length ms \<Longrightarrow> start \<le> skip_open ms start \<and> skip_open ms start \<le> length ms"
proof (induction ms start rule: skip_open.induct)
  case (1 ms start)
  then show ?case by (subst (1 2) skip_open.simps) (auto simp: Suc_le_eq)
qed

lemma skip_open_closed: "skip_open ms start < length ms \<Longrightarrow> prefix_tool_pairs_closed ms (skip_open ms start)"
proof (induction ms start rule: skip_open.induct)
  case (1 ms start)
  then show ?case by (metis skip_open.simps)
qed

lemma block_end_le: "start < length ms \<Longrightarrow> block_end ms start \<le> length ms"
  using length_takeWhile_le [of "role_is ''tool''" "drop (start + 1) ms"] by (simp add: block_end_def)

lemma block_end_stops: "block_end ms start < length ms \<Longrightarrow> \<not> role_is ''tool'' (ms ! block_end ms start)"
proof -
  let ?l = "drop (start + 1) ms" and ?k = "length (takeWhile (role_is ''tool'') (drop (start + 1) ms))"
  assume "block_end ms start < length ms"
  then have "?k < length ?l" by (simp add: block_end_def)
  from nth_length_takeWhile [OF this] show ?thesis
    using \<open>block_end ms start < length ms\<close> by (simp add: block_end_def)
qed

lemma safe_tail_bounds:
  "nat (max 0 (min p (int (length ms)))) \<le> find_safe_tail_start ms p \<and> find_safe_tail_start ms p \<le> length ms"
proof -
  let ?s = "nat (max 0 (min p (int (length ms))))"
  have "?s \<le> length ms" by simp
  from skip_open_bounds [OF this] block_end_le [of "skip_open ms ?s" ms] show ?thesis
    by (auto simp: find_safe_tail_start_def Let_def)
qed

text \<open>In a settled history the open identifiers of a prefix are the results still to come.\<close>

lemma open_ids_Cons: "open_ids p (m # ms) = open_ids (open_ids p [m]) ms"
  by simp

lemma open_ids_tool:
  assumes "role_is ''tool'' m" "result_text (JObj m) \<in> set p" "distinct p" "\<forall>s\<in>set p. s \<noteq> [] \<and> strip s = s"
  shows "open_ids p [m] = remove1 (result_text (JObj m)) p"
proof -
  let ?i = "result_text (JObj m)"
  have i: "?i \<noteq> []" "strip ?i = ?i" using assms(2,4) by blast+
  then have "call_ref m = ?i"
    by (cases "jget m ''tool_call_id''") (auto simp: call_ref_def result_text_def fields_def str_field_JStr)
  then show ?thesis using assms(1,3) i(2) by (simp add: role_is_def distinct_remove1_removeAll)
qed

lemma stripped_ids:
  "list_all trimmed_text (filter truthy (map (\<lambda>c. jget c ''id'') cs)) \<Longrightarrow>
   filter (\<lambda>t. t \<noteq> []) (map (\<lambda>c. strip (str_field c ''id'' '''')) cs)
     = map pystr (filter truthy (map (\<lambda>c. jget c ''id'') cs))"
proof (induction cs)
  case (Cons c cs)
  show ?case
  proof (cases "truthy (jget c ''id'')")
    case True
    then have "trimmed_text (jget c ''id'')" using Cons.prems by simp
    from pystr_trimmed [OF this] True Cons show ?thesis by (auto simp: str_field_def jor_def)
  next
    case False
    with Cons show ?thesis by (simp add: str_field_def jor_def)
  qed
qed simp

lemma open_ids_other:
  assumes "\<not> role_is ''tool'' m" "plain_calls (JObj m)"
  shows "open_ids [] [m] = text_ids (JObj m)"
proof (cases "role_is ''assistant'' m")
  case True
  then show ?thesis using assms stripped_ids [of "call_dicts m"]
    by (simp add: text_ids_def plain_calls_def call_id_list_def call_ids_def)
qed (use assms(1) in \<open>simp add: text_ids_def call_id_list_def\<close>)

lemma settled_cut:
  "settled True p (hist ms) \<Longrightarrow> distinct p \<Longrightarrow> \<forall>s\<in>set p. s \<noteq> [] \<and> strip s = s \<Longrightarrow> k \<le> length ms \<Longrightarrow>
   settled True (open_ids p (take k ms)) (hist (drop k ms))
   \<and> (open_ids p (take k ms) = [] \<longrightarrow> settled True p (hist (take k ms)))"
proof (induction ms arbitrary: p k)
  case (Cons m ms)
  show ?case
  proof (cases k)
    case (Suc j)
    have j: "j \<le> length ms" using Cons.prems(4) Suc by simp
    have v: "valid_message (JObj m)" using Cons.prems(1) by simp
    show ?thesis
    proof (cases "role_is ''tool'' m")
      case True
      let ?i = "result_text (JObj m)"
      have i: "?i \<in> set p" "?i \<noteq> []" "settled True (remove1 ?i p) (hist ms)" using Cons.prems(1) True by simp_all
      have "distinct (remove1 ?i p)" "\<forall>s\<in>set (remove1 ?i p). s \<noteq> [] \<and> strip s = s"
        using Cons.prems(2,3) set_remove1_subset [of ?i p] by auto
      note IH = Cons.IH [OF i(3) this j]
      have o: "open_ids p (take k (m # ms)) = open_ids (remove1 ?i p) (take j ms)"
        unfolding Suc take_Suc_Cons open_ids_Cons [of p m "take j ms"] open_ids_tool [OF True i(1) Cons.prems(2,3)] ..
      show ?thesis unfolding o using IH Suc True i v by simp
    next
      case False
      then have q: "p = []" "plain_calls (JObj m)" "settled True (text_ids (JObj m)) (hist ms)"
        using Cons.prems(1) by simp_all
      note IH = Cons.IH [OF q(3) plain_ids(2) [OF q(2)] plain_ids(3) [OF q(2)] j]
      have o: "open_ids p (take k (m # ms)) = open_ids (text_ids (JObj m)) (take j ms)"
        unfolding Suc take_Suc_Cons q(1) open_ids_Cons [of "[]" m "take j ms"] open_ids_other [OF False q(2)] ..
      show ?thesis unfolding o using IH Suc False q v by simp
    qed
  qed (use Cons.prems(1) in simp)
qed simp

lemma settled_start: "settled True p (hist (m # ms)) \<Longrightarrow> \<not> role_is ''tool'' m \<Longrightarrow> p = []"
  by simp

lemma safe_tail_settled:
  assumes "settled True [] (hist ms)"
  shows "settled True [] (hist (take (find_safe_tail_start ms p) ms))"
    "settled True [] (hist (drop (find_safe_tail_start ms p) ms))"
proof -
  let ?k = "find_safe_tail_start ms p" and ?s = "nat (max 0 (min p (int (length ms))))"
  have le: "?k \<le> length ms" using safe_tail_bounds by blast
  note cut = settled_cut [OF assms _ _ le]
  have "open_ids [] (take ?k ms) = []"
  proof (cases "?k < length ms")
    case False
    then have "drop ?k ms = []" by simp
    then show ?thesis using cut by simp
  next
    case True
    have "?k = length ms" if "\<not> skip_open ms ?s < length ms"
      using that by (simp only: find_safe_tail_start_def Let_def if_False)
    with True have sk: "skip_open ms ?s < length ms" by linarith
    have k: "?k = skip_open ms ?s \<or> ?k = block_end ms (skip_open ms ?s)"
      unfolding find_safe_tail_start_def Let_def using sk by presburger
    show ?thesis
    proof (cases "?k = skip_open ms ?s")
      case True
      with skip_open_closed [OF sk] show ?thesis by (simp add: prefix_tool_pairs_closed_def)
    next
      case False
      with k have "?k = block_end ms (skip_open ms ?s)" by blast
      then have "\<not> role_is ''tool'' (ms ! ?k)" using block_end_stops True by metis
      moreover have "drop ?k ms = ms ! ?k # drop (Suc ?k) ms" using True by (simp add: Cons_nth_drop_Suc)
      then have "settled True (open_ids [] (take ?k ms)) (hist (ms ! ?k # drop (Suc ?k) ms))"
        using cut by (simp del: settled.simps)
      ultimately show ?thesis by (intro settled_start)
    qed
  qed
  with cut show "settled True [] (hist (take ?k ms))" "settled True [] (hist (drop ?k ms))" by simp_all
qed

section \<open>The split\<close>

definition splits :: "nat \<Rightarrow> msg list \<Rightarrow> msg list \<times> msg list \<times> msg list \<Rightarrow> bool" where
  "splits h ms r \<longleftrightarrow> (case r of (system, middle, head_tail) \<Rightarrow>
     system = filter (role_is ''system'') ms \<and>
     (\<exists>tail. head_tail = take h (filter (\<lambda>m. \<not> role_is ''system'' m) ms) @ tail
        \<and> filter (\<lambda>m. \<not> role_is ''system'' m) ms = take h (filter (\<lambda>m. \<not> role_is ''system'' m) ms) @ middle @ tail))"

lemma splits_all: "splits h ms (filter (role_is ''system'') ms, [], filter (\<lambda>m. \<not> role_is ''system'' m) ms)"
  by (auto simp: splits_def intro: exI [of _ "drop h (filter (\<lambda>m. \<not> role_is ''system'' m) ms)"])

lemma tail_count_le: "tail_count a b k c l \<le> k + length l"
proof (induction l arbitrary: k c)
  case (Cons m l)
  show ?case using Cons.IH [of "k + 1" "c + ulen (content_of m) div 4"] by (auto simp: Let_def)
qed simp

lemma take_drop_parts: "h \<le> k \<Longrightarrow> take h xs @ take (k - h) (drop h xs) @ drop k xs = xs"
  by (metis add.commute append_take_drop_id drop_drop le_add_diff_inverse2)

lemma split_head_tail_splits: "splits h ms (split_head_tail kws h tb mx mn ms)"
proof -
  let ?rest = "filter (\<lambda>m. \<not> role_is ''system'' m) ms"
  let ?k = "tail_count mx tb 0 0 (rev (drop h ?rest))"
  let ?safe = "find_safe_tail_start ?rest (int (length ?rest - ?k))"
  let ?inside = "filter (\<lambda>i. h \<le> i \<and> i < ?safe) (protected_indices kws ?rest)"
  let ?cut = "if ?inside = [] then ?safe else Min (set ?inside)"
  show ?thesis
  proof (cases "length ?rest \<le> h + mn")
    case True
    then show ?thesis using splits_all by (simp add: split_head_tail_def split_system_def)
  next
    case False
    have "?k \<le> length ?rest - h" using tail_count_le [of mx tb 0 0 "rev (drop h ?rest)"] by simp
    with False have "h \<le> length ?rest - ?k" by linarith
    moreover have "length ?rest - ?k \<le> ?safe"
      using safe_tail_bounds [of "int (length ?rest - ?k)" ?rest] by simp
    ultimately have safe: "h \<le> ?safe" by simp
    have "h \<le> ?cut"
    proof (cases "?inside = []")
      case nonempty: False
      then have "Min (set ?inside) \<in> set ?inside" by (intro Min_in finite_set) (simp only: set_empty not_False_eq_True)
      then show ?thesis using nonempty by auto
    qed (use safe in simp)
    then have "?rest = take h ?rest @ take (?cut - h) (drop h ?rest) @ drop ?cut ?rest"
      by (rule take_drop_parts [symmetric])
    moreover have "split_head_tail kws h tb mx mn ms = (filter (role_is ''system'') ms,
        take (?cut - h) (drop h ?rest), take h ?rest @ drop ?cut ?rest)"
      using False by (auto simp: split_head_tail_def split_system_def Let_def)
    ultimately show ?thesis unfolding splits_def by auto
  qed
qed

lemma split_turns_splits: "splits h ms (split_head_tail_turns est lim_turns ds b h mn ms)"
proof -
  let ?rest = "filter (\<lambda>m. \<not> role_is ''system'' m) ms"
  have c: "?rest = take h ?rest @ take k (drop h ?rest) @ drop k (drop h ?rest)" for k
    by (metis append_take_drop_id)
  show ?thesis
    using splits_all [of h ms] c unfolding split_head_tail_turns_def split_system_def
    by (auto simp: Let_def splits_def)
qed

lemma split_for_compaction_splits: "splits (ca_head_count ca) ms (split_for_compaction ce ca ms)"
proof -
  have "split_for_compaction ce ca ms \<in>
    {split_head_tail (ca_keywords ca) (ca_head_count ca) 8000 (ca_max_tail ca) (ca_min_tail ca) ms,
     split_head_tail_turns (ce_estimate ce) (nat (int_env (ce_env ce) ''BUTLER_COMPACTION_TAIL_TURNS'' 2 0))
                (env_truthy (ce_env ce) ''BUTLER_COMPACTION_SPLIT_TURN'' True)
                (ce_preserve_budget ce) (ca_head_count ca) (ca_min_tail ca) ms}"
    by (auto simp: split_for_compaction_def Let_def split_beta)
  then show ?thesis using split_head_tail_splits split_turns_splits by auto
qed

section \<open>Properties\<close>

definition call_entry :: "string \<Rightarrow> string \<Rightarrow> jval" where
  "call_entry i name = JObj [(''id'', JStr i), (''function'', JObj [(''name'', JStr name), (''arguments'', JStr ''{}'')])]"

definition asks :: "(string \<times> string) list \<Rightarrow> msg" where
  "asks cs = [(''role'', JStr ''assistant''), (''content'', JStr ''''),
     (''tool_calls'', JList (map (\<lambda>(i, n). call_entry i n) cs))]"

definition answers :: "string \<Rightarrow> string \<Rightarrow> msg" where
  "answers i c = [(''role'', JStr ''tool''), (''tool_call_id'', JStr i), (''content'', JStr c)]"

definition says :: "string \<Rightarrow> msg" where
  "says c = [(''role'', JStr ''assistant''), (''content'', JStr c)]"

definition work :: "msg list" where
  "work = [user_text ''a'', asks [(''c1'', ''grep''), (''c2'', ''grep'')], answers ''c1'' ''x'', answers ''c2'' ''y'',
     says ''done'', user_text ''b'']"

text \<open>
  Pruning keeps the number of messages and every message but the contents of tool results, so
  a settled history stays settled.
\<close>

theorem pruning_keeps_settled:
  assumes "settled strict p (hist ms)"
  shows "settled strict p (hist (apply_tool_prune_pipeline ts ms))
     \<and> length (apply_tool_prune_pipeline ts ms) = length ms
     \<and> filter (\<lambda>m. \<not> role_is ''tool'' m) (apply_tool_prune_pipeline ts ms) = filter (\<lambda>m. \<not> role_is ''tool'' m) ms"
proof -
  note shape = pipeline_shape [of ms ts]
  have "filter (\<lambda>m. \<not> role_is ''tool'' m) ms' = filter (\<lambda>m. \<not> role_is ''tool'' m) ms"
    if "list_all2 same_but_content ms ms'" for ms ms'
    using that by (induction rule: list_all2_induct) (auto simp: same_but_content_def)
  with settled_content [OF shape assms] list_all2_lengthD [OF shape] shape show ?thesis by simp
qed

theorem pruning_keeps_settled_witness:
  "settled True [] (hist work) \<and> settled True [] (hist (apply_tool_prune_pipeline default_settings work))"
proof -
  have w: "settled True [] (hist work)" by code_simp
  from pruning_keeps_settled [OF w] w show ?thesis by blast
qed

text \<open>
  C23: The compaction boundary lies at or after the place proposed, and cuts a settled history into
  two settled ones: no call is separated from its results.
\<close>

theorem safe_tail_keeps_pairs:
  assumes "settled True [] (hist ms)"
  shows "settled True [] (hist (take (find_safe_tail_start ms p) ms))
     \<and> settled True [] (hist (drop (find_safe_tail_start ms p) ms))
     \<and> min p (int (length ms)) \<le> int (find_safe_tail_start ms p) \<and> find_safe_tail_start ms p \<le> length ms"
proof -
  have "min p (int (length ms)) \<le> int (find_safe_tail_start ms p) \<and> find_safe_tail_start ms p \<le> length ms"
    using safe_tail_bounds [of p ms] by linarith
  with safe_tail_settled [OF assms] show ?thesis by blast
qed

theorem safe_tail_keeps_pairs_witness:
  "settled True [] (hist work) \<and> find_safe_tail_start work 2 = 4 \<and> settled True [] (hist (drop 4 work))"
proof -
  have w: "settled True [] (hist work)" by code_simp
  have k: "find_safe_tail_start work 2 = 4" by code_simp
  from safe_tail_keeps_pairs [OF w, of 2] w k show ?thesis by simp
qed

text \<open>
  C24: The split for compaction loses, repeats and reorders nothing: the messages that are not of
  the system are the head, the middle and the tail, in this order, by whichever of the two methods
  the split was found.
\<close>

theorem compaction_split_partitions:
  "case split_for_compaction ce ca ms of (system, middle, head_tail) \<Rightarrow>
     system = filter (role_is ''system'') ms \<and>
     (\<exists>head tail. head_tail = head @ tail \<and> length head \<le> ca_head_count ca
        \<and> filter (\<lambda>m. \<not> role_is ''system'' m) ms = head @ middle @ tail)"
proof -
  obtain system middle head_tail where r: "split_for_compaction ce ca ms = (system, middle, head_tail)"
    by (cases "split_for_compaction ce ca ms") auto
  have "splits (ca_head_count ca) ms (system, middle, head_tail)"
    using split_for_compaction_splits [of ca ms ce] r by simp
  then obtain tail where "system = filter (role_is ''system'') ms"
    "head_tail = take (ca_head_count ca) (filter (\<lambda>m. \<not> role_is ''system'' m) ms) @ tail"
    "filter (\<lambda>m. \<not> role_is ''system'' m) ms = take (ca_head_count ca) (filter (\<lambda>m. \<not> role_is ''system'' m) ms) @ middle @ tail"
    unfolding splits_def by auto
  moreover have "length (take (ca_head_count ca) (filter (\<lambda>m. \<not> role_is ''system'' m) ms)) \<le> ca_head_count ca" by simp
  ultimately show ?thesis unfolding r by blast
qed

definition quiet_env :: compress_env where
  "quiet_env = \<lparr>ce_env = no_env, ce_loads = (\<lambda>s. None), ce_estimate = (\<lambda>ms. 10 * int (length ms)),
     ce_preserve_budget = 30, ce_prune = default_settings, ce_remote = (\<lambda>ms s. None), ce_aux = (\<lambda>t s. None),
     ce_word = (\<lambda>u. True), ce_digit = (\<lambda>u. False)\<rparr>"

definition usual_args :: compress_args where
  "usual_args = \<lparr>ca_max_tokens = 100, ca_threshold_ratio = 1 / 2, ca_previous_summary = [], ca_min_messages = 12,
     ca_head_count = 3, ca_max_tail = 12, ca_min_tail = 4, ca_overflow_replay = False, ca_injection = None,
     ca_keywords = []\<rparr>"

definition talk :: "msg list" where
  "talk = [user_text ''a'', says ''b'', user_text ''c'', says ''d'', user_text ''e'', says ''1234567890ab'', user_text ''g'',
     says ''h'', user_text ''i'', says ''j'', user_text ''k'', says ''l'', user_text ''m'']"

lemma prune_chat:
  assumes "list_all (\<lambda>m. \<not> role_is ''tool'' m \<and> call_dicts m = []) ms"
  shows "prune_with_skill_rescue ce ms = (ms, [])"
proof -
  have m: "\<not> role_is ''tool'' m \<and> call_dicts m = []" if "m \<in> set ms" for m
    using assms that by (simp add: list_all_iff)
  have "map (prune_one ts names r q) (enumerate k xs) = xs" if "\<forall>m\<in>set xs. \<not> role_is ''tool'' m" for ts names r q k xs
    using that by (induction xs arbitrary: k) simp_all
  then have p: "prune_tool_outputs ts ms = ms" for ts
    using m by (simp add: prune_tool_outputs_def Let_def)
  have k: "assistant_skill_call ce m = Some False" if "m \<in> set ms" for m
    using m [OF that] by (simp add: assistant_skill_call_def)
  then have "\<not> list_ex (rescue_raises ce) ms" using m by (auto simp: list_ex_iff rescue_raises_def)
  moreover have "skill_indices ce ms = []" using k by (auto simp: skill_indices_def skill_pair_def)
  ultimately show ?thesis by (simp add: prune_with_skill_rescue_def p extract_skill_rescue_messages_def)
qed

lemma run_compress_failed:
  assumes "\<not> (ce_estimate ce ms \<le> \<lfloor>of_int (ca_max_tokens ca) * ca_threshold_ratio ca\<rfloor> \<or> length ms < ca_min_messages ca)"
    and "prune_with_skill_rescue ce ms = (pruned, [])" and "split_for_compaction ce ca pruned = (system, middle, head_tail)"
    and "middle \<noteq> []" and "truncate_tool_responses_to_budget (ce_env ce) middle = middle'"
    and "append_evidence_to_summary ce (summarize_middle ce middle' (ca_previous_summary ca)) middle' = summary" and "strip summary = []"
  shows "run_compress_messages ce ca ms = (system @ head_tail @ middle', ca_previous_summary ca, False)"
  using assms by (simp add: run_compress_messages_def merge_skill_rescue_def Let_def)

lemma run_compress_done:
  assumes "\<not> (ce_estimate ce ms \<le> \<lfloor>of_int (ca_max_tokens ca) * ca_threshold_ratio ca\<rfloor> \<or> length ms < ca_min_messages ca)"
    and "prune_with_skill_rescue ce ms = (pruned, [])" and "split_for_compaction ce ca pruned = (system, middle, head_tail)"
    and "middle \<noteq> []" and "truncate_tool_responses_to_budget (ce_env ce) middle = middle'"
    and "append_evidence_to_summary ce (summarize_middle ce middle' (ca_previous_summary ca)) middle' = summary" and "strip summary \<noteq> []"
    and "ca_injection ca = None" and "\<not> ca_overflow_replay ca"
  shows "run_compress_messages ce ca ms = (system @ [user_text (summary_prefix @ summary)] @ head_tail, summary, True)"
  using assms by (simp add: run_compress_messages_def apply_summary_placement_def Let_def)

definition old_talk :: "msg list" where
  "old_talk = [says ''d'', user_text ''e'', says ''1234567890ab'', user_text ''g'', says ''h'', user_text ''i'', says ''j'']"

definition new_talk :: "msg list" where
  "new_talk = [user_text ''a'', says ''b'', user_text ''c'', user_text ''k'', says ''l'', user_text ''m'']"

lemma talk_turns: "group_messages_into_turns (drop 3 talk) = [(1, 3), (3, 5), (5, 7), (7, 9), (9, 10)]"
  by code_simp

lemma talk_start: "select_tail_start_index (ce_estimate quiet_env) 2 True 30 (drop 3 talk) = 7"
  by (simp add: select_tail_start_index_def talk_turns last_n_def span_of_def quiet_env_def Let_def, simp add: talk_def)

lemma talk_split: "split_for_compaction quiet_env usual_args talk = ([], old_talk, new_talk)"
proof -
  have cut: "find_safe_tail_start (drop 3 talk) 7 = 7" by code_simp
  have system: "split_system talk = ([], talk)" by code_simp
  have "split_head_tail_turns (ce_estimate quiet_env) 2 True 30 3 4 talk = ([], old_talk, new_talk)"
    by (simp add: split_head_tail_turns_def system talk_start cut Let_def, simp add: talk_def old_talk_def new_talk_def)
  then show ?thesis
    by (simp add: split_for_compaction_def env_truthy_def int_env_def usual_args_def Let_def, simp add: quiet_env_def no_env_def old_talk_def)
qed

lemma talk_over: "\<not> (ce_estimate quiet_env talk \<le> \<lfloor>of_int (ca_max_tokens usual_args) * ca_threshold_ratio usual_args\<rfloor>
      \<or> length talk < ca_min_messages usual_args)"
  by (simp add: quiet_env_def usual_args_def talk_def)

lemma talk_chat: "list_all (\<lambda>m. \<not> role_is ''tool'' m \<and> call_dicts m = []) talk"
  by code_simp

lemma talk_kept: "truncate_tool_responses_to_budget env old_talk = old_talk"
  by (simp add: truncate_tool_responses_to_budget_def Let_def old_talk_def role_is_def says_def user_text_def)

text \<open>With no lines of evidence asked for.\<close>

definition silent_env :: compress_env where
  "silent_env = quiet_env\<lparr>ce_env := (\<lambda>k. if k = ''BUTLER_COMPACT_EVIDENCE_LINES'' then Some ''0'' else None)\<rparr>"

text \<open>
  When the summariser gives nothing the messages are said to be preserved; in fact the middle is
  put behind the tail, so that an old message comes after the latest question of the user.
\<close>

theorem failed_summary_reorders:
  "\<exists>out. run_compress_messages silent_env usual_args talk = (out, [], False)
     \<and> mset out = mset talk \<and> List.last talk = user_text ''m'' \<and> List.last out = says ''j''"
proof -
  have split: "split_for_compaction silent_env usual_args talk = ([], old_talk, new_talk)"
    using talk_split by (simp add: split_for_compaction_def silent_env_def quiet_env_def no_env_def env_truthy_def int_env_def)
  have evidence: "append_evidence_to_summary silent_env s old_talk = s" for s
  proof -
    have "compact_evidence_lines_enabled (ce_env silent_env) = 0" by code_simp
    then show ?thesis by (simp add: append_evidence_to_summary_def extract_compact_evidence_def format_evidence_block_def)
  qed
  have none: "summarize_middle silent_env old_talk [] = []"
    by (simp add: summarize_middle_def silent_env_def quiet_env_def Let_def)
  have over: "\<not> (ce_estimate silent_env talk \<le> \<lfloor>of_int (ca_max_tokens usual_args) * ca_threshold_ratio usual_args\<rfloor>
      \<or> length talk < ca_min_messages usual_args)" using talk_over by (simp add: silent_env_def)
  have previous: "ca_previous_summary usual_args = []" by (simp add: usual_args_def)
  have middle: "old_talk \<noteq> []" by (simp add: old_talk_def)
  have summary: "append_evidence_to_summary silent_env
      (summarize_middle silent_env old_talk (ca_previous_summary usual_args)) old_talk = []"
    by (simp only: previous none evidence)
  have "run_compress_messages silent_env usual_args talk = ([] @ new_talk @ old_talk, ca_previous_summary usual_args, False)"
    by (rule run_compress_failed [OF over prune_chat [OF talk_chat] split middle talk_kept summary strip_Nil])
  moreover have "mset (new_talk @ old_talk) = mset talk" by (simp add: talk_def old_talk_def new_talk_def)
  moreover have "List.last talk = user_text ''m''" "List.last (new_talk @ old_talk) = says ''j''"
    by (simp_all add: talk_def old_talk_def)
  ultimately show ?thesis using previous by auto
qed

section \<open>Evidence\<close>

lemma pick_lines_nonempty:
  "\<exists>c\<in>set cs. 2 \<le> fst c \<Longrightarrow> pick_lines k [] [] cs \<noteq> []"
proof -
  have keep: "out \<noteq> [] \<Longrightarrow> pick_lines k seen out cs \<noteq> []" for seen out cs
    by (induction k seen out cs rule: pick_lines.induct) (auto simp: Let_def)
  show "\<exists>c\<in>set cs. 2 \<le> fst c \<Longrightarrow> pick_lines k [] [] cs \<noteq> []"
  proof (induction cs)
    case (Cons c cs)
    obtain a b where c: "c = (a, b)" by (cases c)
    from Cons keep [of "[b]" "[lower (utake 60 b)]" cs] c show ?case by (auto simp: Let_def)
  qed simp
qed

lemma evidence_found:
  assumes "m \<in> set middle" "sent \<in> set (split_sentences (content_to_text (jget m ''content'')))" "12 \<le> ulen sent"
    "2 \<le> sentence_score ce (str_field m ''role'' '''') sent" "compact_evidence_lines_enabled (ce_env ce) \<noteq> 0"
  shows "extract_compact_evidence ce middle \<noteq> []"
proof -
  let ?c = "(sentence_score ce (str_field m ''role'' '''') sent, utake 280 sent)"
  have "?c \<in> set (evidence_candidates ce middle)"
    using assms(1-3) by (auto simp: evidence_candidates_def)
  then have "?c \<in> set (sort_candidates (evidence_candidates ce middle))" by (simp add: sort_candidates_def)
  with assms(4) have "pick_lines (compact_evidence_lines_enabled (ce_env ce)) [] []
      (sort_candidates (evidence_candidates ce middle)) \<noteq> []"
    by (intro pick_lines_nonempty) force
  then show ?thesis using assms(1,5) by (auto simp: extract_compact_evidence_def Let_def)
qed

lemma strip_hash: "strip (CHR ''#'' # CHR ''#'' # s) \<noteq> []"
proof -
  have "cps (CHR ''#'' # CHR ''#'' # s) = ''#'' # cps (CHR ''#'' # s)" by (simp add: is_cont_def)
  moreover have "\<not> is_ws ''#''" by code_simp
  ultimately have "''#'' \<in> set (rev (dropWhile is_ws (rev (dropWhile is_ws (cps (CHR ''#'' # CHR ''#'' # s))))))"
    using set_dropWhileD by (simp add: dropWhile_append)
  then show ?thesis unfolding strip_def by (metis Nil_eq_concat_conv list.distinct(1))
qed

lemma is_ws_single: "is_ws [c] \<longleftrightarrow> (of_char c :: nat) \<in> {9, 10, 11, 12, 13, 28, 29, 30, 31, 32}"
  by (simp add: is_ws_def ws_codes_def)

lemma sent_split_solid: "list_all (\<lambda>u. \<not> is_ws u) us \<Longrightarrow> sent_split prev us cur = [cur @ concat us]"
proof (induction us arbitrary: prev cur)
  case (Cons u us)
  have "is_ws nl" by code_simp
  with Cons have "u \<noteq> nl" by auto
  with Cons show ?case by simp
qed simp

lemma split_sentences_solid:
  assumes "list_all (\<lambda>u. \<not> is_ws u) (cps s)" "s \<noteq> []"
  shows "split_sentences s = [s]"
proof -
  have d: "\<forall>u\<in>set us. \<not> is_ws u \<Longrightarrow> dropWhile is_ws us = us" for us by (cases us) auto
  have "dropWhile is_ws (cps s) = cps s" "dropWhile is_ws (rev (cps s)) = rev (cps s)"
    using assms(1) by (auto simp: list_all_iff intro: d)
  then have "strip s = s" by (simp add: strip_def)
  with assms show ?thesis by (simp add: split_sentences_def sent_split_solid)
qed

text \<open>
  When no summary could be made, one sentence of the middle that counts as evidence is enough for
  the compression to go on: the whole middle is replaced by the lines of evidence, although the
  failure is meant to abort the compression.
\<close>

theorem evidence_replaces_failed_summary:
  assumes "\<not> (ce_estimate ce ms \<le> \<lfloor>of_int (ca_max_tokens ca) * ca_threshold_ratio ca\<rfloor> \<or> length ms < ca_min_messages ca)"
    and "prune_with_skill_rescue ce ms = (pruned, [])" and "split_for_compaction ce ca pruned = (system, middle, head_tail)"
    and "truncate_tool_responses_to_budget (ce_env ce) middle = middle'"
    and "summarize_middle ce middle' (ca_previous_summary ca) = []"
    and "m \<in> set middle'" and "sent \<in> set (split_sentences (content_to_text (jget m ''content'')))" and "12 \<le> ulen sent"
    and "2 \<le> sentence_score ce (str_field m ''role'' '''') sent" and "compact_evidence_lines_enabled (ce_env ce) \<noteq> 0"
    and "ca_injection ca = None" and "\<not> ca_overflow_replay ca" and "middle \<noteq> []"
  shows "run_compress_messages ce ca ms =
    (system @ [user_text (summary_prefix @ format_evidence_block (extract_compact_evidence ce middle'))] @ head_tail,
     format_evidence_block (extract_compact_evidence ce middle'), True)"
proof -
  have found: "extract_compact_evidence ce middle' \<noteq> []" by (rule evidence_found [OF assms(6-10)])
  then have e: "append_evidence_to_summary ce (summarize_middle ce middle' (ca_previous_summary ca)) middle'
      = format_evidence_block (extract_compact_evidence ce middle')"
    by (simp add: append_evidence_to_summary_def assms(5) format_evidence_block_def)
  have "strip (format_evidence_block (extract_compact_evidence ce middle')) \<noteq> []"
    using found strip_hash by (simp add: format_evidence_block_def)
  from run_compress_done [OF assms(1-3) assms(13) assms(4) e this assms(11,12)] show ?thesis .
qed

theorem evidence_replaces_failed_summary_witness:
  "\<exists>summary. run_compress_messages quiet_env usual_args talk
     = ([] @ [user_text (summary_prefix @ summary)] @ new_talk, summary, True)"
proof -
  let ?l = "''1234567890ab''"
  have c: "cps ?l = map (\<lambda>c. [c]) ?l" by (simp add: is_cont_def)
  have solid: "list_all (\<lambda>u. \<not> is_ws u) (cps ?l)" unfolding c by (simp add: is_ws_single)
  have sent: "?l \<in> set (split_sentences (content_to_text (jget (says ?l) ''content'')))"
    using split_sentences_solid [OF solid] by (simp add: says_def content_to_text_def)
  have len: "12 \<le> ulen ?l" unfolding ulen_def c by simp
  have score: "2 \<le> sentence_score quiet_env (str_field (says ?l) ''role'' '''') ?l"
    unfolding sentence_score_def c by (simp add: says_def str_field_def jor_def digit_unit_def ascii_code_def)
  have lines: "compact_evidence_lines_enabled (ce_env quiet_env) \<noteq> 0"
    by (simp add: compact_evidence_lines_enabled_def int_env_def quiet_env_def no_env_def)
  have none: "summarize_middle quiet_env old_talk (ca_previous_summary usual_args) = []"
    by (simp add: summarize_middle_def quiet_env_def usual_args_def Let_def)
  have mem: "says ?l \<in> set old_talk" "old_talk \<noteq> []" by (simp_all add: old_talk_def)
  have args: "ca_injection usual_args = None" "\<not> ca_overflow_replay usual_args" by (simp_all add: usual_args_def)
  show ?thesis
    using evidence_replaces_failed_summary [OF talk_over prune_chat [OF talk_chat] talk_split talk_kept none
      mem(1) sent len score lines args mem(2)] by blast
qed

definition guarded_work :: "msg list" where
  "guarded_work = [user_text ''a'', says ''b'', user_text ''c'', asks [(''c1'', ''grep'')], answers ''c1'' ''the parser'',
     says ''d'', user_text ''e'', says ''f'', user_text ''g'']"

text \<open>
  A protected keyword moves the boundary after it was made safe: the tail then starts with the
  result of a call that is summarised away.
\<close>

theorem protected_keyword_splits_pair:
  "settled True [] (hist guarded_work)
   \<and> split_head_tail [''parser''] 3 8000 2 4 guarded_work
       = ([], [asks [(''c1'', ''grep'')]], take 3 guarded_work @ drop 4 guarded_work)
   \<and> \<not> settled True [] (hist (take 3 guarded_work @ drop 4 guarded_work))
   \<and> \<not> prefix_tool_pairs_closed guarded_work 4"
proof -
  have "settled True [] (hist guarded_work)" by code_simp
  moreover have "split_head_tail [''parser''] 3 8000 2 4 guarded_work
       = ([], [asks [(''c1'', ''grep'')]], take 3 guarded_work @ drop 4 guarded_work)" by code_simp
  moreover have "\<not> settled True [] (hist (take 3 guarded_work @ drop 4 guarded_work))" by code_simp
  moreover have "\<not> prefix_tool_pairs_closed guarded_work 4" by code_simp
  ultimately show ?thesis by blast
qed

text \<open>The boundary skips a block whose results are incomplete, against its documentation.\<close>

theorem incomplete_block_left_open:
  "find_safe_tail_start [asks [(''c1'', ''grep''), (''c2'', ''grep'')], answers ''c1'' ''x'', user_text ''b''] 0 = 2
   \<and> \<not> prefix_tool_pairs_closed [asks [(''c1'', ''grep''), (''c2'', ''grep'')], answers ''c1'' ''x'', user_text ''b''] 2"
  by code_simp

end
