(* ===== verification/Path_Safety.thy ===== *)
theory Path_Safety
  imports Text_Lines Permission_Rules Exec_Policy
begin

text \<open>
  Where the tools may read and write (\<open>tools/path_safety.py\<close>, \<open>tools/tool_scope.py\<close>,
  \<open>tools/butlerignore.py\<close> and the helpers of \<open>tools/path_safety_ops.py\<close>): pure paths, the
  patterns of the ignore files, the sensitive places of the host and \<open>check_tool_path\<close>, which
  consults the permission rules of \<open>Permission_Rules\<close> for a path outside the workspace.

  What the file system answers is the record \<open>fs_view\<close>; the workspace of the session, found by
  the project manager, and the directory of stored tool results are fields of \<open>tool_host\<close>.
\<close>

section \<open>Text\<close>

text \<open>\<open>s.split(c)\<close> and \<open>s.replace(old, new)\<close> for a non-empty \<open>old\<close>.\<close>

fun split_sep :: "char \<Rightarrow> string \<Rightarrow> string list" where
  "split_sep c [] = [[]]"
| "split_sep c (x # xs) = (if x = c then [] # split_sep c xs
     else case split_sep c xs of [] \<Rightarrow> [[x]] | y # ys \<Rightarrow> (x # y) # ys)"

fun replace_all :: "string \<Rightarrow> string \<Rightarrow> string \<Rightarrow> string" where
  "replace_all old new [] = []"
| "replace_all old new (c # cs) = (if old \<noteq> [] \<and> prefix old (c # cs)
     then new @ replace_all old new (drop (length old - 1) cs) else c # replace_all old new cs)"

definition getenv :: "os_env \<Rightarrow> string \<Rightarrow> string \<Rightarrow> string" where
  "getenv env name d = (case env name of None \<Rightarrow> d | Some v \<Rightarrow> v)"

definition switched_on :: "string \<Rightarrow> bool" where
  "switched_on raw \<longleftrightarrow> lower (strip raw) \<in> {''1'', ''true'', ''yes'', ''on''}"

section \<open>Pure paths\<close>

text \<open>A path is absolute or not and has parts; empty parts and single dots are dropped.\<close>

type_synonym fpath = "bool \<times> string list"

definition slash :: char where "slash = CHR ''/''"

definition parse_path :: "string \<Rightarrow> fpath" where
  "parse_path s = (prefix [slash] s, filter (\<lambda>p. p \<noteq> [] \<and> p \<noteq> ''.'') (split_sep slash s))"

definition path_text :: "fpath \<Rightarrow> string" where
  "path_text p = (if fst p then slash # join [slash] (snd p)
     else if snd p = [] then ''.'' else join [slash] (snd p))"

definition path_join :: "fpath \<Rightarrow> fpath \<Rightarrow> fpath" where
  "path_join p q = (if fst q then q else (fst p, snd p @ snd q))"

definition below :: "fpath \<Rightarrow> string list \<Rightarrow> fpath" where
  "below p ps = (fst p, snd p @ ps)"

definition path_name :: "fpath \<Rightarrow> string" where
  "path_name p = (if snd p = [] then [] else last (snd p))"

text \<open>\<open>is_relative_to\<close>: the base is an initial segment.\<close>

definition relative_to :: "fpath \<Rightarrow> fpath \<Rightarrow> bool" where
  "relative_to p base \<longleftrightarrow> fst p = fst base \<and> prefix (snd base) (snd p)"

definition rel_parts :: "fpath \<Rightarrow> fpath \<Rightarrow> string list" where
  "rel_parts p base = drop (length (snd base)) (snd p)"

text \<open>The file system as \<open>pathlib\<close> shows it.\<close>

record fs_view =
  fv_resolve :: "fpath \<Rightarrow> fpath"            \<comment> \<open>\<open>resolve(strict=False)\<close>\<close>
  fv_symlink :: "fpath \<Rightarrow> bool"
  fv_exists :: "fpath \<Rightarrow> bool"
  fv_is_file :: "fpath \<Rightarrow> bool"
  fv_nlink :: "fpath \<Rightarrow> nat option"          \<comment> \<open>nothing when \<open>stat\<close> raises\<close>
  fv_user :: "string \<Rightarrow> fpath option"        \<comment> \<open>the home of \<open>~name\<close>; nothing when it raises\<close>
  fv_text :: "fpath \<Rightarrow> string option"        \<comment> \<open>nothing when the read raises\<close>

record tool_host =
  th_env :: os_env
  th_fs :: fs_view
  th_session_ws :: "fpath option"           \<comment> \<open>\<open>current_workspace_root()\<close>\<close>
  th_default_ws :: "fpath option"
  th_projects_parent :: fpath               \<comment> \<open>the parent of the projects directory, resolved\<close>
  th_cwd :: fpath
  th_home :: fpath                          \<comment> \<open>\<open>Path.home().resolve()\<close>\<close>
  th_butler_home :: fpath
  th_results_dir :: "fpath option"          \<comment> \<open>stored results of the session, resolved\<close>
  th_perm :: perm_env
  th_role :: string                         \<comment> \<open>\<open>get_current_loop_role()\<close>\<close>
  th_word :: "string \<Rightarrow> bool"             \<comment> \<open>letters and digits beyond ASCII\<close>

definition expanduser :: "fs_view \<Rightarrow> fpath \<Rightarrow> fpath option" where
  "expanduser fs p = (if \<not> fst p \<and> snd p \<noteq> [] \<and> prefix ''~'' (hd (snd p))
     then map_option (\<lambda>h. below h (tl (snd p))) (fv_user fs (hd (snd p)))
     else Some p)"

section \<open>Patterns\<close>

text \<open>
  \<open>fnmatch.fnmatch\<close> over the characters of the text: a star matches any run of characters,
  slashes included, and a bracket without its closing one stands for itself.
\<close>

definition uval :: "string \<Rightarrow> nat" where
  "uval u = foldl (\<lambda>n c. 256 * n + of_char c) 0 u"

fun set_has :: "string list \<Rightarrow> string \<Rightarrow> bool" where
  "set_has (x # h # y # zs) u = (if h = ''-'' then uval x \<le> uval u \<and> uval u \<le> uval y \<or> set_has zs u
     else x = u \<or> set_has (h # y # zs) u)"
| "set_has (x # zs) u = (x = u \<or> set_has zs u)"
| "set_has [] u = False"

fun upto_close :: "string list \<Rightarrow> string list \<Rightarrow> (string list \<times> string list) option" where
  "upto_close acc [] = None"
| "upto_close acc (p # ps) = (if p = '']'' then Some (acc, ps) else upto_close (acc @ [p]) ps)"

definition bracket :: "string list \<Rightarrow> (bool \<times> string list \<times> string list) option" where
  "bracket ps = (let neg = (ps \<noteq> [] \<and> hd ps = ''!''); body = (if neg then tl ps else ps) in
     map_option (\<lambda>(cs, rest). (neg, cs, rest))
       (if body \<noteq> [] \<and> hd body = '']'' then upto_close ['']''] (tl body) else upto_close [] body))"

lemma upto_close_length: "upto_close acc ps = Some (cs, rest) \<Longrightarrow> length rest < length ps"
  by (induction acc ps rule: upto_close.induct) (auto split: if_splits)

lemma bracket_length: "bracket ps = Some (neg, cs, rest) \<Longrightarrow> length rest < Suc (length ps)"
proof -
  assume "bracket ps = Some (neg, cs, rest)"
  then obtain acc qs where "upto_close acc qs = Some (cs, rest)" and "length qs \<le> length ps"
    by (cases ps; cases "tl ps") (auto simp: bracket_def Let_def split: if_splits)
  then show ?thesis using upto_close_length by fastforce
qed

function glob :: "string list \<Rightarrow> string list \<Rightarrow> bool" where
  "glob [] s = (s = [])"
| "glob (p # ps) [] = (p = ''*'' \<and> glob ps [])"
| "glob (p # ps) (c # cs) =
     (if p = ''*'' then glob ps (c # cs) \<or> glob (p # ps) cs
      else if p = ''?'' then glob ps cs
      else case (if p = ''['' then bracket ps else None) of
        Some (neg, body, rest) \<Rightarrow> set_has body c \<noteq> neg \<and> glob rest cs
      | None \<Rightarrow> c = p \<and> glob ps cs)"
  by pat_completeness auto
termination
  by (relation "measure (\<lambda>(p, s). length p + length s)")
     (auto dest!: bracket_length split: if_splits)

definition fnmatch :: "string \<Rightarrow> string \<Rightarrow> bool" where
  "fnmatch name pat = glob (cps pat) (cps name)"

section \<open>Ignored and protected files\<close>

definition protected_write_globs :: "string list" where
  "protected_write_globs = [''.butler/*.json'', ''.butler/**/*.json'', ''.git/config'', ''.git/hooks/**'',
     ''.git/info/attributes'', ''.env'', ''.env.*'']"

definition ignore_lines :: "string \<Rightarrow> string list" where
  "ignore_lines body = map (replace_all [backslash] [slash])
     (filter (\<lambda>raw. raw \<noteq> [] \<and> \<not> prefix ''#'' raw \<and> \<not> prefix ''!'' raw) (map strip (splitlines body)))"

definition load_ignore_patterns :: "fs_view \<Rightarrow> fpath \<Rightarrow> string list" where
  "load_ignore_patterns fs ws = (let base = fv_resolve fs ws in
     concat (map (\<lambda>p. if \<not> fv_is_file fs p then []
         else case fv_text fs p of None \<Rightarrow> [] | Some t \<Rightarrow> ignore_lines t)
       [below base [''.butlerignore''], below base [''.butler'', ''.butlerignore'']]))"

definition rel_posix :: "fs_view \<Rightarrow> fpath \<Rightarrow> fpath \<Rightarrow> string option" where
  "rel_posix fs p ws = (let q = fv_resolve fs p; base = fv_resolve fs ws in
     if relative_to q base then Some (path_text (False, rel_parts q base)) else None)"

definition drop_slashes :: "string \<Rightarrow> string" where
  "drop_slashes s = rev (dropWhile (\<lambda>c. c = slash) (rev s))"

definition matches_ignore_pattern :: "string \<Rightarrow> string \<Rightarrow> bool" where
  "matches_ignore_pattern rel pattern = (let pat0 = replace_all [backslash] [slash] (strip pattern) in
     if pat0 = [] then False
     else let pat = (if last pat0 = slash then drop_slashes pat0 @ ''/**'' else pat0) in
       if contains ''**'' pat then fnmatch rel pat \<or> fnmatch rel (replace_all ''**'' ''*'' pat)
       else if slash \<notin> set pat then fnmatch (last (split_sep slash rel)) pat \<or> fnmatch rel pat
       else fnmatch rel pat)"

definition is_butlerignored :: "fs_view \<Rightarrow> fpath \<Rightarrow> fpath \<Rightarrow> bool" where
  "is_butlerignored fs p ws = (case rel_posix fs p ws of None \<Rightarrow> False
     | Some rel \<Rightarrow> list_ex (matches_ignore_pattern rel) (load_ignore_patterns fs ws))"

definition is_protected_write_path :: "fs_view \<Rightarrow> fpath \<Rightarrow> fpath \<Rightarrow> bool" where
  "is_protected_write_path fs p ws = (case rel_posix fs p ws of None \<Rightarrow> False
     | Some rel \<Rightarrow> list_ex (matches_ignore_pattern rel) protected_write_globs \<or> is_butlerignored fs p ws)"

definition butlerignore_blocked :: "fs_view \<Rightarrow> fpath \<Rightarrow> fpath \<Rightarrow> bool \<Rightarrow> string" where
  "butlerignore_blocked fs p ws for_write =
    (if \<not> for_write \<and> is_butlerignored fs p ws then ''Access denied: path matches .butlerignore''
     else if for_write \<and> is_protected_write_path fs p ws then ''Access denied: protected path (sandbox policy)''
     else [])"

section \<open>Scope\<close>

definition environment_tool_scope_enabled :: "os_env \<Rightarrow> bool" where
  "environment_tool_scope_enabled env =
     (lower (strip (str_or (getenv env ''BUTLER_TOOL_SCOPE'' ''environment'') ''environment''))
        \<notin> {''project'', ''workspace'', ''0'', ''false'', ''off''})"

definition workspace_anchor_strict_for_paths :: "os_env \<Rightarrow> bool" where
  "workspace_anchor_strict_for_paths env = (\<not> environment_tool_scope_enabled env
     \<and> switched_on (getenv env ''BUTLER_WORKSPACE_ANCHOR_STRICT'' ''1''))"

definition project_relative_path_anchors_to_workspace :: "os_env \<Rightarrow> bool" where
  "project_relative_path_anchors_to_workspace env =
    (if \<not> environment_tool_scope_enabled env then workspace_anchor_strict_for_paths env
     else switched_on (str_or (getenv env ''BUTLER_TOOL_PROJECT_ANCHOR'' ''1'') ''1''))"

definition configured_safe_root :: "tool_host \<Rightarrow> fpath option" where
  "configured_safe_root h = (let raw = strip (getenv (th_env h) ''BUTLER_TOOL_SAFE_ROOT'' []) in
     if raw = [] then None
     else map_option (fv_resolve (th_fs h)) (expanduser (th_fs h) (parse_path raw)))"

definition resolve_environment_tool_root :: "tool_host \<Rightarrow> fpath" where
  "resolve_environment_tool_root h = (case configured_safe_root h of Some r \<Rightarrow> r | None \<Rightarrow> th_projects_parent h)"

definition tool_safe_root :: "tool_host \<Rightarrow> fpath" where
  "tool_safe_root h = (if environment_tool_scope_enabled (th_env h) then resolve_environment_tool_root h
     else case th_session_ws h of Some ws \<Rightarrow> ws
       | None \<Rightarrow> (case configured_safe_root h of Some r \<Rightarrow> r | None \<Rightarrow> fv_resolve (th_fs h) (th_cwd h)))"

section \<open>Sensitive places\<close>

definition sensitive_dirs :: "fpath \<Rightarrow> bool \<Rightarrow> fpath list" where
  "sensitive_dirs home for_write =
     map (below home) [[''.ssh''], [''.aws''], [''.gnupg''], [''.kube''], [''.docker''], [''.azure''], [''.config'', ''gh'']]
     @ (if for_write then [(True, [''etc'', ''sudoers.d'']), (True, [''etc'', ''systemd''])] else [])"

definition sensitive_files :: "fpath \<Rightarrow> bool \<Rightarrow> fpath list" where
  "sensitive_files home for_write =
     map (below home) [[''.netrc''], [''.pgpass''], [''.npmrc''], [''.pypirc'']]
     @ [(True, [''etc'', ''sudoers'']), (True, [''etc'', ''passwd'']), (True, [''etc'', ''shadow''])]
     @ (if for_write then map (below home) [[''.bashrc''], [''.zshrc''], [''.profile''], [''.bash_profile''], [''.zprofile'']]
        else [])"

definition sensitive_path_error :: "tool_host \<Rightarrow> fpath \<Rightarrow> bool \<Rightarrow> string" where
  "sensitive_path_error h p for_write =
    (if list_ex (relative_to p) (map (fv_resolve (th_fs h)) (sensitive_dirs (th_home h) for_write))
      \<or> p \<in> set (map (fv_resolve (th_fs h)) (sensitive_files (th_home h) for_write))
     then ''Access denied: path targets a sensitive location'' else [])"

definition hook_config_names :: "string set" where
  "hook_config_names = {''hooks.yaml'', ''hooks.yml''}"

definition hooks_config_write_error :: "tool_host \<Rightarrow> fpath \<Rightarrow> fpath \<Rightarrow> bool \<Rightarrow> string" where
  "hooks_config_write_error h p base for_write =
    (let res = fv_resolve (th_fs h);
         hooked = (\<lambda>d. relative_to (res p) (res (below d [''.butler''])) \<and> path_name (res p) \<in> hook_config_names) in
     if for_write \<and> (hooked (th_butler_home h) \<or> hooked base)
     then ''Access denied: path targets hooks configuration'' else [])"

definition hardlink_error :: "fs_view \<Rightarrow> fpath \<Rightarrow> string" where
  "hardlink_error fs p =
    (if fv_exists fs p \<and> fv_is_file fs p \<and> (case fv_nlink fs p of Some n \<Rightarrow> 1 < n | None \<Rightarrow> False)
     then ''Access denied: hardlinked files are not allowed'' else [])"

section \<open>The check of a path\<close>

definition is_letter :: "char \<Rightarrow> bool" where
  "is_letter c = (let n = (of_char c :: nat) in 65 \<le> n \<and> n \<le> 90 \<or> 97 \<le> n \<and> n \<le> 122)"

definition unc_char :: "char \<Rightarrow> bool" where
  "unc_char c \<longleftrightarrow> is_letter c \<or> digit_val c \<noteq> None \<or> c \<in> set ''_.$-''"

definition is_windows_unc :: "string \<Rightarrow> bool" where
  "is_windows_unc s = (case s of
       a # b # rest \<Rightarrow> a = backslash \<and> b = backslash \<and>
         (let body = (if prefix ''?'' rest then tl rest else rest); after = dropWhile unc_char body in
          body \<noteq> [] \<and> unc_char (hd body) \<and> after \<noteq> [] \<and> hd after \<in> {slash, backslash})
     | _ \<Rightarrow> False)"

definition is_windows_absolute_path :: "string \<Rightarrow> bool" where
  "is_windows_absolute_path raw = (let s = strip raw in
     (case s of a # b # c # _ \<Rightarrow> is_letter a \<and> b = CHR '':'' | _ \<Rightarrow> False) \<or> is_windows_unc s)"

text \<open>\<open>_resolve_tool_path\<close>; on the left the text of what it raises.\<close>

definition resolve_tool_path :: "tool_host \<Rightarrow> string \<Rightarrow> fpath \<Rightarrow> string + fpath" where
  "resolve_tool_path h raw base = (case expanduser (th_fs h) (parse_path raw) of
       None \<Rightarrow> Inl ''Could not determine home directory.''
     | Some p0 \<Rightarrow>
         (let p = path_join base p0; resolved = fv_resolve (th_fs h) p in
          if fv_symlink (th_fs h) p \<and> \<not> relative_to resolved (fv_resolve (th_fs h) base)
          then Inl (''Symlink target '' @ path_text resolved @ '' is outside workspace '' @ path_text base)
          else Inr resolved))"

definition remap_projects_docs_trap :: "tool_host \<Rightarrow> fpath \<Rightarrow> fpath" where
  "remap_projects_docs_trap h resolved = (let fs = th_fs h in
     case configured_safe_root h of
       None \<Rightarrow> resolved
     | Some safe \<Rightarrow>
         (let trap = fv_resolve fs (below safe [''docs'']) in
          if \<not> relative_to resolved trap then resolved
          else case (case th_session_ws h of Some ws \<Rightarrow> Some ws | None \<Rightarrow> th_default_ws h) of
            None \<Rightarrow> resolved
          | Some ws \<Rightarrow>
              (let candidate = fv_resolve fs (below ws (''docs'' # rel_parts resolved trap)) in
               if fv_exists fs candidate then candidate
               else if \<not> fv_exists fs resolved then candidate else resolved)))"

definition readable_tool_result :: "tool_host \<Rightarrow> fpath \<Rightarrow> bool" where
  "readable_tool_result h p = (case th_results_dir h of None \<Rightarrow> False
     | Some d \<Rightarrow> (let target = fv_resolve (th_fs h) p in fv_is_file (th_fs h) target \<and> relative_to target d))"

record path_verdict =
  pv_allowed :: bool
  pv_path :: fpath
  pv_error :: string

definition deny :: "fpath \<Rightarrow> string \<Rightarrow> path_verdict" where
  "deny p e = \<lparr>pv_allowed = False, pv_path = p, pv_error = e\<rparr>"

definition allow :: "fpath \<Rightarrow> path_verdict" where
  "allow p = \<lparr>pv_allowed = True, pv_path = p, pv_error = []\<rparr>"

definition override_allowed :: "tool_host \<Rightarrow> fpath \<Rightarrow> bool \<Rightarrow> approval_store \<Rightarrow> bool \<times> approval_store" where
  "override_allowed h p for_write st =
     (case check_external_path_override (th_perm h) (path_text p) for_write st of
        (Some d, st') \<Rightarrow> (pd_allowed d, st') | (None, st') \<Rightarrow> (False, st'))"

text \<open>The part of \<open>check_tool_path\<close> after the path is resolved.\<close>

definition judge_path :: "tool_host \<Rightarrow> fpath \<Rightarrow> fpath \<Rightarrow> bool \<Rightarrow> approval_store \<Rightarrow> path_verdict \<times> approval_store" where
  "judge_path h base p for_write st =
    (if sensitive_path_error h p for_write \<noteq> [] then (deny p (sensitive_path_error h p for_write), st)
     else if hooks_config_write_error h p base for_write \<noteq> []
     then (deny p (hooks_config_write_error h p base for_write), st)
     else if \<not> for_write \<and> readable_tool_result h p then (allow p, st)
     else if \<not> relative_to p base
     then (case override_allowed h p for_write st of
         (True, st') \<Rightarrow> (allow p, st')
       | (False, st') \<Rightarrow> (deny p (''Access denied: path is outside workspace ('' @ path_text base @ '')''), st'))
     else if hardlink_error (th_fs h) p \<noteq> [] then (deny p (hardlink_error (th_fs h) p), st)
     else let ws = (case th_session_ws h of Some w \<Rightarrow> w | None \<Rightarrow> base);
              blocked = butlerignore_blocked (th_fs h) p ws for_write in
       if blocked \<noteq> [] then (deny p blocked, st) else (allow p, st))"

definition anchored_to :: "tool_host \<Rightarrow> bool \<Rightarrow> fpath option" where
  "anchored_to h rel = (if rel \<and> (workspace_anchor_strict_for_paths (th_env h)
       \<or> project_relative_path_anchors_to_workspace (th_env h)) then th_session_ws h else None)"

definition path_base :: "tool_host \<Rightarrow> bool \<Rightarrow> fpath" where
  "path_base h rel = (case anchored_to h rel of Some ws \<Rightarrow> ws | None \<Rightarrow> tool_safe_root h)"

text \<open>A relative path that left the workspace is tried once more from the workspace.\<close>

definition retry_in_workspace :: "tool_host \<Rightarrow> string \<Rightarrow> bool \<Rightarrow> fpath \<Rightarrow> string + fpath" where
  "retry_in_workspace h raw rel resolved = (case anchored_to h rel of
       None \<Rightarrow> Inr resolved
     | Some ws \<Rightarrow>
         if relative_to resolved (fv_resolve (th_fs h) ws) then Inr resolved
         else (case resolve_tool_path h raw ws of
             Inl e \<Rightarrow> Inl e
           | Inr alt \<Rightarrow> Inr (if relative_to alt (fv_resolve (th_fs h) ws) then alt else resolved)))"

definition check_tool_path :: "tool_host \<Rightarrow> string \<Rightarrow> bool \<Rightarrow> approval_store
    \<Rightarrow> (string + path_verdict) \<times> approval_store" where
  "check_tool_path h path for_write st = (let raw = str_or path ''.'' in
     if is_windows_absolute_path raw
     then (Inr (deny (parse_path raw) (''Access denied: Windows path is outside workspace ('' @ raw @ '')'')), st)
     else case expanduser (th_fs h) (parse_path raw) of
       None \<Rightarrow> (Inl ''Could not determine home directory.'', st)
     | Some p0 \<Rightarrow>
         (case resolve_tool_path h raw (path_base h (\<not> fst p0)) of
           Inl e \<Rightarrow> (Inl e, st)
         | Inr r \<Rightarrow> (case retry_in_workspace h raw (\<not> fst p0) r of
               Inl e \<Rightarrow> (Inl e, st)
             | Inr r' \<Rightarrow>
                 map_prod Inr id (judge_path h (path_base h (\<not> fst p0)) (remap_projects_docs_trap h r') for_write st))))"

end
