(* ===== verification/Terminal_Safety.thy ===== *)
theory Terminal_Safety
  imports Path_Safety
begin

text \<open>
  What the terminal tool may run (\<open>prepare_shell_command\<close> of \<open>tools/path_safety.py\<close>): the
  commands allowed by the profile, the flags that run other programs, the shell's own
  characters, and the paths a command names, each checked by \<open>check_tool_path\<close>.  A command
  runs without a shell, unless pipes are enabled and it has one.

  \<open>shlex.split\<close> is the state machine of \<open>Exec_Policy\<close>; the text of its \<open>ValueError\<close> is left out of
  the messages.
\<close>

section \<open>Allowed commands\<close>

definition base_terminal_commands :: "string list" where
  "base_terminal_commands = [''cat'', ''echo'', ''false'', ''find'', ''head'', ''ls'', ''pwd'', ''sleep'', ''tail'', ''true'']"

definition terminal_profiles :: "(string, string list) dict" where
  "terminal_profiles = [(''pilot'', [''python3'', ''bash'']),
     (''dev'', [''python3'', ''bash'', ''pytest'', ''git'', ''rg'', ''pip'', ''pip3'', ''npm'', ''npx'', ''make''])]"

definition profile_commands :: "string \<Rightarrow> string list" where
  "profile_commands name = (case dget terminal_profiles name of Some cs \<Rightarrow> cs | None \<Rightarrow> [])"

definition default_profile :: string where
  "default_profile = (''('' @ bytes [233, 187, 152, 232, 174, 164] @ '')'')"

definition allowed_terminal_commands :: "tool_host \<Rightarrow> string list" where
  "allowed_terminal_commands h = (let env = th_env h in
     base_terminal_commands
     @ profile_commands (lower (strip (getenv env ''BUTLER_TERMINAL_PROFILE'' default_profile)))
     @ (if th_role h = ''butler'' then profile_commands ''dev'' else [])
     @ filter (\<lambda>n. n \<noteq> []) (map strip (split_sep CHR '','' (replace_all '';'' '',''
         (strip (getenv env ''BUTLER_TERMINAL_ALLOWLIST_EXTRA'' [])))))
     @ (if switched_on (getenv env ''BUTLER_CC_BRIDGE'' ''0'') then [''claude''] else []))"

definition pipe_mode_enabled :: "os_env \<Rightarrow> bool" where
  "pipe_mode_enabled env \<longleftrightarrow> strip (getenv env ''BUTLER_TERMINAL_PIPE'' ''0'') = ''1''"

definition pipe_safe_commands :: "string list" where
  "pipe_safe_commands = [''grep'', ''rg'', ''wc'', ''head'', ''tail'', ''sort'', ''uniq'', ''tr'', ''cut'', ''awk'',
     ''sed'', ''cat'', ''tee'', ''xargs'', ''find'', ''ls'', ''echo'']"

section \<open>Single tokens\<close>

record command_verdict =
  cv_allowed :: bool
  cv_argv :: "string list"
  cv_error :: string
  cv_is_pipe :: bool

definition refuse :: "string \<Rightarrow> command_verdict" where
  "refuse e = \<lparr>cv_allowed = False, cv_argv = [], cv_error = e, cv_is_pipe = False\<rparr>"

definition accept :: "string list \<Rightarrow> bool \<Rightarrow> command_verdict" where
  "accept argv pipe = \<lparr>cv_allowed = True, cv_argv = argv, cv_error = [], cv_is_pipe = pipe\<rparr>"

definition find_flags :: "string list" where
  "find_flags = [''-exec'', ''-execdir'', ''-delete'', ''-ok'', ''-okdir'']"

definition find_flag :: "string \<Rightarrow> bool" where
  "find_flag t \<longleftrightarrow> t \<in> set find_flags
     \<or> list_ex (\<lambda>p. prefix p t) [''-exec='', ''-execdir='', ''-ok='', ''-okdir='']"

definition dangerous_search_flags :: "string \<Rightarrow> string list \<Rightarrow> string option" where
  "dangerous_search_flags name argv =
    (if name = ''find'' \<and> list_ex find_flag (tl argv)
     then Some (''find '' @ hd (split_sep CHR ''='' (hd (filter find_flag (tl argv))))
                 @ '' is not allowed in terminal commands'')
     else if name = ''rg'' \<and> list_ex (\<lambda>t. t = ''--pre'' \<or> prefix ''--pre='' t) (tl argv)
     then Some ''rg --pre executes arbitrary commands and is not allowed in terminal commands''
     else if name = ''grep'' \<and> list_ex (prefix ''--file='') (tl argv)
     then Some ''grep --file with embedded path is not allowed in terminal commands''
     else None)"

definition uses_dynamic_interpreter :: "string list \<Rightarrow> bool" where
  "uses_dynamic_interpreter argv = (let c = path_name (parse_path (hd argv)) in
     if c \<in> {''sh'', ''bash'', ''zsh'', ''fish''} \<and> ''-c'' \<in> set (tl argv) then True
     else c \<in> {''python'', ''python3'', ''node'', ''ruby'', ''perl'', ''php''}
       \<and> (''-c'' \<in> set (tl argv) \<or> ''-e'' \<in> set (tl argv)))"

definition shell_variable :: "string list \<Rightarrow> bool" where
  "shell_variable argv \<longleftrightarrow> list_ex (\<lambda>t. CHR ''$'' \<in> set t) argv"

section \<open>Shell characters\<close>

definition other_meta :: string where
  "other_meta = ''&;<>()'' @ bytes [96]"

definition shell_meta :: string where
  "shell_meta = CHR ''|'' # other_meta"

text \<open>\<open>re.sub(r"\s+" + literal, "", command)\<close> on the characters of the text.\<close>

function sub_redirect :: "string list \<Rightarrow> string list \<Rightarrow> string list" where
  "sub_redirect lit [] = []"
| "sub_redirect lit (c # cs) =
     (let after = dropWhile is_ws cs in
      if is_ws c \<and> prefix lit after then sub_redirect lit (drop (length lit) after)
      else c # sub_redirect lit cs)"
  by pat_completeness auto
termination
proof (relation "measure (length \<circ> snd)", goal_cases)
  case (2 lit c cs after)
  then show ?case using length_dropWhile_le [of is_ws cs] by simp
qed simp_all

definition strip_safe_io_redirections :: "string \<Rightarrow> string" where
  "strip_safe_io_redirections command =
     strip (concat (fold (\<lambda>lit. sub_redirect (cps lit)) [''2>/dev/null'', ''1>/dev/null'', ''2>&1''] (cps command)))"

definition has_shell_metacharacters :: "string \<Rightarrow> bool" where
  "has_shell_metacharacters command \<longleftrightarrow> list_ex (\<lambda>c. c \<in> set shell_meta) (strip_safe_io_redirections command)"

section \<open>Paths in a command\<close>

definition write_words :: "string list" where
  "write_words = [''>'', ''>>'', ''2>'', ''tee'', ''cp'', ''mv'', ''rm'', ''touch'', ''mkdir'', ''chmod'', ''chown'']"

text \<open>\<open>re.search(r"(^|\s)(word|...)(\s|$)", command)\<close>: one of the words stands alone.\<close>

definition looks_like_write_command :: "string \<Rightarrow> bool" where
  "looks_like_write_command command \<longleftrightarrow> list_ex (\<lambda>w. w \<in> set write_words) (split_white [] (cps command))"

text \<open>\<open>re.sub(r"^\d?>+", "", token)\<close>, for ASCII digits.\<close>

definition strip_redirect :: "string \<Rightarrow> string" where
  "strip_redirect t = (let body = (if t \<noteq> [] \<and> digit_val (hd t) \<noteq> None then tl t else t) in
     if prefix ''>'' body then dropWhile (\<lambda>c. c = CHR ''>'') body else t)"

definition names_path :: "string \<Rightarrow> bool" where
  "names_path t \<longleftrightarrow> prefix ''/'' t \<or> prefix ''~'' t \<or> slash \<in> set t"

definition token_candidate :: "string \<Rightarrow> string list" where
  "token_candidate token = (let t = strip token in
     if contains ''://'' t then [] else let u = strip_redirect t in
       if u \<in> {''.'', ''..''} \<or> names_path u then [u] else [])"

text \<open>
  \<open>re.finditer(r"(?<![\w.-])(?:~?/[^ \t\n\r'\"`;|&<>$()]+)", command)\<close>; the first argument says
  whether a path may start here.
\<close>

definition no_path_chars :: "string list" where
  "no_path_chars = map (\<lambda>n. bytes [n]) [32, 9, 10, 13, 39, 34, 96, 59, 124, 38, 60, 62, 36, 40, 41]"

definition path_char :: "string \<Rightarrow> bool" where
  "path_char u \<longleftrightarrow> u \<notin> set no_path_chars"

definition may_start_after :: "(string \<Rightarrow> bool) \<Rightarrow> string \<Rightarrow> bool" where
  "may_start_after word u \<longleftrightarrow> \<not> word_char word u \<and> u \<noteq> ''.'' \<and> u \<noteq> ''-''"

definition path_head :: "string list \<Rightarrow> nat" where
  "path_head cs = (if prefix [''/''] cs then 1 else if prefix [''~'', ''/''] cs then 2 else 0)"

function scan_paths :: "(string \<Rightarrow> bool) \<Rightarrow> bool \<Rightarrow> string list \<Rightarrow> string list" where
  "scan_paths word ok [] = []"
| "scan_paths word ok (c # cs) =
     (let k = path_head (c # cs); rest = drop k (c # cs) in
      if ok \<and> 0 < k \<and> rest \<noteq> [] \<and> path_char (hd rest)
      then concat (take k (c # cs) @ takeWhile path_char rest) #
             scan_paths word (may_start_after word (last (takeWhile path_char rest))) (dropWhile path_char rest)
      else scan_paths word (may_start_after word c) cs)"
  by pat_completeness auto
termination
proof (relation "measure (\<lambda>(w, ok, cs). length cs)", goal_cases)
  case (2 word ok c cs k rest)
  then show ?case using length_dropWhile_le [of path_char "drop k (c # cs)"] by auto
qed simp_all

definition strip_set :: "string \<Rightarrow> string \<Rightarrow> string" where
  "strip_set cs s = rev (dropWhile (\<lambda>c. c \<in> set cs) (rev (dropWhile (\<lambda>c. c \<in> set cs) s)))"

definition candidate_trim :: string where
  "candidate_trim = bytes [32, 39, 34, 9, 10, 13, 59, 124, 38, 60, 62, 96]"

fun first_seen :: "string list \<Rightarrow> string list \<Rightarrow> string list" where
  "first_seen seen [] = []"
| "first_seen seen (x # xs) = (if x \<noteq> [] \<and> x \<notin> set seen then x # first_seen (x # seen) xs
     else first_seen seen xs)"

definition extract_command_paths :: "(string \<Rightarrow> bool) \<Rightarrow> string \<Rightarrow> string list" where
  "extract_command_paths word command =
    (let tokens = (case shlex_split Between [] False command of Some ts \<Rightarrow> ts | None \<Rightarrow> split_white [] (cps command));
         found = filter (\<lambda>p. \<not> contains ''://'' p) (scan_paths word True (cps command)) in
     first_seen [] (map (strip_set candidate_trim) (concat (map token_candidate tokens) @ found)))"

definition existing_argv_paths :: "tool_host \<Rightarrow> string list \<Rightarrow> string list" where
  "existing_argv_paths h tokens = filter (\<lambda>t. t \<noteq> [] \<and> \<not> prefix ''-'' t \<and> \<not> contains ''://'' t
     \<and> \<not> names_path t \<and> fv_exists (th_fs h) (path_join (tool_safe_root h) (parse_path t))) tokens"

section \<open>The check of a command\<close>

text \<open>The paths in turn: nothing when all are allowed, or the verdict of the first that is not.\<close>

fun check_paths :: "tool_host \<Rightarrow> bool \<Rightarrow> string list \<Rightarrow> approval_store
    \<Rightarrow> (string + path_verdict option) \<times> approval_store" where
  "check_paths h w [] st = (Inr None, st)"
| "check_paths h w (p # ps) st = (case check_tool_path h p w st of
       (Inl e, st') \<Rightarrow> (Inl e, st')
     | (Inr v, st') \<Rightarrow> if pv_allowed v then check_paths h w ps st' else (Inr (Some v), st'))"

definition validate_pipe_segment :: "string list \<Rightarrow> string \<Rightarrow> command_verdict" where
  "validate_pipe_segment allowed segment = (let seg = strip segment in
     if seg = [] then refuse ''Empty pipe segment''
     else case shlex_split Between [] False seg of
       None \<Rightarrow> refuse ''Invalid pipe segment''
     | Some argv \<Rightarrow>
         if argv = [] then refuse ''Empty pipe segment''
         else let name = path_name (parse_path (hd argv)) in
           if slash \<in> set (hd argv) \<or> name \<notin> set (allowed @ pipe_safe_commands)
           then refuse (''Pipe segment command '' @ bytes [39] @ name @ bytes [39] @ '' not in allowlist'')
           else (case dangerous_search_flags name argv of
             Some e \<Rightarrow> refuse e
           | None \<Rightarrow>
               if uses_dynamic_interpreter argv then refuse ''Dynamic interpreter in pipe segment''
               else if shell_variable argv then refuse ''Shell variables in pipe segment''
               else accept argv False))"

definition path_refusal :: "(string + path_verdict option) \<Rightarrow> command_verdict \<Rightarrow> string + command_verdict" where
  "path_refusal r ok = (case r of Inl e \<Rightarrow> Inl e | Inr None \<Rightarrow> Inr ok | Inr (Some v) \<Rightarrow> Inr (refuse (pv_error v)))"

definition prepare_pipe :: "tool_host \<Rightarrow> string \<Rightarrow> approval_store \<Rightarrow> (string + command_verdict) \<times> approval_store" where
  "prepare_pipe h command st = (let segments = split_sep CHR ''|'' command;
       refused = filter (\<lambda>v. \<not> cv_allowed v) (map (validate_pipe_segment (allowed_terminal_commands h)) segments) in
     if 5 < length segments then (Inr (refuse ''Too many pipe segments (max 5)''), st)
     else if refused \<noteq> [] then (Inr (hd refused), st)
     else case check_paths h (looks_like_write_command command) (extract_command_paths (th_word h) command) st of
       (r, st') \<Rightarrow> (path_refusal r (accept [''bash'', ''-c'', command] True), st'))"

definition token_error :: "tool_host \<Rightarrow> string \<Rightarrow> string list \<Rightarrow> string" where
  "token_error h command argv =
    (let name = path_name (parse_path (hd argv)) in
     if slash \<in> set (hd argv) \<or> name \<notin> set (allowed_terminal_commands h)
     then ''Terminal command is not in the allowlist''
     else case dangerous_search_flags name argv of
       Some e \<Rightarrow> e
     | None \<Rightarrow>
         if has_shell_metacharacters command then ''Shell metacharacters are not allowed in terminal commands''
         else if uses_dynamic_interpreter argv then ''Dynamic interpreter commands are not allowed''
         else if shell_variable argv then ''Shell variables are not allowed in terminal commands''
         else [])"

definition prepare_plain :: "tool_host \<Rightarrow> string \<Rightarrow> approval_store \<Rightarrow> (string + command_verdict) \<times> approval_store" where
  "prepare_plain h command st = (case shlex_split Between [] False command of
       None \<Rightarrow> (Inr (refuse ''Invalid shell command''), st)
     | Some argv \<Rightarrow>
         if argv = [] then (Inr (refuse ''Command is empty''), st)
         else if token_error h command argv \<noteq> [] then (Inr (refuse (token_error h command argv)), st)
         else (case check_paths h (looks_like_write_command command)
                   (extract_command_paths (th_word h) command @ existing_argv_paths h (tl argv)) st of
             (r, st') \<Rightarrow> (path_refusal r (accept argv False), st')))"

definition prepare_shell_command :: "tool_host \<Rightarrow> string \<Rightarrow> approval_store
    \<Rightarrow> (string + command_verdict) \<times> approval_store" where
  "prepare_shell_command h command st =
    (if CHR ''|'' \<in> set command \<and> pipe_mode_enabled (th_env h) \<and> \<not> list_ex (\<lambda>c. c \<in> set other_meta) command
     then prepare_pipe h command st else prepare_plain h command st)"

end
