(* ===== verification/Path_Safety_Props.thy ===== *)
theory Path_Safety_Props
  imports Terminal_Safety
begin

text \<open>
  What the checks of \<open>Path_Safety\<close> and \<open>Terminal_Safety\<close> let through, and what they miss: a
  second line behind a pipe, an absolute path glued to a short option, and files of other
  projects under the environment root.
\<close>

section \<open>Paths\<close>

definition permitted :: "tool_host \<Rightarrow> fpath \<Rightarrow> fpath \<Rightarrow> bool \<Rightarrow> approval_store \<Rightarrow> bool" where
  "permitted h base p w st \<longleftrightarrow>
     (relative_to p base \<and> hardlink_error (th_fs h) p = []
        \<and> butlerignore_blocked (th_fs h) p (case th_session_ws h of Some ws \<Rightarrow> ws | None \<Rightarrow> base) w = [])
     \<or> (\<not> w \<and> readable_tool_result h p) \<or> (\<not> relative_to p base \<and> fst (override_allowed h p w st))"

lemma judge_path_allowed:
  assumes "judge_path h base p w st = (v, st')" "pv_allowed v"
  shows "pv_path v = p \<and> sensitive_path_error h p w = [] \<and> hooks_config_write_error h p base w = []
     \<and> permitted h base p w st"
  using assms
  by (auto simp: judge_path_def permitted_def deny_def allow_def Let_def split: if_splits prod.splits bool.splits)

lemma check_tool_path_judges:
  assumes "check_tool_path h path w st = (Inr v, st')" "pv_allowed v"
  shows "\<not> is_windows_absolute_path (str_or path ''.'') \<and>
     (\<exists>p0 q. expanduser (th_fs h) (parse_path (str_or path ''.'')) = Some p0
        \<and> judge_path h (path_base h (\<not> fst p0)) q w st = (v, st'))"
  using assms
  by (auto simp: check_tool_path_def deny_def Let_def map_prod_def split: if_splits option.splits sum.splits prod.splits)
    (metis surj_pair)

lemma not_sensitive:
  "sensitive_path_error h p w = [] \<longleftrightarrow>
     (\<forall>d\<in>set (sensitive_dirs (th_home h) w). \<not> relative_to p (fv_resolve (th_fs h) d))
     \<and> p \<notin> fv_resolve (th_fs h) ` set (sensitive_files (th_home h) w)"
  by (auto simp: sensitive_path_error_def list_ex_iff)

text \<open>Three of the protected patterns, over the characters of the relative path.\<close>

lemma glob_star: "glob [''*''] s"
  by (induction s) simp_all

lemma glob_stars: "glob [''*'', ''*''] s"
  by (cases s) (simp_all add: glob_star)

lemma glob_step: "p \<notin> {''*'', ''?'', ''[''} \<Longrightarrow> glob (p # ps) (p # cs) = glob ps cs"
  by simp

lemma pattern_hooks:
  "matches_ignore_pattern rel ''.git/hooks/**'' \<longleftrightarrow> fnmatch rel ''.git/hooks/**'' \<or> fnmatch rel ''.git/hooks/*''"
proof -
  have s: "strip ''.git/hooks/**'' = ''.git/hooks/**''" by code_simp
  have r: "replace_all [backslash] [slash] ''.git/hooks/**'' = ''.git/hooks/**''" by code_simp
  have t: "replace_all ''**'' ''*'' ''.git/hooks/**'' = ''.git/hooks/*''" by code_simp
  have c: "contains ''**'' ''.git/hooks/**''" by code_simp
  show ?thesis unfolding matches_ignore_pattern_def Let_def s r by (simp add: c t slash_def)
qed

lemma hooks_are_protected:
  assumes "prefix (cps ''.git/hooks/'') (cps rel)"
  shows "matches_ignore_pattern rel ''.git/hooks/**''"
proof -
  obtain x where rel: "cps rel = cps ''.git/hooks/'' @ x" using assms by (auto simp: prefix_def)
  have "cps ''.git/hooks/**'' = cps ''.git/hooks/'' @ [''*'', ''*'']" by code_simp
  moreover have "cps ''.git/hooks/'' = [''.'', ''g'', ''i'', ''t'', ''/'', ''h'', ''o'', ''o'', ''k'', ''s'', ''/'']"
    by code_simp
  ultimately have "fnmatch rel ''.git/hooks/**''"
    unfolding fnmatch_def rel by (simp del: glob.simps(3) add: glob_step glob_stars)
  then show ?thesis by (simp add: pattern_hooks)
qed

lemma exact_patterns:
  "matches_ignore_pattern ''.env'' ''.env''" "matches_ignore_pattern ''.git/config'' ''.git/config''"
  by code_simp+

lemma write_protects:
  assumes "butlerignore_blocked fs p ws True = []" "rel_posix fs p ws = Some rel"
  shows "rel \<noteq> ''.env'' \<and> rel \<noteq> ''.git/config'' \<and> \<not> prefix (cps ''.git/hooks/'') (cps rel)"
proof -
  have "\<forall>g\<in>set protected_write_globs. \<not> matches_ignore_pattern rel g"
    using assms by (auto simp: butlerignore_blocked_def is_protected_write_path_def list_ex_iff split: if_splits)
  then show ?thesis using exact_patterns hooks_are_protected
    by (fastforce simp: protected_write_globs_def)
qed

text \<open>
  C6: A path that \<open>check_tool_path\<close> allows is in no sensitive place of the host.  For a write it
  is no hook configuration either, and within the base it is not the environment file, the
  configuration or a hook of the repository of the workspace.  It lies below the base unless a
  rule for outside paths allows it, or it is a stored tool result that is only read.
\<close>

theorem path_check_sound:
  assumes "check_tool_path h path w st = (Inr v, st')" "pv_allowed v"
    and "expanduser (th_fs h) (parse_path (str_or path ''.'')) = Some p0" "base = path_base h (\<not> fst p0)"
  shows "(\<forall>d\<in>set (sensitive_dirs (th_home h) w). \<not> relative_to (pv_path v) (fv_resolve (th_fs h) d))
     \<and> pv_path v \<notin> fv_resolve (th_fs h) ` set (sensitive_files (th_home h) w)
     \<and> hooks_config_write_error h (pv_path v) base w = []
     \<and> (relative_to (pv_path v) base \<or> \<not> w \<and> readable_tool_result h (pv_path v)
          \<or> fst (override_allowed h (pv_path v) w st))
     \<and> (w \<and> relative_to (pv_path v) base \<longrightarrow>
          (case rel_posix (th_fs h) (pv_path v) (case th_session_ws h of Some ws \<Rightarrow> ws | None \<Rightarrow> base) of
             Some rel \<Rightarrow> rel \<noteq> ''.env'' \<and> rel \<noteq> ''.git/config'' \<and> \<not> prefix (cps ''.git/hooks/'') (cps rel)
           | None \<Rightarrow> True))"
proof -
  obtain q where j: "judge_path h base q w st = (v, st')"
    using check_tool_path_judges [OF assms(1,2)] assms(3,4) by auto
  note ok = judge_path_allowed [OF j assms(2)]
  have "w \<and> relative_to (pv_path v) base \<Longrightarrow>
      butlerignore_blocked (th_fs h) (pv_path v) (case th_session_ws h of Some ws \<Rightarrow> ws | None \<Rightarrow> base) True = []"
    using ok by (auto simp: permitted_def)
  note kept = write_protects [OF this]
  show ?thesis
  proof (intro conjI impI)
    show "\<forall>d\<in>set (sensitive_dirs (th_home h) w). \<not> relative_to (pv_path v) (fv_resolve (th_fs h) d)"
      "pv_path v \<notin> fv_resolve (th_fs h) ` set (sensitive_files (th_home h) w)"
      "hooks_config_write_error h (pv_path v) base w = []" using ok not_sensitive by auto
    show "relative_to (pv_path v) base \<or> \<not> w \<and> readable_tool_result h (pv_path v)
        \<or> fst (override_allowed h (pv_path v) w st)" using ok by (auto simp: permitted_def)
  qed (use kept in \<open>auto split: option.split\<close>)
qed

section \<open>A host\<close>

definition plain_fs :: fs_view where
  "plain_fs = \<lparr>fv_resolve = id, fv_symlink = (\<lambda>_. False), fv_exists = (\<lambda>_. False), fv_is_file = (\<lambda>_. False),
     fv_nlink = (\<lambda>_. None), fv_user = (\<lambda>_. None), fv_text = (\<lambda>_. None)\<rparr>"

definition silent_perm :: perm_env where
  "silent_perm = \<lparr>pe_approvals = \<lparr>ae_lib = \<lparr>lib_loads = (\<lambda>_. None), lib_dumps = pyrepr, lib_sha256 = id\<rparr>,
       ae_os = (\<lambda>_. None), ae_float = (\<lambda>_. None)\<rparr>,
     pe_yaml = Missing, pe_yml = Missing, pe_project = Missing, pe_has_workspace = False,
     pe_place = (\<lambda>_. Unresolved), pe_session_result = (\<lambda>_. False), pe_regex = (\<lambda>_ _. Inr False),
     pe_regex_i = (\<lambda>_ _. Inr False), pe_step = None, pe_hook = (\<lambda>_ _ _. None), pe_session_key = [], pe_now = 0\<rparr>"

definition two_projects :: "(string \<times> string) list \<Rightarrow> tool_host" where
  "two_projects env = \<lparr>th_env = map_of env, th_fs = plain_fs, th_session_ws = Some (True, [''r'', ''a'']),
     th_default_ws = None, th_projects_parent = (True, [''r'']), th_cwd = (True, [''r'']), th_home = (True, [''h'']),
     th_butler_home = (True, [''h'']), th_results_dir = None, th_perm = silent_perm, th_role = [],
     th_word = (\<lambda>_. False)\<rparr>"

definition write_note :: path_verdict where
  "write_note = allow (True, [''r'', ''a'', ''n''])"

lemma note_allowed: "check_tool_path (two_projects []) ''n'' True [] = (Inr write_note, [])"
  by code_simp

lemma note_path:
  "expanduser (th_fs (two_projects [])) (parse_path (str_or ''n'' ''.'')) = Some (False, [''n''])"
  "pv_allowed write_note" "relative_to (pv_path write_note) (path_base (two_projects []) True)"
  by code_simp+

theorem path_check_sound_witness:
  "check_tool_path (two_projects []) ''n'' True [] = (Inr write_note, []) \<and> pv_allowed write_note
   \<and> pv_path write_note \<notin> fv_resolve plain_fs ` set (sensitive_files (True, [''h'']) True)
   \<and> rel_posix plain_fs (pv_path write_note) (True, [''r'', ''a'']) \<noteq> Some ''.env''"
  using path_check_sound [OF note_allowed note_path(2) note_path(1) refl] note_path note_allowed
  by (auto simp: two_projects_def split: option.splits)

text \<open>The files of another project under the environment root have no such protection.\<close>

lemma other_project_unprotected:
  "fst (check_tool_path (two_projects []) ''/r/b/.env'' True []) = Inr (allow (True, [''r'', ''b'', ''.env'']))
   \<and> pv_allowed (projr (fst (check_tool_path (two_projects []) ''.env'' True []))) = False"
  by code_simp

section \<open>Commands\<close>

lemma check_paths_all:
  "check_paths h w ps st = (Inr None, st') \<Longrightarrow>
     \<forall>p\<in>set ps. \<exists>s s' u. check_tool_path h p w s = (Inr u, s') \<and> pv_allowed u"
proof (induction ps arbitrary: st)
  case (Cons p ps)
  obtain u s' where c: "check_tool_path h p w st = (Inr u, s')" "pv_allowed u" "check_paths h w ps s' = (Inr None, st')"
    using Cons.prems by (auto split: prod.splits sum.splits if_splits)
  then show ?case using Cons.IH [OF c(3)] by auto
qed simp

lemma path_refusal_allowed:
  "path_refusal r ok = Inr v \<Longrightarrow> cv_allowed v \<Longrightarrow> cv_allowed ok \<Longrightarrow> r = Inr None \<and> v = ok"
  by (auto simp: path_refusal_def refuse_def split: sum.splits option.splits)

lemma prepare_plain_allowed:
  assumes "prepare_plain h command st = (Inr v, st')" "cv_allowed v"
  shows "shlex_split Between [] False command = Some (cv_argv v) \<and> cv_argv v \<noteq> [] \<and> \<not> cv_is_pipe v
     \<and> token_error h command (cv_argv v) = []
     \<and> (\<exists>s. check_paths h (looks_like_write_command command) (extract_command_paths (th_word h) command
               @ existing_argv_paths h (tl (cv_argv v))) st = (Inr None, s))"
  using assms
  by (auto simp: prepare_plain_def refuse_def accept_def path_refusal_def
           split: option.splits if_splits prod.splits sum.splits)

lemma prepare_pipe_allowed:
  assumes "prepare_pipe h command st = (Inr v, st')" "cv_allowed v"
  shows "v = accept [''bash'', ''-c'', command] True \<and> length (split_sep CHR ''|'' command) \<le> 5
     \<and> (\<forall>s\<in>set (split_sep CHR ''|'' command). cv_allowed (validate_pipe_segment (allowed_terminal_commands h) s))
     \<and> (\<exists>s. check_paths h (looks_like_write_command command) (extract_command_paths (th_word h) command) st
            = (Inr None, s))"
proof -
  let ?vs = "map (validate_pipe_segment (allowed_terminal_commands h)) (split_sep CHR ''|'' command)"
  have n: "\<not> 5 < length (split_sep CHR ''|'' command)"
    using assms by (auto simp: prepare_pipe_def refuse_def Let_def)
  have r: "filter (\<lambda>v. \<not> cv_allowed v) ?vs = []"
  proof (rule ccontr)
    assume ne: "filter (\<lambda>v. \<not> cv_allowed v) ?vs \<noteq> []"
    then have "v = hd (filter (\<lambda>v. \<not> cv_allowed v) ?vs)"
      using assms(1) n unfolding prepare_pipe_def Let_def by simp
    then show False using assms(2) hd_in_set [OF ne] by auto
  qed
  obtain q s where q: "check_paths h (looks_like_write_command command) (extract_command_paths (th_word h) command) st = (q, s)"
    by (rule prod.exhaust)
  have "path_refusal q (accept [''bash'', ''-c'', command] True) = Inr v"
    using assms(1) n r q unfolding prepare_pipe_def Let_def by simp
  from path_refusal_allowed [OF this assms(2)] show ?thesis
    using n r q by (auto simp: accept_def filter_empty_conv)
qed

lemma token_error_Nil:
  "token_error h command argv = [] \<Longrightarrow> slash \<notin> set (hd argv)
     \<and> path_name (parse_path (hd argv)) \<in> set (allowed_terminal_commands h)
     \<and> (dangerous_search_flags (path_name (parse_path (hd argv))) argv = None
          \<or> dangerous_search_flags (path_name (parse_path (hd argv))) argv = Some [])
     \<and> (dangerous_search_flags (path_name (parse_path (hd argv))) argv = None \<longrightarrow>
          \<not> has_shell_metacharacters command \<and> \<not> uses_dynamic_interpreter argv \<and> \<not> shell_variable argv)"
  by (auto simp: token_error_def Let_def split: if_splits option.splits)

lemma search_flags_text: "dangerous_search_flags name argv \<noteq> Some []"
  by (simp add: dangerous_search_flags_def)

lemma segment_allowed:
  "cv_allowed (validate_pipe_segment allowed s) \<Longrightarrow>
     \<exists>argv. shlex_split Between [] False (strip s) = Some argv \<and> argv \<noteq> [] \<and> slash \<notin> set (hd argv)
       \<and> path_name (parse_path (hd argv)) \<in> set (allowed @ pipe_safe_commands)
       \<and> \<not> uses_dynamic_interpreter argv \<and> \<not> shell_variable argv"
  by (auto simp: validate_pipe_segment_def refuse_def Let_def split: if_splits option.splits)

text \<open>
  C7: A command that is allowed runs without a shell as its own tokens: the first is the bare
  name of an allowed command, no token has a dollar sign, the text has no shell character, and
  every path found in it was allowed by \<open>check_tool_path\<close>; or it is handed to a shell and has at
  most five segments between pipes, each beginning with an allowed or pipe-safe command.
\<close>

theorem accepted_command_checked:
  assumes "prepare_shell_command h command st = (Inr v, st')" "cv_allowed v"
  shows "list_all (\<lambda>p. \<exists>s s' u. check_tool_path h p (looks_like_write_command command) s = (Inr u, s') \<and> pv_allowed u)
         (extract_command_paths (th_word h) command) \<and>
    (if cv_is_pipe v
     then cv_argv v = [''bash'', ''-c'', command] \<and> length (split_sep CHR ''|'' command) \<le> 5 \<and>
       list_all (\<lambda>s. \<exists>argv. shlex_split Between [] False (strip s) = Some argv \<and> argv \<noteq> [] \<and> slash \<notin> set (hd argv)
          \<and> path_name (parse_path (hd argv)) \<in> set (allowed_terminal_commands h @ pipe_safe_commands)
          \<and> \<not> uses_dynamic_interpreter argv \<and> \<not> shell_variable argv) (split_sep CHR ''|'' command)
     else shlex_split Between [] False command = Some (cv_argv v) \<and> cv_argv v \<noteq> [] \<and> slash \<notin> set (hd (cv_argv v))
       \<and> path_name (parse_path (hd (cv_argv v))) \<in> set (allowed_terminal_commands h)
       \<and> \<not> has_shell_metacharacters command \<and> \<not> uses_dynamic_interpreter (cv_argv v) \<and> \<not> shell_variable (cv_argv v))"
proof (cases "CHR ''|'' \<in> set command \<and> pipe_mode_enabled (th_env h) \<and> \<not> list_ex (\<lambda>c. c \<in> set other_meta) command")
  case True
  then have p: "prepare_pipe h command st = (Inr v, st')"
    using assms(1) by (simp add: prepare_shell_command_def)
  note ok = prepare_pipe_allowed [OF p assms(2)]
  then show ?thesis using check_paths_all segment_allowed by (fastforce simp: list_all_iff accept_def)
next
  case False
  then have p: "prepare_plain h command st = (Inr v, st')"
    using assms(1) unfolding prepare_shell_command_def by argo
  note ok = prepare_plain_allowed [OF p assms(2)]
  have t: "slash \<notin> set (hd (cv_argv v)) \<and> path_name (parse_path (hd (cv_argv v))) \<in> set (allowed_terminal_commands h)
      \<and> \<not> has_shell_metacharacters command \<and> \<not> uses_dynamic_interpreter (cv_argv v) \<and> \<not> shell_variable (cv_argv v)"
    using token_error_Nil [of h command "cv_argv v"] ok search_flags_text by fastforce
  obtain s where "check_paths h (looks_like_write_command command)
      (extract_command_paths (th_word h) command @ existing_argv_paths h (tl (cv_argv v))) st = (Inr None, s)"
    using ok by blast
  from check_paths_all [OF this] show ?thesis using ok t by (simp add: list_all_iff)
qed

section \<open>What the check of a command misses\<close>

lemma path_head_0: "slash \<notin> set (concat cs) \<Longrightarrow> path_head cs = 0"
  by (cases cs; cases "tl cs") (auto simp: path_head_def slash_def prefix_def)

lemma scan_paths_none: "slash \<notin> set (concat cs) \<Longrightarrow> scan_paths word ok cs = []"
proof (induction cs arbitrary: ok)
  case (Cons c cs)
  then show ?case using path_head_0 [of "c # cs"] by simp
qed simp

definition two_lines :: string where
  "two_lines = ''ls | cat'' @ nl @ ''rm notes''"

lemma two_lines_paths: "extract_command_paths word two_lines = []"
proof -
  have "shlex_split Between [] False two_lines = Some [''ls'', ''|'', ''cat'', ''rm'', ''notes'']"
    "concat (map token_candidate [''ls'', ''|'', ''cat'', ''rm'', ''notes'']) = []" "slash \<notin> set two_lines"
    by code_simp+
  then show ?thesis by (simp add: extract_command_paths_def scan_paths_none)
qed

lemma two_lines_segments: "split_sep CHR ''|'' two_lines = [''ls '', '' cat'' @ nl @ ''rm notes'']"
  by code_simp

lemma segment_ok:
  assumes "strip s = seg" "seg \<noteq> []" "shlex_split Between [] False seg = Some argv" "argv \<noteq> []"
    "slash \<notin> set (hd argv)" "path_name (parse_path (hd argv)) \<in> set pipe_safe_commands"
    "dangerous_search_flags (path_name (parse_path (hd argv))) argv = None"
    "\<not> uses_dynamic_interpreter argv" "\<not> shell_variable argv"
  shows "cv_allowed (validate_pipe_segment allowed s)"
  using assms by (simp add: validate_pipe_segment_def accept_def)

lemma two_lines_allowed:
  "cv_allowed (validate_pipe_segment allowed ''ls '')"
  "cv_allowed (validate_pipe_segment allowed ('' cat'' @ nl @ ''rm notes''))"
  by (rule segment_ok [where seg = "''ls''" and argv = "[''ls'']"]; code_simp)
     (rule segment_ok [where seg = "''cat'' @ nl @ ''rm notes''" and argv = "[''cat'', ''rm'', ''notes'']"]; code_simp)

lemma two_lines_piped:
  "CHR ''|'' \<in> set two_lines \<and> \<not> list_ex (\<lambda>c. c \<in> set other_meta) two_lines"
  by code_simp

lemma rm_refused:
  assumes "''rm'' \<notin> set (allowed_terminal_commands h)"
  shows "prepare_shell_command h ''rm notes'' st = (Inr (refuse ''Terminal command is not in the allowlist''), st)"
proof -
  have s: "shlex_split Between [] False ''rm notes'' = Some [''rm'', ''notes'']"
    and n: "path_name (parse_path ''rm'') = ''rm''" and b: "CHR ''|'' \<notin> set ''rm notes''" by code_simp+
  have t: "token_error h ''rm notes'' [''rm'', ''notes''] = ''Terminal command is not in the allowlist''"
    unfolding token_error_def Let_def list.sel n using assms by (simp only: if_True de_Morgan_conj simp_thms)
  have "prepare_plain h ''rm notes'' st = (Inr (refuse ''Terminal command is not in the allowlist''), st)"
    unfolding prepare_plain_def s option.case t by (simp only: list.distinct not_False_eq_True if_True if_False)
  then show ?thesis unfolding prepare_shell_command_def using b by (simp only: simp_thms if_False)
qed

text \<open>
  When pipes are enabled, a line feed after a pipe lets a second line through: the tokens of
  a segment treat the line feed as white space, but the shell that gets the whole text starts
  a new command there.  Alone the second line is refused.
\<close>

theorem newline_hides_command:
  assumes "pipe_mode_enabled (th_env h)" "''rm'' \<notin> set (allowed_terminal_commands h)"
  shows "prepare_shell_command h (''ls | cat'' @ nl @ ''rm notes'') st
        = (Inr (accept [''bash'', ''-c'', ''ls | cat'' @ nl @ ''rm notes''] True), st)
      \<and> splitlines (''ls | cat'' @ nl @ ''rm notes'') = [''ls | cat'', ''rm notes'']
      \<and> prepare_shell_command h ''rm notes'' st = (Inr (refuse ''Terminal command is not in the allowlist''), st)"
proof -
  have "prepare_shell_command h two_lines st = (Inr (accept [''bash'', ''-c'', two_lines] True), st)"
    using assms(1) two_lines_piped two_lines_allowed
    by (simp add: prepare_shell_command_def prepare_pipe_def two_lines_segments two_lines_paths path_refusal_def)
  moreover have "splitlines (''ls | cat'' @ nl @ ''rm notes'') = [''ls | cat'', ''rm notes'']" by code_simp
  ultimately show ?thesis using rm_refused [OF assms(2)] unfolding two_lines_def by blast
qed

theorem newline_hides_command_witness:
  "prepare_shell_command (two_projects [(''BUTLER_TERMINAL_PIPE'', ''1'')]) (''ls | cat'' @ nl @ ''rm notes'') []
     = (Inr (accept [''bash'', ''-c'', ''ls | cat'' @ nl @ ''rm notes''] True), [])"
proof -
  have "pipe_mode_enabled (th_env (two_projects [(''BUTLER_TERMINAL_PIPE'', ''1'')]))"
    "''rm'' \<notin> set (allowed_terminal_commands (two_projects [(''BUTLER_TERMINAL_PIPE'', ''1'')]))" by code_simp+
  from newline_hides_command [OF this] show ?thesis by blast
qed

definition dev_host :: tool_host where
  "dev_host = two_projects [(''BUTLER_TERMINAL_PROFILE'', ''dev'')]"

lemma plain_run:
  assumes "CHR ''|'' \<notin> set command" "shlex_split Between [] False command = Some argv" "argv \<noteq> []"
    "token_error h command argv = []" "extract_command_paths (th_word h) command = ps"
    "existing_argv_paths h (tl argv) = qs" "looks_like_write_command command = w"
    "check_paths h w (ps @ qs) st = (r, st')"
  shows "prepare_shell_command h command st = (path_refusal r (accept argv False), st')"
  using assms by (simp add: prepare_shell_command_def prepare_plain_def)

lemma dev_allowed: "''rg'' \<in> set (allowed_terminal_commands dev_host)" "''ls'' \<in> set (allowed_terminal_commands dev_host)"
  by code_simp+

lemma dev_run:
  assumes "CHR ''|'' \<notin> set command" "shlex_split Between [] False command = Some (name # args)"
    "name \<in> set (allowed_terminal_commands dev_host)" "slash \<notin> set name" "path_name (parse_path name) = name"
    "dangerous_search_flags name (name # args) = None" "\<not> has_shell_metacharacters command"
    "\<not> uses_dynamic_interpreter (name # args)" "\<not> shell_variable (name # args)"
    "extract_command_paths (th_word dev_host) command = ps" "existing_argv_paths dev_host args = []"
    "\<not> looks_like_write_command command" "check_paths dev_host False ps [] = (r, [])"
  shows "prepare_shell_command dev_host command [] = (path_refusal r (accept (name # args) False), [])"
  using assms plain_run [of command "name # args" dev_host] by (simp add: token_error_def)

text \<open>
  An absolute path glued to a short option is taken for a path below the base: the
  command that reads its patterns from the shadow file is allowed, although the same path as a
  token of its own is refused.
\<close>

theorem glued_option_hides_path:
  "prepare_shell_command dev_host ''rg -f/etc/shadow notes'' [] = (Inr (accept [''rg'', ''-f/etc/shadow'', ''notes''] False), [])
   \<and> prepare_shell_command dev_host ''rg -f /etc/shadow notes'' []
       = (Inr (refuse ''Access denied: path targets a sensitive location''), [])"
proof
  have "prepare_shell_command dev_host ''rg -f/etc/shadow notes'' []
      = (path_refusal (Inr None) (accept [''rg'', ''-f/etc/shadow'', ''notes''] False), [])"
    by (rule dev_run [OF _ _ dev_allowed(1), where ps = "[''-f/etc/shadow'']"]; code_simp)
  then show "prepare_shell_command dev_host ''rg -f/etc/shadow notes'' []
      = (Inr (accept [''rg'', ''-f/etc/shadow'', ''notes''] False), [])" by (simp add: path_refusal_def)
  have "prepare_shell_command dev_host ''rg -f /etc/shadow notes'' []
      = (path_refusal (Inr (Some (deny (True, [''etc'', ''shadow'']) ''Access denied: path targets a sensitive location'')))
           (accept [''rg'', ''-f'', ''/etc/shadow'', ''notes''] False), [])"
    by (rule dev_run [OF _ _ dev_allowed(1), where ps = "[''/etc/shadow'']"]; code_simp)
  then show "prepare_shell_command dev_host ''rg -f /etc/shadow notes'' []
      = (Inr (refuse ''Access denied: path targets a sensitive location''), [])"
    by (simp add: path_refusal_def deny_def)
qed

text \<open>The redirections the scan for shell characters forgives name a path outside the base.\<close>

lemma null_redirection_refused:
  "prepare_shell_command dev_host ''ls 2>/dev/null'' []
     = (Inr (refuse ''Access denied: path is outside workspace (/r)''), [])"
proof -
  have "prepare_shell_command dev_host ''ls 2>/dev/null'' []
      = (path_refusal (Inr (Some (deny (True, [''dev'', ''null'']) ''Access denied: path is outside workspace (/r)'')))
           (accept [''ls'', ''2>/dev/null''] False), [])"
    by (rule dev_run [OF _ _ dev_allowed(2), where ps = "[''/dev/null'']"]; code_simp)
  then show ?thesis by (simp add: path_refusal_def deny_def)
qed

definition listing :: command_verdict where
  "listing = accept [''ls'', ''a/b''] False"

lemma listing_allowed: "prepare_shell_command dev_host ''ls a/b'' [] = (Inr listing, [])" "cv_allowed listing"
proof -
  have "prepare_shell_command dev_host ''ls a/b'' [] = (path_refusal (Inr None) (accept [''ls'', ''a/b''] False), [])"
    by (rule dev_run [OF _ _ dev_allowed(2), where ps = "[''a/b'']"]; code_simp)
  then show "prepare_shell_command dev_host ''ls a/b'' [] = (Inr listing, [])"
    by (simp add: path_refusal_def listing_def)
qed code_simp

theorem accepted_command_checked_witness:
  "prepare_shell_command dev_host ''ls a/b'' [] = (Inr listing, []) \<and> cv_allowed listing
   \<and> extract_command_paths (th_word dev_host) ''ls a/b'' = [''a/b'']
   \<and> (\<exists>s s' u. check_tool_path dev_host ''a/b'' False s = (Inr u, s') \<and> pv_allowed u)
   \<and> shlex_split Between [] False ''ls a/b'' = Some (cv_argv listing)"
proof -
  have p: "extract_command_paths (th_word dev_host) ''ls a/b'' = [''a/b'']" "\<not> looks_like_write_command ''ls a/b''"
    "\<not> cv_is_pipe listing" by code_simp+
  from accepted_command_checked [OF listing_allowed] show ?thesis using p listing_allowed by simp
qed

end
