(* ===== verification/File_Edits.thy ===== *)
theory File_Edits
  imports Read_State Path_Safety
begin

text \<open>
  The lines with hash anchors (\<open>core/hashline.py\<close>), the edit of a file by replacing a piece of
  its text (\<open>_tool_patch\<close> of \<open>tools/file_io.py\<close>) and \<open>normalize_quotes\<close> of
  \<open>core/read_state.py\<close>.

  Texts are UTF-8, so searching bytes finds the same places as searching characters.  The raw
  SHA-256 digest, the letters and digits beyond ASCII, and decoding with replacement characters
  are parameters; so are the checked read and the atomic write of the file.  The formatter that may run on the file
  after a patch (\<open>maybe_format_after_edit_safe\<close>, off by default) is left out.
\<close>

section \<open>Searching\<close>

text \<open>The first occurrence: what stands before it and after it.\<close>

fun find_split :: "string \<Rightarrow> string \<Rightarrow> (string \<times> string) option" where
  "find_split p [] = (if p = [] then Some ([], []) else None)"
| "find_split p (c # cs) = (if prefix p (c # cs) then Some ([], drop (length p) (c # cs))
     else map_option (\<lambda>(b, a). (c # b, a)) (find_split p cs))"

lemma find_split_Some: "find_split p s = Some (b, a) \<Longrightarrow> s = b @ p @ a"
  by (induction p s arbitrary: b rule: find_split.induct) (auto simp: prefix_def split: if_splits)

lemma find_split_length: "find_split p s = Some (b, a) \<Longrightarrow> p \<noteq> [] \<Longrightarrow> length a < length s"
  by (drule find_split_Some) simp

text \<open>\<open>text.count(p)\<close>: occurrences that do not overlap; the empty text occurs around every character.\<close>

function occurrences :: "string \<Rightarrow> string \<Rightarrow> nat" where
  "occurrences p s = (if p = [] then 0
     else case find_split p s of None \<Rightarrow> 0 | Some (b, a) \<Rightarrow> Suc (occurrences p a))"
  by pat_completeness auto
termination
  by (relation "measure (length \<circ> snd)") (auto dest: find_split_length)

declare occurrences.simps [simp del]

definition text_count :: "string \<Rightarrow> string \<Rightarrow> nat" where
  "text_count p s = (if p = [] then Suc (ulen s) else occurrences p s)"

text \<open>\<open>text.replace(old, new, 1)\<close>.\<close>

definition replace_first :: "string \<Rightarrow> string \<Rightarrow> string \<Rightarrow> string" where
  "replace_first old new s = (case find_split old s of None \<Rightarrow> s | Some (b, a) \<Rightarrow> b @ new @ a)"

definition normalize_quotes :: "string \<Rightarrow> string" where
  "normalize_quotes s = fold (\<lambda>(q, r). replace_all (bytes q) (bytes r))
     [([226, 128, 156], [34]), ([226, 128, 157], [34]), ([226, 128, 152], [39]), ([226, 128, 153], [39])] s"

section \<open>Hash anchors\<close>

definition base_chars :: string where
  "base_chars = ''0123456789ABCDEFGHIJKLMNOPQRSTUVWXYZabcdefghijklmnopqrstuvwxyz''
     @ ''+-^*[]{}()<>?@#$%&!~'' @ bytes [96] @ ''|'' @ [backslash] @ ''/_=.;:,''"

definition hashline_dict :: string where
  "hashline_dict = take 256 (concat (replicate 8 base_chars))"

record hash_host =
  hh_env :: os_env
  hh_digest :: "string \<Rightarrow> string"        \<comment> \<open>\<open>sha256(...).digest()\<close>\<close>
  hh_word :: "string \<Rightarrow> bool"            \<comment> \<open>letters and digits beyond ASCII\<close>

definition hashline_read_enabled :: "hash_host \<Rightarrow> bool" where
  "hashline_read_enabled hh = env_truthy (hh_env hh) ''BUTLER_HASHLINE_READ'' False"

definition hashline_patch_enabled :: "hash_host \<Rightarrow> bool" where
  "hashline_patch_enabled hh = env_truthy (hh_env hh) ''BUTLER_HASHLINE_PATCH'' True"

definition rstrip :: "string \<Rightarrow> string" where
  "rstrip s = concat (rev (dropWhile is_ws (rev (cps s))))"

definition big_endian :: "string \<Rightarrow> nat" where
  "big_endian bs = foldl (\<lambda>n b. 256 * n + of_char b) 0 bs"

definition compute_line_hash :: "hash_host \<Rightarrow> nat \<Rightarrow> string \<Rightarrow> char" where
  "compute_line_hash hh n content =
    (let normalized = rstrip (filter (\<lambda>c. c \<noteq> CHR 0x0D) content);
         seed = (if list_ex (word_char (hh_word hh)) (cps normalized) then 0 else n);
         digest = hh_digest hh (str_of_nat seed @ '':'' @ normalized)
     in hashline_dict ! (big_endian (take 4 digest) mod 256))"

definition format_hash_line :: "hash_host \<Rightarrow> nat \<Rightarrow> string \<Rightarrow> string" where
  "format_hash_line hh n content = str_of_nat n @ ''#'' @ [compute_line_hash hh n content] @ ''|'' @ content"

text \<open>The lines from number \<open>n\<close> on.\<close>

fun hash_lines :: "hash_host \<Rightarrow> nat \<Rightarrow> string list \<Rightarrow> string list" where
  "hash_lines hh n [] = []"
| "hash_lines hh n (l # ls) = format_hash_line hh n l # hash_lines hh (Suc n) ls"

definition format_hash_lines :: "hash_host \<Rightarrow> string \<Rightarrow> string" where
  "format_hash_lines hh s = (if s = [] then [] else join nl (hash_lines hh 1 (split_sep (hd nl) s)))"

definition plain_line :: "nat \<Rightarrow> string \<Rightarrow> string" where
  "plain_line n l = replicate (6 - length (str_of_nat n)) CHR '' '' @ str_of_nat n @ ''|'' @ l"

fun plain_lines :: "nat \<Rightarrow> string list \<Rightarrow> string list" where
  "plain_lines n [] = []"
| "plain_lines n (l # ls) = plain_line n l # plain_lines (Suc n) ls"

definition format_read_output :: "hash_host \<Rightarrow> string list \<Rightarrow> nat \<Rightarrow> string" where
  "format_read_output hh ls start =
     join nl (if hashline_read_enabled hh then hash_lines hh start ls else plain_lines start ls)"

text \<open>One line against \<open>^(\d+)#([^|]+)\|(.*)$\<close>, for ASCII digits.\<close>

definition is_digit :: "char \<Rightarrow> bool" where
  "is_digit c \<longleftrightarrow> digit_val c \<noteq> None"

definition parse_anchor :: "string \<Rightarrow> (nat \<times> string) option" where
  "parse_anchor line = (let ds = takeWhile is_digit line; h = tl (dropWhile is_digit line) in
     if ds \<noteq> [] \<and> prefix ''#'' (dropWhile is_digit line)
        \<and> takeWhile (\<lambda>c. c \<noteq> CHR ''|'') h \<noteq> [] \<and> CHR ''|'' \<in> set h
     then map_option (\<lambda>n. (n, takeWhile (\<lambda>c. c \<noteq> CHR ''|'') h)) (digits_val 0 False ds)
     else None)"

definition extract_anchors_from_old_string :: "string \<Rightarrow> (nat \<times> string) list" where
  "extract_anchors_from_old_string old = concat (map (\<lambda>l. case parse_anchor l of Some a \<Rightarrow> [a] | None \<Rightarrow> []) (splitlines old))"

datatype line_mismatch =
    Line_Out_Of_Range nat string
  | Hash_Differs nat string char string   \<comment> \<open>line, expected, actual, preview\<close>

definition check_anchor :: "hash_host \<Rightarrow> string list \<Rightarrow> nat \<times> string \<Rightarrow> line_mismatch list" where
  "check_anchor hh lines = (\<lambda>(n, expected).
     if n = 0 \<or> length lines < n then [Line_Out_Of_Range n expected]
     else let actual = compute_line_hash hh n (lines ! (n - 1)) in
       if [actual] \<noteq> expected then [Hash_Differs n expected actual (utake 80 (lines ! (n - 1)))] else [])"

datatype anchor_error = Hashline_Read_Fail string | Hashline_Mismatch "line_mismatch list"

text \<open>\<open>disk\<close> is the text of the file, read anew, or that of the \<open>OSError\<close>.\<close>

definition verify_line_anchors :: "hash_host \<Rightarrow> string + string \<Rightarrow> (nat \<times> string) list \<Rightarrow> anchor_error option" where
  "verify_line_anchors hh disk anchors =
    (if \<not> hashline_patch_enabled hh \<or> anchors = [] then None
     else case disk of
       Inl e \<Rightarrow> Some (Hashline_Read_Fail e)
     | Inr body \<Rightarrow>
         (let mismatches = concat (map (check_anchor hh (splitlines body)) anchors) in
          if mismatches = [] then None else Some (Hashline_Mismatch (take 5 mismatches))))"

section \<open>Patches\<close>

text \<open>The line number and the excerpt of the first matches, from \<open>before\<close> on.\<close>

definition match_excerpt :: "string \<Rightarrow> string \<Rightarrow> string" where
  "match_excerpt before rest = (let line = strip (rev (takeWhile (\<lambda>c. c \<noteq> hd nl) (rev before))
       @ takeWhile (\<lambda>c. c \<noteq> hd nl) rest) in
     if 120 < ulen line then utake 117 line @ ''...'' else line)"

fun match_list :: "nat \<Rightarrow> string \<Rightarrow> string \<Rightarrow> string \<Rightarrow> (nat \<times> string) list" where
  "match_list 0 p before rest = []"
| "match_list (Suc k) p before rest = (case find_split p rest of
       None \<Rightarrow> []
     | Some (b, a) \<Rightarrow> (Suc (count_list (before @ b) (hd nl)), match_excerpt (before @ b) (p @ a))
         # match_list k p (before @ b @ p) a)"

datatype patch_text_result =
    Old_Not_Found
  | Old_Not_Unique nat "(nat \<times> string) list"
  | New_Text string bool          \<comment> \<open>the new text, and whether quotes were normalised\<close>

definition patch_unique :: "string \<Rightarrow> string \<Rightarrow> string \<Rightarrow> bool \<Rightarrow> patch_text_result" where
  "patch_unique body old new fuzzy = (if 1 < text_count old body
     then Old_Not_Unique (text_count old body) (match_list 3 old [] body)
     else New_Text (replace_first old new body) fuzzy)"

definition patch_text :: "string \<Rightarrow> string \<Rightarrow> string \<Rightarrow> patch_text_result" where
  "patch_text body old new = (if text_count old body \<noteq> 0 then patch_unique body old new False
     else if text_count (normalize_quotes old) (normalize_quotes body) = 0 then Old_Not_Found
     else patch_unique (normalize_quotes body) (normalize_quotes old) (normalize_quotes new) True)"

datatype edit_reply =
    Edit_Guarded jval
  | Edit_Error string
  | Edit_Anchors anchor_error
  | Edit_Not_Found
  | Edit_Not_Unique nat "(nat \<times> string) list"
  | Edit_Written string bool string   \<comment> \<open>the path, the flag of fuzzy quotes, and the text written\<close>

record edit_host =
  eh_hash :: hash_host
  eh_lib :: py_lib
  eh_fs :: file_sys
  eh_safety :: "string \<Rightarrow> bool \<Rightarrow> bool \<times> string"
  eh_audit :: string
  eh_read :: "string \<Rightarrow> string + string \<times> string"      \<comment> \<open>\<open>_read_regular_file_bytes\<close>: bytes and path\<close>
  eh_decode :: "string \<Rightarrow> string"                 \<comment> \<open>\<open>decode("utf-8", errors="replace")\<close>\<close>
  eh_reread :: "string \<Rightarrow> string + string"        \<comment> \<open>\<open>read_text\<close> of the anchors' check\<close>
  eh_write :: "string \<Rightarrow> string \<Rightarrow> string + string" \<comment> \<open>\<open>_atomic_write_text\<close>: error or path\<close>

definition tool_patch :: "edit_host \<Rightarrow> string \<Rightarrow> string \<Rightarrow> string \<Rightarrow> read_states \<Rightarrow> edit_reply \<times> read_states" where
  "tool_patch eh path old new st =
    (case require_read_before_edit (hh_env (eh_hash eh)) (eh_lib eh) (eh_fs eh) (eh_safety eh) (eh_audit eh) path True st of
       (Some guard, st1) \<Rightarrow> (Edit_Guarded guard, st1)
     | (None, st1) \<Rightarrow>
         (case eh_read eh path of
            Inl e \<Rightarrow> (Edit_Error e, st1)
          | Inr (data, p) \<Rightarrow>
              (case verify_line_anchors (eh_hash eh) (eh_reread eh p) (extract_anchors_from_old_string old) of
                 Some e \<Rightarrow> (Edit_Anchors e, st1)
               | None \<Rightarrow>
                   (case patch_text (eh_decode eh data) old new of
                      Old_Not_Found \<Rightarrow> (Edit_Not_Found, st1)
                    | Old_Not_Unique n ms \<Rightarrow> (Edit_Not_Unique n ms, st1)
                    | New_Text body fuzzy \<Rightarrow>
                        (case eh_write eh path body of
                           Inl e \<Rightarrow> (Edit_Error e, st1)
                         | Inr written \<Rightarrow>
                             (Edit_Written written fuzzy body,
                              record_edit_path (eh_fs eh) (eh_audit eh) None written st1))))))"

end
