(* ===== verification/File_Edits_Props.thy ===== *)
theory File_Edits_Props
  imports File_Edits
begin

text \<open>
  Lines with hash anchors are read back as they were written, except those whose hash is the
  separator; a patch changes one place of the text it found, which with fuzzy quotes is not the
  text of the file.
\<close>

section \<open>Numbers\<close>

lemma digit_char_val: "d < 10 \<Longrightarrow> digit_val (digit_char d) = Some d"
  by (simp add: digit_val_def digit_char_def Let_def)

lemma digits_val_append:
  "digits_val acc dig (xs @ [digit_char d]) = (case digits_val acc dig xs of Some n \<Rightarrow> Some (10 * n + d) | None \<Rightarrow> None)"
  if "d < 10" "list_all is_digit xs" "xs \<noteq> [] \<or> dig"
  using that(2,3)
proof (induction xs arbitrary: acc dig)
  case Nil
  then show ?case using digit_char_val [OF that(1)] by simp
next
  case (Cons x xs)
  then obtain v where "digit_val x = Some v" by (auto simp: is_digit_def)
  with Cons show ?case by simp
qed

lemma str_of_nat_digits: "str_of_nat n \<noteq> [] \<and> list_all is_digit (str_of_nat n) \<and> digits_val 0 False (str_of_nat n) = Some n"
proof (induction n rule: str_of_nat.induct)
  case (1 n)
  show ?case
  proof (cases "n < 10")
    case True
    then show ?thesis by (subst (1 2 3) str_of_nat.simps) (simp add: is_digit_def digit_char_val)
  next
    case False
    with 1 have ih: "str_of_nat (n div 10) \<noteq> []" "list_all is_digit (str_of_nat (n div 10))"
      "digits_val 0 False (str_of_nat (n div 10)) = Some (n div 10)" by simp_all
    have e: "str_of_nat n = str_of_nat (n div 10) @ [digit_char (n mod 10)]"
      using False by (subst str_of_nat.simps) simp
    have "is_digit (digit_char (n mod 10))" by (simp add: is_digit_def digit_char_val)
    then show ?thesis using ih digits_val_append [of "n mod 10" "str_of_nat (n div 10)" False 0]
      by (simp add: e)
  qed
qed

section \<open>One line\<close>

lemma digit_span:
  "takeWhile is_digit (str_of_nat n @ CHR ''#'' # s) = str_of_nat n \<and> dropWhile is_digit (str_of_nat n @ CHR ''#'' # s) = CHR ''#'' # s"
proof -
  have "\<not> is_digit CHR ''#''" by code_simp
  then show ?thesis using str_of_nat_digits [of n] by (simp add: list_all_iff takeWhile_append2 dropWhile_append2)
qed

lemma parse_format:
  "parse_anchor (format_hash_line hh n c) =
     (if compute_line_hash hh n c = CHR ''|'' then None else Some (n, [compute_line_hash hh n c]))"
proof -
  have e: "format_hash_line hh n c = str_of_nat n @ CHR ''#'' # compute_line_hash hh n c # CHR ''|'' # c"
    by (simp add: format_hash_line_def)
  show ?thesis
    using digit_span [of n "compute_line_hash hh n c # CHR ''|'' # c"] str_of_nat_digits [of n]
    by (simp add: parse_anchor_def e Let_def)
qed

text \<open>A hash is one ASCII character and no line boundary.\<close>

lemma dict_chars: "list_all (\<lambda>c. \<not> is_cont c \<and> \<not> is_break [c]) base_chars" "length base_chars = 92"
  by code_simp+

lemma dict_set: "c \<in> set hashline_dict \<Longrightarrow> c \<in> set base_chars"
  unfolding hashline_dict_def by (drule in_set_takeD) auto

lemma dict_length: "length hashline_dict = 256"
  by (simp add: hashline_dict_def dict_chars(2) length_concat sum_list_replicate)

lemma line_hash_char: "\<not> is_cont (compute_line_hash hh n c) \<and> \<not> is_break [compute_line_hash hh n c]"
proof -
  have "compute_line_hash hh n c \<in> set hashline_dict"
    unfolding compute_line_hash_def Let_def by (rule nth_mem) (simp add: dict_length)
  then show ?thesis using dict_set dict_chars(1) by (auto simp: list_all_iff)
qed

lemma digit_plain: "is_digit c \<Longrightarrow> \<not> is_cont c \<and> \<not> is_break [c]"
  by (auto simp: is_digit_def digit_val_def is_cont_def is_break_char Let_def split: if_splits)

lemma one_line_ascii: "\<not> is_cont c \<Longrightarrow> \<not> is_break [c] \<Longrightarrow> one_line s \<Longrightarrow> one_line (c # s)"
  using cps_ascii_cons [of c s] by (simp add: one_line_def lead_text_def)

lemma one_line_digits: "list_all is_digit ds \<Longrightarrow> one_line s \<Longrightarrow> one_line (ds @ s)"
  by (induction ds) (auto intro!: one_line_ascii simp: digit_plain)

lemma plain_marks: "\<not> is_cont CHR ''#''" "\<not> is_break ''#''" "\<not> is_cont CHR ''|''" "\<not> is_break ''|''"
  by code_simp+

lemma format_one_line: "one_line c \<Longrightarrow> one_line (format_hash_line hh n c)"
  unfolding format_hash_line_def
  using one_line_digits str_of_nat_digits line_hash_char plain_marks by (simp add: one_line_ascii)

lemma format_nonempty: "format_hash_line hh n c \<noteq> []"
  using str_of_nat_digits by (simp add: format_hash_line_def)

section \<open>Many lines\<close>

text \<open>The anchors of the lines from number \<open>n\<close> on whose hash is not the separator.\<close>

definition anchors_of :: "hash_host \<Rightarrow> nat \<Rightarrow> string list \<Rightarrow> (nat \<times> string) list" where
  "anchors_of hh n ls = filter (\<lambda>(k, h). h \<noteq> ''|'') (map (\<lambda>(k, l). (k, [compute_line_hash hh k l])) (zip [n..<n + length ls] ls))"

lemma anchors_of_Cons:
  "anchors_of hh n (l # ls) = (case parse_anchor (format_hash_line hh n l) of Some a \<Rightarrow> [a] | None \<Rightarrow> []) @ anchors_of hh (Suc n) ls"
  by (simp add: anchors_of_def parse_format upt_conv_Cons del: upt_Suc)

lemma hash_lines_clean:
  "list_all one_line ls \<Longrightarrow> list_all one_line (hash_lines hh n ls) \<and> [] \<notin> set (hash_lines hh n ls)"
  using format_nonempty [symmetric] by (induction ls arbitrary: n) (auto simp: format_one_line)

lemma extract_hash_lines:
  assumes "list_all one_line ls"
  shows "extract_anchors_from_old_string (join nl (hash_lines hh n ls)) = anchors_of hh n ls"
proof -
  have "concat (map (\<lambda>l. case parse_anchor l of Some a \<Rightarrow> [a] | None \<Rightarrow> []) (hash_lines hh n ls)) = anchors_of hh n ls"
    by (induction ls arbitrary: n) (simp_all add: anchors_of_Cons, simp add: anchors_of_def)
  then show ?thesis using splitlines_join hash_lines_clean [OF assms]
    by (simp add: extract_anchors_from_old_string_def)
qed

lemma anchors_of_nth:
  assumes "a \<in> set (anchors_of hh n ls)"
  shows "\<exists>i<length ls. a = (n + i, [compute_line_hash hh (n + i) (ls ! i)])"
proof -
  from assms obtain k l where x: "(k, l) \<in> set (zip [n..<n + length ls] ls)" "a = (k, [compute_line_hash hh k l])"
    by (auto simp: anchors_of_def)
  from x(1) obtain i where "i < length ls" "k = n + i" "l = ls ! i" by (auto simp: in_set_zip simp del: upt_Suc)
  then show ?thesis using x(2) by auto
qed

lemma anchors_hold:
  assumes "a \<in> set (anchors_of hh (Suc (length xs)) ls)"
  shows "check_anchor hh (xs @ ls @ ys) a = []"
proof -
  obtain i where "i < length ls" "a = (Suc (length xs) + i, [compute_line_hash hh (Suc (length xs) + i) (ls ! i)])"
    using anchors_of_nth [OF assms] by blast
  then show ?thesis by (simp add: check_anchor_def nth_append)
qed

text \<open>
  C36: Any lines of a file shown with anchors and copied back give the anchors they were shown
  with, each with its line number, except those whose hash is the separator; and an
  unchanged file passes their check.
\<close>

theorem anchors_read_back:
  assumes "lead_text body" "hashline_read_enabled hh"
    and "shown = take k (drop start (splitlines body))"
  shows "extract_anchors_from_old_string (format_read_output hh shown (start + 1)) = anchors_of hh (start + 1) shown
     \<and> verify_line_anchors hh (Inr body) (extract_anchors_from_old_string (format_read_output hh shown (start + 1))) = None"
proof -
  have "list_all one_line shown"
    using splitlines_one_line [OF assms(1)] assms(3) by (auto simp: list_all_iff dest: in_set_takeD in_set_dropD)
  then have x: "extract_anchors_from_old_string (format_read_output hh shown (start + 1)) = anchors_of hh (start + 1) shown"
    using extract_hash_lines assms(2) by (simp add: format_read_output_def)
  have "check_anchor hh (splitlines body) a = []" if "a \<in> set (anchors_of hh (start + 1) shown)" for a
  proof (cases "start < length (splitlines body)")
    case True
    have "splitlines body = take start (splitlines body) @ shown @ drop k (drop start (splitlines body))"
      unfolding assms(3) by (simp only: append_take_drop_id)
    then show ?thesis using anchors_hold [of a hh "take start (splitlines body)" shown] that True
      by (metis add.commute length_take min.absorb4 plus_1_eq_Suc)
  next
    case False
    then have "shown = []" by (simp add: assms(3))
    then show ?thesis using that by (simp add: anchors_of_def)
  qed
  then have "concat (map (check_anchor hh (splitlines body)) (anchors_of hh (start + 1) shown)) = []" by simp
  then show ?thesis unfolding x by (simp add: verify_line_anchors_def)
qed

definition plain_hash :: hash_host where
  "plain_hash = \<lparr>hh_env = map_of [(''BUTLER_HASHLINE_READ'', ''1'')], hh_digest = (\<lambda>_. bytes [0, 0, 0, 7]), hh_word = (\<lambda>_. False)\<rparr>"

definition two_words :: string where
  "two_words = ''ab'' @ nl @ ''cd'' @ nl"

theorem anchors_read_back_witness:
  "extract_anchors_from_old_string (format_read_output plain_hash [''cd''] 2) = [(2, [compute_line_hash plain_hash 2 ''cd''])]
   \<and> verify_line_anchors plain_hash (Inr two_words)
        (extract_anchors_from_old_string (format_read_output plain_hash [''cd''] 2)) = None"
proof -
  have s: "lead_text two_words" "hashline_read_enabled plain_hash" "[''cd''] = take 1 (drop 1 (splitlines two_words))"
    by code_simp+
  have a: "anchors_of plain_hash 2 [''cd''] = [(2, [compute_line_hash plain_hash 2 ''cd''])]" by code_simp
  from anchors_read_back [OF s] show ?thesis unfolding one_add_one a by blast
qed

section \<open>Patches\<close>

lemma replace_first_unique:
  assumes "text_count old body = 1"
  shows "\<exists>b a. body = b @ old @ a \<and> replace_first old new body = b @ new @ a \<and> (old = [] \<longrightarrow> body = [])
     \<and> (old \<noteq> [] \<longrightarrow> find_split old a = None)"
proof (cases "old = []")
  case True
  then have "body = []" using assms by (cases body) (auto simp: text_count_def ulen_def)
  then show ?thesis using True by (simp add: replace_first_def)
next
  case False
  then have o: "occurrences old body = 1" using assms by (simp add: text_count_def)
  then obtain b a where f: "find_split old body = Some (b, a)"
    using False by (subst (asm) occurrences.simps) (auto split: option.splits)
  then have "occurrences old a = 0" using o False by (subst (asm) occurrences.simps) simp
  then have "find_split old a = None" using False by (subst (asm) occurrences.simps) (auto split: option.splits)
  moreover have "body = b @ old @ a" "replace_first old new body = b @ new @ a"
    using f find_split_Some [OF f] by (simp_all add: replace_first_def)
  ultimately show ?thesis using False by blast
qed

lemma patch_unique_text:
  assumes "patch_unique body old new fuzzy = New_Text out flag" "text_count old body \<noteq> 0"
  shows "flag = fuzzy \<and> text_count old body = 1 \<and> out = replace_first old new body"
  using assms by (auto simp: patch_unique_def split: if_splits)

text \<open>
  C25: A patch is written only when the guard of read files let the edit through and the anchors
  in the old text hold.  The text written is the decoded file with one occurrence of the old
  text replaced by the new one, none following it; with fuzzy quotes the old text is absent
  from the file and the same holds of the three texts with their quotes normalised.
\<close>

theorem patch_changes_one_place:
  assumes "tool_patch eh path old new st = (Edit_Written written fuzzy out, st')"
  shows "\<exists>st1 data p. require_read_before_edit (hh_env (eh_hash eh)) (eh_lib eh) (eh_fs eh) (eh_safety eh) (eh_audit eh) path True st = (None, st1)
     \<and> eh_read eh path = Inr (data, p)
     \<and> verify_line_anchors (eh_hash eh) (eh_reread eh p) (extract_anchors_from_old_string old) = None
     \<and> (let q = (if fuzzy then normalize_quotes else id); body = q (eh_decode eh data) in
         (fuzzy \<longrightarrow> text_count old (eh_decode eh data) = 0) \<and> text_count (q old) body = 1
         \<and> (\<exists>b a. body = b @ q old @ a \<and> out = b @ q new @ a \<and> (q old \<noteq> [] \<longrightarrow> find_split (q old) a = None)))"
proof -
  obtain st1 data p where r: "require_read_before_edit (hh_env (eh_hash eh)) (eh_lib eh) (eh_fs eh) (eh_safety eh) (eh_audit eh) path True st = (None, st1)"
    "eh_read eh path = Inr (data, p)"
    "verify_line_anchors (eh_hash eh) (eh_reread eh p) (extract_anchors_from_old_string old) = None"
    "patch_text (eh_decode eh data) old new = New_Text out fuzzy"
    using assms by (auto simp: tool_patch_def split: prod.splits option.splits sum.splits patch_text_result.splits)
  let ?q = "if fuzzy then normalize_quotes else id"
  have "(fuzzy \<longrightarrow> text_count old (eh_decode eh data) = 0) \<and> text_count (?q old) (?q (eh_decode eh data)) = 1
      \<and> out = replace_first (?q old) (?q new) (?q (eh_decode eh data))"
    using r(4) patch_unique_text by (fastforce simp: patch_text_def split: if_splits)
  moreover from this have "\<exists>b a. ?q (eh_decode eh data) = b @ ?q old @ a \<and> out = b @ ?q new @ a
      \<and> (?q old \<noteq> [] \<longrightarrow> find_split (?q old) a = None)"
    using replace_first_unique [of "?q old" "?q (eh_decode eh data)" "?q new"] by metis
  ultimately show ?thesis using r unfolding Let_def by blast
qed

definition quiet_host :: "string \<Rightarrow> edit_host" where
  "quiet_host body = \<lparr>eh_hash = \<lparr>hh_env = map_of [(''BUTLER_READ_BEFORE_EDIT'', ''0'')], hh_digest = (\<lambda>_. bytes [0, 0, 0, 7]),
       hh_word = (\<lambda>_. False)\<rparr>,
     eh_lib = \<lparr>lib_loads = (\<lambda>_. None), lib_dumps = pyrepr, lib_sha256 = id\<rparr>,
     eh_fs = \<lparr>fs_resolve = id, fs_exists = (\<lambda>_. True), fs_is_file = (\<lambda>_. True), fs_stat = (\<lambda>_. Inl []),
       fs_read_bytes = (\<lambda>_. None)\<rparr>,
     eh_safety = (\<lambda>p _. (True, p)), eh_audit = ''s1'', eh_read = (\<lambda>p. Inr (body, p)), eh_decode = id,
     eh_reread = (\<lambda>_. Inr body), eh_write = (\<lambda>p _. Inr p)\<rparr>"

definition no_reads :: read_states where
  "no_reads = \<lparr>rd_by_session = [], rd_recent_edits = []\<rparr>"

lemma small_patch: "fst (tool_patch (quiet_host ''x=1;y=2'') ''f'' ''y=2'' ''y=3'' no_reads) = Edit_Written ''f'' False ''x=1;y=3''"
  by code_simp

theorem patch_changes_one_place_witness:
  "\<exists>b a. ''x=1;y=2'' = b @ ''y=2'' @ a \<and> ''x=1;y=3'' = b @ ''y=3'' @ a \<and> find_split ''y=2'' a = None"
proof -
  obtain st where t: "tool_patch (quiet_host ''x=1;y=2'') ''f'' ''y=2'' ''y=3'' no_reads = (Edit_Written ''f'' False ''x=1;y=3'', st)"
    using small_patch by (metis prod.collapse)
  obtain data b a where "eh_read (quiet_host ''x=1;y=2'') ''f'' = Inr data"
    "eh_decode (quiet_host ''x=1;y=2'') (fst data) = b @ ''y=2'' @ a" "''x=1;y=3'' = b @ ''y=3'' @ a"
    "find_split ''y=2'' a = None"
    using patch_changes_one_place [OF t] by (auto simp: Let_def)
  moreover from this have "eh_decode (quiet_host ''x=1;y=2'') (fst data) = ''x=1;y=2''" by (auto simp: quiet_host_def)
  ultimately show ?thesis by metis
qed

text \<open>
  A patch that matched only after the quotes were normalised writes the whole file with its
  quotes normalised: the curly quotes of text the patch does not touch are replaced too.
\<close>

theorem fuzzy_patch_rewrites_file:
  "fst (tool_patch (quiet_host (bytes [226, 128, 156] @ ''a'' @ bytes [226, 128, 157] @ '' it'' @ bytes [226, 128, 153] @ ''s''))
          ''f'' (bytes [34] @ ''a'' @ bytes [34]) ''b'' no_reads)
     = Edit_Written ''f'' True (''b it'' @ bytes [39] @ ''s'')"
  by code_simp

text \<open>
  The test for a unique place counts occurrences that do not overlap; and a line copied with
  its anchor is looked up with the anchor, so it is not found in the file it was read from.
\<close>

lemma overlap_counted_once: "patch_text ''aaa'' ''aa'' ''b'' = New_Text ''ba'' False"
  by code_simp

lemma anchored_copy_not_found: "patch_text ''ab'' (format_hash_line plain_hash 1 ''ab'') ''cd'' = Old_Not_Found"
  by code_simp

end
