(* ===== verification/Event_Replay.thy ===== *)
theory Event_Replay
  imports Json_Values
begin

text \<open>
  Rebuilding state from the event log (\<open>core/events/replay.py\<close>): replay with snapshots, moving
  back and forth in the history, and the indexes over a list of events.

  The function that applies an event is a parameter and raises nothing.  The metadata of
  snapshots, which the replay leaves empty, is left out.
\<close>

section \<open>Events and snapshots\<close>

record domain_event =
  ev_event_id :: string
  ev_event_type :: string
  ev_session_key :: string
  ev_timestamp :: secs
  ev_data :: jval

record 's snapshot =
  sn_state :: 's
  sn_version :: nat
  sn_timestamp :: secs
  sn_event_count :: nat

record 's optimizer =
  op_initial_state :: 's
  op_apply_event :: "'s \<Rightarrow> domain_event \<Rightarrow> 's"
  op_snapshot_interval :: int
  op_max_snapshots :: int
  op_snapshots :: "'s snapshot list"

definition in_order :: "domain_event list \<Rightarrow> domain_event list" where
  "in_order es = sort_key ev_timestamp es"

text \<open>\<open>xs[-m:]\<close>: for zero the whole list, for a negative \<open>m\<close> a list without its first items.\<close>

definition slice_last :: "int \<Rightarrow> 'a list \<Rightarrow> 'a list" where
  "slice_last m xs = (if 0 < m then last_n (nat m) xs else drop (nat (- m)) xs)"

definition take_snapshot :: "'s \<Rightarrow> nat \<Rightarrow> secs \<Rightarrow> 's optimizer \<Rightarrow> 's optimizer" where
  "take_snapshot s n ts op =
    (let snaps = op_snapshots op @ [\<lparr>sn_state = s, sn_version = length (op_snapshots op), sn_timestamp = ts, sn_event_count = n\<rparr>]
     in op\<lparr>op_snapshots := (if op_max_snapshots op < int (length snaps) then slice_last (op_max_snapshots op) snaps else snaps)\<rparr>)"

text \<open>The snapshot with the most events among those that fit, the first of equals.\<close>

definition better_snapshot :: "nat \<Rightarrow> 's snapshot \<Rightarrow> 's snapshot option \<Rightarrow> 's snapshot option" where
  "better_snapshot n s best = (if sn_event_count s \<le> n
     then (case best of None \<Rightarrow> Some s | Some b \<Rightarrow> if sn_event_count b < sn_event_count s then Some s else best)
     else best)"

definition find_best_snapshot :: "nat \<Rightarrow> 's optimizer \<Rightarrow> 's snapshot option" where
  "find_best_snapshot n op = fold (better_snapshot n) (op_snapshots op) None"

section \<open>Replay\<close>

text \<open>The loop from event \<open>i\<close> on; nothing when the remainder by an interval of zero raises.\<close>

fun replay_loop :: "nat \<Rightarrow> 's \<Rightarrow> domain_event list \<Rightarrow> 's optimizer \<Rightarrow> 's option \<times> 's optimizer" where
  "replay_loop i s [] op = (Some s, op)"
| "replay_loop i s (e # es) op = (let s' = op_apply_event op s e in
     if op_snapshot_interval op = 0 then (None, op)
     else replay_loop (Suc i) s' es
       (if op_snapshot_interval op dvd int (Suc i) then take_snapshot s' (Suc i) (ev_timestamp e) op else op))"

definition replay :: "domain_event list \<Rightarrow> string \<Rightarrow> 's optimizer \<Rightarrow> 's option \<times> 's optimizer" where
  "replay events strategy op = (let es = in_order events in
     if strategy = ''snapshot_only''
     then (Some (if op_snapshots op = [] then op_initial_state op else sn_state (last (op_snapshots op))), op)
     else let (s0, i0) = (if strategy = ''incremental'' \<and> op_snapshots op \<noteq> []
                          then (case find_best_snapshot (length es) op of
                              Some b \<Rightarrow> (sn_state b, sn_event_count b)
                            | None \<Rightarrow> (op_initial_state op, 0))
                          else (op_initial_state op, 0)) in
       case replay_loop i0 s0 (drop i0 es) op of
         (None, op') \<Rightarrow> (None, op')
       | (Some s, op') \<Rightarrow>
           (Some s, if es = [] then op' else take_snapshot s (length es) (ev_timestamp (last es)) op'))"

definition new_optimizer :: "'s \<Rightarrow> ('s \<Rightarrow> domain_event \<Rightarrow> 's) \<Rightarrow> int \<Rightarrow> int \<Rightarrow> 's optimizer" where
  "new_optimizer s f interval n = \<lparr>op_initial_state = s, op_apply_event = f, op_snapshot_interval = interval,
     op_max_snapshots = n, op_snapshots = []\<rparr>"

definition clear_snapshots :: "'s optimizer \<Rightarrow> 's optimizer" where
  "clear_snapshots op = op\<lparr>op_snapshots := []\<rparr>"

text \<open>Replays of a growing log: each batch is appended and the whole log replayed.\<close>

fun replays :: "domain_event list \<Rightarrow> (string \<times> domain_event list) list \<Rightarrow> 's optimizer \<Rightarrow> 's option list" where
  "replays hist [] op = []"
| "replays hist ((strategy, batch) # bs) op =
     (case replay (hist @ batch) strategy op of (r, op') \<Rightarrow> r # replays (hist @ batch) bs op')"

section \<open>Moving in the history\<close>

record 's time_travel =
  tt_events :: "domain_event list"
  tt_initial_state :: 's
  tt_apply_event :: "'s \<Rightarrow> domain_event \<Rightarrow> 's"
  tt_current_idx :: nat
  tt_state_history :: "'s list"

definition new_time_travel :: "domain_event list \<Rightarrow> 's \<Rightarrow> ('s \<Rightarrow> domain_event \<Rightarrow> 's) \<Rightarrow> 's time_travel" where
  "new_time_travel events s f = \<lparr>tt_events = in_order events, tt_initial_state = s, tt_apply_event = f,
     tt_current_idx = 0, tt_state_history = [s]\<rparr>"

definition current_state :: "'s time_travel \<Rightarrow> 's" where
  "current_state tt = tt_state_history tt ! tt_current_idx tt"

text \<open>The loop that extends the history; it would not end if the index were out of range.\<close>

partial_function (option) expand_history ::
  "domain_event list \<Rightarrow> ('s \<Rightarrow> domain_event \<Rightarrow> 's) \<Rightarrow> nat \<Rightarrow> 's list \<Rightarrow> 's list option" where
  "expand_history es f index hist =
     (if length hist \<le> index
      then expand_history es f index
        (if length hist \<le> length es then hist @ [f (last hist) (es ! (length hist - 1))] else hist)
      else Some hist)"

datatype 's sought = Index_Error | Endless | At 's

definition seek_to :: "int \<Rightarrow> 's time_travel \<Rightarrow> 's sought \<times> 's time_travel" where
  "seek_to index tt =
    (if index < 0 \<or> int (length (tt_events tt)) < index then (Index_Error, tt)
     else case expand_history (tt_events tt) (tt_apply_event tt) (nat index) (tt_state_history tt) of
       None \<Rightarrow> (Endless, tt)
     | Some hist \<Rightarrow> (At (hist ! nat index), tt\<lparr>tt_state_history := hist, tt_current_idx := nat index\<rparr>))"

definition forward :: "int \<Rightarrow> 's time_travel \<Rightarrow> 's sought \<times> 's time_travel" where
  "forward steps tt = seek_to (int (tt_current_idx tt) + steps) tt"

definition backward :: "int \<Rightarrow> 's time_travel \<Rightarrow> 's sought \<times> 's time_travel" where
  "backward steps tt = seek_to (max 0 (int (tt_current_idx tt) - steps)) tt"

definition reset_travel :: "'s time_travel \<Rightarrow> 's sought \<times> 's time_travel" where
  "reset_travel tt = (At (hd (tt_state_history tt)), tt\<lparr>tt_current_idx := 0\<rparr>)"

section \<open>Indexes\<close>

record event_index =
  ix_events :: "domain_event list"
  ix_by_session :: "(string, nat list) dict"
  ix_by_type :: "(string, nat list) dict"

definition add_index :: "string \<Rightarrow> nat \<Rightarrow> (string, nat list) dict \<Rightarrow> (string, nat list) dict" where
  "add_index k i d = dset k ((case dget d k of Some l \<Rightarrow> l | None \<Rightarrow> []) @ [i]) d"

fun build_index :: "(domain_event \<Rightarrow> string) \<Rightarrow> nat \<Rightarrow> domain_event list \<Rightarrow> (string, nat list) dict \<Rightarrow> (string, nat list) dict" where
  "build_index key i [] d = d"
| "build_index key i (e # es) d = build_index key (Suc i) es (add_index (key e) i d)"

definition new_event_index :: "domain_event list \<Rightarrow> event_index" where
  "new_event_index es = \<lparr>ix_events = es, ix_by_session = build_index ev_session_key 0 es [],
     ix_by_type = build_index ev_event_type 0 es []\<rparr>"

definition get_by :: "(string, nat list) dict \<Rightarrow> domain_event list \<Rightarrow> string \<Rightarrow> domain_event list" where
  "get_by d es k = map (\<lambda>i. es ! i) (case dget d k of Some l \<Rightarrow> l | None \<Rightarrow> [])"

definition get_by_session :: "event_index \<Rightarrow> string \<Rightarrow> domain_event list" where
  "get_by_session ix k = get_by (ix_by_session ix) (ix_events ix) k"

definition get_by_type :: "event_index \<Rightarrow> string \<Rightarrow> domain_event list" where
  "get_by_type ix k = get_by (ix_by_type ix) (ix_events ix) k"

definition get_by_time_range :: "event_index \<Rightarrow> secs option \<Rightarrow> secs option \<Rightarrow> domain_event list" where
  "get_by_time_range ix start stop = filter (\<lambda>e.
     (case start of Some t \<Rightarrow> \<not> ev_timestamp e < t | None \<Rightarrow> True)
     \<and> (case stop of Some t \<Rightarrow> \<not> t < ev_timestamp e | None \<Rightarrow> True)) (ix_events ix)"

definition count_by :: "(string, nat list) dict \<Rightarrow> (string, nat) dict" where
  "count_by d = map (\<lambda>(k, l). (k, length l)) d"


section \<open>Replay with snapshots is replay from the beginning\<close>

definition sound_snapshots :: "domain_event list \<Rightarrow> 's optimizer \<Rightarrow> bool" where
  "sound_snapshots es op \<longleftrightarrow> (\<forall>s\<in>set (op_snapshots op). sn_event_count s \<le> length es
     \<and> sn_state s = foldl (op_apply_event op) (op_initial_state op) (take (sn_event_count s) es))"

definition same_setup :: "'s optimizer \<Rightarrow> 's optimizer \<Rightarrow> bool" where
  "same_setup op op' \<longleftrightarrow> op_initial_state op' = op_initial_state op \<and> op_apply_event op' = op_apply_event op
     \<and> op_snapshot_interval op' = op_snapshot_interval op \<and> op_max_snapshots op' = op_max_snapshots op"

lemma set_slice_last: "set (slice_last m xs) \<subseteq> set xs"
  by (auto simp: slice_last_def last_n_def dest: in_set_dropD)

lemma take_snapshot_sound:
  assumes "sound_snapshots es op" "n \<le> length es" "s = foldl (op_apply_event op) (op_initial_state op) (take n es)"
  shows "sound_snapshots es (take_snapshot s n ts op) \<and> same_setup op (take_snapshot s n ts op)"
proof -
  let ?new = "\<lparr>sn_state = s, sn_version = length (op_snapshots op), sn_timestamp = ts, sn_event_count = n\<rparr>"
  have "set (op_snapshots (take_snapshot s n ts op)) \<subseteq> insert ?new (set (op_snapshots op))"
    using set_slice_last [of "op_max_snapshots op" "op_snapshots op @ [?new]"] by (auto simp: take_snapshot_def Let_def)
  then show ?thesis using assms
    by (auto simp: sound_snapshots_def same_setup_def take_snapshot_def Let_def)
qed

lemma same_setup_trans: "same_setup a b \<Longrightarrow> same_setup b c \<Longrightarrow> same_setup a c"
  by (simp add: same_setup_def)

lemma replay_loop_sound:
  assumes "op_snapshot_interval op \<noteq> 0" "sound_snapshots (pre @ rest) op"
    "s = foldl (op_apply_event op) (op_initial_state op) pre"
  shows "\<exists>op'. replay_loop (length pre) s rest op
        = (Some (foldl (op_apply_event op) (op_initial_state op) (pre @ rest)), op')
      \<and> sound_snapshots (pre @ rest) op' \<and> same_setup op op'"
  using assms
proof (induction rest arbitrary: pre s op)
  case Nil
  then show ?case by (simp add: same_setup_def)
next
  case (Cons e rest)
  let ?s = "op_apply_event op s e" and ?n = "Suc (length pre)"
  define op1 where "op1 = (if op_snapshot_interval op dvd int ?n then take_snapshot ?s ?n (ev_timestamp e) op else op)"
  have s: "?s = foldl (op_apply_event op) (op_initial_state op) (take ?n (pre @ e # rest))"
    using Cons.prems(3) by simp
  have o: "sound_snapshots (pre @ e # rest) op1 \<and> same_setup op op1"
    using take_snapshot_sound [OF Cons.prems(2) _ s] Cons.prems(2) by (auto simp: op1_def same_setup_def)
  have "\<exists>op'. replay_loop (length (pre @ [e])) ?s rest op1
        = (Some (foldl (op_apply_event op1) (op_initial_state op1) ((pre @ [e]) @ rest)), op')
      \<and> sound_snapshots ((pre @ [e]) @ rest) op' \<and> same_setup op1 op'"
    using o s Cons.prems(1) by (intro Cons.IH) (auto simp: same_setup_def)
  then obtain op' where "replay_loop ?n ?s rest op1
        = (Some (foldl (op_apply_event op) (op_initial_state op) (pre @ e # rest)), op')"
      "sound_snapshots (pre @ e # rest) op'" "same_setup op1 op'"
    using o by (auto simp: same_setup_def)
  moreover have "same_setup op op'" using same_setup_trans o calculation(3) by blast
  ultimately show ?case using Cons.prems(1) by (auto simp: op1_def Let_def)
qed

lemma best_snapshot_in:
  "fold (better_snapshot n) ss best = Some b \<Longrightarrow> (b \<in> set ss \<and> sn_event_count b \<le> n) \<or> best = Some b"
  by (induction ss arbitrary: best) (fastforce simp: better_snapshot_def split: if_splits option.splits)+

lemma replay_sound:
  assumes "op_snapshot_interval op \<noteq> 0" "sound_snapshots (in_order es) op" "strategy \<noteq> ''snapshot_only''"
  shows "\<exists>op'. replay es strategy op = (Some (foldl (op_apply_event op) (op_initial_state op) (in_order es)), op')
     \<and> sound_snapshots (in_order es) op' \<and> same_setup op op'"
proof -
  define st where "st = (if strategy = ''incremental'' \<and> op_snapshots op \<noteq> []
      then (case find_best_snapshot (length (in_order es)) op of
          Some b \<Rightarrow> (sn_state b, sn_event_count b) | None \<Rightarrow> (op_initial_state op, 0))
      else (op_initial_state op, 0))"
  have st: "snd st \<le> length (in_order es) \<and> fst st = foldl (op_apply_event op) (op_initial_state op) (take (snd st) (in_order es))"
    using assms(2) best_snapshot_in [of "length (in_order es)" "op_snapshots op" None]
    by (auto simp: st_def find_best_snapshot_def sound_snapshots_def split: option.splits)
  have "\<exists>op'. replay_loop (length (take (snd st) (in_order es))) (fst st) (drop (snd st) (in_order es)) op
      = (Some (foldl (op_apply_event op) (op_initial_state op) (take (snd st) (in_order es) @ drop (snd st) (in_order es))), op')
      \<and> sound_snapshots (take (snd st) (in_order es) @ drop (snd st) (in_order es)) op' \<and> same_setup op op'"
    using assms st by (intro replay_loop_sound) simp_all
  then obtain op1 where o: "replay_loop (snd st) (fst st) (drop (snd st) (in_order es)) op
      = (Some (foldl (op_apply_event op) (op_initial_state op) (in_order es)), op1)"
      "sound_snapshots (in_order es) op1" "same_setup op op1"
    using st by (auto simp: min_absorb2)
  have nil: "in_order es = [] \<Longrightarrow> op1 = op" using o(1) by simp
  let ?all = "foldl (op_apply_event op) (op_initial_state op) (in_order es)"
  let ?op2 = "if in_order es = [] then op1 else take_snapshot ?all (length (in_order es)) (ev_timestamp (last (in_order es))) op1"
  have "replay es strategy op = (Some ?all, ?op2)"
    using assms(3) o(1) nil unfolding replay_def Let_def st_def [symmetric] by (auto simp: split_beta)
  moreover have "sound_snapshots (in_order es) ?op2 \<and> same_setup op ?op2"
    using take_snapshot_sound [OF o(2), of "length (in_order es)" ?all] o(2,3) same_setup_trans
    by (auto simp: same_setup_def)
  ultimately show ?thesis by blast
qed

text \<open>A batch that is not earlier than the log goes behind it.\<close>

lemma same_time_kept:
  "filter (\<lambda>x. ev_timestamp k = ev_timestamp x) (sort_key ev_timestamp xs) = filter (\<lambda>x. ev_timestamp k = ev_timestamp x) xs"
  unfolding eq_commute [of "ev_timestamp k"] by (rule sort_key_stable)

lemma in_order_append:
  assumes "\<forall>x\<in>set xs. \<forall>y\<in>set ys. ev_timestamp x \<le> ev_timestamp y"
  shows "in_order (xs @ ys) = in_order xs @ in_order ys"
  unfolding in_order_def
proof (rule properties_for_sort_key)
  show "sorted (map ev_timestamp (sort_key ev_timestamp xs @ sort_key ev_timestamp ys))"
    using assms by (auto simp: sorted_append)
qed (auto simp: same_time_kept)

fun later_batches :: "domain_event list \<Rightarrow> (string \<times> domain_event list) list \<Rightarrow> bool" where
  "later_batches h [] = True"
| "later_batches h ((strategy, b) # bs) = (list_all (\<lambda>x. list_all (\<lambda>y. ev_timestamp x \<le> ev_timestamp y) b) h
     \<and> strategy \<noteq> ''snapshot_only'' \<and> later_batches (h @ b) bs)"

fun grown_logs :: "domain_event list \<Rightarrow> (string \<times> domain_event list) list \<Rightarrow> domain_event list list" where
  "grown_logs h [] = []"
| "grown_logs h ((strategy, b) # bs) = (h @ b) # grown_logs (h @ b) bs"

lemma replays_sound:
  assumes "op_snapshot_interval op \<noteq> 0" "sound_snapshots (in_order h) op" "later_batches h bs"
  shows "replays h bs op = map (\<lambda>l. Some (foldl (op_apply_event op) (op_initial_state op) (in_order l))) (grown_logs h bs)"
  using assms
proof (induction h bs arbitrary: op rule: later_batches.induct)
  case (2 h strategy b bs)
  have "in_order (h @ b) = in_order h @ in_order b"
    using "2.prems"(3) by (intro in_order_append) (simp add: list_all_iff)
  then have "sound_snapshots (in_order (h @ b)) op"
    using "2.prems"(2) by (auto simp: sound_snapshots_def)
  then obtain op' where o: "replay (h @ b) strategy op = (Some (foldl (op_apply_event op) (op_initial_state op) (in_order (h @ b))), op')"
     "sound_snapshots (in_order (h @ b)) op'" "same_setup op op'"
    using replay_sound [of op "h @ b" strategy] "2.prems" by auto
  then show ?case using "2.IH" [of op'] "2.prems" by (simp add: same_setup_def)
qed simp

text \<open>
  C34: When every batch of events is no earlier than the log, each replay of the growing log
  gives the state a full replay gives, whichever snapshots it starts from: the events in the
  order of their time stamps, all applied to the initial state.
\<close>

theorem incremental_replay_is_full:
  assumes "interval \<noteq> 0" "later_batches [] bs"
  shows "replays [] bs (new_optimizer s f interval m) = map (\<lambda>l. Some (foldl f s (in_order l))) (grown_logs [] bs)
     \<and> replays [] bs (new_optimizer s f interval m) = replays [] (map (\<lambda>(_, b). (''full'', b)) bs) (new_optimizer s f interval m)"
proof -
  have n: "op_snapshot_interval (new_optimizer s f interval m) \<noteq> 0" "sound_snapshots (in_order []) (new_optimizer s f interval m)"
    using assms(1) by (simp_all add: new_optimizer_def sound_snapshots_def)
  have "later_batches h bs \<Longrightarrow> later_batches h (map (\<lambda>(_, b). (''full'', b)) bs)
      \<and> grown_logs h (map (\<lambda>(_, b). (''full'', b)) bs) = grown_logs h bs" for h
    by (induction h bs rule: later_batches.induct) auto
  with assms(2) have "later_batches [] (map (\<lambda>(_, b). (''full'', b)) bs)"
      "grown_logs [] (map (\<lambda>(_, b). (''full'', b)) bs) = grown_logs [] bs" by blast+
  then show ?thesis using replays_sound [OF n] assms(2) by (simp add: new_optimizer_def)
qed

definition event_at :: "string \<Rightarrow> secs \<Rightarrow> domain_event" where
  "event_at n t = \<lparr>ev_event_id = n, ev_event_type = ''step'', ev_session_key = ''s1'', ev_timestamp = t, ev_data = JNull\<rparr>"

definition names :: "string \<Rightarrow> domain_event \<Rightarrow> string" where
  "names s e = s @ ev_event_id e"

definition two_batches :: "(string \<times> domain_event list) list" where
  "two_batches = [(''incremental'', [event_at ''b'' 2, event_at ''a'' 1]), (''incremental'', [event_at ''c'' 3])]"

theorem incremental_replay_is_full_witness:
  "replays [] two_batches (new_optimizer [] names 2 5) = [Some ''ab'', Some ''abc'']"
proof -
  have "later_batches [] two_batches"
    "map (\<lambda>l. Some (foldl names [] (in_order l))) (grown_logs [] two_batches) = [Some ''ab'', Some ''abc'']" by code_simp+
  with incremental_replay_is_full [of 2 two_batches "[]" names 5] show ?thesis by simp
qed

text \<open>An event that comes in late shifts the log under the snapshots.\<close>

lemma late_event_misplaced:
  "replays [] [(''incremental'', [event_at ''b'' 2]), (''incremental'', [event_at ''a'' 1])] (new_optimizer [] names 100 5)
     = [Some ''b'', Some ''bb'']"
  by code_simp


section \<open>The history holds the states it passed\<close>

datatype travel_op = Seek int | Forward int | Backward int | Reset

fun travel :: "travel_op \<Rightarrow> 's time_travel \<Rightarrow> 's sought \<times> 's time_travel" where
  "travel (Seek i) tt = seek_to i tt"
| "travel (Forward n) tt = forward n tt"
| "travel (Backward n) tt = backward n tt"
| "travel Reset tt = reset_travel tt"

definition states_upto :: "('s \<Rightarrow> domain_event \<Rightarrow> 's) \<Rightarrow> 's \<Rightarrow> domain_event list \<Rightarrow> nat \<Rightarrow> 's list" where
  "states_upto f s es n = map (\<lambda>i. foldl f s (take i es)) [0..<Suc n]"

lemma states_upto_Suc:
  assumes "n < length es"
  shows "states_upto f s es n @ [f (last (states_upto f s es n)) (es ! n)] = states_upto f s es (Suc n)"
  using assms by (simp add: states_upto_def take_Suc_conv_app_nth)

lemma length_states [simp]: "length (states_upto f s es n) = Suc n"
  by (simp add: states_upto_def)

lemma expand_states:
  assumes "index \<le> length es" "n \<le> length es"
  shows "expand_history es f index (states_upto f s es n) = Some (states_upto f s es (max n index))"
  using assms
proof (induction "index - n" arbitrary: n)
  case 0
  then show ?case by (subst expand_history.simps) (simp add: states_upto_def max_absorb1 del: upt_Suc)
next
  case (Suc d)
  then have "n < length es" and lt: "Suc n \<le> index" by simp_all
  have "expand_history es f index (states_upto f s es n) = expand_history es f index (states_upto f s es (Suc n))"
    using Suc.hyps(2) states_upto_Suc [OF \<open>n < length es\<close>, of f s] \<open>n < length es\<close> lt
    by (subst expand_history.simps) (simp del: upt_Suc)
  also have "\<dots> = Some (states_upto f s es (max (Suc n) index))"
    using Suc.hyps \<open>n < length es\<close> Suc.prems(1) by (intro Suc.hyps(1)) simp_all
  finally show ?case using Suc.hyps(2) by simp
qed

definition travel_ok :: "domain_event list \<Rightarrow> ('s \<Rightarrow> domain_event \<Rightarrow> 's) \<Rightarrow> 's \<Rightarrow> 's time_travel \<Rightarrow> bool" where
  "travel_ok es f s tt \<longleftrightarrow> tt_events tt = es \<and> tt_apply_event tt = f \<and>
     (\<exists>n\<le>length es. tt_current_idx tt \<le> n \<and> tt_state_history tt = states_upto f s es n)"

lemma states_upto_nth: "i \<le> n \<Longrightarrow> states_upto f s es n ! i = foldl f s (take i es)"
  by (simp add: states_upto_def nth_map del: upt_Suc)

lemma seek_ok:
  assumes "travel_ok es f s tt" "seek_to i tt = (r, tt')"
  shows "travel_ok es f s tt' \<and> (r = Index_Error \<and> tt' = tt
     \<or> 0 \<le> i \<and> i \<le> int (length es) \<and> r = At (foldl f s (take (nat i) es)) \<and> tt_current_idx tt' = nat i)"
proof -
  obtain n where n: "n \<le> length es" "tt_current_idx tt \<le> n" "tt_state_history tt = states_upto f s es n"
    "tt_events tt = es" "tt_apply_event tt = f"
    using assms(1) by (auto simp: travel_ok_def)
  show ?thesis
  proof (cases "i < 0 \<or> int (length es) < i")
    case True
    then show ?thesis using assms n by (auto simp: seek_to_def)
  next
    case False
    then have i: "nat i \<le> length es" by (auto simp: nat_le_iff)
    have "r = At (foldl f s (take (nat i) es))
        \<and> tt' = tt\<lparr>tt_state_history := states_upto f s es (max n (nat i)), tt_current_idx := nat i\<rparr>"
      using assms(2) False n expand_states [OF i n(1), of f s] states_upto_nth [of "nat i" "max n (nat i)" f s es]
      by (simp add: seek_to_def)
    moreover have "max n (nat i) \<le> length es" "nat i \<le> max n (nat i)" using n(1) i by simp_all
    ultimately have "travel_ok es f s tt'" "r = At (foldl f s (take (nat i) es))" "tt_current_idx tt' = nat i"
      using n(4,5) unfolding travel_ok_def by (simp_all, blast)
    then show ?thesis using False by auto
  qed
qed

lemma travel_step_ok:
  assumes "travel_ok es f s tt"
  shows "travel_ok es f s (snd (travel o1 tt)) \<and> fst (travel o1 tt) \<noteq> Endless
     \<and> (\<forall>x. fst (travel o1 tt) = At x \<longrightarrow> x = current_state (snd (travel o1 tt)))"
proof -
  have cur: "current_state t = foldl f s (take (tt_current_idx t) es)" if "travel_ok es f s t" for t
    using that by (auto simp: travel_ok_def current_state_def states_upto_nth)
  have seek: "travel_ok es f s (snd (seek_to i tt)) \<and> fst (seek_to i tt) \<noteq> Endless
     \<and> (\<forall>x. fst (seek_to i tt) = At x \<longrightarrow> x = current_state (snd (seek_to i tt)))" for i
    using seek_ok [OF assms, of i] cur by (cases "seek_to i tt") auto
  show ?thesis
  proof (cases o1)
    case Reset
    have "travel_ok es f s (tt\<lparr>tt_current_idx := 0\<rparr>)" using assms by (auto simp: travel_ok_def)
    moreover have "hd (tt_state_history tt) = s"
      using assms by (auto simp: travel_ok_def states_upto_def hd_map simp del: upt_Suc)
    ultimately show ?thesis using cur Reset by (auto simp: reset_travel_def)
  qed (use seek in \<open>simp_all add: forward_def backward_def\<close>)
qed

lemma travel_run_ok:
  "travel_ok es f s tt \<Longrightarrow> travel_ok es f s (fold (\<lambda>o1. snd \<circ> travel o1) ops tt)"
proof (induction ops arbitrary: tt)
  case (Cons o1 ops)
  have "travel_ok es f s (snd (travel o1 tt))" using travel_step_ok [OF Cons.prems, of o1] by blast
  from Cons.IH [OF this] show ?case by simp
qed simp

text \<open>
  C37: After any moves in the history, refused ones included, the current state is that of the
  events before the current index applied to the initial state, the index is within the
  events, and the next move ends: it is refused or returns the state it has moved to.
\<close>

theorem history_holds_states:
  "let tt = fold (\<lambda>o1. snd \<circ> travel o1) ops (new_time_travel events s f) in
     tt_current_idx tt \<le> length events
     \<and> current_state tt = foldl f s (take (tt_current_idx tt) (in_order events))
     \<and> (fst (travel next tt) = Index_Error \<or> fst (travel next tt) = At (current_state (snd (travel next tt))))"
proof -
  have "travel_ok (in_order events) f s (new_time_travel events s f)"
    by (auto simp: travel_ok_def new_time_travel_def states_upto_def intro!: exI [of _ 0])
  note ok = travel_run_ok [OF this]
  define tt where "tt = fold (\<lambda>o1. snd \<circ> travel o1) ops (new_time_travel events s f)"
  have t: "travel_ok (in_order events) f s tt" unfolding tt_def by (rule ok)
  then have "tt_current_idx tt \<le> length events"
      "current_state tt = foldl f s (take (tt_current_idx tt) (in_order events))"
    by (auto simp: travel_ok_def current_state_def states_upto_nth in_order_def)
  moreover have "fst (travel next tt) = Index_Error \<or> fst (travel next tt) = At (current_state (snd (travel next tt)))"
    using travel_step_ok [OF t, of "next"] by (cases "fst (travel next tt)") auto
  ultimately show ?thesis unfolding tt_def Let_def by blast
qed

section \<open>The indexes find what a scan finds\<close>

definition positions :: "(string, nat list) dict \<Rightarrow> string \<Rightarrow> nat list" where
  "positions d k = (case dget d k of Some l \<Rightarrow> l | None \<Rightarrow> [])"

lemma positions_add: "positions (add_index k i d) k' = (if k' = k then positions d k @ [i] else positions d k')"
  by (simp add: positions_def add_index_def)

lemma positions_build:
  "map ((!) (pre @ es)) (positions (build_index key (length pre) es d) k)
     = map ((!) (pre @ es)) (positions d k) @ filter (\<lambda>e. key e = k) es"
proof (induction es arbitrary: pre d)
  case (Cons e es)
  have "map ((!) ((pre @ [e]) @ es)) (positions (build_index key (length (pre @ [e])) es (add_index (key e) (length pre) d)) k)
     = map ((!) ((pre @ [e]) @ es)) (positions (add_index (key e) (length pre) d) k) @ filter (\<lambda>e. key e = k) es"
    by (rule Cons.IH)
  then show ?case by (auto simp: positions_add)
qed simp

lemma get_by_scan: "get_by (build_index key 0 es []) es k = filter (\<lambda>e. key e = k) es"
  using positions_build [of "[]" es key "[]" k] by (simp add: get_by_def positions_def)

text \<open>The lookups by session and by type return what a scan of the events returns, in their order.\<close>

theorem index_is_scan:
  "get_by_session (new_event_index es) k = filter (\<lambda>e. ev_session_key e = k) es
   \<and> get_by_type (new_event_index es) t = filter (\<lambda>e. ev_event_type e = t) es"
  by (simp add: get_by_session_def get_by_type_def new_event_index_def get_by_scan)

end
