(* ===== verification/Api_Errors.thy ===== *)
theory Api_Errors
  imports Schema_Sanitizer Exec_Policy
begin

text \<open>
  What an exception of a model call means (\<open>transport/error_classifier.py\<close>): the status, body
  and text of the error are searched by a pipeline of patterns for the recovery to try, that is
  retry, compress the history, rotate the credential, or fall back to another provider.

  An attribute that is absent, or holds an object that is no JSON value, is \<open>JNull\<close>.  The parser
  of \<open>json\<close> and the digits and letters beyond ASCII are parameters.
\<close>

section \<open>Errors and recoveries\<close>

datatype failover_reason =
    F_Auth | F_Auth_Permanent
  | F_Billing | F_Rate_Limit | F_Upstream_Rate_Limit
  | F_Overloaded | F_Server_Error
  | F_Timeout | F_Ssl_Cert_Verification
  | F_Context_Overflow | F_Payload_Too_Large | F_Image_Too_Large
  | F_Model_Not_Found | F_Provider_Policy_Blocked | F_Content_Policy_Blocked
  | F_Format_Error | F_Multimodal_Tool_Content_Unsupported
  | F_Thinking_Signature | F_Long_Context_Tier | F_Llama_Cpp_Grammar_Pattern
  | F_Unknown

record api_error =
  ae_type :: string           \<comment> \<open>\<open>type(error).__name__\<close>\<close>
  ae_text :: string           \<comment> \<open>\<open>str(error)\<close>\<close>
  ae_transport :: bool        \<comment> \<open>an instance of \<open>TimeoutError\<close>, \<open>ConnectionError\<close> or \<open>OSError\<close>\<close>
  ae_stale :: bool            \<comment> \<open>an instance of \<open>StaleApiCallError\<close>\<close>
  ae_status_code :: jval
  ae_http_status :: jval
  ae_code :: jval
  ae_body :: jval
  ae_response :: jval
  ae_error :: jval

record recovery =
  rc_reason :: failover_reason
  rc_retryable :: bool
  rc_compress :: bool
  rc_rotate :: bool
  rc_fallback :: bool
  rc_context :: "(string, string) dict"

record classified = recovery +
  ce_status :: "int option"
  ce_provider :: string
  ce_model :: string
  ce_message :: string

definition is_auth :: "classified \<Rightarrow> bool" where
  "is_auth c \<longleftrightarrow> rc_reason c = F_Auth \<or> rc_reason c = F_Auth_Permanent"

text \<open>The recoveries the pipeline names: retry, give up, give up but fall back, and so on.\<close>

definition plain_retry :: "failover_reason \<Rightarrow> recovery" where
  "plain_retry r = \<lparr>rc_reason = r, rc_retryable = True, rc_compress = False, rc_rotate = False,
     rc_fallback = False, rc_context = []\<rparr>"

definition give_up :: "failover_reason \<Rightarrow> recovery" where
  "give_up r = (plain_retry r)\<lparr>rc_retryable := False\<rparr>"

definition fall_back :: "failover_reason \<Rightarrow> recovery" where
  "fall_back r = (give_up r)\<lparr>rc_fallback := True\<rparr>"

definition retry_or_fall_back :: "failover_reason \<Rightarrow> recovery" where
  "retry_or_fall_back r = (plain_retry r)\<lparr>rc_fallback := True\<rparr>"

definition compress_and_retry :: "failover_reason \<Rightarrow> recovery" where
  "compress_and_retry r = (plain_retry r)\<lparr>rc_compress := True\<rparr>"

lemmas recovery_defs = plain_retry_def give_up_def fall_back_def retry_or_fall_back_def compress_and_retry_def

section \<open>Patterns\<close>

definition billing_patterns :: "string list" where
  "billing_patterns = [''insufficient credits'', ''insufficient_quota'', ''insufficient balance'',
     ''credit balance'', ''credits exhausted'', ''payment required'', ''billing hard limit'',
     ''account is deactivated'', ''out of funds'', ''balance_depleted'', ''model_not_supported_on_free_tier'']"

definition rate_limit_patterns :: "string list" where
  "rate_limit_patterns = [''rate limit'', ''rate_limit'', ''too many requests'', ''throttled'',
     ''resource_exhausted'', ''throttlingexception'', ''servicequotaexceededexception'']"

definition overloaded_patterns :: "string list" where
  "overloaded_patterns = [''overloaded'', ''temporarily overloaded'', ''service is temporarily overloaded'',
     ''server is overloaded'', ''at capacity'', ''over capacity'']"

definition context_overflow_patterns :: "string list" where
  "context_overflow_patterns = [''context length'', ''context window'', ''token limit'', ''too many tokens'',
     ''maximum context'', ''prompt is too long'', ''max_model_len'', (bytes [228, 184, 138, 228, 184, 139, 230, 150, 135, 233, 149, 191, 229, 186, 166]), (bytes [232, 182, 133, 232, 191, 135, 230, 156, 128, 229, 164, 167, 233, 149, 191, 229, 186, 166]),
     ''context length exceeded'', ''max_tokens'', ''prompt length'', ''input is too long'']"

definition payload_too_large_patterns :: "string list" where
  "payload_too_large_patterns = [''request entity too large'', ''payload too large'', ''error code: 413'']"

definition image_too_large_patterns :: "string list" where
  "image_too_large_patterns = [''image exceeds'', ''image too large'', ''image_too_large'',
     ''image size exceeds'', ''image dimensions exceed'']"

definition model_not_found_patterns :: "string list" where
  "model_not_found_patterns = [''is not a valid model'', ''invalid model'', ''model not found'',
     ''model_not_found'', ''does not exist'', ''unknown model'', ''unsupported model'']"

definition request_validation_patterns :: "string list" where
  "request_validation_patterns = [''unknown parameter'', ''unsupported parameter'',
     ''unrecognized request argument'', ''invalid_request_error'']"

definition provider_policy_blocked_patterns :: "string list" where
  "provider_policy_blocked_patterns = [''no endpoints available matching your guardrail'',
     ''no endpoints available matching your data policy'']"

definition content_policy_blocked_patterns :: "string list" where
  "content_policy_blocked_patterns = [''flagged for possible cybersecurity risk'', ''trusted access for cyber'',
     ''violates our usage policies'', ''violates openai'' @ [CHR 0x27] @ ''s usage policies'',
     ''your request was flagged by'', ''prompt was flagged by our safety'', ''content_filter'',
     ''responsibleaipolicyviolation'']"

definition auth_patterns :: "string list" where
  "auth_patterns = [''invalid api key'', ''invalid_api_key'', ''authentication'', ''unauthorized'',
     ''forbidden'', ''invalid token'', ''token expired'', ''token revoked'', ''access denied'']"

definition multimodal_tool_content_patterns :: "string list" where
  "multimodal_tool_content_patterns = [''text is not set'', ''tool message content must be a string'',
     ''tool content must be a string'', ''expected string, got list'', ''expected string, got array'',
     ''tool_call.content must be string'']"

definition ssl_cert_verify_patterns :: "string list" where
  "ssl_cert_verify_patterns = [''certificate verify failed'', ''certificate_verify_failed'',
     ''unable to get local issuer certificate'', ''self-signed certificate'',
     ''certificate has expired'', ''hostname mismatch'']"

definition ssl_transient_patterns :: "string list" where
  "ssl_transient_patterns = [''bad record mac'', ''ssl alert'', ''tls alert'', ''ssl handshake failure'',
     ''[ssl:'', ''bad_record_mac'']"

definition server_disconnect_patterns :: "string list" where
  "server_disconnect_patterns = [''server disconnected'', ''peer closed connection'', ''connection reset by peer'',
     ''network connection lost'', ''unexpected eof'', ''incomplete chunked read'']"

definition transport_error_types :: "string list" where
  "transport_error_types = [''ReadTimeout'', ''ConnectTimeout'', ''PoolTimeout'', ''ConnectError'',
     ''RemoteProtocolError'', ''ConnectionError'', ''ConnectionResetError'', ''ConnectionAbortedError'',
     ''BrokenPipeError'', ''TimeoutError'', ''ReadError'', ''ServerDisconnectedError'', ''SSLError'',
     ''SSLZeroReturnError'', ''APIConnectionError'', ''APITimeoutError'']"

definition any_in :: "string list \<Rightarrow> string \<Rightarrow> bool" where
  "any_in ps t = list_ex (\<lambda>p. contains p t) ps"

section \<open>What is read from the error\<close>

text \<open>\<open>re.search(r"\b(4\d{2}|5\d{2})\b", text)\<close>, with what \<open>int\<close> makes of the match.\<close>

record char_tables =
  ct_alnum :: "string \<Rightarrow> bool"        \<comment> \<open>letters and digits beyond ASCII\<close>
  ct_digit :: "string \<Rightarrow> nat option"  \<comment> \<open>decimal digits beyond ASCII\<close>

definition u_digit :: "char_tables \<Rightarrow> string \<Rightarrow> nat option" where
  "u_digit ct u = (case u of [c] \<Rightarrow> digit_val c | _ \<Rightarrow> ct_digit ct u)"

definition status_at :: "char_tables \<Rightarrow> string list \<Rightarrow> int option" where
  "status_at ct us = (case us of
       a # b # c # rest \<Rightarrow>
         (if (a = ''4'' \<or> a = ''5'') \<and> (case rest of [] \<Rightarrow> True | d # _ \<Rightarrow> \<not> word_char (ct_alnum ct) d)
          then (case (u_digit ct a, u_digit ct b, u_digit ct c) of
                  (Some x, Some y, Some z) \<Rightarrow> Some (int (100 * x + 10 * y + z))
                | _ \<Rightarrow> None)
          else None)
     | _ \<Rightarrow> None)"

fun find_status :: "char_tables \<Rightarrow> bool \<Rightarrow> string list \<Rightarrow> int option" where
  "find_status ct in_word [] = None"
| "find_status ct in_word (u # us) = (case (if in_word then None else status_at ct (u # us)) of
       Some st \<Rightarrow> Some st
     | None \<Rightarrow> find_status ct (word_char (ct_alnum ct) u) us)"

text \<open>\<open>isinstance(val, int)\<close> holds of booleans.\<close>

definition int_attr :: "jval \<Rightarrow> int option" where
  "int_attr v = (case v of JInt i \<Rightarrow> Some i | JBool b \<Rightarrow> Some (if b then 1 else 0) | _ \<Rightarrow> None)"

definition extract_status_code :: "char_tables \<Rightarrow> api_error \<Rightarrow> int option" where
  "extract_status_code ct e = (case map_option int_attr (find (\<lambda>v. int_attr v \<noteq> None)
       [ae_status_code e, ae_http_status e, ae_code e]) of
       Some st \<Rightarrow> st
     | None \<Rightarrow> find_status ct False (cps (ae_text e)))"

text \<open>The first attribute that is a dictionary or a text; a text is parsed, or wrapped.\<close>

definition extract_error_body :: "(string \<Rightarrow> jval option) \<Rightarrow> api_error \<Rightarrow> jval" where
  "extract_error_body loads e = (case find (\<lambda>v. case v of JObj _ \<Rightarrow> True | JStr _ \<Rightarrow> True | _ \<Rightarrow> False)
       [ae_body e, ae_response e, ae_error e] of
       Some (JStr s) \<Rightarrow> (case loads s of Some v \<Rightarrow> v | None \<Rightarrow> JObj [(''message'', JStr s)])
     | Some v \<Rightarrow> v
     | None \<Rightarrow> JObj [])"

text \<open>\<open>body.get("error", body)\<close>\<close>

definition error_object :: "(string, jval) dict \<Rightarrow> jval" where
  "error_object body = (case dget body ''error'' of Some v \<Rightarrow> v | None \<Rightarrow> JObj body)"

definition extract_error_code :: "jval \<Rightarrow> string" where
  "extract_error_code body = (case body of
       JObj b \<Rightarrow> (case error_object b of JObj err \<Rightarrow> str_field err ''code'' '''' | _ \<Rightarrow> '''')
     | _ \<Rightarrow> '''')"

text \<open>
  The message recorded with the classification.  The membership test raises \<open>TypeError\<close>, here
  \<open>None\<close>, when the message of the body is no text.
\<close>

definition extract_message :: "api_error \<Rightarrow> jval \<Rightarrow> string option" where
  "extract_message e body = (let msg = utake 500 (ae_text e) in case body of
       JObj b \<Rightarrow> (case error_object b of
           JObj err \<Rightarrow> (case jget err ''message'' of
               JStr m \<Rightarrow> Some (if m \<noteq> '''' \<and> \<not> contains m msg then msg @ '' | '' @ utake 200 m else msg)
             | v \<Rightarrow> if truthy v then None else Some msg)
         | _ \<Rightarrow> Some msg)
     | _ \<Rightarrow> Some msg)"

definition nested_message :: "(string \<Rightarrow> jval option) \<Rightarrow> (string, jval) dict \<Rightarrow> string" where
  "nested_message loads err = (case jget err ''metadata'' of
       JObj meta \<Rightarrow> (case jget meta ''raw'' of
           JStr raw \<Rightarrow> (if strip raw = '''' then '''' else
             (case loads raw of
                Some (JObj inner) \<Rightarrow> (case jget inner ''error'' of
                    JObj ie \<Rightarrow> lower (str_field ie ''message'' '''') | _ \<Rightarrow> '''')
              | _ \<Rightarrow> ''''))
         | _ \<Rightarrow> '''')
     | _ \<Rightarrow> '''')"

definition failure_text :: "(string \<Rightarrow> jval option) \<Rightarrow> api_error \<Rightarrow> string" where
  "failure_text loads e = (
     let raw = lower (ae_text e);
         (body_msg, meta_msg) = (case extract_error_body loads e of
            JObj b \<Rightarrow>
              let (m, n) = (case jget b ''error'' of
                     JObj err \<Rightarrow> (lower (str_field err ''message'' ''''), nested_message loads err)
                   | _ \<Rightarrow> ('''', ''''))
              in (if m = '''' then lower (str_field b ''message'' '''') else m, n)
          | _ \<Rightarrow> ('''', ''''))
     in join '' '' (raw
          # (if body_msg \<noteq> '''' \<and> \<not> contains body_msg raw then [body_msg] else [])
          @ (if meta_msg \<noteq> '''' \<and> \<not> contains meta_msg raw \<and> \<not> contains meta_msg body_msg then [meta_msg] else [])))"

definition is_openrouter_upstream_error :: "jval \<Rightarrow> string \<Rightarrow> bool" where
  "is_openrouter_upstream_error body provider \<longleftrightarrow> lower provider = ''openrouter'' \<and> (case body of
       JObj b \<Rightarrow> (case jget b ''error'' of
           JObj err \<Rightarrow> contains ''provider returned error'' (lower (case dget err ''message'' of Some v \<Rightarrow> pystr v | None \<Rightarrow> ''''))
         | _ \<Rightarrow> False)
     | _ \<Rightarrow> False)"

definition extract_upstream_provider_name :: "jval \<Rightarrow> string" where
  "extract_upstream_provider_name body = (case body of
       JObj b \<Rightarrow> (case jget b ''error'' of
           JObj err \<Rightarrow> (case dget err ''metadata'' of
               Some (JObj meta) \<Rightarrow> str_field meta ''upstream'' ''''
             | _ \<Rightarrow> '''')
         | _ \<Rightarrow> '''')
     | _ \<Rightarrow> '''')"

section \<open>The pipeline\<close>

text \<open>Each stage answers with a recovery or passes the error on.\<close>

definition provider_stage :: "int option \<Rightarrow> string \<Rightarrow> recovery option" where
  "provider_stage st t =
    (if any_in content_policy_blocked_patterns t then Some (fall_back F_Content_Policy_Blocked)
     else if st = Some 400 \<and> contains ''thinking'' t \<and> (contains ''signature'' t \<or> contains ''cannot be modified'' t)
       then Some (plain_retry F_Thinking_Signature)
     else if st = Some 429 \<and> contains ''extra usage'' t \<and> contains ''long context'' t
       then Some (compress_and_retry F_Long_Context_Tier)
     else if st = Some 400 \<and> (contains ''error parsing grammar'' t \<or> contains ''json-schema-to-grammar'' t)
       then Some (plain_retry F_Llama_Cpp_Grammar_Pattern)
     else None)"

definition forbidden_recovery :: "string \<Rightarrow> recovery" where
  "forbidden_recovery t = fall_back
     (if any_in billing_patterns t \<or> contains ''spending limit'' t then F_Billing else F_Auth)"

definition not_found_recovery :: "string \<Rightarrow> recovery" where
  "not_found_recovery t =
    (if any_in billing_patterns t then fall_back F_Billing
     else if any_in provider_policy_blocked_patterns t then give_up F_Provider_Policy_Blocked
     else if any_in model_not_found_patterns t then fall_back F_Model_Not_Found
     else plain_retry F_Unknown)"

definition too_many_recovery :: "string \<Rightarrow> jval \<Rightarrow> string \<Rightarrow> recovery" where
  "too_many_recovery t body provider =
    (if any_in overloaded_patterns t then plain_retry F_Overloaded
     else if is_openrouter_upstream_error body provider
       then (retry_or_fall_back F_Upstream_Rate_Limit)\<lparr>rc_context :=
              (let n = extract_upstream_provider_name body in if n = '''' then [] else [(''upstream_provider'', n)])\<rparr>
     else retry_or_fall_back F_Rate_Limit)"

definition bad_request_recovery :: "string \<Rightarrow> recovery" where
  "bad_request_recovery t =
    (if any_in image_too_large_patterns t then compress_and_retry F_Image_Too_Large
     else if any_in multimodal_tool_content_patterns t then plain_retry F_Multimodal_Tool_Content_Unsupported
     else if any_in request_validation_patterns t then fall_back F_Format_Error
     else if any_in context_overflow_patterns t then compress_and_retry F_Context_Overflow
     else give_up F_Format_Error)"

definition server_recovery :: "string \<Rightarrow> recovery" where
  "server_recovery t =
    (if any_in request_validation_patterns t then fall_back F_Format_Error
     else if any_in context_overflow_patterns t then compress_and_retry F_Context_Overflow
     else plain_retry F_Server_Error)"

definition unavailable_recovery :: "string \<Rightarrow> recovery" where
  "unavailable_recovery t =
    (if any_in context_overflow_patterns t then compress_and_retry F_Context_Overflow
     else plain_retry F_Overloaded)"

definition status_stage :: "int option \<Rightarrow> string \<Rightarrow> jval \<Rightarrow> string \<Rightarrow> recovery option" where
  "status_stage st t body provider =
    (if st = Some 401 then Some ((fall_back F_Auth)\<lparr>rc_rotate := True\<rparr>)
     else if st = Some 403 then Some (forbidden_recovery t)
     else if st = Some 402 then Some (fall_back F_Billing)
     else if st = Some 404 then Some (not_found_recovery t)
     else if st = Some 413 then Some (compress_and_retry F_Payload_Too_Large)
     else if st = Some 429 then Some (too_many_recovery t body provider)
     else if st = Some 400 then Some (bad_request_recovery t)
     else if st = Some 500 \<or> st = Some 502 then Some (server_recovery t)
     else if st = Some 503 \<or> st = Some 529 then Some (unavailable_recovery t)
     else if st = Some 408 then Some (plain_retry F_Timeout)
     else None)"

definition code_stage :: "string \<Rightarrow> recovery option" where
  "code_stage code =
    (if lower code \<in> set [''invalid_request_error'', ''unknown_parameter'', ''unsupported_parameter'']
       then Some (give_up F_Format_Error)
     else if lower code \<in> set [''insufficient_quota'', ''billing_not_active'', ''payment_required'']
       then Some (fall_back F_Billing)
     else None)"

definition text_stage :: "string \<Rightarrow> recovery option" where
  "text_stage t =
    (if any_in context_overflow_patterns t then Some (compress_and_retry F_Context_Overflow)
     else if any_in billing_patterns t then Some (fall_back F_Billing)
     else if any_in rate_limit_patterns t then Some (retry_or_fall_back F_Rate_Limit)
     else if any_in overloaded_patterns t then Some (plain_retry F_Overloaded)
     else if any_in model_not_found_patterns t then Some (fall_back F_Model_Not_Found)
     else if any_in payload_too_large_patterns t then Some (compress_and_retry F_Payload_Too_Large)
     else if any_in auth_patterns t then Some (retry_or_fall_back F_Auth)
     else if contains ''timed out'' t \<or> contains ''deadline exceeded'' t then Some (plain_retry F_Timeout)
     else None)"

text \<open>The size of the session, from arguments which the retry loop leaves at their defaults.\<close>

record session_size =
  sz_tokens :: int
  sz_context :: int
  sz_messages :: int

definition default_size :: session_size where
  "default_size = \<lparr>sz_tokens = 0, sz_context = 200000, sz_messages = 0\<rparr>"

definition is_large :: "session_size \<Rightarrow> bool" where
  "is_large sz \<longleftrightarrow> rat_of_int (sz_context sz) * (6 / 10) < rat_of_int (sz_tokens sz)
     \<or> (sz_context sz \<le> 256000 \<and> (120000 < sz_tokens sz \<or> 200 < sz_messages sz))"

definition transport_stage :: "session_size \<Rightarrow> int option \<Rightarrow> string \<Rightarrow> api_error \<Rightarrow> recovery" where
  "transport_stage sz st t e =
    (if any_in ssl_cert_verify_patterns t then give_up F_Ssl_Cert_Verification
     else if any_in ssl_transient_patterns t then plain_retry F_Timeout
     else if any_in server_disconnect_patterns t \<and> (st = None \<or> st = Some 0)
       then (if is_large sz then compress_and_retry F_Context_Overflow else plain_retry F_Timeout)
     else if ae_type e \<in> set transport_error_types \<or> ae_transport e then plain_retry F_Timeout
     else plain_retry F_Unknown)"

definition first_recovery :: "recovery option list \<Rightarrow> recovery \<Rightarrow> recovery" where
  "first_recovery rs r = (case find (\<lambda>x. x \<noteq> None) rs of Some (Some x) \<Rightarrow> x | _ \<Rightarrow> r)"

definition status_of :: "char_tables \<Rightarrow> api_error \<Rightarrow> int option" where
  "status_of ct e = (case extract_status_code ct e of
       None \<Rightarrow> if ae_type e = ''RateLimitError'' then Some 429 else None
     | Some st \<Rightarrow> Some st)"

definition recovery_for ::
  "(string \<Rightarrow> jval option) \<Rightarrow> char_tables \<Rightarrow> session_size \<Rightarrow> string \<Rightarrow> api_error \<Rightarrow> recovery" where
  "recovery_for loads ct sz provider e = (
     let st = status_of ct e; body = extract_error_body loads e; t = failure_text loads e
     in first_recovery
          [provider_stage st t, status_stage st t body (lower (strip provider)),
           code_stage (extract_error_code body), text_stage t]
          (transport_stage sz st t e))"

definition classify_api_error ::
  "(string \<Rightarrow> jval option) \<Rightarrow> char_tables \<Rightarrow> session_size \<Rightarrow> string \<Rightarrow> string \<Rightarrow> api_error \<Rightarrow> classified option" where
  "classify_api_error loads ct sz provider model e =
     map_option (\<lambda>m. recovery.extend (recovery_for loads ct sz provider e)
         (classified.fields (status_of ct e) provider model m))
       (extract_message e (extract_error_body loads e))"

end
