(* ===== verification/Provider_Health.thy ===== *)
theory Provider_Health
  imports Json_Values
begin

text \<open>
  Which providers are tried: the circuit breaker of a provider and model
  (\<open>transport/provider_health.py\<close>), the chain of fallbacks (\<open>transport/fallback.py\<close>) and the step
  to the next of them (\<open>core/agent_loop/loop_helpers.py\<close>).

  The breaker is a table of circuits under one lock, so each operation is a function on the
  table and takes the clock as an argument.  \<open>float\<close> on the text of a setting is a parameter, and so is the
  construction of a client, which may raise.
\<close>

section \<open>Circuits\<close>

record circuit_state =
  cs_failures :: nat
  cs_last_failure :: secs
  cs_open_until :: secs

type_synonym circuits = "(string, circuit_state) dict"

definition new_circuit :: circuit_state where
  "new_circuit = \<lparr>cs_failures = 0, cs_last_failure = 0, cs_open_until = 0\<rparr>"

record circuit_env =
  ci_env :: os_env
  ci_float :: "string \<Rightarrow> rat option"

definition provider_circuit_enabled :: "circuit_env \<Rightarrow> bool" where
  "provider_circuit_enabled ci = env_truthy (ci_env ci) ''BUTLER_PROVIDER_CIRCUIT'' True"

definition failure_threshold :: "circuit_env \<Rightarrow> nat" where
  "failure_threshold ci = nat (int_env (ci_env ci) ''BUTLER_PROVIDER_CIRCUIT_FAILURES'' 3 2)"

text \<open>\<open>float_env\<close> with a lower bound.\<close>

definition float_env :: "circuit_env \<Rightarrow> string \<Rightarrow> rat \<Rightarrow> rat \<Rightarrow> rat" where
  "float_env ci name d lo = max lo (case ci_env ci name of
       None \<Rightarrow> d
     | Some raw \<Rightarrow> if strip raw = '''' then d else (case ci_float ci (strip raw) of Some x \<Rightarrow> x | None \<Rightarrow> d))"

definition open_seconds :: "circuit_env \<Rightarrow> secs" where
  "open_seconds ci = float_env ci ''BUTLER_PROVIDER_CIRCUIT_OPEN_SECONDS'' 120 30"

definition provider_key :: "string \<Rightarrow> string \<Rightarrow> string" where
  "provider_key provider model = str_or provider ''?'' @ '':'' @ str_or model ''?''"

text \<open>A query closes a circuit whose time is over, and forgets its failures.\<close>

definition is_circuit_open :: "circuit_env \<Rightarrow> secs \<Rightarrow> string \<Rightarrow> string \<Rightarrow> circuits \<Rightarrow> bool \<times> circuits" where
  "is_circuit_open ci now provider model t =
     (if \<not> provider_circuit_enabled ci then (False, t)
      else case dget t (provider_key provider model) of
          None \<Rightarrow> (False, t)
        | Some st \<Rightarrow>
            if cs_open_until st \<noteq> 0 \<and> now < cs_open_until st then (True, t)
            else if cs_open_until st \<noteq> 0 \<and> cs_open_until st \<le> now
              then (False, dset (provider_key provider model) (st\<lparr>cs_open_until := 0, cs_failures := 0\<rparr>) t)
            else (False, t))"

definition record_provider_success :: "circuit_env \<Rightarrow> string \<Rightarrow> string \<Rightarrow> circuits \<Rightarrow> circuits" where
  "record_provider_success ci provider model t =
     (if \<not> provider_circuit_enabled ci then t
      else case dget t (provider_key provider model) of
          None \<Rightarrow> t
        | Some st \<Rightarrow> dset (provider_key provider model) (st\<lparr>cs_failures := 0, cs_open_until := 0\<rparr>) t)"

definition record_provider_failure :: "circuit_env \<Rightarrow> secs \<Rightarrow> string \<Rightarrow> string \<Rightarrow> circuits \<Rightarrow> circuits" where
  "record_provider_failure ci now provider model t =
     (if \<not> provider_circuit_enabled ci then t
      else let key = provider_key provider model;
               st0 = (case dget t key of None \<Rightarrow> new_circuit | Some st \<Rightarrow> st);
               st = st0\<lparr>cs_failures := Suc (cs_failures st0), cs_last_failure := now\<rparr>
           in dset key (if failure_threshold ci \<le> cs_failures st
                        then st\<lparr>cs_open_until := now + open_seconds ci\<rparr> else st) t)"

section \<open>Fallbacks\<close>

record fallback_entry =
  fe_provider :: string
  fe_model :: string
  fe_api_key :: "string option"
  fe_base_url :: "string option"

text \<open>The settings of one provider, and the model configurations a chain is built from.\<close>

record provider_settings =
  pv_model :: string
  pv_api_key :: "string option"
  pv_base_url :: "string option"

record model_config =
  mc_provider :: string
  mc_model :: string

record butler_settings =
  bs_default_provider :: string
  bs_providers :: "string \<Rightarrow> provider_settings option"
  bs_fallbacks :: "model_config \<Rightarrow> model_config list"

definition from_model_config :: "butler_settings \<Rightarrow> model_config \<Rightarrow> fallback_entry option" where
  "from_model_config bs cfg =
     (if mc_provider cfg = '''' \<and> mc_model cfg = '''' then None
      else let pc = (if mc_provider cfg \<noteq> '''' then bs_providers bs (mc_provider cfg) else None)
           in Some \<lparr>fe_provider = str_or (mc_provider cfg) (bs_default_provider bs),
                    fe_model = str_or (mc_model cfg) (case pc of Some p \<Rightarrow> pv_model p | None \<Rightarrow> ''''),
                    fe_api_key = (case pc of Some p \<Rightarrow> pv_api_key p | None \<Rightarrow> None),
                    fe_base_url = (case pc of Some p \<Rightarrow> pv_base_url p | None \<Rightarrow> None)\<rparr>)"

definition entry_key :: "fallback_entry \<Rightarrow> string \<times> string" where
  "entry_key e = (fe_provider e, fe_model e)"

definition add_entry :: "butler_settings \<Rightarrow> model_config \<Rightarrow> fallback_entry list \<Rightarrow> fallback_entry list" where
  "add_entry bs cfg chain = (case from_model_config bs cfg of
       None \<Rightarrow> chain
     | Some e \<Rightarrow> if entry_key e \<in> set (map entry_key chain) then chain else chain @ [e])"

definition build_fallback_chain :: "butler_settings \<Rightarrow> model_config \<Rightarrow> model_config list \<Rightarrow> fallback_entry list" where
  "build_fallback_chain bs primary extra = fold (add_entry bs) (primary # extra @ bs_fallbacks bs primary) []"

text \<open>Entries whose circuit is open are dropped; a chain of such entries only is kept as it is.\<close>

fun drop_open :: "circuit_env \<Rightarrow> secs \<Rightarrow> fallback_entry list \<Rightarrow> circuits \<Rightarrow> fallback_entry list \<times> circuits" where
  "drop_open ci now [] t = ([], t)"
| "drop_open ci now (e # es) t = (case is_circuit_open ci now (fe_provider e) (fe_model e) t of
       (opn, t1) \<Rightarrow> (case drop_open ci now es t1 of
          (rest, t2) \<Rightarrow> (if opn then rest else e # rest, t2)))"

definition filter_fallback_chain :: "circuit_env \<Rightarrow> secs \<Rightarrow> fallback_entry list \<Rightarrow> circuits \<Rightarrow> fallback_entry list \<times> circuits" where
  "filter_fallback_chain ci now chain t =
     (if \<not> provider_circuit_enabled ci then (chain, t)
      else case drop_open ci now chain t of (out, t') \<Rightarrow> (if out = [] then chain else out, t'))"

section \<open>The next fallback\<close>

text \<open>
  A client keeps its provider under \<open>provider_name\<close>.  It has no attribute \<open>provider\<close>, so the
  readers of that attribute see the empty text.
\<close>

record llm_client =
  cl_provider_name :: string
  cl_model :: string

definition provider_attribute :: "llm_client \<Rightarrow> string" where
  "provider_attribute c = ''''"

record fallbacks =
  fb_client :: llm_client
  fb_chain :: "fallback_entry list"
  fb_index :: nat

text \<open>
  An entry whose client cannot be made is to be recorded as a failure; the call that does so passes one
  argument too many, so it raises \<open>TypeError\<close>: \<open>None\<close>.  The recursion that follows it is never reached.
\<close>

definition try_activate_fallback :: "(fallback_entry \<Rightarrow> llm_client option) \<Rightarrow> fallbacks \<Rightarrow> (bool \<times> fallbacks) option" where
  "try_activate_fallback create fb =
     (if length (fb_chain fb) \<le> fb_index fb then Some (False, fb)
      else case create (fb_chain fb ! fb_index fb) of
          Some c \<Rightarrow> Some (True, fb\<lparr>fb_client := c, fb_index := Suc (fb_index fb)\<rparr>)
        | None \<Rightarrow> None)"

section \<open>Runs of the breaker\<close>

datatype circuit_event =
    Failure secs string string
  | Success string string
  | Query secs string string

definition circuit_step :: "circuit_env \<Rightarrow> circuit_event \<Rightarrow> circuits \<Rightarrow> circuits" where
  "circuit_step ci e t = (case e of
       Failure now p m \<Rightarrow> record_provider_failure ci now p m t
     | Success p m \<Rightarrow> record_provider_success ci p m t
     | Query now p m \<Rightarrow> snd (is_circuit_open ci now p m t))"

text \<open>
  What the table stands for: of every key, the times of the failures that count, the latest first.  A
  success clears them, and so does a query that finds the circuit due, that is open for as long as it is to be.
\<close>

definition tripped :: "circuit_env \<Rightarrow> secs list \<Rightarrow> bool" where
  "tripped ci fs \<longleftrightarrow> failure_threshold ci \<le> length fs"

definition open_end :: "circuit_env \<Rightarrow> secs list \<Rightarrow> secs" where
  "open_end ci fs = hd fs + open_seconds ci"

definition note_event :: "circuit_env \<Rightarrow> string \<Rightarrow> secs list \<Rightarrow> circuit_event \<Rightarrow> secs list" where
  "note_event ci k fs e = (case e of
       Failure now p m \<Rightarrow> if provider_key p m = k then now # fs else fs
     | Success p m \<Rightarrow> if provider_key p m = k then [] else fs
     | Query now p m \<Rightarrow> if provider_key p m = k \<and> tripped ci fs \<and> open_end ci fs \<le> now then [] else fs)"

definition counted_failures :: "circuit_env \<Rightarrow> string \<Rightarrow> circuit_event list \<Rightarrow> secs list" where
  "counted_failures ci k es = foldl (note_event ci k) [] es"

definition after_epoch :: "circuit_event \<Rightarrow> bool" where
  "after_epoch e = (case e of Failure now p m \<Rightarrow> 0 \<le> now | _ \<Rightarrow> True)"

definition stands_for :: "circuit_env \<Rightarrow> secs list \<Rightarrow> circuit_state option \<Rightarrow> bool" where
  "stands_for ci fs c \<longleftrightarrow> list_all (\<lambda>x. 0 \<le> x) fs \<and> (case c of
       None \<Rightarrow> fs = []
     | Some st \<Rightarrow> cs_failures st = length fs \<and> cs_open_until st = (if tripped ci fs then open_end ci fs else 0))"

definition circuits_ok :: "circuit_env \<Rightarrow> (string \<Rightarrow> secs list) \<Rightarrow> circuits \<Rightarrow> bool" where
  "circuits_ok ci fs t \<longleftrightarrow> (\<forall>k. stands_for ci (fs k) (dget t k))"

lemma threshold_pos: "0 < failure_threshold ci"
  by (auto simp: failure_threshold_def int_env_def split: option.split)

lemma open_seconds_pos: "0 < open_seconds ci"
  by (simp add: open_seconds_def float_env_def)

lemma not_tripped_Nil [simp]: "\<not> tripped ci []"
  using threshold_pos[of ci] by (simp add: tripped_def)

lemma open_end_pos: "list_all (\<lambda>x. 0 \<le> x) fs \<Longrightarrow> tripped ci fs \<Longrightarrow> 0 < open_end ci fs"
  using open_seconds_pos[of ci] by (cases fs) (auto simp: open_end_def intro: add_nonneg_pos)

lemma stands_for_Nil: "stands_for ci [] None" "cs_failures st = 0 \<Longrightarrow> cs_open_until st = 0 \<Longrightarrow> stands_for ci [] (Some st)"
  by (simp_all add: stands_for_def)

text \<open>An operation rewrites the circuit of one key.\<close>

lemma circuits_ok_dset:
  assumes "circuits_ok ci fs t" and "\<And>k'. k' \<noteq> k \<Longrightarrow> fs' k' = fs k'" and "stands_for ci (fs' k) (Some st)"
  shows "circuits_ok ci fs' (dset k st t)"
  using assms by (auto simp: circuits_ok_def)

lemma query_step:
  assumes "circuits_ok ci fs t" and "provider_circuit_enabled ci"
  shows "fst (is_circuit_open ci now p m t) \<longleftrightarrow>
           tripped ci (fs (provider_key p m)) \<and> now < open_end ci (fs (provider_key p m))"
    and "circuits_ok ci (\<lambda>k. note_event ci k (fs k) (Query now p m)) (snd (is_circuit_open ci now p m t))"
proof -
  let ?k = "provider_key p m"
  have k: "stands_for ci (fs ?k) (dget t ?k)" using assms(1) by (simp add: circuits_ok_def)
  have pos: "tripped ci (fs ?k) \<Longrightarrow> open_end ci (fs ?k) \<noteq> 0"
    using k open_end_pos[of "fs ?k" ci] by (auto simp: stands_for_def)
  show "fst (is_circuit_open ci now p m t) \<longleftrightarrow> tripped ci (fs ?k) \<and> now < open_end ci (fs ?k)"
    using k pos assms(2) by (auto simp: is_circuit_open_def stands_for_def split: option.splits if_splits)
  have *: "circuits_ok ci (\<lambda>k. note_event ci k (fs k) (Query now p m)) t"
    if "\<not> (tripped ci (fs ?k) \<and> open_end ci (fs ?k) \<le> now)"
    using that assms(1) by (auto simp: circuits_ok_def note_event_def)
  show "circuits_ok ci (\<lambda>k. note_event ci k (fs k) (Query now p m)) (snd (is_circuit_open ci now p m t))"
  proof (cases "tripped ci (fs ?k) \<and> open_end ci (fs ?k) \<le> now")
    case True
    then obtain st where st: "dget t ?k = Some st" "cs_open_until st = open_end ci (fs ?k)"
      using k by (auto simp: stands_for_def split: option.splits)
    then have "is_circuit_open ci now p m t = (False, dset ?k (st\<lparr>cs_open_until := 0, cs_failures := 0\<rparr>) t)"
      using True pos assms(2) by (simp add: is_circuit_open_def)
    then show ?thesis
      using True by (auto intro!: circuits_ok_dset[OF assms(1)] stands_for_Nil simp: note_event_def)
  next
    case False
    have "snd (is_circuit_open ci now p m t) = t"
      using False k assms(2) by (auto simp: is_circuit_open_def stands_for_def split: option.splits)
    then show ?thesis using *[OF False] by simp
  qed
qed

lemma success_step:
  assumes "circuits_ok ci fs t" and "provider_circuit_enabled ci"
  shows "circuits_ok ci (\<lambda>k. note_event ci k (fs k) (Success p m)) (record_provider_success ci p m t)"
proof (cases "dget t (provider_key p m)")
  case None
  then show ?thesis using assms
    by (auto simp: record_provider_success_def circuits_ok_def note_event_def stands_for_def)
next
  case (Some st)
  then show ?thesis using assms(2)
    by (auto simp: record_provider_success_def note_event_def intro!: circuits_ok_dset[OF assms(1)] stands_for_Nil)
qed

lemma failure_step:
  assumes "circuits_ok ci fs t" and "provider_circuit_enabled ci" and "0 \<le> now"
  shows "circuits_ok ci (\<lambda>k. note_event ci k (fs k) (Failure now p m)) (record_provider_failure ci now p m t)"
proof -
  let ?k = "provider_key p m"
  have "stands_for ci (fs ?k) (dget t ?k)" using assms(1) by (simp add: circuits_ok_def)
  then have st0: "list_all (\<lambda>x. 0 \<le> x) (fs ?k)"
    "cs_failures (case dget t ?k of None \<Rightarrow> new_circuit | Some st \<Rightarrow> st) = length (fs ?k)"
    "\<not> tripped ci (fs ?k) \<Longrightarrow> cs_open_until (case dget t ?k of None \<Rightarrow> new_circuit | Some st \<Rightarrow> st) = 0"
    by (auto simp: stands_for_def new_circuit_def split: option.splits)
  show ?thesis
    unfolding record_provider_failure_def Let_def
    using assms(2,3) st0
    by (auto simp: note_event_def stands_for_def tripped_def open_end_def intro!: circuits_ok_dset[OF assms(1)])
qed

lemma circuit_step_simps [simp]:
  "circuit_step ci (Failure now p m) t = record_provider_failure ci now p m t"
  "circuit_step ci (Success p m) t = record_provider_success ci p m t"
  "circuit_step ci (Query now p m) t = snd (is_circuit_open ci now p m t)"
  by (simp_all add: circuit_step_def)

lemma circuits_run_ok:
  assumes "provider_circuit_enabled ci" and "list_all after_epoch es"
  shows "circuits_ok ci (\<lambda>k. counted_failures ci k es) (fold (circuit_step ci) es [])"
  using assms(2)
proof (induction es rule: rev_induct)
  case Nil
  then show ?case by (simp add: circuits_ok_def counted_failures_def stands_for_Nil)
next
  case (snoc e es)
  then have ok: "circuits_ok ci (\<lambda>k. counted_failures ci k es) (fold (circuit_step ci) es [])" by simp
  have e: "after_epoch e" using snoc.prems by simp
  show ?case
    using failure_step[OF ok assms(1)] success_step[OF ok assms(1)] query_step(2)[OF ok assms(1)] e
    by (cases e) (simp_all add: counted_failures_def after_epoch_def)
qed

text \<open>
  C20: After any failures, successes and queries, in any order, a circuit is open exactly when the breaker is
  enabled, the failures of its provider and model since the last success or expiry reach the threshold, and the
  last of them is less than the open time ago.
\<close>

theorem circuit_opens_after_failures:
  assumes "list_all after_epoch es"
  shows "fst (is_circuit_open ci now p m (fold (circuit_step ci) es [])) \<longleftrightarrow> provider_circuit_enabled ci
     \<and> failure_threshold ci \<le> length (counted_failures ci (provider_key p m) es)
     \<and> now < hd (counted_failures ci (provider_key p m) es) + open_seconds ci"
proof (cases "provider_circuit_enabled ci")
  case True
  show ?thesis
    using query_step(1)[OF circuits_run_ok[OF True assms] True, of now p m] True by (simp add: tripped_def open_end_def)
qed (simp add: is_circuit_open_def)

definition plain_ci :: circuit_env where
  "plain_ci = \<lparr>ci_env = (\<lambda>_. None), ci_float = (\<lambda>_. None)\<rparr>"

lemma plain_ci_simps:
  "provider_circuit_enabled plain_ci" "failure_threshold plain_ci = 3" "open_seconds plain_ci = 120"
  by (simp_all add: plain_ci_def provider_circuit_enabled_def env_truthy_def failure_threshold_def int_env_def
      open_seconds_def float_env_def)

lemma circuit_opens_after_failures_witness:
  "fst (is_circuit_open plain_ci 100 ''p'' ''m'' (fold (circuit_step plain_ci)
      [Failure 1 ''p'' ''m'', Failure 2 ''p'' ''m'', Query 3 ''p'' ''m'', Failure 4 ''p'' ''m''] []))"
proof -
  let ?es = "[Failure 1 ''p'' ''m'', Failure 2 ''p'' ''m'', Query 3 ''p'' ''m'', Failure 4 ''p'' ''m'']"
  have ok: "list_all after_epoch ?es" by (simp add: after_epoch_def)
  have "counted_failures plain_ci (provider_key ''p'' ''m'') ?es = [4, 2, 1]"
    by (simp add: counted_failures_def note_event_def tripped_def plain_ci_simps)
  then show ?thesis by (simp only: circuit_opens_after_failures[OF ok] plain_ci_simps) simp
qed

section \<open>The breaker behind the agent loop\<close>

text \<open>What the loop records: the client it reports on has no attribute \<open>provider\<close>.\<close>

definition recorded_by_loop :: "circuit_event \<Rightarrow> bool" where
  "recorded_by_loop e = (case e of
       Failure now p m \<Rightarrow> p = ''''
     | Success p m \<Rightarrow> p = ''''
     | Query now p m \<Rightarrow> True)"

definition loop_keys :: "circuits \<Rightarrow> bool" where
  "loop_keys t \<longleftrightarrow> (\<forall>k \<in> set (dkeys t). prefix ''?:'' k)"

lemma loop_keys_dset: "loop_keys t \<Longrightarrow> prefix ''?:'' k \<Longrightarrow> loop_keys (dset k st t)"
  by (auto simp: loop_keys_def set_dkeys_dset)

lemma provider_key_empty: "prefix ''?:'' (provider_key '''' m)"
  by (simp add: provider_key_def str_or_def)

lemma loop_keys_get: "loop_keys t \<Longrightarrow> dget t k = Some st \<Longrightarrow> prefix ''?:'' k"
  by (force simp: loop_keys_def dest: map_of_SomeD)

lemma loop_keys_query: "loop_keys t \<Longrightarrow> loop_keys (snd (is_circuit_open ci now p m t))"
  by (auto simp: is_circuit_open_def Let_def split: option.split intro!: loop_keys_dset loop_keys_get)

lemma loop_keys_run: "list_all recorded_by_loop es \<Longrightarrow> loop_keys t \<Longrightarrow> loop_keys (fold (circuit_step ci) es t)"
proof (induction es arbitrary: t)
  case (Cons e es)
  have "loop_keys (circuit_step ci e t)"
    using Cons.prems provider_key_empty
    by (cases e) (auto simp: circuit_step_def recorded_by_loop_def record_provider_failure_def record_provider_success_def
        Let_def intro!: loop_keys_dset loop_keys_query split: option.split)
  then show ?case using Cons by simp
qed simp

lemma query_unknown: "dget t (provider_key p m) = None \<Longrightarrow> is_circuit_open ci now p m t = (False, t)"
  by (simp add: is_circuit_open_def)

lemma drop_open_unknown:
  "list_all (\<lambda>e. dget t (provider_key (fe_provider e) (fe_model e)) = None) chain \<Longrightarrow> drop_open ci now chain t = (chain, t)"
  by (induction chain) (simp_all add: query_unknown)

text \<open>
  The breaker never removes a fallback on account of what the agent loop reports: the loop reads the
  provider from an attribute the client does not have, so it counts under keys that no entry
  of a chain has.
\<close>

theorem loop_reports_open_no_circuit:
  assumes "list_all recorded_by_loop es"
    and "list_all (\<lambda>e. fe_provider e \<noteq> '''' \<and> hd (fe_provider e) \<noteq> CHR ''?'') chain"
  shows "fst (filter_fallback_chain ci now chain (fold (circuit_step ci) es [])) = chain"
proof -
  let ?t = "fold (circuit_step ci) es []"
  have keys: "loop_keys ?t" by (rule loop_keys_run[OF assms(1)]) (simp add: loop_keys_def)
  have "dget ?t (provider_key (fe_provider e) (fe_model e)) = None" if "e \<in> set chain" for e
  proof (rule ccontr)
    assume "dget ?t (provider_key (fe_provider e) (fe_model e)) \<noteq> None"
    then have "prefix ''?:'' (provider_key (fe_provider e) (fe_model e))" using loop_keys_get[OF keys] by blast
    with that assms(2) show False
      by (cases "fe_provider e") (auto simp: provider_key_def str_or_def list_all_iff)
  qed
  then show ?thesis by (simp add: filter_fallback_chain_def drop_open_unknown list_all_iff)
qed

lemma loop_reports_open_no_circuit_witness:
  "fst (filter_fallback_chain plain_ci 5 [\<lparr>fe_provider = ''p'', fe_model = ''m'', fe_api_key = None, fe_base_url = None\<rparr>]
      (fold (circuit_step plain_ci) [Failure 2 '''' ''m'', Failure 3 '''' ''m'', Failure 4 '''' ''m''] []))
    = [\<lparr>fe_provider = ''p'', fe_model = ''m'', fe_api_key = None, fe_base_url = None\<rparr>]"
  by (rule loop_reports_open_no_circuit) (simp_all add: recorded_by_loop_def)

text \<open>A chain names each provider and model once.\<close>

lemma add_entry_distinct:
  "distinct (map entry_key chain) \<Longrightarrow> distinct (map entry_key (add_entry bs cfg chain))"
  by (auto simp: add_entry_def split: option.split)

lemma add_entries_distinct:
  "distinct (map entry_key chain) \<Longrightarrow> distinct (map entry_key (fold (add_entry bs) cfgs chain))"
  by (induction cfgs arbitrary: chain) (simp_all add: add_entry_distinct)

lemma chain_has_no_duplicates: "distinct (map entry_key (build_fallback_chain bs primary extra))"
  unfolding build_fallback_chain_def by (rule add_entries_distinct) simp

lemma failed_fallback_stops_the_chain:
  "create (fb_chain fb ! fb_index fb) = None \<Longrightarrow> fb_index fb < length (fb_chain fb) \<Longrightarrow> try_activate_fallback create fb = None"
  by (simp add: try_activate_fallback_def)

end
