(* ===== verification/Llm_Retry.thy ===== *)
theory Llm_Retry
  imports Api_Errors Provider_Health Compaction
begin

text \<open>
  One call of the model, with its retries (\<open>core/llm_retry.py\<close> and the files
  \<open>core/llm_retry_*.py\<close>, \<open>core/schema_recovery.py\<close>, \<open>core/reactive_compact.py\<close>,
  \<open>core/loop_response.py\<close>, \<open>core/safety_finish.py\<close>, \<open>core/tool_call_normalize.py\<close>,
  \<open>transport/retry_utils.py\<close>).

  The callables the loop is given are the fields of \<open>call_hooks\<close>, over a state \<open>'w\<close> of their
  owner that the loop threads.  What the model answers may depend on every request
  made so far; the requests are kept as a trace, the latest last.  Callbacks that only observe, metrics and
  the store of the response cache are left out, and \<open>time.sleep\<close> adds to a list.
\<close>

section \<open>Settings, responses and requests\<close>

record loop_config =
  max_iterations :: int
  max_retries :: int
  retry_delay :: rat
  retry_max_delay :: rat
  retry_jitter_ratio :: rat
  enable_parallel_tools :: bool
  max_empty_content_retries :: int
  max_truncation_continues :: int

definition default_loop_config :: loop_config where
  "default_loop_config = \<lparr>max_iterations = 30, max_retries = 3, retry_delay = 1, retry_max_delay = 30,
     retry_jitter_ratio = 1 / 4, enable_parallel_tools = True, max_empty_content_retries = 1,
     max_truncation_continues = 1\<rparr>"

record called_tool =
  ct_id :: "string option"
  ct_name :: string
  ct_arguments :: string

text \<open>No list of tool calls and an empty one are not told apart.\<close>

record llm_response =
  lr_content :: "string option"
  lr_tool_calls :: "called_tool list"
  lr_finish_reason :: string
  lr_reasoning :: "string option"

record llm_request =
  rq_client :: llm_client
  rq_messages :: "msg list"
  rq_tools :: "jval list option"

datatype llm_answer = Answered llm_response | Interrupted_Call | Failed api_error

text \<open>What the compression answers: it may not know a keyword, raise something else, or return.\<close>

datatype 'a attempt = Type_Error | Other_Error | Value 'a

record llm_lib =
  ll_loads :: "string \<Rightarrow> jval option"
  ll_chars :: char_tables
  ll_re_sub :: "string \<Rightarrow> string \<Rightarrow> string"       \<comment> \<open>\<open>re.sub(pattern, "", text)\<close>, ignoring case, dot matches all\<close>
  ll_close :: "string \<Rightarrow> string list \<Rightarrow> string option"  \<comment> \<open>\<open>get_close_matches(word, valid, n=1, cutoff=0.7)\<close>\<close>
  ll_optimize :: "jval list \<Rightarrow> jval list option"  \<comment> \<open>\<open>optimize_tool_definitions\<close>; \<open>None\<close> when it raises\<close>
  ll_filter :: "jval list \<Rightarrow> jval list option"    \<comment> \<open>\<open>filter_tools_for_model\<close>\<close>
  ll_cached :: "msg list \<Rightarrow> string option"       \<comment> \<open>the response cache, when it is enabled\<close>
  ll_random :: "nat \<Rightarrow> rat"                      \<comment> \<open>the draws of \<open>random.random\<close>\<close>
  ll_debug :: bool                              \<comment> \<open>the logger of the module is enabled for \<open>DEBUG\<close>\<close>
  ll_env :: os_env

record 'w call_hooks =
  ch_ask :: "llm_request list \<Rightarrow> llm_request \<Rightarrow> llm_answer"
  ch_interrupt :: "'w \<Rightarrow> bool \<times> 'w"
  ch_prepare :: "'w \<Rightarrow> msg list \<Rightarrow> msg list option"     \<comment> \<open>\<open>None\<close> on \<open>ContextPrecheckOverflow\<close>\<close>
  ch_compress :: "bool \<Rightarrow> msg list \<Rightarrow> msg list attempt"  \<comment> \<open>with \<open>overflow_replay\<close> or without\<close>
  ch_fallback :: "'w \<Rightarrow> (bool \<times> 'w) option"            \<comment> \<open>\<open>None\<close> when it raises\<close>
  ch_success :: "llm_client \<Rightarrow> 'w \<Rightarrow> 'w"               \<comment> \<open>the breaker's \<open>record_provider_success\<close>\<close>

section \<open>Best effort\<close>

text \<open>The helper of these modules runs its function only when debug messages are logged.\<close>

definition safe_call :: "llm_lib \<Rightarrow> 'a option \<Rightarrow> 'a option" where
  "safe_call lib r = (if ll_debug lib then r else None)"

section \<open>Tools sent\<close>

definition prepare_tools_for_llm :: "llm_lib \<Rightarrow> jval list \<Rightarrow> jval list option" where
  "prepare_tools_for_llm lib tools =
     (if tools = [] then None
      else let t1 = (case safe_call lib (ll_optimize lib tools) of Some t \<Rightarrow> t | None \<Rightarrow> tools)
           in if t1 = [] then Some []
              else Some (case safe_call lib (ll_filter lib t1) of Some t \<Rightarrow> t | None \<Rightarrow> t1))"

definition schema_error_of :: "api_error \<Rightarrow> bool" where
  "schema_error_of e = is_schema_grammar_error (ae_text e)
     (case ae_body e of JNull \<Rightarrow> None | v \<Rightarrow> Some (pystr v))"

text \<open>\<open>==\<close> of Python on these values: the order of the keys does not matter.\<close>

function (sequential) py_eq :: "jval \<Rightarrow> jval \<Rightarrow> bool" where
  "py_eq (JObj a) (JObj b) \<longleftrightarrow> length a = length b
     \<and> list_all (\<lambda>(k, v). case dget b k of Some w \<Rightarrow> py_eq v w | None \<Rightarrow> False) a"
| "py_eq (JList xs) (JList ys) \<longleftrightarrow> length xs = length ys \<and> list_all (\<lambda>(x, y). py_eq x y) (zip xs ys)"
| "py_eq (JBool a) (JInt i) \<longleftrightarrow> i = (if a then 1 else 0)"
| "py_eq (JInt i) (JBool a) \<longleftrightarrow> i = (if a then 1 else 0)"
| "py_eq v w \<longleftrightarrow> v = w"
  by pat_completeness auto
termination
proof (relation "measure (\<lambda>(v, w). size v)")
  fix a b :: "(string, jval) dict" and x k v w
  assume "x \<in> set a" "(k, v) = x" "dget b k = Some w"
  then have "(k, v) \<in> set a" by simp
  then show "((v, w), JObj a, JObj b) \<in> measure (\<lambda>(v, w). size v)"
    by (induction a) auto
next
  fix xs ys :: "jval list" and z x y
  assume "z \<in> set (zip xs ys)" "(x, y) = z"
  then have "x \<in> set xs" by (auto dest: set_zip_leftD)
  then show "((x, y), JList xs, JList ys) \<in> measure (\<lambda>(v, w). size v)"
    by (induction xs) auto
qed simp

record schema_recovery =
  sr_tools :: "jval list option"
  sr_stripped :: nat
  sr_recovered :: bool
  sr_attempted :: bool

definition recover_schema_after_error :: "api_error \<Rightarrow> jval list option \<Rightarrow> schema_recovery" where
  "recover_schema_after_error e tools = (case tools of
       None \<Rightarrow> \<lparr>sr_tools = None, sr_stripped = 0, sr_recovered = False, sr_attempted = False\<rparr>
     | Some ts \<Rightarrow>
         if ts = [] \<or> \<not> schema_error_of e
         then \<lparr>sr_tools = None, sr_stripped = 0, sr_recovered = False, sr_attempted = False\<rparr>
         else let sanitized = sanitize_tool_schemas True (Some ts);
                  (out, n) = strip_pattern_and_format sanitized;
                  changed = (case out of Some us \<Rightarrow> \<not> py_eq (JList us) (JList ts) | None \<Rightarrow> True)
              in \<lparr>sr_tools = out, sr_stripped = n, sr_recovered = (n \<noteq> 0 \<or> changed), sr_attempted = True\<rparr>)"

section \<open>Delays\<close>

definition compute_retry_delay :: "nat \<Rightarrow> loop_config \<Rightarrow> rat \<Rightarrow> rat" where
  "compute_retry_delay attempt cfg r = (
     let base = max 0 (retry_delay cfg); cap = max 0 (retry_max_delay cfg);
         jitter = max 0 (retry_jitter_ratio cfg); delay = min (base * 2 ^ attempt) cap
     in if base = 0 then 0
        else if delay = 0 \<or> jitter = 0 then delay
        else min cap (delay + delay * jitter * min 1 (max 0 r)))"

section \<open>Reactive compaction\<close>

text \<open>\<open>group_messages_by_api_round\<close>: a round ends before each assistant message but the first.\<close>

fun group_rounds :: "msg list \<Rightarrow> msg list \<Rightarrow> msg list list" where
  "group_rounds current [] = (if current = [] then [] else [current])"
| "group_rounds current (m # ms) =
     (if role_is ''assistant'' m \<and> current \<noteq> [] then current # group_rounds [m] ms
      else group_rounds (current @ [m]) ms)"

definition group_messages_by_api_round :: "msg list \<Rightarrow> msg list list" where
  "group_messages_by_api_round ms = group_rounds [] ms"

definition compress_with_overflow_replay :: "(bool \<Rightarrow> msg list \<Rightarrow> msg list attempt) \<Rightarrow> msg list \<Rightarrow> msg list attempt" where
  "compress_with_overflow_replay compress ms = (case compress True ms of Type_Error \<Rightarrow> compress False ms | r \<Rightarrow> r)"

definition turn_compaction_enabled :: "os_env \<Rightarrow> bool" where
  "turn_compaction_enabled env = env_truthy env ''BUTLER_COMPACTION_USE_TURNS'' True"

definition last_groups :: "nat \<Rightarrow> 'a list \<Rightarrow> 'a list" where
  "last_groups max_drop gs = last_n (max 1 (length gs - max_drop)) gs"

definition try_turn_tail_compact :: "(bool \<Rightarrow> msg list \<Rightarrow> msg list attempt) \<Rightarrow> msg list \<Rightarrow> bool \<times> msg list" where
  "try_turn_tail_compact compress ms = (
     let (system, rest) = split_system ms; turns = group_messages_into_turns rest
     in if length turns \<le> 2 then (False, ms)
        else case compress_with_overflow_replay compress
                    (take 1 system @ drop (fst (hd (last_groups 3 turns))) rest) of
               Value out \<Rightarrow> if length ms \<le> length out then (False, ms) else (True, out)
             | _ \<Rightarrow> (False, ms))"

definition try_round_compact :: "(bool \<Rightarrow> msg list \<Rightarrow> msg list attempt) \<Rightarrow> msg list \<Rightarrow> bool \<times> msg list" where
  "try_round_compact compress ms = (
     let rounds = group_messages_by_api_round ms; system = fst (split_system ms);
         tail = concat (last_groups 3 rounds);
         flattened = (if system \<noteq> [] \<and> (tail = [] \<or> \<not> role_is ''system'' (hd tail)) then take 1 system @ tail else tail)
     in if length rounds \<le> 2 then (False, ms)
        else case compress_with_overflow_replay compress flattened of
               Value out \<Rightarrow> if length ms \<le> length out then (False, ms) else (True, out)
             | _ \<Rightarrow> (False, ms))"

definition try_reactive_compact :: "os_env \<Rightarrow> (bool \<Rightarrow> msg list \<Rightarrow> msg list attempt) \<Rightarrow> msg list \<Rightarrow> bool \<times> msg list" where
  "try_reactive_compact env compress ms =
     (if turn_compaction_enabled env then try_turn_tail_compact compress ms else try_round_compact compress ms)"

text \<open>The list is changed in place; \<open>None\<close> when the plain compression raises.\<close>

definition reactive_messages :: "os_env \<Rightarrow> (bool \<Rightarrow> msg list \<Rightarrow> msg list attempt) \<Rightarrow> msg list \<Rightarrow> msg list option" where
  "reactive_messages env compress ms = (case try_reactive_compact env compress ms of
       (True, out) \<Rightarrow> Some out
     | (False, _) \<Rightarrow> (case compress False ms of Value out \<Rightarrow> Some out | _ \<Rightarrow> None))"

section \<open>Responses\<close>

definition think_patterns :: "string list" where
  "think_patterns =
     map (\<lambda>tag. ''<'' @ tag @ ''>.*?</'' @ tag @ ''>'')
       [''redacted_thinking'', ''thinking'', ''reasoning'', ''REASONING_SCRATCHPAD'', ''thought'']
     @ map (\<lambda>tc. ''<'' @ tc @ backslash # ''b[^>]*>.*?</'' @ tc @ ''>'')
       [''tool_call'', ''tool_calls'', ''tool_result'', ''function_call'', ''function_calls'']
     @ [(''(?:(?<=^)|(?<=['') @ backslash # ''n'' @ backslash # ''r.!?:]))[ '' @ backslash # ''t]*<function''
          @ backslash # ''b[^>]*'' @ backslash # ''bname'' @ backslash # ''s*=[^>]*>(?:(?:(?!</function>).)*)</function>'',
        ''(?:^|'' @ backslash # ''n)[ '' @ backslash # ''t]*<(?:think|thinking|reasoning|thought|REASONING_SCRATCHPAD)''
          @ backslash # ''b[^>]*>.*$'',
        ''</?(?:think|thinking|reasoning|thought|REASONING_SCRATCHPAD)>'' @ backslash # ''s*'',
        ''</(?:tool_call|tool_calls|tool_result|function_call|function_calls|function)>'' @ backslash # ''s*'']"

definition strip_think_blocks :: "llm_lib \<Rightarrow> string \<Rightarrow> string" where
  "strip_think_blocks lib t = (if t = '''' then '''' else fold (ll_re_sub lib) think_patterns t)"

definition has_visible_content :: "llm_lib \<Rightarrow> string option \<Rightarrow> bool" where
  "has_visible_content lib content = (case content of
       None \<Rightarrow> False | Some t \<Rightarrow> t \<noteq> '''' \<and> strip (strip_think_blocks lib t) \<noteq> '''')"

definition butler_tool_names :: "string list" where
  "butler_tool_names = [''read_file'', ''write_file'', ''patch'', ''terminal'', ''search_files'', ''list_directory'',
     ''skills_list'', ''skill_view'', ''delegate_task'']"

definition max_concurrent_delegates :: nat where
  "max_concurrent_delegates = 2"

definition norm_name :: "string \<Rightarrow> string" where
  "norm_name s = map (\<lambda>c. if c = CHR ''-'' \<or> c = CHR '' '' then CHR ''_'' else c) (lower s)"

text \<open>\<open>re.sub(r"(?<!^)(?=[A-Z])", "_", name).lower()\<close>\<close>

definition is_upper :: "char \<Rightarrow> bool" where
  "is_upper c \<longleftrightarrow> lower_char c \<noteq> c"

definition camel_name :: "string \<Rightarrow> string" where
  "camel_name s = (case s of [] \<Rightarrow> []
     | c # cs \<Rightarrow> lower (c # concat (map (\<lambda>d. if is_upper d then [CHR ''_'', d] else [d]) cs)))"

definition rstrip_underscores :: "string \<Rightarrow> string" where
  "rstrip_underscores s = rev (dropWhile (\<lambda>c. c = CHR ''_'') (rev s))"

definition without_suffix :: "string \<Rightarrow> string \<Rightarrow> string option" where
  "without_suffix suf s = (if suffix suf s then Some (rstrip_underscores (take (length s - length suf) s)) else None)"

definition suffix_bases :: "string \<Rightarrow> string list" where
  "suffix_bases camel = concat (map (\<lambda>suf. case without_suffix suf camel of Some b \<Rightarrow> [b] | None \<Rightarrow> [])
     [''_tool'', ''-tool'', ''tool''])"

definition repair_tool_name :: "llm_lib \<Rightarrow> string \<Rightarrow> string option" where
  "repair_tool_name lib name =
     (if name = '''' then None
      else if name \<in> set butler_tool_names then Some name
      else if norm_name name \<in> set butler_tool_names then Some (norm_name name)
      else if camel_name name \<in> set butler_tool_names then Some (camel_name name)
      else case find (\<lambda>b. b \<in> set butler_tool_names) (suffix_bases (camel_name name)) of
          Some b \<Rightarrow> Some b
        | None \<Rightarrow> (case ll_close lib (norm_name name) butler_tool_names of
            Some m \<Rightarrow> Some m
          | None \<Rightarrow> ll_close lib (camel_name name) butler_tool_names))"

definition repaired_name :: "llm_lib \<Rightarrow> string \<Rightarrow> string" where
  "repaired_name lib name = (case repair_tool_name lib name of Some n \<Rightarrow> str_or n name | None \<Rightarrow> name)"

fun dedup_calls :: "llm_lib \<Rightarrow> (string \<times> string) list \<Rightarrow> called_tool list \<Rightarrow> called_tool list" where
  "dedup_calls lib seen [] = []"
| "dedup_calls lib seen (tc # tcs) = (
     let key = (repaired_name lib (ct_name tc), ct_arguments tc)
     in if key \<in> set seen then dedup_calls lib seen tcs
        else tc\<lparr>ct_name := fst key\<rparr> # dedup_calls lib (key # seen) tcs)"

fun cap_delegates :: "nat \<Rightarrow> called_tool list \<Rightarrow> called_tool list" where
  "cap_delegates kept [] = []"
| "cap_delegates kept (tc # tcs) =
     (if ct_name tc = ''delegate_task''
      then (if kept < max_concurrent_delegates then tc # cap_delegates (Suc kept) tcs else cap_delegates kept tcs)
      else tc # cap_delegates kept tcs)"

definition is_delegate :: "called_tool \<Rightarrow> bool" where
  "is_delegate tc \<longleftrightarrow> ct_name tc = ''delegate_task''"

definition normalize_tool_calls :: "llm_lib \<Rightarrow> called_tool list \<Rightarrow> called_tool list" where
  "normalize_tool_calls lib tcs = (
     let unique = dedup_calls lib [] tcs
     in if length (filter is_delegate unique) \<le> max_concurrent_delegates then unique else cap_delegates 0 unique)"

definition sanitize_response :: "llm_lib \<Rightarrow> llm_response \<Rightarrow> llm_response" where
  "sanitize_response lib r = r\<lparr>
     lr_content := (case lr_content r of
        Some t \<Rightarrow> if t = '''' then Some t else (let v = strip_think_blocks lib t in if v = '''' then None else Some v)
      | None \<Rightarrow> None),
     lr_tool_calls := normalize_tool_calls lib (lr_tool_calls r)\<rparr>"

definition needs_empty_content_retry :: "llm_lib \<Rightarrow> llm_response \<Rightarrow> bool" where
  "needs_empty_content_retry lib r =
     (if lr_tool_calls r \<noteq> [] then False
      else if has_visible_content lib (lr_content r) then False
      else (case lr_reasoning r of Some t \<Rightarrow> strip t \<noteq> '''' | None \<Rightarrow> False) \<or> lr_content r \<in> {None, Some ''''})"

definition needs_truncation_continue :: "llm_response \<Rightarrow> bool" where
  "needs_truncation_continue r \<longleftrightarrow> lr_finish_reason r = ''length'' \<and> lr_tool_calls r = []"

definition empty_retry_message :: string where
  "empty_retry_message = ''Your previous response contained only internal reasoning with no visible reply or tool calls. Please provide a helpful response to the user or call tools as needed.''"

definition truncation_continue_message :: string where
  "truncation_continue_message = ''Your previous response was cut off due to length limits. Continue from where you left off and complete the task.''"

definition unsafe_finish :: "string list" where
  "unsafe_finish = [''content_filter'', ''safety'', ''refusal'', ''content_filtering'', ''moderation'']"

definition safety_finish_user_message :: "os_env \<Rightarrow> llm_response \<Rightarrow> string option" where
  "safety_finish_user_message env r = (
     let fr = lower (strip (str_or (lr_finish_reason r) ''stop''))
     in if \<not> env_truthy env ''BUTLER_SAFETY_FINISH_GUARD'' True then None
        else if fr \<notin> set unsafe_finish then None
        else if lr_tool_calls r \<noteq> [] then
          Some ((bytes [230, 168, 161, 229, 158, 139, 229, 155, 160, 229, 174, 137, 229, 133, 168, 231, 173, 150, 231, 149, 165, 231, 187, 147, 230, 157, 159, 228, 186, 134, 230, 156, 172, 232, 189, 174, 239, 188, 136] @ ''finish_reason='') @ fr @ (bytes [239, 188, 137, 239, 188, 140, 229, 183, 178, 229, 191, 189, 231, 149, 165, 233, 153, 132, 229, 184, 166, 231, 154, 132, 229, 183, 165, 229, 133, 183, 232, 176, 131, 231, 148, 168, 227, 128, 130, 232, 175, 183, 230, 141, 162, 228, 184, 128, 231, 167, 141, 232, 161, 168, 232, 191, 176, 230, 136, 150, 231, 188, 169, 229, 176, 143, 232, 140, 131, 229, 155, 180, 229, 144, 142, 233, 135, 141, 232, 175, 149, 227, 128, 130]))
        else if strip (case lr_content r of Some t \<Rightarrow> t | None \<Rightarrow> '''') = '''' then
          Some ((bytes [230, 168, 161, 229, 158, 139, 229, 155, 160, 229, 174, 137, 229, 133, 168, 231, 173, 150, 231, 149, 165, 230, 156, 170, 232, 191, 148, 229, 155, 158, 229, 143, 175, 231, 148, 168, 229, 134, 133, 229, 174, 185, 239, 188, 136]) @ fr @ (bytes [239, 188, 137, 227, 128, 130, 232, 175, 183, 232, 176, 131, 230, 149, 180, 229, 144, 142, 233, 135, 141, 232, 175, 149, 227, 128, 130]))
        else None)"

section \<open>After an error\<close>

record 'w retry_state =
  rs_owner :: 'w
  rs_messages :: "msg list"        \<comment> \<open>the list the caller passed, changed in place\<close>
  rs_send :: "msg list"
  rs_tools :: "jval list option"
  rs_compressed :: bool
  rs_recovered :: bool
  rs_empty :: int
  rs_error :: "api_error option"
  rs_trace :: "llm_request list"
  rs_sleeps :: "rat list"

datatype retry_action = Act_Continue | Act_Break | Act_Raise

definition sleep_before_retry :: "llm_lib \<Rightarrow> loop_config \<Rightarrow> nat \<Rightarrow> 'w retry_state \<Rightarrow> 'w retry_state" where
  "sleep_before_retry lib cfg attempt st =
     st\<lparr>rs_sleeps := rs_sleeps st @ [compute_retry_delay attempt cfg (ll_random lib (length (rs_sleeps st)))]\<rparr>"

text \<open>
  The stages of \<open>handle_classified_llm_error\<close>: a stale call, a schema the server cannot parse, a
  history that is too long, another provider, and a plain retry.  An action of \<open>None\<close> passes the error on.
\<close>

definition stale_stage :: "llm_lib \<Rightarrow> loop_config \<Rightarrow> nat \<Rightarrow> api_error \<Rightarrow> recovery \<Rightarrow> 'w retry_state
    \<Rightarrow> retry_action option \<times> 'w retry_state" where
  "stale_stage lib cfg attempt e rc st =
     (if ae_stale e \<and> rc_retryable rc \<and> int attempt < max_retries cfg - 1
      then (Some Act_Continue, sleep_before_retry lib cfg attempt st) else (None, st))"

definition schema_stage :: "loop_config \<Rightarrow> nat \<Rightarrow> api_error \<Rightarrow> 'w retry_state \<Rightarrow> retry_action option \<times> 'w retry_state" where
  "schema_stage cfg attempt e st =
     (if rs_tools st \<notin> {None, Some []} \<and> \<not> rs_recovered st
      then (let r = recover_schema_after_error e (rs_tools st);
                st1 = st\<lparr>rs_recovered := sr_attempted r\<rparr>
            in if sr_recovered r \<and> int attempt < max_retries cfg - 1
               then (Some Act_Continue, st1\<lparr>rs_tools := (case sr_tools r of Some ts \<Rightarrow> Some ts | None \<Rightarrow> rs_tools st)\<rparr>)
               else (None, st1))
      else (None, st))"

text \<open>An empty list of messages, which is falsy, leaves the earlier ones in place.\<close>

definition resend :: "msg list \<Rightarrow> 'w retry_state \<Rightarrow> 'w retry_state" where
  "resend ms st = (if ms = [] then st else st\<lparr>rs_send := ms\<rparr>)"

definition compress_stage :: "os_env \<Rightarrow> 'w call_hooks \<Rightarrow> recovery \<Rightarrow> 'w retry_state \<Rightarrow> retry_action option \<times> 'w retry_state" where
  "compress_stage env h rc st =
     (if rc_compress rc \<and> \<not> rs_compressed st
      then (case reactive_messages env (ch_compress h) (rs_messages st) of
          None \<Rightarrow> (Some Act_Raise, st)
        | Some ms \<Rightarrow>
            let st1 = st\<lparr>rs_messages := ms, rs_compressed := True\<rparr>
            in (case ch_prepare h (rs_owner st) ms of
                  None \<Rightarrow> (Some Act_Break, st1)
                | Some send \<Rightarrow> (Some Act_Continue, resend send st1)))
      else (None, st))"

definition fallback_stage :: "'w call_hooks \<Rightarrow> recovery \<Rightarrow> 'w retry_state \<Rightarrow> retry_action option \<times> 'w retry_state" where
  "fallback_stage h rc st =
     (if rc_fallback rc
      then (case ch_fallback h (rs_owner st) of
          None \<Rightarrow> (Some Act_Raise, st)
        | Some (activated, w) \<Rightarrow> (if activated then Some Act_Continue else None, st\<lparr>rs_owner := w\<rparr>))
      else (None, st))"

definition retry_stage :: "llm_lib \<Rightarrow> loop_config \<Rightarrow> nat \<Rightarrow> recovery \<Rightarrow> 'w retry_state \<Rightarrow> retry_action \<times> 'w retry_state" where
  "retry_stage lib cfg attempt rc st =
     (if \<not> rc_retryable rc then (Act_Break, st)
      else if int attempt < max_retries cfg - 1 then (Act_Continue, sleep_before_retry lib cfg attempt st)
      else (Act_Break, st))"

fun run_stages :: "('s \<Rightarrow> 'a option \<times> 's) list \<Rightarrow> ('s \<Rightarrow> 'a \<times> 's) \<Rightarrow> 's \<Rightarrow> 'a \<times> 's" where
  "run_stages [] final st = final st"
| "run_stages (f # fs) final st = (case f st of
       (Some a, st1) \<Rightarrow> (a, st1)
     | (None, st1) \<Rightarrow> run_stages fs final st1)"

definition handle_classified_llm_error :: "llm_lib \<Rightarrow> loop_config \<Rightarrow> 'w call_hooks \<Rightarrow> nat \<Rightarrow> api_error \<Rightarrow> recovery
    \<Rightarrow> 'w retry_state \<Rightarrow> retry_action \<times> 'w retry_state" where
  "handle_classified_llm_error lib cfg h attempt e rc st =
     run_stages [stale_stage lib cfg attempt e rc, schema_stage cfg attempt e, compress_stage (ll_env lib) h rc, fallback_stage h rc]
       (retry_stage lib cfg attempt rc) st"

text \<open>The exception of the classifier escapes, since it is raised in the handler.\<close>

definition handle_llm_attempt_exception :: "llm_lib \<Rightarrow> loop_config \<Rightarrow> 'w call_hooks \<Rightarrow> llm_client \<Rightarrow> nat \<Rightarrow> api_error
    \<Rightarrow> 'w retry_state \<Rightarrow> retry_action \<times> 'w retry_state" where
  "handle_llm_attempt_exception lib cfg h client attempt e st =
     (case classify_api_error (ll_loads lib) (ll_chars lib) default_size (cl_provider_name client) (cl_model client) e of
        None \<Rightarrow> (Act_Raise, st)
      | Some c \<Rightarrow> handle_classified_llm_error lib cfg h attempt e (recovery.truncate c) (st\<lparr>rs_error := Some e\<rparr>))"

section \<open>After a response\<close>

datatype processed = Finished "llm_response option" | Try_Again

definition user_msg :: "string \<Rightarrow> msg" where
  "user_msg t = [(''role'', JStr ''user''), (''content'', JStr t)]"

definition refused :: "llm_response \<Rightarrow> string \<Rightarrow> llm_response" where
  "refused r text = r\<lparr>lr_tool_calls := [], lr_content := Some text, lr_finish_reason := ''stop''\<rparr>"

definition process_llm_response :: "llm_lib \<Rightarrow> loop_config \<Rightarrow> 'w call_hooks \<Rightarrow> llm_client \<Rightarrow> llm_response \<Rightarrow> 'w retry_state
    \<Rightarrow> processed \<times> 'w retry_state" where
  "process_llm_response lib cfg h client raw st = (
     let r = sanitize_response lib raw
     in case safe_call lib (safety_finish_user_message (ll_env lib) r) of
          Some text \<Rightarrow> (Finished (Some (refused r text)), st)
        | None \<Rightarrow>
            let st1 = (if ll_debug lib then st\<lparr>rs_owner := ch_success h client (rs_owner st)\<rparr> else st)
            in if needs_empty_content_retry lib r \<and> rs_empty st1 < max_empty_content_retries cfg
               then (let st2 = st1\<lparr>rs_empty := rs_empty st1 + 1, rs_messages := rs_messages st1 @ [user_msg empty_retry_message]\<rparr>
                     in case ch_prepare h (rs_owner st2) (rs_messages st2) of
                          None \<Rightarrow> (Finished None, st2)
                        | Some send \<Rightarrow> (Try_Again, st2\<lparr>rs_send := send\<rparr>))
               else (Finished (Some r), st1))"

section \<open>The loop\<close>

datatype call_result =
    Returned "llm_response option" bool   \<comment> \<open>the response, and whether the call was interrupted\<close>
  | Raised                                \<comment> \<open>an exception leaves the loop\<close>

definition request_of :: "llm_client \<Rightarrow> 'w retry_state \<Rightarrow> llm_request" where
  "request_of client st = \<lparr>rq_client = client, rq_messages = rs_send st, rq_tools = rs_tools st\<rparr>"

definition poll_interrupt :: "'w call_hooks \<Rightarrow> 'w retry_state \<Rightarrow> bool \<times> 'w retry_state" where
  "poll_interrupt h st = (case ch_interrupt h (rs_owner st) of (b, w) \<Rightarrow> (b, st\<lparr>rs_owner := w\<rparr>))"

definition send_request :: "'w call_hooks \<Rightarrow> llm_client \<Rightarrow> 'w retry_state \<Rightarrow> llm_answer \<times> 'w retry_state" where
  "send_request h client st = (ch_ask h (rs_trace st) (request_of client st), st\<lparr>rs_trace := rs_trace st @ [request_of client st]\<rparr>)"

text \<open>One turn of the loop: \<open>None\<close> to go on.\<close>

definition attempt_call :: "llm_lib \<Rightarrow> loop_config \<Rightarrow> 'w call_hooks \<Rightarrow> llm_client \<Rightarrow> nat \<Rightarrow> 'w retry_state
    \<Rightarrow> call_result option \<times> 'w retry_state" where
  "attempt_call lib cfg h client attempt st0 = (case poll_interrupt h st0 of
       (True, st1) \<Rightarrow> (Some (Returned None True), st1)
     | (False, st1) \<Rightarrow> (case send_request h client st1 of
         (Answered raw, st2) \<Rightarrow> (case process_llm_response lib cfg h client raw st2 of
             (Finished r, st3) \<Rightarrow> (Some (Returned r False), st3)
           | (Try_Again, st3) \<Rightarrow> (None, st3))
       | (Interrupted_Call, st2) \<Rightarrow> (Some (Returned None True), st2)
       | (Failed e, st2) \<Rightarrow> (case handle_llm_attempt_exception lib cfg h client attempt e st2 of
             (Act_Continue, st3) \<Rightarrow> (None, st3)
           | (Act_Break, st3) \<Rightarrow> (Some (Returned None False), st3)
           | (Act_Raise, st3) \<Rightarrow> (Some Raised, st3))))"

fun retry_loop :: "llm_lib \<Rightarrow> loop_config \<Rightarrow> 'w call_hooks \<Rightarrow> llm_client \<Rightarrow> nat list \<Rightarrow> 'w retry_state
    \<Rightarrow> call_result \<times> 'w retry_state" where
  "retry_loop lib cfg h client [] st = (Returned None False, st)"
| "retry_loop lib cfg h client (attempt # more_attempts) st = (case attempt_call lib cfg h client attempt st of
       (Some r, st1) \<Rightarrow> (r, st1)
     | (None, st1) \<Rightarrow> retry_loop lib cfg h client more_attempts st1)"

definition effective_retries :: "loop_config \<Rightarrow> nat" where
  "effective_retries cfg = nat (min (max_retries cfg) 20)"

definition run_llm_with_retry_loop :: "llm_lib \<Rightarrow> loop_config \<Rightarrow> 'w call_hooks \<Rightarrow> llm_client \<Rightarrow> 'w retry_state
    \<Rightarrow> call_result \<times> 'w retry_state" where
  "run_llm_with_retry_loop lib cfg h client st = retry_loop lib cfg h client [0..<effective_retries cfg] st"

definition start_call :: "'w \<Rightarrow> msg list \<Rightarrow> msg list \<Rightarrow> jval list option \<Rightarrow> int \<Rightarrow> llm_request list \<Rightarrow> 'w retry_state" where
  "start_call w ms send tools empties trace = \<lparr>rs_owner = w, rs_messages = ms, rs_send = send, rs_tools = tools,
     rs_compressed = False, rs_recovered = False, rs_empty = empties, rs_error = None, rs_trace = trace, rs_sleeps = []\<rparr>"

definition cached_response :: "string \<Rightarrow> llm_response" where
  "cached_response t = \<lparr>lr_content = Some t, lr_tool_calls = [], lr_finish_reason = ''stop'', lr_reasoning = None\<rparr>"

definition call_llm_with_retry :: "llm_lib \<Rightarrow> loop_config \<Rightarrow> 'w call_hooks \<Rightarrow> llm_client \<Rightarrow> jval list \<Rightarrow> msg list \<Rightarrow> int
    \<Rightarrow> 'w \<Rightarrow> llm_request list \<Rightarrow> call_result \<times> 'w retry_state" where
  "call_llm_with_retry lib cfg h client tools ms empties w trace = (case ch_prepare h w ms of
       None \<Rightarrow> (Returned None False, start_call w ms [] None empties trace)
     | Some send \<Rightarrow>
         let tools1 = prepare_tools_for_llm lib tools; st = start_call w ms send tools1 empties trace
         in (case (if tools1 \<in> {None, Some []} then safe_call lib (ll_cached lib send) else None) of
               Some t \<Rightarrow> (if t = '''' then run_llm_with_retry_loop lib cfg h client st
                          else (Returned (Some (cached_response t)) False, st))
             | None \<Rightarrow> run_llm_with_retry_loop lib cfg h client st))"

end
