(* ===== verification/Llm_Retry_Props.thy ===== *)
theory Llm_Retry_Props
  imports Llm_Retry
begin

text \<open>
  What one call of the model does: how many requests it makes and to whom, how long it
  sleeps, when it answers, and the errors it reads wrongly.
\<close>

section \<open>Advice of the classifier\<close>

definition sound_advice :: "recovery \<Rightarrow> bool" where
  "sound_advice rc \<longleftrightarrow>
     (rc_compress rc \<longrightarrow> rc_retryable rc \<and> \<not> rc_fallback rc)
   \<and> (rc_rotate rc \<longrightarrow> rc_reason rc = F_Auth \<and> rc_fallback rc \<and> \<not> rc_retryable rc)
   \<and> (\<not> rc_retryable rc \<longrightarrow> rc_fallback rc
        \<or> rc_reason rc \<in> {F_Format_Error, F_Provider_Policy_Blocked, F_Ssl_Cert_Verification})"

lemma sound_recoveries [simp]:
  "sound_advice (plain_retry r)" "sound_advice (fall_back r)" "sound_advice (retry_or_fall_back r)"
  "sound_advice (compress_and_retry r)" "sound_advice ((fall_back F_Auth)\<lparr>rc_rotate := True\<rparr>)"
  "sound_advice ((retry_or_fall_back r)\<lparr>rc_context := c\<rparr>)"
  "sound_advice (give_up F_Format_Error)" "sound_advice (give_up F_Provider_Policy_Blocked)"
  "sound_advice (give_up F_Ssl_Cert_Verification)"
  by (simp_all add: sound_advice_def recovery_defs)

lemma provider_stage_sound: "provider_stage st t = Some rc \<Longrightarrow> sound_advice rc"
  by (auto simp: provider_stage_def split: if_splits)

lemma status_stage_sound: "status_stage st t body p = Some rc \<Longrightarrow> sound_advice rc"
  by (auto simp: status_stage_def forbidden_recovery_def not_found_recovery_def too_many_recovery_def
      bad_request_recovery_def server_recovery_def unavailable_recovery_def Let_def split: if_splits)

lemma code_stage_sound: "code_stage c = Some rc \<Longrightarrow> sound_advice rc"
  by (auto simp: code_stage_def split: if_splits)

lemma text_stage_sound: "text_stage t = Some rc \<Longrightarrow> sound_advice rc"
  by (auto simp: text_stage_def split: if_splits)

lemma transport_stage_sound: "sound_advice (transport_stage sz st t e)"
  by (simp add: transport_stage_def)

lemma first_recovery_sound:
  assumes "\<And>rc. Some rc \<in> set rs \<Longrightarrow> sound_advice rc" and "sound_advice r"
  shows "sound_advice (first_recovery rs r)"
proof -
  have "first_recovery rs r = r \<or> Some (first_recovery rs r) \<in> set rs"
    by (auto simp: first_recovery_def find_Some_iff split: option.split) (metis nth_mem)
  then show ?thesis using assms by auto
qed

lemma recovery_sound: "sound_advice (recovery_for loads ct sz provider e)"
  unfolding recovery_for_def Let_def
  by (rule first_recovery_sound)
    (auto simp: transport_stage_sound intro: provider_stage_sound status_stage_sound code_stage_sound text_stage_sound dest: sym)

lemma classified_recovery:
  "classify_api_error loads ct sz provider model e = Some c \<Longrightarrow> recovery.truncate c = recovery_for loads ct sz provider e"
  by (auto simp: classify_api_error_def recovery.defs classified.defs)


section \<open>Delays\<close>

lemma retry_delay_bounds:
  "0 \<le> compute_retry_delay n cfg r \<and> compute_retry_delay n cfg r \<le> max 0 (retry_max_delay cfg)"
proof -
  let ?d = "min (max 0 (retry_delay cfg) * 2 ^ n) (max 0 (retry_max_delay cfg))"
  have "0 \<le> ?d" by simp
  moreover have "0 \<le> ?d * max 0 (retry_jitter_ratio cfg) * min 1 (max 0 r)"
    using calculation by (intro mult_nonneg_nonneg) auto
  ultimately show ?thesis by (auto simp: compute_retry_delay_def Let_def)
qed

section \<open>What the steps leave alone\<close>

definition slept_from :: "loop_config \<Rightarrow> 'w retry_state \<Rightarrow> 'w retry_state \<Rightarrow> bool" where
  "slept_from cfg st st' \<longleftrightarrow> (\<exists>ds. rs_sleeps st' = rs_sleeps st @ ds \<and> length ds \<le> 1
     \<and> list_all (\<lambda>d. 0 \<le> d \<and> d \<le> max 0 (retry_max_delay cfg)) ds)"

lemma slept_refl [simp]: "rs_sleeps st' = rs_sleeps st \<Longrightarrow> slept_from cfg st st'"
  by (simp add: slept_from_def)

lemma slept_sleep [simp]: "slept_from cfg st (sleep_before_retry lib cfg n st)"
  by (simp add: slept_from_def sleep_before_retry_def retry_delay_bounds)

lemma resend_simps [simp]:
  "rs_trace (resend ms st) = rs_trace st" "rs_sleeps (resend ms st) = rs_sleeps st"
  "rs_owner (resend ms st) = rs_owner st"
  by (simp_all add: resend_def)

lemma sleep_simps [simp]:
  "rs_trace (sleep_before_retry lib cfg n st) = rs_trace st" "rs_send (sleep_before_retry lib cfg n st) = rs_send st"
  "rs_owner (sleep_before_retry lib cfg n st) = rs_owner st" "rs_tools (sleep_before_retry lib cfg n st) = rs_tools st"
  "rs_messages (sleep_before_retry lib cfg n st) = rs_messages st" "rs_empty (sleep_before_retry lib cfg n st) = rs_empty st"
  "rs_compressed (sleep_before_retry lib cfg n st) = rs_compressed st"
  by (simp_all add: sleep_before_retry_def)

lemma handle_frame:
  assumes "handle_classified_llm_error lib cfg h n e rc st = (a, st')"
  shows "rs_trace st' = rs_trace st \<and> slept_from cfg st st'"
proof -
  have *: "slept_from cfg st0 st2" if "slept_from cfg st1 st2" "rs_sleeps st1 = rs_sleeps st0"
    for st0 st1 st2 :: "'a retry_state" using that by (simp add: slept_from_def)
  show ?thesis using assms
    by (auto simp: handle_classified_llm_error_def stale_stage_def schema_stage_def compress_stage_def
        fallback_stage_def retry_stage_def Let_def split: if_splits option.splits prod.splits elim!: *
        intro: *[OF slept_sleep])
qed

lemma exception_frame:
  assumes "handle_llm_attempt_exception lib cfg h client n e st = (a, st')"
  shows "rs_trace st' = rs_trace st \<and> slept_from cfg st st'"
proof -
  have "slept_from cfg (st\<lparr>rs_error := x\<rparr>) st' \<Longrightarrow> slept_from cfg st st'" for x by (simp add: slept_from_def)
  then show ?thesis using assms handle_frame
    by (fastforce simp: handle_llm_attempt_exception_def split: option.splits)
qed

lemma process_frame:
  assumes "process_llm_response lib cfg h client raw st = (r, st')"
  shows "rs_trace st' = rs_trace st \<and> rs_sleeps st' = rs_sleeps st"
  using assms by (auto simp: process_llm_response_def Let_def split: option.splits if_splits)

lemma poll_frame:
  assumes "poll_interrupt h st = (b, st')"
  shows "rs_trace st' = rs_trace st" "rs_sleeps st' = rs_sleeps st" "rs_send st' = rs_send st"
    "rs_tools st' = rs_tools st" "rs_messages st' = rs_messages st"
  using assms by (auto simp: poll_interrupt_def split: prod.splits)

section \<open>Requests of a call\<close>

definition asked_from :: "loop_config \<Rightarrow> llm_client \<Rightarrow> nat \<Rightarrow> 'w retry_state \<Rightarrow> 'w retry_state \<Rightarrow> bool" where
  "asked_from cfg client n st st' \<longleftrightarrow> (\<exists>qs ds.
       rs_trace st' = rs_trace st @ qs \<and> length qs \<le> n \<and> list_all (\<lambda>q. rq_client q = client) qs
     \<and> rs_sleeps st' = rs_sleeps st @ ds \<and> length ds \<le> n \<and> list_all (\<lambda>d. 0 \<le> d \<and> d \<le> max 0 (retry_max_delay cfg)) ds)"

lemma asked_none: "rs_trace st' = rs_trace st \<Longrightarrow> rs_sleeps st' = rs_sleeps st \<Longrightarrow> asked_from cfg client n st st'"
  by (simp add: asked_from_def)

lemma asked_once:
  assumes "rs_trace st' = rs_trace st @ [q]" and "rq_client q = client" and "slept_from cfg st st'"
  shows "asked_from cfg client (Suc 0) st st'"
  using assms by (fastforce simp: asked_from_def slept_from_def)

lemma asked_trans:
  assumes "asked_from cfg client m st st1" and "asked_from cfg client n st1 st2"
  shows "asked_from cfg client (m + n) st st2"
proof -
  from assms obtain qs ds qs' ds' where
    "rs_trace st1 = rs_trace st @ qs" "length qs \<le> m" "list_all (\<lambda>q. rq_client q = client) qs"
    "rs_sleeps st1 = rs_sleeps st @ ds" "length ds \<le> m" "list_all (\<lambda>d. 0 \<le> d \<and> d \<le> max 0 (retry_max_delay cfg)) ds"
    "rs_trace st2 = rs_trace st1 @ qs'" "length qs' \<le> n" "list_all (\<lambda>q. rq_client q = client) qs'"
    "rs_sleeps st2 = rs_sleeps st1 @ ds'" "length ds' \<le> n" "list_all (\<lambda>d. 0 \<le> d \<and> d \<le> max 0 (retry_max_delay cfg)) ds'"
    unfolding asked_from_def by blast
  then show ?thesis unfolding asked_from_def
    by (intro exI[of _ "qs @ qs'"] exI[of _ "ds @ ds'"]) auto
qed

lemma attempt_asks:
  assumes "attempt_call lib cfg h client n st = (r, st')"
  shows "asked_from cfg client (Suc 0) st st'"
proof -
  obtain b st1 where p: "poll_interrupt h st = (b, st1)" by fastforce
  note pf = poll_frame[OF p]
  obtain ans st2 where s: "send_request h client st1 = (ans, st2)" by fastforce
  then have t2: "rs_trace st2 = rs_trace st @ [request_of client st1]" "rs_sleeps st2 = rs_sleeps st"
    by (auto simp: send_request_def pf)
  have c: "rq_client (request_of client st1) = client" by (simp add: request_of_def)
  show ?thesis
  proof (cases b)
    case True
    then show ?thesis using assms p pf by (auto simp: attempt_call_def asked_none)
  next
    case False
    have one: "asked_from cfg client (Suc 0) st st3" if "rs_trace st3 = rs_trace st2" "slept_from cfg st2 st3" for st3
      using that t2 c by (intro asked_once[of _ _ "request_of client st1"]) (auto simp: slept_from_def)
    show ?thesis
    proof (cases ans)
      case (Answered raw)
      obtain pr st3 where pr: "process_llm_response lib cfg h client raw st2 = (pr, st3)" by fastforce
      have "st' = st3" using assms False p s Answered pr by (auto simp: attempt_call_def split: processed.splits)
      then show ?thesis using one process_frame[OF pr] by simp
    next
      case Interrupted_Call
      then show ?thesis using assms False p s one by (auto simp: attempt_call_def)
    next
      case (Failed e)
      obtain a st3 where pr: "handle_llm_attempt_exception lib cfg h client n e st2 = (a, st3)" by fastforce
      have "st' = st3" using assms False p s Failed pr by (auto simp: attempt_call_def split: retry_action.splits)
      then show ?thesis using one exception_frame[OF pr] by simp
    qed
  qed
qed

lemma loop_asks: "asked_from cfg client (length ns) st (snd (retry_loop lib cfg h client ns st))"
proof (induction ns arbitrary: st)
  case Nil
  then show ?case by (simp add: asked_none)
next
  case (Cons n ns)
  obtain r st1 where a: "attempt_call lib cfg h client n st = (r, st1)" by fastforce
  note one = attempt_asks[OF a]
  show ?case
  proof (cases r)
    case None
    then show ?thesis using a asked_trans[OF one Cons] by simp
  next
    case (Some x)
    then show ?thesis using a one by (auto simp: asked_from_def)
  qed
qed

lemma asked_start:
  "asked_from cfg client n (start_call w ms send tools es tr) st' \<longleftrightarrow>
     asked_from cfg client n (start_call w' ms' send' tools' es' tr) st'"
  by (simp add: asked_from_def start_call_def)

lemma call_asks:
  "asked_from cfg client (effective_retries cfg) (start_call w ms [] None es tr)
     (snd (call_llm_with_retry lib cfg h client tools ms es w tr))"
proof -
  have "asked_from cfg client (effective_retries cfg) (start_call w ms [] None es tr)
      (snd (run_llm_with_retry_loop lib cfg h client (start_call w ms send ts es tr)))" for send ts
    using loop_asks[of cfg client "[0..<effective_retries cfg]" "start_call w ms send ts es tr" lib h]
      asked_start[of cfg client "effective_retries cfg" w ms send ts es tr _ w ms "[]" None es]
    by (simp add: run_llm_with_retry_loop_def)
  moreover have "asked_from cfg client n (start_call w ms [] None es tr) (start_call w ms send ts es tr)" for n send ts
    by (simp add: asked_from_def start_call_def)
  ultimately show ?thesis
    by (auto simp: call_llm_with_retry_def Let_def split: option.split)
qed


section \<open>What is sent again\<close>

text \<open>
  The owner of the call stays in \<open>P\<close>, where the messages it prepares are \<open>send\<close>, whatever became of the
  list the call was given.
\<close>

definition steady :: "'w call_hooks \<Rightarrow> ('w \<Rightarrow> bool) \<Rightarrow> msg list \<Rightarrow> bool" where
  "steady h P send \<longleftrightarrow> (\<forall>w. P w \<longrightarrow>
       (\<forall>ms. ch_prepare h w ms \<in> {None, Some send}) \<and> P (snd (ch_interrupt h w))
     \<and> (\<forall>b w'. ch_fallback h w = Some (b, w') \<longrightarrow> P w') \<and> (\<forall>c. P (ch_success h c w)))"

lemma steadyD:
  assumes "steady h P send" and "P w"
  shows "ch_prepare h w ms = Some s \<Longrightarrow> s = send" "ch_interrupt h w = (b, w') \<Longrightarrow> P w'"
    "ch_fallback h w = Some (c, w') \<Longrightarrow> P w'" "P (ch_success h cl w)"
proof -
  show "s = send" if "ch_prepare h w ms = Some s"
  proof -
    have "ch_prepare h w ms \<in> {None, Some send}" using assms unfolding steady_def by blast
    with that show ?thesis by auto
  qed
  show "P w'" if "ch_interrupt h w = (b, w')"
  proof -
    have "P (snd (ch_interrupt h w))" using assms unfolding steady_def by blast
    with that show ?thesis by simp
  qed
  show "P w'" if "ch_fallback h w = Some (c, w')" using assms that unfolding steady_def by blast
  show "P (ch_success h cl w)" using assms unfolding steady_def by blast
qed

definition held :: "('w \<Rightarrow> bool) \<Rightarrow> msg list \<Rightarrow> 'w retry_state \<Rightarrow> bool" where
  "held P send st \<longleftrightarrow> P (rs_owner st) \<and> rs_send st = send"

lemma held_update [simp]:
  "held P send (st\<lparr>rs_trace := tr\<rparr>) = held P send st" "held P send (st\<lparr>rs_error := e\<rparr>) = held P send st"
  "held P send (sleep_before_retry lib cfg n st) = held P send st"
  by (simp_all add: held_def)

lemma stale_held: "held P send st \<Longrightarrow> stale_stage lib cfg n e rc st = (a, st') \<Longrightarrow> held P send st'"
  by (auto simp: stale_stage_def split: if_splits)

lemma schema_held: "held P send st \<Longrightarrow> schema_stage cfg n e st = (a, st') \<Longrightarrow> held P send st'"
  by (auto simp: schema_stage_def held_def Let_def split: if_splits)

lemma compress_held:
  assumes "steady h P send" and "held P send st" and "compress_stage env h rc st = (a, st')"
  shows "held P send st'"
  using assms(2,3)
  by (auto simp: compress_stage_def held_def resend_def Let_def dest: steadyD(1)[OF assms(1)] split: if_splits option.splits)

lemma fallback_held:
  assumes "steady h P send" and "held P send st" and "fallback_stage h rc st = (a, st')"
  shows "held P send st'"
  using assms(2,3) by (auto simp: fallback_stage_def held_def dest: steadyD(3)[OF assms(1)] split: if_splits option.splits)

lemma retry_held: "held P send st \<Longrightarrow> retry_stage lib cfg n rc st = (a, st') \<Longrightarrow> held P send st'"
  by (auto simp: retry_stage_def split: if_splits)

definition keeps :: "('s \<Rightarrow> bool) \<Rightarrow> ('s \<Rightarrow> 'a \<times> 's) \<Rightarrow> bool" where
  "keeps I f \<longleftrightarrow> (\<forall>st a st'. I st \<longrightarrow> f st = (a, st') \<longrightarrow> I st')"

lemma run_stages_inv:
  assumes "list_all (keeps I) fs"
    and "\<And>st a st'. I st \<Longrightarrow> final st = (a, st') \<Longrightarrow> I st'" and "I st" and "run_stages fs final st = (a, st')"
  shows "I st'"
  using assms(1,3,4)
proof (induction fs arbitrary: st)
  case Nil
  then show ?case using assms(2) by simp
next
  case (Cons f fs)
  obtain x st1 where f: "f st = (x, st1)" by fastforce
  then have "I st1" using Cons.prems by (auto simp: keeps_def)
  then show ?case using Cons f by (cases x) auto
qed

lemma handle_held:
  assumes "steady h P send" and "held P send st" and "handle_classified_llm_error lib cfg h n e rc st = (a, st')"
  shows "held P send st'"
proof (rule run_stages_inv[of "held P send", OF _ _ assms(2) assms(3)[unfolded handle_classified_llm_error_def]])
  have 1: "keeps (held P send) (stale_stage lib cfg n e rc)" "keeps (held P send) (schema_stage cfg n e)"
    unfolding keeps_def using stale_held schema_held by blast+
  have 2: "keeps (held P send) (compress_stage (ll_env lib) h rc)" "keeps (held P send) (fallback_stage h rc)"
    unfolding keeps_def using compress_held[OF assms(1)] fallback_held[OF assms(1)] by blast+
  show "list_all (keeps (held P send))
      [stale_stage lib cfg n e rc, schema_stage cfg n e, compress_stage (ll_env lib) h rc, fallback_stage h rc]"
    by (simp add: 1 2)
qed (rule retry_held)

lemma exception_cases:
  assumes "handle_llm_attempt_exception lib cfg h client n e st = (a, st')"
  shows "st' = st \<or> (\<exists>rc. handle_classified_llm_error lib cfg h n e rc (st\<lparr>rs_error := Some e\<rparr>) = (a, st'))"
  using assms by (auto simp: handle_llm_attempt_exception_def split: option.splits)

lemma exception_held:
  assumes "steady h P send" and "held P send st" and "handle_llm_attempt_exception lib cfg h client n e st = (a, st')"
  shows "held P send st'"
  using exception_cases[OF assms(3)] assms(2) handle_held[OF assms(1), of "st\<lparr>rs_error := Some e\<rparr>"] by auto

lemma process_held:
  assumes "steady h P send" and "held P send st" and "process_llm_response lib cfg h client raw st = (r, st')"
  shows "held P send st'"
proof -
  define st1 where "st1 = (if ll_debug lib then st\<lparr>rs_owner := ch_success h client (rs_owner st)\<rparr> else st)"
  have "held P send st1" using assms(2) steadyD(4)[OF assms(1)] by (auto simp: st1_def held_def)
  then show ?thesis using assms(2,3)
    by (auto simp: process_llm_response_def Let_def held_def st1_def[symmetric]
        dest: steadyD(1)[OF assms(1)] split: option.splits if_splits)
qed

lemma poll_held:
  assumes "steady h P send" and "held P send st" and "poll_interrupt h st = (b, st')"
  shows "held P send st'"
  using assms(2,3) by (auto simp: poll_interrupt_def held_def dest: steadyD(2)[OF assms(1)] split: prod.splits)

lemma attempt_held:
  assumes "steady h P send" and "held P send st" and "attempt_call lib cfg h client n st = (r, st')"
  shows "held P send st' \<and> (\<exists>qs. rs_trace st' = rs_trace st @ qs \<and> list_all (\<lambda>q. rq_messages q = send) qs)"
proof -
  obtain b st1 where p: "poll_interrupt h st = (b, st1)" by fastforce
  note pf = poll_frame[OF p]
  have 1: "held P send st1" by (rule poll_held[OF assms(1,2) p])
  obtain ans st2 where s: "send_request h client st1 = (ans, st2)" by fastforce
  then have 2: "held P send st2" "rs_trace st2 = rs_trace st @ [request_of client st1]" "rq_messages (request_of client st1) = send"
    using 1 by (auto simp: send_request_def pf request_of_def held_def)
  show ?thesis
  proof (cases "b \<or> ans = Interrupted_Call")
    case True
    then show ?thesis using assms(3) p pf s 1 2 by (auto simp: attempt_call_def split: bool.splits)
  next
    case False
    show ?thesis
    proof (cases ans)
      case (Answered raw)
      obtain pr st3 where pr: "process_llm_response lib cfg h client raw st2 = (pr, st3)" by fastforce
      have "st' = st3" using assms(3) False p s Answered pr by (auto simp: attempt_call_def split: processed.splits)
      then show ?thesis using process_frame[OF pr] process_held[OF assms(1) 2(1) pr] 2 by simp
    next
      case (Failed e)
      obtain a st3 where pr: "handle_llm_attempt_exception lib cfg h client n e st2 = (a, st3)" by fastforce
      have "st' = st3" using assms(3) False p s Failed pr by (auto simp: attempt_call_def split: retry_action.splits)
      then show ?thesis using exception_frame[OF pr] exception_held[OF assms(1) 2(1) pr] 2 by simp
    qed (use False in simp)
  qed
qed

lemma loop_held:
  assumes "steady h P send" and "held P send st"
  shows "held P send (snd (retry_loop lib cfg h client ns st)) \<and>
    (\<exists>qs. rs_trace (snd (retry_loop lib cfg h client ns st)) = rs_trace st @ qs \<and> list_all (\<lambda>q. rq_messages q = send) qs)"
  using assms(2)
proof (induction ns arbitrary: st)
  case (Cons n ns)
  obtain r st1 where a: "attempt_call lib cfg h client n st = (r, st1)" by fastforce
  from attempt_held[OF assms(1) Cons.prems a] obtain qs where
    1: "held P send st1" "rs_trace st1 = rs_trace st @ qs" "list_all (\<lambda>q. rq_messages q = send) qs" by blast
  from Cons.IH[OF 1(1)] obtain qs' where
    "held P send (snd (retry_loop lib cfg h client ns st1))"
    "rs_trace (snd (retry_loop lib cfg h client ns st1)) = rs_trace st1 @ qs'" "list_all (\<lambda>q. rq_messages q = send) qs'" by blast
  then show ?case using a 1 by (cases r) (auto intro!: exI[of _ "qs @ qs'"])
qed simp

lemma call_held:
  assumes "steady h P send" and "P w"
  shows "P (rs_owner (snd (call_llm_with_retry lib cfg h client tools ms es w tr))) \<and>
    (\<exists>qs. rs_trace (snd (call_llm_with_retry lib cfg h client tools ms es w tr)) = tr @ qs
       \<and> list_all (\<lambda>q. rq_messages q = send) qs)"
proof (cases "ch_prepare h w ms")
  case None
  then show ?thesis using assms(2) by (simp add: call_llm_with_retry_def start_call_def)
next
  case (Some s)
  then have "s = send" using steadyD(1)[OF assms] by blast
  moreover have "held P send (start_call w ms send ts es tr)" for ts using assms(2) by (simp add: held_def start_call_def)
  ultimately show ?thesis
    using Some assms(2) loop_held[OF assms(1), of "start_call w ms send ts es tr" lib cfg client for ts]
    by (auto simp: call_llm_with_retry_def Let_def run_llm_with_retry_loop_def held_def start_call_def split: option.split)
qed

section \<open>Errors that are retried\<close>

definition transient_error :: "llm_lib \<Rightarrow> llm_client \<Rightarrow> api_error \<Rightarrow> bool" where
  "transient_error lib client e \<longleftrightarrow> \<not> schema_error_of e \<and>
     (case classify_api_error (ll_loads lib) (ll_chars lib) default_size (cl_provider_name client) (cl_model client) e of
        Some c \<Rightarrow> rc_retryable c \<and> \<not> rc_compress c \<and> \<not> rc_fallback c
      | None \<Rightarrow> False)"

lemma unrecoverable_schema:
  "\<not> schema_error_of e \<Longrightarrow> sr_attempted (recover_schema_after_error e ts) = False"
  "\<not> schema_error_of e \<Longrightarrow> sr_recovered (recover_schema_after_error e ts) = False"
  by (simp_all add: recover_schema_after_error_def split: option.split)

lemma schema_stage_passes:
  "\<not> schema_error_of e \<Longrightarrow> schema_stage cfg n e st = (None, st\<lparr>rs_recovered := rs_recovered st\<rparr>)"
  by (auto simp: schema_stage_def Let_def unrecoverable_schema)

lemma transient_sleeps:
  assumes "transient_error lib client e" and "int n < max_retries cfg - 1"
  shows "handle_llm_attempt_exception lib cfg h client n e st = (Act_Continue, sleep_before_retry lib cfg n (st\<lparr>rs_error := Some e\<rparr>))"
proof -
  from assms(1) obtain c where
    c: "classify_api_error (ll_loads lib) (ll_chars lib) default_size (cl_provider_name client) (cl_model client) e = Some c"
      "rc_retryable c" "\<not> rc_compress c" "\<not> rc_fallback c" "\<not> schema_error_of e"
    by (auto simp: transient_error_def split: option.splits)
  then show ?thesis using assms(2)
    by (simp add: handle_llm_attempt_exception_def handle_classified_llm_error_def stale_stage_def schema_stage_passes
        compress_stage_def fallback_stage_def retry_stage_def recovery.defs)
qed

definition never_interrupted :: "'w call_hooks \<Rightarrow> bool" where
  "never_interrupted h \<longleftrightarrow> (\<forall>w. \<not> fst (ch_interrupt h w))"

lemma poll_never: "never_interrupted h \<Longrightarrow> \<exists>st1. poll_interrupt h st = (False, st1)"
  by (cases "ch_interrupt h (rs_owner st)") (auto simp: poll_interrupt_def never_interrupted_def dest: spec[of _ "rs_owner st"])

lemma attempt_transient:
  assumes "never_interrupted h" and "\<And>tr q. ch_ask h tr q = answers (length tr)"
    and "answers (length (rs_trace st)) = Failed e" and "transient_error lib client e" and "int n < max_retries cfg - 1"
  shows "\<exists>st'. attempt_call lib cfg h client n st = (None, st') \<and> length (rs_trace st') = Suc (length (rs_trace st))"
proof -
  obtain st1 where p: "poll_interrupt h st = (False, st1)" using poll_never[OF assms(1)] by blast
  show ?thesis
    using assms(3) poll_frame[OF p]
    by (simp add: attempt_call_def p send_request_def assms(2) transient_sleeps[OF assms(4,5)])
qed

definition final_answer :: "llm_lib \<Rightarrow> llm_response \<Rightarrow> bool" where
  "final_answer lib raw \<longleftrightarrow> \<not> ll_debug lib \<and> \<not> needs_empty_content_retry lib (sanitize_response lib raw)"

lemma attempt_answered:
  assumes "never_interrupted h" and "\<And>tr q. ch_ask h tr q = answers (length tr)"
    and "answers (length (rs_trace st)) = Answered raw" and "final_answer lib raw"
  shows "\<exists>st'. attempt_call lib cfg h client n st = (Some (Returned (Some (sanitize_response lib raw)) False), st')
     \<and> length (rs_trace st') = Suc (length (rs_trace st))"
proof -
  obtain st1 where p: "poll_interrupt h st = (False, st1)" using poll_never[OF assms(1)] by blast
  show ?thesis
    using assms(3,4) poll_frame[OF p]
    by (simp add: attempt_call_def p send_request_def assms(2) process_llm_response_def safe_call_def final_answer_def Let_def)
qed

lemma loop_retries:
  assumes "never_interrupted h" and "\<And>tr q. ch_ask h tr q = answers (length tr)"
    and "\<And>i. j \<le> i \<Longrightarrow> i < k \<Longrightarrow> \<exists>e. answers (m + i) = Failed e \<and> transient_error lib client e"
    and "answers (m + k) = Answered raw" and "final_answer lib raw"
    and "int k < max_retries cfg" and "k < n" and "j \<le> k" and "length (rs_trace st) = m + j"
  shows "\<exists>st'. retry_loop lib cfg h client [j..<n] st = (Returned (Some (sanitize_response lib raw)) False, st')
     \<and> length (rs_trace st') = m + Suc k"
  using assms(3,8,9)
proof (induction "k - j" arbitrary: j st)
  case 0
  then have jk: "j = k" by simp
  obtain st' where "attempt_call lib cfg h client k st = (Some (Returned (Some (sanitize_response lib raw)) False), st')"
    "length (rs_trace st') = Suc (length (rs_trace st))"
    using attempt_answered[OF assms(1,2), of st raw lib cfg client k] assms(4,5) 0(4) jk by auto
  then show ?case using assms(7) 0(4) jk by (simp add: upt_conv_Cons)
next
  case (Suc d)
  then have lt: "j < k" by simp
  from Suc.prems(1)[of j] lt obtain e where e: "answers (m + j) = Failed e" "transient_error lib client e" by auto
  have "int j < max_retries cfg - 1" using lt assms(6) by simp
  then obtain st1 where 1: "attempt_call lib cfg h client j st = (None, st1)" "length (rs_trace st1) = m + Suc j"
    using attempt_transient[OF assms(1,2), of st e lib client j cfg] e Suc.prems(3) by auto
  have "d = k - Suc j" using Suc.hyps(2) by simp
  from Suc.hyps(1)[OF this _ _ 1(2)] Suc.prems(1) lt
  obtain st' where "retry_loop lib cfg h client [Suc j..<n] st1 = (Returned (Some (sanitize_response lib raw)) False, st')"
    "length (rs_trace st') = m + Suc k" by auto
  then show ?case using 1 lt assms(7) by (simp add: upt_conv_Cons)
qed

text \<open>
  C10: Transient errors do not lose the answer: when the first \<open>k\<close> requests fail with errors that are
  retried, and the next is answered, the call returns that answer, provided \<open>k\<close> is below
  \<open>max_retries\<close> and below 20; it makes \<open>k + 1\<close> requests.
\<close>

theorem transient_errors_are_survived:
  assumes "never_interrupted h" and "\<And>tr q. ch_ask h tr q = answers (length tr)"
    and "ch_prepare h w ms = Some send"
    and "\<And>i. i < k \<Longrightarrow> \<exists>e. answers (length trace + i) = Failed e \<and> transient_error lib client e"
    and "answers (length trace + k) = Answered raw" and "final_answer lib raw"
    and "int k < min (max_retries cfg) 20"
  shows "\<exists>st'. call_llm_with_retry lib cfg h client tools ms empties w trace
      = (Returned (Some (sanitize_response lib raw)) False, st') \<and> length (rs_trace st') = length trace + Suc k"
proof -
  have "k < effective_retries cfg" using assms(7) by (auto simp: effective_retries_def)
  then have "\<exists>st'. retry_loop lib cfg h client [0..<effective_retries cfg] (start_call w ms send ts empties trace)
      = (Returned (Some (sanitize_response lib raw)) False, st') \<and> length (rs_trace st') = length trace + Suc k" for ts
    using assms by (intro loop_retries[where answers = answers]) (auto simp: start_call_def)
  moreover have "safe_call lib x = None" for x :: "string option"
    using assms(6) by (simp add: safe_call_def final_answer_def)
  ultimately show ?thesis by (simp add: call_llm_with_retry_def assms(3) Let_def run_llm_with_retry_loop_def)
qed

section \<open>Errors that are not\<close>

lemma start_call_simps [simp]:
  "rs_trace (start_call w ms send ts es tr) = tr" "rs_sleeps (start_call w ms send ts es tr) = []"
  "rs_owner (start_call w ms send ts es tr) = w" "rs_send (start_call w ms send ts es tr) = send"
  by (simp_all add: start_call_def)

text \<open>An error that is neither retried nor recovered from ends the call.\<close>

definition final_error :: "llm_lib \<Rightarrow> llm_client \<Rightarrow> api_error \<Rightarrow> bool" where
  "final_error lib client e \<longleftrightarrow> \<not> schema_error_of e \<and>
     (case classify_api_error (ll_loads lib) (ll_chars lib) default_size (cl_provider_name client) (cl_model client) e of
        Some c \<Rightarrow> \<not> rc_retryable c \<and> \<not> rc_fallback c
      | None \<Rightarrow> False)"

text \<open>
  C11: An error that the classifier neither retries nor sends to another provider, and that is no complaint about the schemas,
  ends the call after this one request and without a response.
\<close>

theorem final_error_ends:
  assumes "never_interrupted h" and "ch_prepare h w ms = Some send" and "\<And>q. ch_ask h trace q = Failed e"
    and "final_error lib client e" and "0 < max_retries cfg" and "\<not> ll_debug lib"
  shows "\<exists>st'. call_llm_with_retry lib cfg h client tools ms empties w trace = (Returned None False, st')
     \<and> length (rs_trace st') = Suc (length trace)"
proof -
  have one: "\<exists>st'. attempt_call lib cfg h client 0 (start_call w ms send ts empties trace) = (Some (Returned None False), st')
     \<and> length (rs_trace st') = Suc (length trace)" for ts
  proof -
    let ?st = "start_call w ms send ts empties trace"
    obtain st1 where p: "poll_interrupt h ?st = (False, st1)" using poll_never[OF assms(1)] by blast
    from assms(4) obtain c where
      c: "classify_api_error (ll_loads lib) (ll_chars lib) default_size (cl_provider_name client) (cl_model client) e = Some c"
        "\<not> rc_retryable c" "\<not> rc_fallback c" "\<not> schema_error_of e"
      by (auto simp: final_error_def split: option.splits)
    have "\<not> rc_compress (recovery.truncate c)"
      using recovery_sound classified_recovery[OF c(1)] c(2) by (metis sound_advice_def recovery.select_convs(2) recovery.truncate_def)
    then show ?thesis
      using poll_frame[OF p] c(2-4)
      by (simp add: attempt_call_def p send_request_def assms(3) handle_llm_attempt_exception_def c(1)
          handle_classified_llm_error_def stale_stage_def schema_stage_passes compress_stage_def fallback_stage_def
          retry_stage_def recovery.defs)
  qed
  have "[0..<effective_retries cfg] = 0 # [1..<effective_retries cfg]"
    using assms(5) by (simp add: effective_retries_def upt_conv_Cons)
  then have "\<exists>st'. run_llm_with_retry_loop lib cfg h client (start_call w ms send ts empties trace) = (Returned None False, st')
     \<and> length (rs_trace st') = Suc (length trace)" for ts
    using one[of ts] by (auto simp: run_llm_with_retry_loop_def)
  then show ?thesis
    using assms(2,6) by (simp add: call_llm_with_retry_def Let_def safe_call_def)
qed

definition timeout_after :: "string \<Rightarrow> api_error" where
  "timeout_after secs = \<lparr>ae_type = ''APITimeoutError'', ae_text = ''Request timed out after '' @ secs @ '' seconds'',
     ae_transport = True, ae_stale = False, ae_status_code = JNull, ae_http_status = JNull, ae_code = JNull,
     ae_body = JNull, ae_response = JNull, ae_error = JNull\<rparr>"

definition plain_lib :: llm_lib where
  "plain_lib = \<lparr>ll_loads = (\<lambda>_. None), ll_chars = \<lparr>ct_alnum = (\<lambda>_. False), ct_digit = (\<lambda>_. None)\<rparr>,
     ll_re_sub = (\<lambda>_ t. t), ll_close = (\<lambda>_ _. None), ll_optimize = (\<lambda>_. None), ll_filter = (\<lambda>_. None),
     ll_cached = (\<lambda>_. None), ll_random = (\<lambda>_. 0), ll_debug = False, ll_env = (\<lambda>_. None)\<rparr>"

definition plain_client :: llm_client where
  "plain_client = \<lparr>cl_provider_name = ''p'', cl_model = ''m''\<rparr>"

lemma timeout_400_final: "final_error plain_lib plain_client (timeout_after ''400'')"
  by code_simp

lemma timeout_300_transient: "transient_error plain_lib plain_client (timeout_after ''300'')"
  by code_simp

definition hello :: llm_response where
  "hello = \<lparr>lr_content = Some ''hello'', lr_tool_calls = [], lr_finish_reason = ''stop'', lr_reasoning = None\<rparr>"

text \<open>Hooks of an owner without state, for a model that answers by the number of the request.\<close>

definition plain_hooks :: "(nat \<Rightarrow> llm_answer) \<Rightarrow> msg list \<Rightarrow> unit call_hooks" where
  "plain_hooks answers send = \<lparr>ch_ask = (\<lambda>tr q. answers (length tr)), ch_interrupt = (\<lambda>w. (False, w)),
     ch_prepare = (\<lambda>w ms. Some send), ch_compress = (\<lambda>b ms. Value ms), ch_fallback = (\<lambda>w. Some (False, w)),
     ch_success = (\<lambda>c w. w)\<rparr>"

definition fails_once :: "api_error \<Rightarrow> nat \<Rightarrow> llm_answer" where
  "fails_once e n = (if n = 0 then Failed e else Answered hello)"

definition call_once :: "api_error \<Rightarrow> call_result \<times> nat" where
  "call_once e = (case call_llm_with_retry plain_lib default_loop_config (plain_hooks (fails_once e) [user_msg ''hi''])
       plain_client [] [] 0 () [] of (r, st) \<Rightarrow> (r, length (rs_trace st)))"

text \<open>
  A number in the text of an error is taken for an HTTP status: a timeout after 300 seconds is
  retried, and the answer of the second request returned; the same timeout after 400 seconds is
  taken for a malformed request and ends the call.
\<close>

theorem number_in_text_taken_for_status:
  "call_once (timeout_after ''300'') = (Returned (Some hello) False, 2)
   \<and> call_once (timeout_after ''400'') = (Returned None False, 1)"
  by code_simp

definition structured_message :: api_error where
  "structured_message = \<lparr>ae_type = ''APIStatusError'', ae_text = ''Service Unavailable'', ae_transport = False, ae_stale = False,
     ae_status_code = JInt 503, ae_http_status = JNull, ae_code = JNull,
     ae_body = JObj [(''message'', JObj [(''detail'', JStr ''busy'')])], ae_response = JNull, ae_error = JNull\<rparr>"

text \<open>
  A provider that answers 503 with a message that is an object makes the classifier raise, so the call raises
  where the same status with a text is retried.
\<close>

theorem structured_message_raises:
  "call_once structured_message = (Raised, 1)
   \<and> call_once (structured_message\<lparr>ae_body := JObj [(''message'', JStr ''busy'')]\<rparr>) = (Returned (Some hello) False, 2)"
  by code_simp

lemma transient_errors_are_survived_witness:
  "\<exists>st'. call_llm_with_retry plain_lib default_loop_config
      (plain_hooks (fails_once (timeout_after ''300'')) [user_msg ''hi'']) plain_client [] [] 0 () []
     = (Returned (Some (sanitize_response plain_lib hello)) False, st')
   \<and> length (rs_trace st') = length ([] :: llm_request list) + Suc 1"
proof (rule transient_errors_are_survived)
  show "never_interrupted (plain_hooks (fails_once (timeout_after ''300'')) [user_msg ''hi''])"
    by (simp add: never_interrupted_def plain_hooks_def)
  show "ch_ask (plain_hooks (fails_once (timeout_after ''300'')) [user_msg ''hi'']) tr q
      = fails_once (timeout_after ''300'') (length tr)" for tr q
    by (simp add: plain_hooks_def)
  show "ch_prepare (plain_hooks (fails_once (timeout_after ''300'')) [user_msg ''hi'']) () [] = Some [user_msg ''hi'']"
    by (simp add: plain_hooks_def)
  show "\<exists>e. fails_once (timeout_after ''300'') (length ([] :: llm_request list) + i) = Failed e \<and> transient_error plain_lib plain_client e"
    if "i < 1" for i
    using that timeout_300_transient by (simp add: fails_once_def)
  show "fails_once (timeout_after ''300'') (length ([] :: llm_request list) + 1) = Answered hello"
    by (simp add: fails_once_def)
  show "final_answer plain_lib hello" by code_simp
  show "int 1 < min (max_retries default_loop_config) 20" by (simp add: default_loop_config_def)
qed

section \<open>Refused responses\<close>

text \<open>
  A response that the provider ended for safety, but which still lists tool calls, has its calls
  removed only when debug messages are logged: otherwise the guard is skipped and the calls are returned to
  be run.
\<close>

theorem safety_guard_needs_debug:
  assumes "lower (strip (str_or (lr_finish_reason raw) ''stop'')) \<in> set unsafe_finish"
    and "env_truthy (ll_env lib) ''BUTLER_SAFETY_FINISH_GUARD'' True"
    and "lr_tool_calls (sanitize_response lib raw) \<noteq> []"
  shows "\<exists>r. fst (process_llm_response lib cfg h client raw st) = Finished (Some r)
    \<and> lr_tool_calls r = (if ll_debug lib then [] else lr_tool_calls (sanitize_response lib raw))"
proof -
  have fr: "lr_finish_reason (sanitize_response lib raw) = lr_finish_reason raw" by (simp add: sanitize_response_def)
  show ?thesis
    using assms by (simp add: process_llm_response_def safe_call_def safety_finish_user_message_def fr Let_def
        refused_def needs_empty_content_retry_def)
qed

definition refused_call :: llm_response where
  "refused_call = \<lparr>lr_content = None, lr_tool_calls = [\<lparr>ct_id = Some ''c1'', ct_name = ''terminal'', ct_arguments = ''{}''\<rparr>],
     lr_finish_reason = ''content_filter'', lr_reasoning = None\<rparr>"

lemma safety_guard_needs_debug_witness:
  "\<exists>r. fst (process_llm_response plain_lib default_loop_config (plain_hooks (\<lambda>n. Interrupted_Call) []) plain_client refused_call
        (start_call () [] [] None 0 [])) = Finished (Some r)
    \<and> lr_tool_calls r = (if ll_debug plain_lib then [] else lr_tool_calls (sanitize_response plain_lib refused_call))"
proof (rule safety_guard_needs_debug)
  show "lower (strip (str_or (lr_finish_reason refused_call) ''stop'')) \<in> set unsafe_finish" by code_simp
  show "env_truthy (ll_env plain_lib) ''BUTLER_SAFETY_FINISH_GUARD'' True" by code_simp
  show "lr_tool_calls (sanitize_response plain_lib refused_call) \<noteq> []" by code_simp
qed

section \<open>Tool calls of a response\<close>

definition call_key :: "called_tool \<Rightarrow> string \<times> string" where
  "call_key tc = (ct_name tc, ct_arguments tc)"

definition wanted_key :: "llm_lib \<Rightarrow> called_tool \<Rightarrow> string \<times> string" where
  "wanted_key lib tc = (repaired_name lib (ct_name tc), ct_arguments tc)"

lemma dedup_keys:
  "distinct (map call_key (dedup_calls lib seen tcs)) \<and>
   set (map call_key (dedup_calls lib seen tcs)) = set (map (wanted_key lib) tcs) - set seen"
proof (induction tcs arbitrary: seen)
  case (Cons tc tcs)
  show ?case
    using Cons[of seen] Cons[of "wanted_key lib tc # seen"]
    by (auto simp: Let_def wanted_key_def call_key_def)
qed simp

lemma cap_delegates_count:
  "length (filter is_delegate (cap_delegates kept tcs)) \<le> max_concurrent_delegates - kept"
  by (induction kept tcs rule: cap_delegates.induct) (auto simp: is_delegate_def)

lemma cap_delegates_others: "filter (\<lambda>tc. \<not> is_delegate tc) (cap_delegates kept tcs) = filter (\<lambda>tc. \<not> is_delegate tc) tcs"
  by (induction kept tcs rule: cap_delegates.induct) (auto simp: is_delegate_def)

lemma cap_delegates_sub: "subseq (cap_delegates kept tcs) tcs"
  by (induction kept tcs rule: cap_delegates.induct) auto

lemma distinct_subseq: "subseq xs ys \<Longrightarrow> distinct (map f ys) \<Longrightarrow> distinct (map f xs)"
  by (induction rule: list_emb.induct) (auto elim: list_emb_set)

text \<open>
  After normalisation no call occurs twice, at most two delegations remain, and every other call that the
  model made, under its repaired name, is still there.
\<close>

theorem normalized_calls:
  "distinct (map call_key (normalize_tool_calls lib tcs))
   \<and> length (filter is_delegate (normalize_tool_calls lib tcs)) \<le> 2
   \<and> call_key ` {tc \<in> set (normalize_tool_calls lib tcs). \<not> is_delegate tc}
      = {k \<in> wanted_key lib ` set tcs. fst k \<noteq> ''delegate_task''}"
proof -
  let ?u = "dedup_calls lib [] tcs"
  have d: "distinct (map call_key ?u)" "call_key ` set ?u = wanted_key lib ` set tcs"
    using dedup_keys[of lib "[]" tcs] by simp_all
  have key: "fst (call_key tc) = ''delegate_task'' \<longleftrightarrow> is_delegate tc" for tc
    by (simp add: call_key_def is_delegate_def)
  have "call_key ` {tc \<in> set ?u. \<not> is_delegate tc} = {k \<in> call_key ` set ?u. fst k \<noteq> ''delegate_task''}"
    by (auto simp: key)
  then have all: "call_key ` {tc \<in> set ?u. \<not> is_delegate tc} = {k \<in> wanted_key lib ` set tcs. fst k \<noteq> ''delegate_task''}"
    by (simp only: d)
  have others: "{tc \<in> set (cap_delegates 0 ?u). \<not> is_delegate tc} = {tc \<in> set ?u. \<not> is_delegate tc}"
    using arg_cong[OF cap_delegates_others[of 0 ?u], of set] by simp
  show ?thesis
  proof (cases "length (filter is_delegate ?u) \<le> max_concurrent_delegates")
    case True
    then have n: "normalize_tool_calls lib tcs = ?u" by (simp add: normalize_tool_calls_def Let_def)
    show ?thesis unfolding n all using True d(1) by (simp add: max_concurrent_delegates_def)
  next
    case False
    then have n: "normalize_tool_calls lib tcs = cap_delegates 0 ?u" by (simp add: normalize_tool_calls_def Let_def)
    show ?thesis unfolding n others all
      using cap_delegates_count[of 0 ?u] distinct_subseq[OF cap_delegates_sub d(1)]
      by (simp add: max_concurrent_delegates_def)
  qed
qed

section \<open>What a call returns\<close>

definition orderly_response :: "llm_lib \<Rightarrow> llm_response \<Rightarrow> bool" where
  "orderly_response lib r \<longleftrightarrow> distinct (map call_key (lr_tool_calls r)) \<and> length (filter is_delegate (lr_tool_calls r)) \<le> 2
     \<and> (ll_debug lib \<longrightarrow> env_truthy (ll_env lib) ''BUTLER_SAFETY_FINISH_GUARD'' True \<longrightarrow>
          lower (strip (str_or (lr_finish_reason r) ''stop'')) \<in> set unsafe_finish \<longrightarrow> lr_tool_calls r = [])"

lemma no_calls_orderly: "lr_tool_calls r = [] \<Longrightarrow> orderly_response lib r"
  by (simp add: orderly_response_def)

lemma process_orderly:
  assumes "process_llm_response lib cfg h client raw st = (Finished (Some r), st')"
  shows "orderly_response lib r"
proof (cases "safe_call lib (safety_finish_user_message (ll_env lib) (sanitize_response lib raw))")
  case None
  then have "r = sanitize_response lib raw"
    using assms by (auto simp: process_llm_response_def Let_def split: if_splits option.splits)
  moreover have "distinct (map call_key (lr_tool_calls (sanitize_response lib raw)))"
    "length (filter is_delegate (lr_tool_calls (sanitize_response lib raw))) \<le> 2"
    using normalized_calls[of lib "lr_tool_calls raw"] by (simp_all add: sanitize_response_def)
  ultimately show ?thesis
    using None by (auto simp: orderly_response_def safe_call_def safety_finish_user_message_def Let_def split: if_splits)
next
  case (Some reply)
  then show ?thesis
    using assms by (intro no_calls_orderly) (auto simp: process_llm_response_def refused_def Let_def)
qed

lemma attempt_orderly:
  "attempt_call lib cfg h client n st = (Some (Returned (Some r) i), st') \<Longrightarrow> orderly_response lib r"
  by (auto simp: attempt_call_def split: prod.splits bool.splits llm_answer.splits processed.splits retry_action.splits
      intro: process_orderly)

lemma retry_loop_orderly:
  "retry_loop lib cfg h client ns st = (Returned (Some r) i, st') \<Longrightarrow> orderly_response lib r"
  by (induction ns arbitrary: st) (auto split: prod.splits option.splits intro: attempt_orderly)


definition debug_lib :: llm_lib where
  "debug_lib = plain_lib\<lparr>ll_debug := True\<rparr>"

definition refused_answer :: "call_result \<times> unit retry_state" where
  "refused_answer = call_llm_with_retry debug_lib default_loop_config (plain_hooks (\<lambda>n. Answered refused_call) [user_msg ''hi''])
     plain_client [] [] 0 () []"

definition returns_without_calls :: "call_result \<Rightarrow> bool" where
  "returns_without_calls res \<longleftrightarrow> (case res of Returned (Some r) i \<Rightarrow> lr_tool_calls r = [] | _ \<Rightarrow> False)"


section \<open>Examples of errors\<close>

definition bad_request :: api_error where
  "bad_request = \<lparr>ae_type = ''BadRequestError'', ae_text = ''Bad Request'', ae_transport = False, ae_stale = False,
     ae_status_code = JInt 400, ae_http_status = JNull, ae_code = JNull, ae_body = JNull, ae_response = JNull, ae_error = JNull\<rparr>"

lemma final_error_ends_witness:
  "\<exists>st'. call_llm_with_retry plain_lib default_loop_config (plain_hooks (\<lambda>n. Failed bad_request) [user_msg ''hi''])
      plain_client [] [] 0 () [] = (Returned None False, st') \<and> length (rs_trace st') = Suc (length ([] :: llm_request list))"
proof (rule final_error_ends)
  show "never_interrupted (plain_hooks (\<lambda>n. Failed bad_request) [user_msg ''hi''])"
    by (simp add: never_interrupted_def plain_hooks_def)
  show "ch_prepare (plain_hooks (\<lambda>n. Failed bad_request) [user_msg ''hi'']) () [] = Some [user_msg ''hi'']"
    by (simp add: plain_hooks_def)
  show "ch_ask (plain_hooks (\<lambda>n. Failed bad_request) [user_msg ''hi'']) [] q = Failed bad_request" for q
    by (simp add: plain_hooks_def)
  show "final_error plain_lib plain_client bad_request" by code_simp
  show "0 < max_retries default_loop_config" by (simp add: default_loop_config_def)
  show "\<not> ll_debug plain_lib" by (simp add: plain_lib_def)
qed

definition advice_for :: "api_error \<Rightarrow> classified option" where
  "advice_for e = classify_api_error (ll_loads plain_lib) (ll_chars plain_lib) default_size ''p'' ''m'' e"


end
