(* ===== verification/Agent_Turn.thy ===== *)
theory Agent_Turn
  imports Llm_Retry
begin

text \<open>
  One turn of the agent loop: \<open>AgentLoop.run\<close> and \<open>_run_turn_body\<close> of
  \<open>core/agent_loop/loop.py\<close> with the phases of \<open>core/agent_loop/phases\<close>, the helpers of
  \<open>core/agent_loop/loop_helpers.py\<close>, the budgets of \<open>core/turn_token_budget.py\<close> and
  \<open>core/loop_budget_nudge.py\<close>.

  The state of the loop object is \<open>agent\<close>, that of the turn \<open>turn_state\<close>.  What the phases call in other parts
  of the program (reminders, tool selection, compaction turn, hooks, grounding of answers) are fields of
  \<open>turn_env\<close>, and so is the tool batch, with its own state \<open>'t\<close>; a call of the model is
  \<open>call_llm_with_retry\<close> with the hooks the loop passes.  Clocks, events, metrics, callbacks and diagnostics that no phase reads are
  left out.  The stop hooks are a function of the iteration and the text, and neither the tool batch nor a poll of
  the interrupt raises.  The texts of the model hold no lone surrogates, so removing them changes nothing.
\<close>

section \<open>Status and settings\<close>

datatype loop_status =
  Status_Running | Status_Completed | Status_Tool_Limit | Status_Error | Status_Interrupted
  | Status_Waiting_Confirmation | Status_Stuck

datatype transition =
    Turn_Completed | Tool_Batch_Continue | Should_Continue_False | Truncation_Continue | Tool_Limit_Reached
  | Turn_Interrupted | Llm_Error | Reactive_Compact_Retry | Compaction_Turn | Stop_Hook_Blocked
  | Token_Budget_Continue | Prompt_Too_Long | Max_Output_Recovery | Safety_Finish | Wait_For_Confirmation
  | Loop_Stuck | Transition_Unknown

record turn_budget_settings =
  tb_enabled :: bool
  tb_default_tokens :: int
  tb_min_iterations :: int
  tb_max_iterations :: int
  tb_max_continuations :: nat
  tb_min_delta :: int

definition default_turn_budget :: turn_budget_settings where
  "default_turn_budget = \<lparr>tb_enabled = True, tb_default_tokens = 500000, tb_min_iterations = 30, tb_max_iterations = 60,
     tb_max_continuations = 3, tb_min_delta = 500\<rparr>"

record turn_budget =
  bd_tokens :: int
  bd_used :: nat
  bd_last :: int

record batch_stats =
  bs_started :: nat
  bs_clarification :: "string option"
  bs_waiting :: "string option"

record agent =
  ag_fb :: fallbacks
  ag_system_prompt :: string
  ag_ephemeral :: "string option"
  ag_tools :: "jval list"
  ag_turn_tools :: "jval list option"
  ag_messages :: "msg list"
  ag_interrupted :: bool
  ag_polls :: nat
  ag_total_tokens :: int
  ag_tool_calls :: nat
  ag_empty_retries :: int
  ag_truncation_retries :: int
  ag_config :: loop_config
  ag_nudged_iterations :: bool
  ag_nudged_tokens :: bool
  ag_reactive :: bool

record turn_state =
  ts_user :: string
  ts_budget :: "turn_budget option"
  ts_status :: loop_status
  ts_transition :: transition
  ts_iteration :: nat
  ts_text :: "string option"
  ts_reasoning :: "string option"

record 't turn_env =
  te_lib :: llm_lib
  te_ask :: "llm_request list \<Rightarrow> llm_request \<Rightarrow> llm_answer"
  te_signal :: "nat \<Rightarrow> bool"                     \<comment> \<open>\<open>is_interrupted\<close>, by the number of the poll\<close>
  te_create :: "fallback_entry \<Rightarrow> llm_client option"
  te_compress :: "msg list \<Rightarrow> msg list option"
  te_budget_settings :: turn_budget_settings
  te_parse_budget :: "string \<Rightarrow> int option"       \<comment> \<open>the regular expressions of the budget markers\<close>
  te_strip_markers :: "string \<Rightarrow> string"
  te_enrich :: "string \<Rightarrow> string"                 \<comment> \<open>\<open>_prepare_user_message\<close>\<close>
  te_reminder :: "string \<Rightarrow> string"               \<comment> \<open>\<open>maybe_prepend_system_reminder\<close>\<close>
  te_select :: "string \<Rightarrow> jval list \<Rightarrow> jval list"
  te_compact :: "nat \<Rightarrow> msg list \<Rightarrow> msg list option"
  te_warn_ratio :: "rat option"                  \<comment> \<open>\<open>None\<close> when the nudges are disabled\<close>
  te_process :: "llm_response \<Rightarrow> msg list \<Rightarrow> 't \<Rightarrow> batch_stats \<times> msg list \<times> 't"
  te_after_tools :: "batch_stats \<Rightarrow> msg list \<Rightarrow> msg list"
  te_direct_replies :: "(msg list \<Rightarrow> string \<Rightarrow> string option) list"
  te_stuck :: "'t \<Rightarrow> string option"
  te_should_continue :: "nat \<Rightarrow> llm_response \<Rightarrow> bool"
  te_correct :: "string \<Rightarrow> string option \<Rightarrow> msg list \<Rightarrow> string option"
  te_ground :: "string \<Rightarrow> string option \<Rightarrow> string option"
  te_stop_hook :: "nat \<Rightarrow> string \<Rightarrow> bool"           \<comment> \<open>the stop hooks block\<close>
  te_reset_tools :: "'t \<Rightarrow> 't"

section \<open>Messages\<close>

definition chat_msg :: "string \<Rightarrow> string \<Rightarrow> msg" where
  "chat_msg role t = [(''role'', JStr role), (''content'', JStr t)]"

definition system_messages :: "agent \<Rightarrow> msg list" where
  "system_messages a =
     (if ag_system_prompt a \<noteq> '''' then [chat_msg ''system'' (ag_system_prompt a)] else [])
     @ (case ag_ephemeral a of Some t \<Rightarrow> if t \<noteq> '''' then [chat_msg ''system'' t] else [] | None \<Rightarrow> [])"

definition prepare_messages_for_api :: "agent \<Rightarrow> msg list" where
  "prepare_messages_for_api a = system_messages a @ ag_messages a"

definition store_reasoning :: "string option \<Rightarrow> msg \<Rightarrow> msg" where
  "store_reasoning r m = (case r of
       Some t \<Rightarrow> if t = '''' then m
         else let m1 = dset ''reasoning'' (JStr t) m
              in (if dget m1 ''reasoning_content'' = None then dset ''reasoning_content'' (JStr t) m1 else m1)
     | None \<Rightarrow> m)"

definition assistant_msg :: "string \<Rightarrow> string option \<Rightarrow> msg" where
  "assistant_msg t r = store_reasoning r (chat_msg ''assistant'' t)"

definition add_message :: "msg \<Rightarrow> agent \<Rightarrow> agent" where
  "add_message m a = a\<lparr>ag_messages := ag_messages a @ [m]\<rparr>"

section \<open>Interrupts and fallbacks\<close>

definition interrupt_check :: "'t turn_env \<Rightarrow> agent \<Rightarrow> bool \<times> agent" where
  "interrupt_check te a =
     (if ag_interrupted a then (True, a)
      else let b = te_signal te (ag_polls a) in (b, a\<lparr>ag_polls := Suc (ag_polls a), ag_interrupted := b\<rparr>))"

definition agent_fallback :: "'t turn_env \<Rightarrow> agent \<Rightarrow> (bool \<times> agent) option" where
  "agent_fallback te a = map_option (\<lambda>(b, fb). (b, a\<lparr>ag_fb := fb\<rparr>)) (try_activate_fallback (te_create te) (ag_fb a))"

section \<open>The call of the model\<close>

text \<open>
  The hooks the loop passes: the messages are rebuilt from the history of the loop, the compression knows no keyword
  \<open>overflow_replay\<close>; the table of the circuit breaker is not part of the agent.
\<close>

definition agent_hooks :: "'t turn_env \<Rightarrow> agent call_hooks" where
  "agent_hooks te = \<lparr>ch_ask = te_ask te, ch_interrupt = interrupt_check te,
     ch_prepare = (\<lambda>a ms. Some (prepare_messages_for_api a)),
     ch_compress = (\<lambda>replay ms. if replay then Type_Error
        else (case te_compress te ms of Some out \<Rightarrow> Value out | None \<Rightarrow> Other_Error)),
     ch_fallback = agent_fallback te, ch_success = (\<lambda>c a. a)\<rparr>"

datatype llm_outcome = Got llm_response | No_Response | Escaped

definition turn_tools_of :: "agent \<Rightarrow> jval list" where
  "turn_tools_of a = (case ag_turn_tools a of Some ts \<Rightarrow> if ts = [] then ag_tools a else ts | None \<Rightarrow> ag_tools a)"

definition agent_call_llm :: "'t turn_env \<Rightarrow> agent \<Rightarrow> llm_request list \<Rightarrow> llm_outcome \<times> agent \<times> llm_request list" where
  "agent_call_llm te a0 trace = (case interrupt_check te a0 of
       (True, a) \<Rightarrow> (No_Response, a, trace)
     | (False, a) \<Rightarrow>
         (case call_llm_with_retry (te_lib te) (ag_config a) (agent_hooks te) (fb_client (ag_fb a)) (turn_tools_of a)
                 (prepare_messages_for_api a0) (ag_empty_retries a) a trace of
            (res, st) \<Rightarrow>
              let a1 = (rs_owner st)\<lparr>ag_reactive := ag_reactive (rs_owner st) \<or> rs_compressed st\<rparr>
              in (case res of
                    Returned (Some r) False \<Rightarrow> (Got r, a1, rs_trace st)
                  | Returned _ _ \<Rightarrow> (No_Response, a1, rs_trace st)
                  | Raised \<Rightarrow> (Escaped, a1, rs_trace st))))"

section \<open>Budgets\<close>

definition turn_budget_phrases :: "string list" where
  "turn_budget_phrases = [(bytes [230, 156, 172, 232, 189, 174, 229, 176, 189, 233, 135, 143, 229, 129, 154, 229, 174, 140]), (bytes [229, 176, 189, 233, 135, 143, 229, 129, 154, 229, 174, 140]), (bytes [229, 164, 154, 231, 148, 168, 231, 130, 185] @ ''token''), (bytes [229, 164, 154, 231, 148, 168, 231, 130, 185] @ '' token'')]"

definition parse_token_budget_text :: "'t turn_env \<Rightarrow> string \<Rightarrow> int option" where
  "parse_token_budget_text te t = (if tb_enabled (te_budget_settings te) then te_parse_budget te (strip t) else None)"

definition wants_extended_turn :: "'t turn_env \<Rightarrow> string \<Rightarrow> bool" where
  "wants_extended_turn te t \<longleftrightarrow> tb_enabled (te_budget_settings te) \<and> any_in turn_budget_phrases (lower t)"

definition budget_to_max_iterations :: "turn_budget_settings \<Rightarrow> int \<Rightarrow> int \<Rightarrow> int" where
  "budget_to_max_iterations tb budget base = (
     let floor = max base (tb_min_iterations tb); cap = max floor (tb_max_iterations tb)
     in min cap (floor + max 0 (budget div 80000)))"

definition resolve_turn_budget :: "'t turn_env \<Rightarrow> string \<Rightarrow> loop_config \<Rightarrow> loop_config \<times> int option \<times> string" where
  "resolve_turn_budget te t cfg = (
     let budget = (case parse_token_budget_text te t of
            Some b \<Rightarrow> Some b
          | None \<Rightarrow> if wants_extended_turn te t then Some (tb_default_tokens (te_budget_settings te)) else None)
     in case budget of
          None \<Rightarrow> (cfg, None, t)
        | Some b \<Rightarrow>
            let n = budget_to_max_iterations (te_budget_settings te) b (max_iterations cfg)
            in (if n \<le> max_iterations cfg then cfg else cfg\<lparr>max_iterations := n\<rparr>, Some b, te_strip_markers te t))"

definition budget_should_continue :: "turn_budget_settings \<Rightarrow> turn_budget \<Rightarrow> int \<Rightarrow> bool" where
  "budget_should_continue tb b out =
     (if bd_tokens b \<le> 0 then False
      else if tb_max_continuations tb \<le> bd_used b \<and> out - bd_last b < tb_min_delta tb then False
      else out < \<lfloor>rat_of_int (bd_tokens b) * (9 / 10)\<rfloor>)"

definition record_continuation :: "int \<Rightarrow> turn_budget \<Rightarrow> turn_budget" where
  "record_continuation out b = b\<lparr>bd_used := Suc (bd_used b), bd_last := out\<rparr>"

text \<open>\<open>f"{n:,}"\<close>\<close>

fun group_digits :: "string \<Rightarrow> string" where
  "group_digits (a # b # c # d # s) = a # b # c # CHR '','' # group_digits (d # s)"
| "group_digits s = s"

definition thousands :: "int \<Rightarrow> string" where
  "thousands n = (let ds = rev (group_digits (rev (str_of_nat (nat \<bar>n\<bar>)))) in if n < 0 then CHR ''-'' # ds else ds)"

definition budget_continuation_message :: "int \<Rightarrow> nat \<Rightarrow> string" where
  "budget_continuation_message budget k =
     (''['' @ bytes [231, 179, 187, 231, 187, 159] @ ''] '' @ bytes [230, 156, 172, 232, 189, 174] @ '' token '' @ bytes [233, 162, 132, 231, 174, 151, 231, 186, 166] @ '' '') @ thousands budget @ (bytes [239, 188, 140, 229, 189, 147, 229, 137, 141, 232, 191, 155, 229, 186, 166, 230, 156, 170, 232, 190, 190] @ '' 90%'' @ bytes [227, 128, 130, 232, 175, 183, 231, 187, 167, 231, 187, 173, 229, 174, 140, 230, 136, 144, 231, 148, 168, 230, 136, 183, 228, 187, 187, 229, 138, 161, 239, 188, 140, 233, 129, 191, 229, 133, 141, 233, 135, 141, 229, 164, 141, 229, 183, 178, 228, 186, 164, 228, 187, 152, 229, 134, 133, 229, 174, 185, 227, 128, 130, 239, 188, 136, 231, 187, 173, 232, 183, 145] @ '' '')
     @ str_of_nat k @ (bytes [239, 188, 137])"

definition nudge_threshold :: "rat \<Rightarrow> int \<Rightarrow> int" where
  "nudge_threshold ratio n = \<lfloor>rat_of_int n * ratio\<rfloor>"

definition nudge_percent :: "rat \<Rightarrow> string" where
  "nudge_percent ratio = str_of_int \<lfloor>ratio * 100\<rfloor>"

definition iteration_nudge_message :: "rat \<Rightarrow> nat \<Rightarrow> int \<Rightarrow> string" where
  "iteration_nudge_message ratio i n =
     (''['' @ bytes [231, 179, 187, 231, 187, 159] @ ''] '' @ bytes [230, 156, 172, 232, 189, 174, 229, 183, 178, 231, 148, 168, 231, 186, 166] @ '' '') @ str_of_nat i @ ''/'' @ str_of_int n @ ('' '' @ bytes [230, 172, 161, 232, 191, 173, 228, 187, 163, 239, 188, 136, 226, 137, 165]) @ nudge_percent ratio
     @ (''% '' @ bytes [228, 184, 138, 233, 153, 144, 239, 188, 137, 227, 128, 130, 232, 175, 183, 228, 188, 152, 229, 133, 136, 230, 148, 182, 229, 176, 190, 239, 188, 154, 231, 187, 153, 229, 135, 186, 231, 187, 147, 232, 174, 186, 227, 128, 129, 230, 156, 170, 229, 174, 140, 230, 136, 144, 233, 161, 185, 230, 160, 135, 228, 184, 186] @ '' IN-PROGRESS'' @ bytes [227, 128, 129, 233, 129, 191, 229, 133, 141, 233, 135, 141, 229, 164, 141, 229, 183, 165, 229, 133, 183, 232, 176, 131, 231, 148, 168, 227, 128, 130])"

definition token_nudge_message :: "rat \<Rightarrow> int \<Rightarrow> int \<Rightarrow> string" where
  "token_nudge_message ratio used budget =
     (''['' @ bytes [231, 179, 187, 231, 187, 159] @ ''] '' @ bytes [230, 156, 172, 232, 189, 174] @ '' token '' @ bytes [229, 183, 178, 231, 148, 168, 231, 186, 166] @ '' '') @ thousands used @ ''/'' @ thousands budget @ (bytes [239, 188, 136, 226, 137, 165]) @ nudge_percent ratio
     @ (''% '' @ bytes [233, 162, 132, 231, 174, 151, 239, 188, 137, 227, 128, 130, 232, 175, 183, 230, 148, 182, 230, 149, 155, 232, 140, 131, 229, 155, 180, 229, 185, 182, 228, 186, 164, 228, 187, 152, 229, 143, 175, 233, 170, 140, 232, 175, 129, 231, 187, 147, 230, 158, 156, 239, 188, 155, 229, 139, 191, 229, 134, 141, 229, 177, 149, 229, 188, 128, 230, 150, 176, 229, 173, 144, 228, 187, 187, 229, 138, 161, 227, 128, 130])"

definition inject_budget_nudges :: "'t turn_env \<Rightarrow> turn_state \<Rightarrow> agent \<Rightarrow> agent" where
  "inject_budget_nudges te t a = (case te_warn_ratio te of
       None \<Rightarrow> a
     | Some ratio \<Rightarrow>
         let i = ts_iteration t; n = max_iterations (ag_config a);
             a1 = (if \<not> ag_nudged_iterations a \<and> max 1 (nudge_threshold ratio (max 1 n)) \<le> max 1 (int i)
                   then (add_message (chat_msg ''user'' (iteration_nudge_message ratio i n)) a)\<lparr>ag_nudged_iterations := True\<rparr>
                   else a)
         in case ts_budget t of
              None \<Rightarrow> a1
            | Some b \<Rightarrow>
                if bd_tokens b \<noteq> 0 \<and> \<not> ag_nudged_tokens a1 \<and> 0 < bd_tokens b
                    \<and> nudge_threshold ratio (bd_tokens b) \<le> ag_total_tokens a1
                then (add_message (chat_msg ''user'' (token_nudge_message ratio (ag_total_tokens a1) (bd_tokens b))) a1)
                        \<lparr>ag_nudged_tokens := True\<rparr>
                else a1)"

section \<open>Phases\<close>

definition init_turn_state :: "agent \<Rightarrow> agent" where
  "init_turn_state a = a\<lparr>ag_fb := (ag_fb a)\<lparr>fb_index := 0\<rparr>, ag_empty_retries := 0, ag_truncation_retries := 0\<rparr>"

definition phase_init :: "'t turn_env \<Rightarrow> string \<Rightarrow> agent \<Rightarrow> agent \<times> turn_state" where
  "phase_init te user_message a0 = (
     let a = init_turn_state a0
     in case resolve_turn_budget te user_message (ag_config a) of
          (cfg, budget, cleaned) \<Rightarrow>
            (a\<lparr>ag_config := cfg, ag_turn_tools := Some []\<rparr>,
             \<lparr>ts_user = te_enrich te cleaned,
              ts_budget = (case budget of
                 Some b \<Rightarrow> if b \<noteq> 0 then Some \<lparr>bd_tokens = b, bd_used = 0, bd_last = 0\<rparr> else None | None \<Rightarrow> None),
              ts_status = Status_Running, ts_transition = Transition_Unknown, ts_iteration = 0, ts_text = None,
              ts_reasoning = None\<rparr>))"

definition phase_resolve_user_text :: "'t turn_env \<Rightarrow> agent \<Rightarrow> turn_state \<Rightarrow> agent \<times> turn_state" where
  "phase_resolve_user_text te a t = (
     let a1 = (if ag_messages a = [] \<and> ag_system_prompt a \<noteq> '''' then add_message (chat_msg ''system'' (ag_system_prompt a)) a else a);
         user = te_reminder te (ts_user t)
     in (add_message (chat_msg ''user'' user) a1, t\<lparr>ts_user := user\<rparr>))"

definition phase_enrich_user_text :: "'t turn_env \<Rightarrow> agent \<Rightarrow> turn_state \<Rightarrow> agent" where
  "phase_enrich_user_text te a t = a\<lparr>ag_turn_tools := Some (te_select te (ts_user t) (ag_tools a))\<rparr>"

definition phase_maybe_compact :: "'t turn_env \<Rightarrow> agent \<Rightarrow> turn_state \<Rightarrow> agent \<times> turn_state" where
  "phase_maybe_compact te a t = (case te_compact te (ts_iteration t) (ag_messages a) of
       Some ms \<Rightarrow> (a\<lparr>ag_messages := ms\<rparr>, t\<lparr>ts_transition := Compaction_Turn\<rparr>)
     | None \<Rightarrow> (a, t))"

definition mark_no_response :: "agent \<Rightarrow> turn_state \<Rightarrow> turn_state" where
  "mark_no_response a t =
     (if ag_interrupted a then t\<lparr>ts_status := Status_Interrupted, ts_transition := Turn_Interrupted\<rparr>
      else t\<lparr>ts_status := Status_Error, ts_transition := (if ag_reactive a then Reactive_Compact_Retry else Llm_Error)\<rparr>)"

definition end_with :: "string option \<Rightarrow> loop_status \<Rightarrow> transition \<Rightarrow> turn_state \<Rightarrow> turn_state" where
  "end_with text st tr t = t\<lparr>ts_text := text, ts_status := st, ts_transition := tr\<rparr>"

text \<open>
  The batch appends its messages to the list it is given, which is a fresh one: the list that comes back is
  dropped.
\<close>

definition process_tools :: "'t turn_env \<Rightarrow> llm_response \<Rightarrow> agent \<Rightarrow> 't \<Rightarrow> batch_stats \<times> agent \<times> 't" where
  "process_tools te r a0 tools = (case interrupt_check te a0 of
       (True, a) \<Rightarrow> (\<lparr>bs_started = 0, bs_clarification = None, bs_waiting = None\<rparr>, a, tools)
     | (False, a) \<Rightarrow> (case te_process te r (prepare_messages_for_api a) tools of
         (stats, appended, tools1) \<Rightarrow>
           (stats, a\<lparr>ag_messages := te_after_tools te stats (ag_messages a), ag_tool_calls := ag_tool_calls a + bs_started stats\<rparr>,
            tools1)))"

fun first_reply :: "(msg list \<Rightarrow> string \<Rightarrow> string option) list \<Rightarrow> msg list \<Rightarrow> string \<Rightarrow> string option" where
  "first_reply [] ms u = None"
| "first_reply (f # fs) ms u = (case f ms u of Some t \<Rightarrow> if t = '''' then first_reply fs ms u else Some t | None \<Rightarrow> first_reply fs ms u)"

definition nonempty :: "string option \<Rightarrow> string option" where
  "nonempty x = (if x = Some '''' then None else x)"

definition dispatch_tool_response :: "'t turn_env \<Rightarrow> llm_response \<Rightarrow> agent \<Rightarrow> turn_state \<Rightarrow> 't \<Rightarrow> agent \<times> turn_state \<times> 't" where
  "dispatch_tool_response te r a0 t tools0 = (case process_tools te r a0 tools0 of
       (stats, a, tools) \<Rightarrow> (a,
         (case first_reply (te_direct_replies te) (ag_messages a) (ts_user t) of
            Some text \<Rightarrow> end_with (Some text) Status_Completed Should_Continue_False t
          | None \<Rightarrow> (case nonempty (bs_waiting stats) of
              Some text \<Rightarrow> end_with (Some text) Status_Waiting_Confirmation Wait_For_Confirmation t
            | None \<Rightarrow> (case nonempty (te_stuck te tools) of
                Some text \<Rightarrow> end_with (Some text) Status_Stuck Loop_Stuck t
              | None \<Rightarrow> (case nonempty (bs_clarification stats) of
                  Some text \<Rightarrow> end_with (Some text) Status_Completed Should_Continue_False t
                | None \<Rightarrow>
                    if \<not> te_should_continue te (ts_iteration t) r
                    then end_with (lr_content r) Status_Completed Should_Continue_False t
                    else t\<lparr>ts_transition := Tool_Batch_Continue\<rparr>)))), tools))"

definition opt_str :: "string option \<Rightarrow> string" where
  "opt_str x = (case x of Some t \<Rightarrow> t | None \<Rightarrow> '''')"

text \<open>The text so far is kept as an assistant message when the turn goes on after it.\<close>

definition keep_text :: "turn_state \<Rightarrow> agent \<Rightarrow> agent" where
  "keep_text t a = (case nonempty (ts_text t) of
       Some text \<Rightarrow> add_message (assistant_msg text (ts_reasoning t)) a | None \<Rightarrow> a)"

definition truncation_step :: "llm_response \<Rightarrow> agent \<Rightarrow> turn_state \<Rightarrow> (agent \<times> turn_state) option" where
  "truncation_step r a t =
     (if needs_truncation_continue r \<and> ag_truncation_retries a < max_truncation_continues (ag_config a)
      then Some (add_message (chat_msg ''user'' truncation_continue_message)
                   (keep_text t (a\<lparr>ag_truncation_retries := ag_truncation_retries a + 1\<rparr>)),
                 t\<lparr>ts_text := None, ts_transition := Truncation_Continue\<rparr>)
      else None)"

definition stop_hook_step :: "'t turn_env \<Rightarrow> agent \<Rightarrow> turn_state \<Rightarrow> (agent \<times> turn_state) option" where
  "stop_hook_step te a t =
     (if te_stop_hook te (ts_iteration t) (opt_str (ts_text t))
      then Some (a, t\<lparr>ts_text := None, ts_transition := Stop_Hook_Blocked\<rparr>) else None)"

definition budget_step :: "'t turn_env \<Rightarrow> agent \<Rightarrow> turn_state \<Rightarrow> (agent \<times> turn_state) option" where
  "budget_step te a t = (case ts_budget t of
       None \<Rightarrow> None
     | Some b \<Rightarrow>
         if budget_should_continue (te_budget_settings te) b (ag_total_tokens a)
         then (let b1 = record_continuation (ag_total_tokens a) b
               in Some (add_message (chat_msg ''user'' (budget_continuation_message (bd_tokens b1) (bd_used b1))) (keep_text t a),
                        t\<lparr>ts_budget := Some b1, ts_text := None, ts_transition := Token_Budget_Continue\<rparr>))
         else None)"

definition grounded_text :: "'t turn_env \<Rightarrow> string \<Rightarrow> string option \<Rightarrow> msg list \<Rightarrow> string option" where
  "grounded_text te user text ms = te_ground te user
     (case nonempty (te_correct te user text ms) of Some t \<Rightarrow> Some t | None \<Rightarrow> text)"

definition dispatch_text_response :: "'t turn_env \<Rightarrow> llm_response \<Rightarrow> agent \<Rightarrow> turn_state \<Rightarrow> agent \<times> turn_state" where
  "dispatch_text_response te r a t0 = (
     let t = t0\<lparr>ts_text := grounded_text te (ts_user t0) (lr_content r) (ag_messages a), ts_reasoning := lr_reasoning r\<rparr>
     in case truncation_step r a t of
          Some x \<Rightarrow> x
        | None \<Rightarrow> (case stop_hook_step te a t of
            Some x \<Rightarrow> x
          | None \<Rightarrow> (case budget_step te a t of
              Some x \<Rightarrow> x
            | None \<Rightarrow> (a, t\<lparr>ts_status := Status_Completed, ts_transition := Turn_Completed\<rparr>))))"

definition phase_dispatch :: "'t turn_env \<Rightarrow> llm_response \<Rightarrow> agent \<Rightarrow> turn_state \<Rightarrow> 't \<Rightarrow> agent \<times> turn_state \<times> 't" where
  "phase_dispatch te r a t tools =
     (if lr_tool_calls r \<noteq> [] then dispatch_tool_response te r a t tools
      else (case dispatch_text_response te r a t of (a1, t1) \<Rightarrow> (a1, t1, tools)))"

section \<open>The loop of a turn\<close>

record 't turn =
  tn_agent :: agent
  tn_state :: turn_state
  tn_tools :: 't
  tn_trace :: "llm_request list"

datatype 'a progress = Goes_On 'a | Ends 'a | Crashes 'a

definition before_llm :: "'t turn_env \<Rightarrow> agent \<Rightarrow> turn_state \<Rightarrow> agent \<times> turn_state" where
  "before_llm te a t = (case phase_resolve_user_text te a t of
       (a1, t1) \<Rightarrow> (case phase_maybe_compact te (phase_enrich_user_text te a1 t1) t1 of
         (a2, t2) \<Rightarrow> (inject_budget_nudges te t2 a2, t2)))"

definition after_dispatch :: "'t turn_env \<Rightarrow> 't turn \<Rightarrow> 't turn progress" where
  "after_dispatch te x =
     (if ts_status (tn_state x) \<noteq> Status_Running then Ends x
      else if te_stop_hook te (ts_iteration (tn_state x)) (opt_str (ts_text (tn_state x))) then Ends x
      else Goes_On x)"

definition turn_iteration :: "'t turn_env \<Rightarrow> 't turn \<Rightarrow> 't turn progress" where
  "turn_iteration te x = (
     let t0 = (tn_state x)\<lparr>ts_iteration := Suc (ts_iteration (tn_state x))\<rparr>
     in case interrupt_check te (tn_agent x) of
          (True, a) \<Rightarrow> Ends (x\<lparr>tn_agent := a, tn_state := t0\<lparr>ts_status := Status_Interrupted, ts_transition := Turn_Interrupted\<rparr>\<rparr>)
        | (False, a) \<Rightarrow> (case before_llm te a t0 of
            (a1, t1) \<Rightarrow> (case agent_call_llm te a1 (tn_trace x) of
              (Got r, a2, trace) \<Rightarrow> (case phase_dispatch te r a2 t1 (tn_tools x) of
                 (a3, t3, tools) \<Rightarrow> after_dispatch te \<lparr>tn_agent = a3, tn_state = t3, tn_tools = tools, tn_trace = trace\<rparr>)
            | (No_Response, a2, trace) \<Rightarrow>
                Ends (x\<lparr>tn_agent := a2, tn_state := mark_no_response a2 t1, tn_trace := trace\<rparr>)
            | (Escaped, a2, trace) \<Rightarrow> Crashes (x\<lparr>tn_agent := a2, tn_state := t1, tn_trace := trace\<rparr>))))"

text \<open>\<open>while True\<close>, with fuel: \<open>None\<close> when the turn still runs after that many iterations.\<close>

fun turn_loop :: "'t turn_env \<Rightarrow> nat \<Rightarrow> 't turn \<Rightarrow> (bool \<times> 't turn) option" where
  "turn_loop te 0 x = None"
| "turn_loop te (Suc n) x = (case turn_iteration te x of
       Goes_On y \<Rightarrow> turn_loop te n y
     | Ends y \<Rightarrow> Some (True, y)
     | Crashes y \<Rightarrow> Some (False, y))"

section \<open>The end of a turn\<close>

record loop_result =
  lp_status :: loop_status
  lp_transition :: transition
  lp_final :: "string option"
  lp_reasoning :: "string option"
  lp_messages :: "msg list"
  lp_iterations :: nat
  lp_total_tokens :: int
  lp_tool_calls :: nat

definition phase_finalize :: "'t turn \<Rightarrow> loop_result \<times> agent" where
  "phase_finalize x = (
     let t0 = tn_state x;
         t = (if ts_status t0 = Status_Running then t0\<lparr>ts_status := Status_Tool_Limit, ts_transition := Tool_Limit_Reached\<rparr> else t0);
         a = keep_text t (tn_agent x)
     in (\<lparr>lp_status = ts_status t, lp_transition = ts_transition t, lp_final = ts_text t, lp_reasoning = ts_reasoning t,
          lp_messages = ag_messages a, lp_iterations = ts_iteration t, lp_total_tokens = ag_total_tokens a,
          lp_tool_calls = ag_tool_calls a\<rparr>, a))"

text \<open>
  \<open>ephemeral\<close> is the system text of the turn, from the state of the conversation, past experience and
  feedback of the evaluation.
\<close>

definition start_turn :: "'t turn_env \<Rightarrow> string \<Rightarrow> string option \<Rightarrow> agent \<Rightarrow> 't \<Rightarrow> llm_request list \<Rightarrow> 't turn" where
  "start_turn te user ephemeral a tools trace = (
     let a1 = a\<lparr>ag_ephemeral := ephemeral, ag_interrupted := False, ag_nudged_iterations := False, ag_nudged_tokens := False,
                ag_reactive := False\<rparr>
     in case phase_init te user a1 of
          (a2, t) \<Rightarrow> \<lparr>tn_agent = init_turn_state a2, tn_state = t, tn_tools = te_reset_tools te tools, tn_trace = trace\<rparr>)"

datatype 'a turn_outcome = Unfinished | Crashed 'a | Finished_Turn loop_result 'a

definition run_turn :: "'t turn_env \<Rightarrow> nat \<Rightarrow> string \<Rightarrow> string option \<Rightarrow> agent \<Rightarrow> 't \<Rightarrow> llm_request list \<Rightarrow> 't turn turn_outcome" where
  "run_turn te fuel user ephemeral a tools trace = (case turn_loop te fuel (start_turn te user ephemeral a tools trace) of
       None \<Rightarrow> Unfinished
     | Some (False, x) \<Rightarrow> Crashed x
     | Some (True, x) \<Rightarrow> (case phase_finalize x of (res, a1) \<Rightarrow> Finished_Turn res (x\<lparr>tn_agent := a1\<rparr>)))"

text \<open>The turn after \<open>n\<close> iterations, if it got that far.\<close>

primrec turn_after :: "'t turn_env \<Rightarrow> nat \<Rightarrow> 't turn \<Rightarrow> 't turn option" where
  "turn_after te 0 x = Some x"
| "turn_after te (Suc n) x = (case turn_after te n x of
       Some y \<Rightarrow> (case turn_iteration te y of Goes_On z \<Rightarrow> Some z | _ \<Rightarrow> None)
     | None \<Rightarrow> None)"

end
