(* ===== verification/Agent_Turn_Props.thy ===== *)
theory Agent_Turn_Props
  imports Agent_Turn Llm_Retry_Props
begin

text \<open>
  What a turn of the agent loop does: the requests of a call repeat the history, tool results never
  reach the model, a turn is not bounded by \<open>max_iterations\<close>, and what its result means.
\<close>

section \<open>Calls of the model\<close>

definition same_history :: "agent \<Rightarrow> agent \<Rightarrow> bool" where
  "same_history a b \<longleftrightarrow> ag_messages b = ag_messages a \<and> ag_system_prompt b = ag_system_prompt a
     \<and> ag_ephemeral b = ag_ephemeral a \<and> ag_config b = ag_config a"

lemma same_history_refl [simp]: "same_history a a"
  by (simp add: same_history_def)

lemma prepare_same: "same_history a b \<Longrightarrow> prepare_messages_for_api b = prepare_messages_for_api a"
  by (simp add: same_history_def prepare_messages_for_api_def system_messages_def)

lemma interrupt_same: "interrupt_check te a = (b, a') \<Longrightarrow> same_history a a' \<and> ag_fb a' = ag_fb a"
  by (auto simp: interrupt_check_def Let_def same_history_def split: if_splits)

lemma agent_steady: "steady (agent_hooks te) (same_history a) (prepare_messages_for_api a)"
proof -
  have "ch_prepare (agent_hooks te) w ms \<in> {None, Some (prepare_messages_for_api a)} \<and> same_history a (snd (ch_interrupt (agent_hooks te) w))
      \<and> (\<forall>b w'. ch_fallback (agent_hooks te) w = Some (b, w') \<longrightarrow> same_history a w') \<and> same_history a (ch_success (agent_hooks te) c w)"
    if "same_history a w" for w ms c
    using that prepare_same[OF that] by (auto simp: agent_hooks_def agent_fallback_def interrupt_check_def Let_def same_history_def)
  then show ?thesis unfolding steady_def by blast
qed

lemma agent_call_frame:
  assumes "agent_call_llm te a trace = (out, a', trace')"
  shows "same_history a a' \<and> (\<exists>qs. trace' = trace @ qs \<and> length qs \<le> effective_retries (ag_config a)
    \<and> list_all (\<lambda>q. rq_client q = fb_client (ag_fb a) \<and> rq_messages q = prepare_messages_for_api a) qs)"
proof -
  obtain b a1 where p: "interrupt_check te a = (b, a1)" by fastforce
  note same = interrupt_same[OF p]
  show ?thesis
  proof (cases b)
    case True
    then show ?thesis using assms p same by (simp add: agent_call_llm_def)
  next
    case False
    obtain res st where c: "call_llm_with_retry (te_lib te) (ag_config a1) (agent_hooks te) (fb_client (ag_fb a1)) (turn_tools_of a1)
        (prepare_messages_for_api a) (ag_empty_retries a1) a1 trace = (res, st)" by fastforce
    have prep: "prepare_messages_for_api a1 = prepare_messages_for_api a" using same prepare_same by blast
    from call_held[OF agent_steady[of te a1], of a1, where lib = "te_lib te" and cfg = "ag_config a1" and client = "fb_client (ag_fb a1)"
        and tools = "turn_tools_of a1" and ms = "prepare_messages_for_api a" and es = "ag_empty_retries a1" and tr = trace]
    obtain qs where qs: "same_history a1 (rs_owner st)" "rs_trace st = trace @ qs"
      "list_all (\<lambda>q. rq_messages q = prepare_messages_for_api a) qs"
      by (auto simp: c prep)
    have "asked_from (ag_config a1) (fb_client (ag_fb a1)) (effective_retries (ag_config a1))
        (start_call a1 (prepare_messages_for_api a) [] None (ag_empty_retries a1) trace) st"
      using call_asks[of "ag_config a1" "fb_client (ag_fb a1)" a1 "prepare_messages_for_api a" "ag_empty_retries a1" trace "te_lib te"
        "agent_hooks te" "turn_tools_of a1"] by (simp only: c snd_conv)
    then have "length qs \<le> effective_retries (ag_config a)" "list_all (\<lambda>q. rq_client q = fb_client (ag_fb a)) qs"
      using qs(2) same by (auto simp: asked_from_def same_history_def start_call_def)
    moreover have "a' = (rs_owner st)\<lparr>ag_reactive := ag_reactive (rs_owner st) \<or> rs_compressed st\<rparr>" "trace' = rs_trace st"
      using assms False p by (auto simp: agent_call_llm_def c Let_def split: call_result.splits option.splits bool.splits)
    ultimately show ?thesis using qs same by (auto simp: same_history_def list_all_iff)
  qed
qed

text \<open>
  All requests of one call carry the same messages and go to the same client: a compaction after an overflow and a
  fallback that was activated change neither, and the history of the loop is as before.
\<close>

theorem requests_of_a_call_agree:
  "let (out, a', trace') = agent_call_llm te a trace
   in ag_messages a' = ag_messages a \<and> (\<exists>qs. trace' = trace @ qs
      \<and> int (length qs) \<le> max 0 (min (max_retries (ag_config a)) 20)
      \<and> list_all (\<lambda>q. rq_client q = fb_client (ag_fb a) \<and> rq_messages q = prepare_messages_for_api a) qs)"
proof -
  obtain out a' trace' where c: "agent_call_llm te a trace = (out, a', trace')" by (metis prod_cases3)
  then show ?thesis using agent_call_frame[OF c] by (auto simp: same_history_def effective_retries_def)
qed

section \<open>Tool results\<close>

definition no_tool :: "msg list \<Rightarrow> bool" where
  "no_tool ms \<longleftrightarrow> list_all (\<lambda>m. \<not> role_is ''tool'' m) ms"

lemma no_tool_simps [simp]:
  "no_tool []" "no_tool (xs @ ys) \<longleftrightarrow> no_tool xs \<and> no_tool ys" "no_tool (m # ms) \<longleftrightarrow> \<not> role_is ''tool'' m \<and> no_tool ms"
  by (simp_all add: no_tool_def)

lemma chat_role [simp]: "role_is r (chat_msg s t) \<longleftrightarrow> s = r"
  by (auto simp: role_is_def chat_msg_def)

lemma assistant_role [simp]: "role_is r (assistant_msg t x) \<longleftrightarrow> r = ''assistant''"
  by (auto simp: assistant_msg_def store_reasoning_def role_is_def Let_def chat_msg_def split: option.split)

lemma add_message_simps [simp]:
  "ag_messages (add_message m a) = ag_messages a @ [m]" "ag_system_prompt (add_message m a) = ag_system_prompt a"
  "ag_ephemeral (add_message m a) = ag_ephemeral a" "ag_config (add_message m a) = ag_config a"
  "ag_interrupted (add_message m a) = ag_interrupted a" "ag_fb (add_message m a) = ag_fb a"
  by (simp_all add: add_message_def)

lemma prepare_no_tool: "no_tool (prepare_messages_for_api a) \<longleftrightarrow> no_tool (ag_messages a)"
  by (auto simp: prepare_messages_for_api_def system_messages_def split: option.split)

definition keeps_no_tool :: "'t turn_env \<Rightarrow> bool" where
  "keeps_no_tool te \<longleftrightarrow> (\<forall>ms. no_tool ms \<longrightarrow>
     (\<forall>i out. te_compact te i ms = Some out \<longrightarrow> no_tool out) \<and> (\<forall>st. no_tool (te_after_tools te st ms)))"

lemma keep_text_no_tool [simp]: "no_tool (ag_messages (keep_text t a)) \<longleftrightarrow> no_tool (ag_messages a)"
  by (auto simp: keep_text_def split: option.split)

lemma before_llm_no_tool:
  assumes "keeps_no_tool te" and "no_tool (ag_messages a)" and "before_llm te a t = (a', t')"
  shows "no_tool (ag_messages a')"
proof -
  obtain a1 t1 where r: "phase_resolve_user_text te a t = (a1, t1)" by fastforce
  have 1: "no_tool (ag_messages a1)"
    using assms(2) r by (auto simp: phase_resolve_user_text_def Let_def split: if_splits)
  obtain a2 t2 where m: "phase_maybe_compact te (phase_enrich_user_text te a1 t1) t1 = (a2, t2)" by fastforce
  have 2: "no_tool (ag_messages a2)"
    using 1 m assms(1) by (auto simp: phase_maybe_compact_def phase_enrich_user_text_def keeps_no_tool_def split: option.splits)
  show ?thesis using assms(3) r m 2
    by (auto simp: before_llm_def inject_budget_nudges_def Let_def split: option.split)
qed

lemma process_tools_no_tool:
  assumes "keeps_no_tool te" and "no_tool (ag_messages a)" and "process_tools te r a ts = (st, a', ts')"
  shows "no_tool (ag_messages a')"
  using assms(2,3) assms(1) interrupt_same[of te a]
  by (fastforce simp: process_tools_def keeps_no_tool_def same_history_def split: prod.splits bool.splits)

lemma text_no_tool:
  assumes "no_tool (ag_messages a)" and "dispatch_text_response te r a t = (a', t')"
  shows "no_tool (ag_messages a')"
  using assms
  by (auto simp: dispatch_text_response_def Let_def truncation_step_def stop_hook_step_def budget_step_def
      split: option.splits if_splits)

lemma dispatch_no_tool:
  assumes "keeps_no_tool te" and "no_tool (ag_messages a)" and "phase_dispatch te r a t ts = (a', t', ts')"
  shows "no_tool (ag_messages a')"
proof (cases "lr_tool_calls r = []")
  case True
  then show ?thesis using assms(3) text_no_tool[OF assms(2)] by (auto simp: phase_dispatch_def split: prod.splits)
next
  case False
  then show ?thesis using assms(3) process_tools_no_tool[OF assms(1,2)]
    by (auto simp: phase_dispatch_def dispatch_tool_response_def split: prod.splits)
qed

definition blind_from :: "llm_request list \<Rightarrow> 't turn \<Rightarrow> bool" where
  "blind_from trace x \<longleftrightarrow> no_tool (ag_messages (tn_agent x)) \<and>
     (\<exists>qs. tn_trace x = trace @ qs \<and> list_all (\<lambda>q. no_tool (rq_messages q)) qs)"

fun turn_of :: "'a progress \<Rightarrow> 'a" where
  "turn_of (Goes_On x) = x"
| "turn_of (Ends x) = x"
| "turn_of (Crashes x) = x"

lemma iteration_blind:
  assumes "keeps_no_tool te" and "blind_from trace x"
  shows "blind_from trace (turn_of (turn_iteration te x))"
proof -
  define t0 where "t0 = (tn_state x)\<lparr>ts_iteration := Suc (ts_iteration (tn_state x))\<rparr>"
  obtain b a where p: "interrupt_check te (tn_agent x) = (b, a)" by fastforce
  have a: "no_tool (ag_messages a)" using assms(2) interrupt_same[OF p] by (simp add: blind_from_def same_history_def)
  obtain a1 t1 where l: "before_llm te a t0 = (a1, t1)" by fastforce
  note a1 = before_llm_no_tool[OF assms(1) a l]
  obtain out a2 tr2 where c: "agent_call_llm te a1 (tn_trace x) = (out, a2, tr2)" by (metis prod_cases3)
  from agent_call_frame[OF c] obtain qs where
    qs: "same_history a1 a2" "tr2 = tn_trace x @ qs" "list_all (\<lambda>q. rq_messages q = prepare_messages_for_api a1) qs"
    by (auto simp: list_all_iff)
  have a2: "no_tool (ag_messages a2)" using qs(1) a1 by (simp add: same_history_def)
  have new: "list_all (\<lambda>q. no_tool (rq_messages q)) qs"
    using qs(3) a1 by (auto simp: list_all_iff prepare_no_tool)
  obtain ps where ps: "tn_trace x = trace @ ps" "list_all (\<lambda>q. no_tool (rq_messages q)) ps"
    using assms(2) by (auto simp: blind_from_def)
  have blind: "blind_from trace y" if "no_tool (ag_messages (tn_agent y))" "tn_trace y = tr2" for y :: "'a turn"
    using that new ps qs(2) by (auto simp: blind_from_def intro!: exI[of _ "ps @ qs"])
  show ?thesis
  proof (cases b)
    case True
    then show ?thesis using a ps by (auto simp: turn_iteration_def Let_def p t0_def[symmetric] blind_from_def)
  next
    case False
    show ?thesis
    proof (cases out)
      case (Got r)
      obtain a3 t3 ts where d: "phase_dispatch te r a2 t1 (tn_tools x) = (a3, t3, ts)" by (metis prod_cases3)
      have "blind_from trace \<lparr>tn_agent = a3, tn_state = t3, tn_tools = ts, tn_trace = tr2\<rparr>"
        using dispatch_no_tool[OF assms(1) a2 d] by (intro blind) simp_all
      then show ?thesis using False Got by (simp add: turn_iteration_def Let_def p t0_def[symmetric] l c d after_dispatch_def)
    qed (use False a2 in \<open>auto simp: turn_iteration_def Let_def p t0_def[symmetric] l c intro!: blind\<close>)
  qed
qed

lemma loop_blind:
  assumes "keeps_no_tool te" and "blind_from trace x" and "turn_loop te n x = Some (b, y)"
  shows "blind_from trace y"
  using assms(2,3)
proof (induction n arbitrary: x)
  case (Suc n)
  note i = iteration_blind[OF assms(1) Suc.prems(1)]
  show ?case
  proof (cases "turn_iteration te x")
    case (Goes_On z)
    then show ?thesis using Suc.IH[of z] Suc.prems(2) i by simp
  qed (use Suc.prems(2) i in auto)
qed simp

definition turn_reached :: "'a turn_outcome \<Rightarrow> 'a option" where
  "turn_reached out = (case out of Unfinished \<Rightarrow> None | Crashed x \<Rightarrow> Some x | Finished_Turn res x \<Rightarrow> Some x)"

lemma start_turn_simps [simp]:
  "ag_messages (tn_agent (start_turn te u e a ts tr)) = ag_messages a" "tn_trace (start_turn te u e a ts tr) = tr"
  "ts_status (tn_state (start_turn te u e a ts tr)) = Status_Running" "ts_iteration (tn_state (start_turn te u e a ts tr)) = 0"
  "ag_interrupted (tn_agent (start_turn te u e a ts tr)) = False"
  by (simp_all add: start_turn_def phase_init_def init_turn_state_def Let_def split: prod.split)

text \<open>
  The model never sees the result of a tool: no request of a turn holds a tool message, when the history held none
  and neither the compaction nor the plugins add one, whatever tools were called and whatever the batch appended.
\<close>

theorem tool_results_never_sent:
  assumes "keeps_no_tool te" and "no_tool (ag_messages a)"
    and "turn_reached (run_turn te fuel user ephemeral a tools trace) = Some x"
  shows "no_tool (ag_messages (tn_agent x))
    \<and> (\<exists>qs. tn_trace x = trace @ qs \<and> list_all (\<lambda>q. no_tool (rq_messages q)) qs)"
proof -
  have "blind_from trace (start_turn te user ephemeral a tools trace)" using assms(2) by (simp add: blind_from_def)
  note b = loop_blind[OF assms(1) this]
  show ?thesis
  proof (cases "turn_loop te fuel (start_turn te user ephemeral a tools trace)")
    case None
    then show ?thesis using assms(3) by (simp add: run_turn_def turn_reached_def)
  next
    case (Some p)
    then obtain ok y where y: "p = (ok, y)" by fastforce
    have "blind_from trace y" using b Some y by blast
    then show ?thesis using assms(3) Some y
      by (auto simp: run_turn_def turn_reached_def blind_from_def phase_finalize_def Let_def split: bool.splits)
  qed
qed

section \<open>A turn that is not bounded\<close>

text \<open>
  A quiet environment: nobody interrupts, no hook or plugin ends the turn, and no tool asks the
  user anything.
\<close>

definition quiet :: "'t turn_env \<Rightarrow> bool" where
  "quiet te \<longleftrightarrow> (\<forall>n. \<not> te_signal te n) \<and> (\<forall>i t. \<not> te_stop_hook te i t) \<and> (\<forall>i r. te_should_continue te i r)
     \<and> te_direct_replies te = [] \<and> (\<forall>tools. nonempty (te_stuck te tools) = None)
     \<and> (\<forall>r ms tools. nonempty (bs_waiting (fst (te_process te r ms tools))) = None
          \<and> nonempty (bs_clarification (fst (te_process te r ms tools))) = None)"

text \<open>The model answers the request after this trace with a response that, sanitised, is accepted and fulfils \<open>P\<close>.\<close>

definition answered :: "'t turn_env \<Rightarrow> (llm_response \<Rightarrow> bool) \<Rightarrow> llm_request list \<Rightarrow> bool" where
  "answered te P trace \<longleftrightarrow> \<not> ll_debug (te_lib te) \<and> (\<forall>q. \<exists>raw. te_ask te trace q = Answered raw
     \<and> \<not> needs_empty_content_retry (te_lib te) (sanitize_response (te_lib te) raw) \<and> P (sanitize_response (te_lib te) raw))"

definition calls_tools :: "llm_response \<Rightarrow> bool" where
  "calls_tools r \<longleftrightarrow> lr_tool_calls r \<noteq> []"

definition always_calls :: "'t turn_env \<Rightarrow> bool" where
  "always_calls te \<longleftrightarrow> \<not> ll_debug (te_lib te) \<and> (\<forall>trace q. \<exists>raw. te_ask te trace q = Answered raw \<and> calls_tools raw)"

lemma normalize_nonempty: "tcs \<noteq> [] \<Longrightarrow> normalize_tool_calls lib tcs \<noteq> []"
  by (cases tcs) (auto simp: normalize_tool_calls_def Let_def max_concurrent_delegates_def)

lemma quiet_poll:
  assumes "quiet te" and "\<not> ag_interrupted a"
  shows "interrupt_check te a = (False, a\<lparr>ag_polls := Suc (ag_polls a), ag_interrupted := False\<rparr>)"
  using assms by (simp add: quiet_def interrupt_check_def Let_def)

lemma agent_hooks_simps:
  "ch_ask (agent_hooks te) = te_ask te" "ch_interrupt (agent_hooks te) = interrupt_check te"
  "ch_prepare (agent_hooks te) w ms = Some (prepare_messages_for_api w)"
  by (simp_all add: agent_hooks_def)

lemma calls_sanitized: "calls_tools raw \<Longrightarrow> calls_tools (sanitize_response lib raw) \<and> \<not> needs_empty_content_retry lib (sanitize_response lib raw)"
  using normalize_nonempty[of "lr_tool_calls raw" lib]
  by (simp add: calls_tools_def sanitize_response_def needs_empty_content_retry_def)

lemma always_answered: "always_calls te \<Longrightarrow> answered te calls_tools trace"
  unfolding always_calls_def answered_def using calls_sanitized by blast

lemma quiet_attempt:
  assumes "quiet te" and "answered te P (rs_trace st)" and "\<not> ag_interrupted (rs_owner st)"
  shows "\<exists>r st' q. attempt_call (te_lib te) cfg (agent_hooks te) client n st = (Some (Returned (Some r) False), st')
    \<and> P r \<and> \<not> ag_interrupted (rs_owner st') \<and> rs_trace st' = rs_trace st @ [q]"
proof -
  define st1 where "st1 = st\<lparr>rs_owner := (rs_owner st)\<lparr>ag_polls := Suc (ag_polls (rs_owner st)), ag_interrupted := False\<rparr>\<rparr>"
  have p: "poll_interrupt (agent_hooks te) st = (False, st1)"
    using quiet_poll[OF assms(1,3)] by (simp add: poll_interrupt_def agent_hooks_simps st1_def)
  have t: "rs_trace st1 = rs_trace st" by (simp add: st1_def)
  obtain raw where raw: "te_ask te (rs_trace st) (request_of client st1) = Answered raw"
    "\<not> needs_empty_content_retry (te_lib te) (sanitize_response (te_lib te) raw)" "P (sanitize_response (te_lib te) raw)"
    using assms(2) unfolding answered_def by blast
  have "\<not> ll_debug (te_lib te)" using assms(2) by (simp add: answered_def)
  then have "attempt_call (te_lib te) cfg (agent_hooks te) client n st
      = (Some (Returned (Some (sanitize_response (te_lib te) raw)) False), st1\<lparr>rs_trace := rs_trace st @ [request_of client st1]\<rparr>)"
    using raw(1,2)
    by (simp add: attempt_call_def p send_request_def t process_llm_response_def safe_call_def agent_hooks_simps Let_def)
  then show ?thesis using raw(3) by (simp add: st1_def)
qed

lemma quiet_call:
  assumes "quiet te" and "answered te P trace" and "0 < max_retries (ag_config a)" and "\<not> ag_interrupted a"
  shows "\<exists>r a' q. agent_call_llm te a trace = (Got r, a', trace @ [q]) \<and> P r \<and> \<not> ag_interrupted a'"
proof -
  define a1 where "a1 = a\<lparr>ag_polls := Suc (ag_polls a), ag_interrupted := False\<rparr>"
  have p: "interrupt_check te a = (False, a1)" using quiet_poll[OF assms(1,4)] by (simp add: a1_def)
  have "[0..<effective_retries (ag_config a1)] = 0 # [1..<effective_retries (ag_config a1)]"
    using assms(3) by (simp add: effective_retries_def upt_conv_Cons a1_def)
  moreover have "safe_call (te_lib te) z = None" for z :: "string option"
    using assms(2) by (simp add: safe_call_def answered_def)
  ultimately have run: "call_llm_with_retry (te_lib te) (ag_config a1) (agent_hooks te) (fb_client (ag_fb a1)) (turn_tools_of a1)
       (prepare_messages_for_api a) (ag_empty_retries a1) a1 trace
     = retry_loop (te_lib te) (ag_config a1) (agent_hooks te) (fb_client (ag_fb a1)) (0 # [1..<effective_retries (ag_config a1)])
         (start_call a1 (prepare_messages_for_api a) (prepare_messages_for_api a1)
            (prepare_tools_for_llm (te_lib te) (turn_tools_of a1)) (ag_empty_retries a1) trace)"
    by (simp add: call_llm_with_retry_def agent_hooks_simps run_llm_with_retry_loop_def Let_def)
  have "\<not> ag_interrupted a1" by (simp add: a1_def)
  then obtain r st' q where
    "attempt_call (te_lib te) (ag_config a1) (agent_hooks te) (fb_client (ag_fb a1)) 0
         (start_call a1 (prepare_messages_for_api a) (prepare_messages_for_api a1)
            (prepare_tools_for_llm (te_lib te) (turn_tools_of a1)) (ag_empty_retries a1) trace)
       = (Some (Returned (Some r) False), st')"
    "P r" "\<not> ag_interrupted (rs_owner st')" "rs_trace st' = trace @ [q]"
    using quiet_attempt[OF assms(1), of P] assms(2) by (metis start_call_simps(1,3))
  then show ?thesis by (simp add: agent_call_llm_def p run Let_def)
qed

lemma inject_frame:
  "ag_interrupted (inject_budget_nudges te t a) = ag_interrupted a" "ag_config (inject_budget_nudges te t a) = ag_config a"
  by (auto simp: inject_budget_nudges_def Let_def split: option.split)

lemma before_llm_frame:
  assumes "before_llm te a t = (a', t')"
  shows "ag_interrupted a' = ag_interrupted a \<and> ag_config a' = ag_config a \<and> ts_status t' = ts_status t \<and> ts_iteration t' = ts_iteration t
    \<and> ts_budget t' = ts_budget t"
  using assms
  by (auto simp: before_llm_def phase_resolve_user_text_def phase_maybe_compact_def phase_enrich_user_text_def Let_def inject_frame
      split: option.splits if_splits)

lemma quiet_dispatch:
  assumes "quiet te" and "\<not> ag_interrupted a" and "lr_tool_calls r \<noteq> []"
  shows "\<exists>a' tools' st. phase_dispatch te r a t tools = (a', t\<lparr>ts_transition := Tool_Batch_Continue\<rparr>, tools')
    \<and> \<not> ag_interrupted a' \<and> ag_config a' = ag_config a \<and> ag_system_prompt a' = ag_system_prompt a
    \<and> ag_messages a' = te_after_tools te st (ag_messages a)"
proof -
  note p = quiet_poll[OF assms(1,2)]
  define a1 where "a1 = a\<lparr>ag_polls := Suc (ag_polls a), ag_interrupted := False\<rparr>"
  obtain st out tools1 where pr: "te_process te r (prepare_messages_for_api a1) tools = (st, out, tools1)" by (metis prod_cases3)
  have q: "nonempty (bs_waiting st) = None" "nonempty (bs_clarification st) = None"
    using assms(1) pr unfolding quiet_def by (metis fst_conv)+
  have "nonempty (te_stuck te tools1) = None" "te_should_continue te (ts_iteration t) r" "te_direct_replies te = []"
    using assms(1) by (simp_all add: quiet_def)
  then show ?thesis
    using assms(3) pr q
    by (simp add: phase_dispatch_def dispatch_tool_response_def process_tools_def p a1_def[symmetric])
       (auto simp: a1_def)
qed

definition running :: "'t turn \<Rightarrow> bool" where
  "running x \<longleftrightarrow> ts_status (tn_state x) = Status_Running \<and> \<not> ag_interrupted (tn_agent x) \<and> 0 < max_retries (ag_config (tn_agent x))"

lemma quiet_iteration:
  assumes "quiet te" and "answered te calls_tools (tn_trace x)" and "running x"
  shows "\<exists>y. turn_iteration te x = Goes_On y \<and> running y \<and> ts_iteration (tn_state y) = Suc (ts_iteration (tn_state x))
    \<and> length (tn_trace y) = Suc (length (tn_trace x)) \<and> ts_budget (tn_state y) = ts_budget (tn_state x)"
proof -
  have run: "ts_status (tn_state x) = Status_Running" "\<not> ag_interrupted (tn_agent x)" "0 < max_retries (ag_config (tn_agent x))"
    using assms(3) by (simp_all add: running_def)
  define t0 where "t0 = (tn_state x)\<lparr>ts_iteration := Suc (ts_iteration (tn_state x))\<rparr>"
  define a where "a = (tn_agent x)\<lparr>ag_polls := Suc (ag_polls (tn_agent x)), ag_interrupted := False\<rparr>"
  have p: "interrupt_check te (tn_agent x) = (False, a)" using quiet_poll[OF assms(1) run(2)] by (simp add: a_def)
  obtain a1 t1 where l: "before_llm te a t0 = (a1, t1)" by fastforce
  note lf = before_llm_frame[OF l]
  have a1: "0 < max_retries (ag_config a1)" "\<not> ag_interrupted a1" using lf run by (simp_all add: a_def)
  obtain r a2 q where c: "agent_call_llm te a1 (tn_trace x) = (Got r, a2, tn_trace x @ [q])"
    and r: "lr_tool_calls r \<noteq> []" "\<not> ag_interrupted a2"
    using quiet_call[OF assms(1,2) a1] unfolding calls_tools_def by blast
  have a2: "ag_config a2 = ag_config a1" using agent_call_frame[OF c] by (simp add: same_history_def)
  obtain a3 tools3 where d: "phase_dispatch te r a2 t1 (tn_tools x) = (a3, t1\<lparr>ts_transition := Tool_Batch_Continue\<rparr>, tools3)"
    and a3: "\<not> ag_interrupted a3" "ag_config a3 = ag_config a2"
    using quiet_dispatch[OF assms(1) r(2,1)] by blast
  have "turn_iteration te x = Goes_On \<lparr>tn_agent = a3, tn_state = t1\<lparr>ts_transition := Tool_Batch_Continue\<rparr>, tn_tools = tools3,
      tn_trace = tn_trace x @ [q]\<rparr>"
    using lf run(1) assms(1)
    by (simp add: turn_iteration_def Let_def p t0_def[symmetric] l c d after_dispatch_def quiet_def)
      (simp add: t0_def)
  then show ?thesis using lf a1(1) a2 a3 run(1) by (simp add: running_def t0_def)
qed

lemma quiet_loop:
  assumes "quiet te" and "always_calls te" and "running x"
  shows "turn_loop te n x = None"
  using assms(3)
proof (induction n arbitrary: x)
  case (Suc n)
  then show ?case using quiet_iteration[OF assms(1) always_answered[OF assms(2)] Suc.prems] by auto
qed simp

lemma quiet_after:
  assumes "quiet te" and "always_calls te" and "running x"
  shows "\<exists>y. turn_after te n x = Some y \<and> running y \<and> ts_iteration (tn_state y) = ts_iteration (tn_state x) + n
    \<and> length (tn_trace y) = length (tn_trace x) + n"
proof (induction n)
  case (Suc n)
  then obtain y where y: "turn_after te n x = Some y" "running y" "ts_iteration (tn_state y) = ts_iteration (tn_state x) + n"
    "length (tn_trace y) = length (tn_trace x) + n" by blast
  then show ?case using quiet_iteration[OF assms(1) always_answered[OF assms(2)] y(2)] by auto
qed (use assms(3) in simp)

lemma start_retries: "max_retries (ag_config (tn_agent (start_turn te u e a ts tr))) = max_retries (ag_config a)"
  by (simp add: start_turn_def phase_init_def init_turn_state_def resolve_turn_budget_def Let_def split: prod.split option.split)

text \<open>
  \<open>max_iterations\<close> bounds nothing: with a model that answers every request with a tool call, in a quiet
  environment, no number of iterations ends the turn, whatever the settings; after \<open>n\<close> of them the model
  has been asked \<open>n\<close> times.
\<close>

theorem turn_never_ends:
  assumes "quiet te" and "always_calls te" and "0 < max_retries (ag_config a)"
  shows "run_turn te n user ephemeral a tools trace = Unfinished
    \<and> (\<exists>y. turn_after te n (start_turn te user ephemeral a tools trace) = Some y
         \<and> ts_iteration (tn_state y) = n \<and> length (tn_trace y) = length trace + n)"
proof -
  have "running (start_turn te user ephemeral a tools trace)"
    using assms(3) by (simp add: running_def start_retries)
  then show ?thesis
    using quiet_loop[OF assms(1,2)] quiet_after[OF assms(1,2)] by (fastforce simp: run_turn_def)
qed

section \<open>What the result of a turn means\<close>

lemma before_llm_text:
  assumes "before_llm te a t = (a', t')"
  shows "ts_text t' = ts_text t"
  using assms
  by (auto simp: before_llm_def phase_resolve_user_text_def phase_maybe_compact_def Let_def split: option.splits if_splits)

definition open_turn :: "turn_state \<Rightarrow> bool" where
  "open_turn t \<longleftrightarrow> ts_status t = Status_Running \<and> ts_text t = None"

fun reasons_of :: "loop_status \<Rightarrow> transition set" where
  "reasons_of Status_Completed = {Turn_Completed, Should_Continue_False}"
| "reasons_of Status_Error = {Llm_Error, Reactive_Compact_Retry}"
| "reasons_of Status_Interrupted = {Turn_Interrupted}"
| "reasons_of Status_Waiting_Confirmation = {Wait_For_Confirmation}"
| "reasons_of Status_Stuck = {Loop_Stuck}"
| "reasons_of Status_Tool_Limit = {Tool_Limit_Reached}"
| "reasons_of Status_Running = {}"

definition settled :: "'t turn_env \<Rightarrow> turn_state \<Rightarrow> bool" where
  "settled te t \<longleftrightarrow>
     (ts_status t = Status_Running \<longrightarrow> ts_text t = None \<and> te_stop_hook te (ts_iteration t) '''')
   \<and> (ts_status t \<noteq> Status_Running \<longrightarrow> ts_transition t \<in> reasons_of (ts_status t))
   \<and> (ts_status t = Status_Completed \<longrightarrow> ts_transition t = Turn_Completed \<longrightarrow>
        \<not> te_stop_hook te (ts_iteration t) (opt_str (ts_text t)))
   \<and> (ts_status t \<in> {Status_Error, Status_Interrupted} \<longrightarrow> ts_text t = None)
   \<and> (ts_status t \<in> {Status_Waiting_Confirmation, Status_Stuck} \<longrightarrow> opt_str (ts_text t) \<noteq> '''')
   \<and> ts_status t \<noteq> Status_Tool_Limit"

lemma nonempty_opt: "nonempty x = Some s \<Longrightarrow> s \<noteq> ''''"
  by (auto simp: nonempty_def split: if_splits)

definition dispatched :: "'t turn_env \<Rightarrow> nat \<Rightarrow> turn_state \<Rightarrow> bool" where
  "dispatched te i t \<longleftrightarrow> ts_iteration t = i \<and> (open_turn t \<or> ts_status t \<noteq> Status_Running \<and> settled te t)"

lemma text_dispatched:
  assumes "open_turn t" and "dispatch_text_response te r a t = (a', t')"
  shows "dispatched te (ts_iteration t) t'"
  using assms
  by (auto simp: dispatch_text_response_def dispatched_def open_turn_def settled_def Let_def truncation_step_def
      stop_hook_step_def budget_step_def split: if_splits option.splits)

lemma tools_dispatched:
  assumes "open_turn t" and "dispatch_tool_response te r a t tools = (a', t', tools')"
  shows "dispatched te (ts_iteration t) t'"
  using assms
  by (auto simp: dispatch_tool_response_def dispatched_def open_turn_def settled_def end_with_def opt_str_def
      split: if_splits option.splits prod.splits dest: nonempty_opt)

lemma phase_dispatched:
  assumes "open_turn t" and "phase_dispatch te r a t tools = (a', t', tools')"
  shows "dispatched te (ts_iteration t) t'"
  using assms text_dispatched tools_dispatched by (fastforce simp: phase_dispatch_def split: if_splits prod.splits)

definition stepped :: "'t turn_env \<Rightarrow> nat \<Rightarrow> 't turn progress \<Rightarrow> bool" where
  "stepped te i p = (case p of
       Goes_On y \<Rightarrow> open_turn (tn_state y) \<and> ts_iteration (tn_state y) = i
     | Ends y \<Rightarrow> settled te (tn_state y) \<and> ts_iteration (tn_state y) = i
     | Crashes y \<Rightarrow> True)"

lemma iteration_stepped:
  assumes "open_turn (tn_state x)"
  shows "stepped te (Suc (ts_iteration (tn_state x))) (turn_iteration te x)"
proof -
  define t0 where "t0 = (tn_state x)\<lparr>ts_iteration := Suc (ts_iteration (tn_state x))\<rparr>"
  obtain b a where p: "interrupt_check te (tn_agent x) = (b, a)" by fastforce
  obtain a1 t1 where l: "before_llm te a t0 = (a1, t1)" by fastforce
  have t1: "open_turn t1" "ts_iteration t1 = Suc (ts_iteration (tn_state x))"
    using before_llm_frame[OF l] before_llm_text[OF l] assms by (simp_all add: open_turn_def t0_def)
  obtain out a2 tr2 where c: "agent_call_llm te a1 (tn_trace x) = (out, a2, tr2)" by (metis prod_cases3)
  show ?thesis
  proof (cases b)
    case True
    then show ?thesis using assms
      by (simp add: turn_iteration_def Let_def p t0_def[symmetric] stepped_def settled_def) (simp add: t0_def open_turn_def)
  next
    case False
    show ?thesis
    proof (cases out)
      case (Got r)
      obtain a3 t3 tools3 where d: "phase_dispatch te r a2 t1 (tn_tools x) = (a3, t3, tools3)" by (metis prod_cases3)
      have "dispatched te (ts_iteration t1) t3" using phase_dispatched[OF t1(1) d] .
      then show ?thesis using False Got t1(2)
        by (auto simp: turn_iteration_def Let_def p t0_def[symmetric] l c d after_dispatch_def stepped_def dispatched_def
            open_turn_def settled_def opt_str_def)
    qed (use False t1 in \<open>auto simp: turn_iteration_def Let_def p t0_def[symmetric] l c stepped_def settled_def mark_no_response_def open_turn_def\<close>)
  qed
qed

lemma loop_settled:
  assumes "open_turn (tn_state x)" and "turn_loop te n x = Some (True, y)"
  shows "settled te (tn_state y) \<and> ts_iteration (tn_state x) < ts_iteration (tn_state y)
    \<and> ts_iteration (tn_state y) \<le> ts_iteration (tn_state x) + n"
  using assms
proof (induction n arbitrary: x)
  case (Suc n)
  note s = iteration_stepped[OF Suc.prems(1), of te]
  show ?case
  proof (cases "turn_iteration te x")
    case (Goes_On z)
    then show ?thesis using Suc.IH[of z] Suc.prems(2) s by (auto simp: stepped_def)
  qed (use Suc.prems(2) s in \<open>auto simp: stepped_def\<close>)
qed simp

lemma start_text: "ts_text (tn_state (start_turn te u e a ts tr)) = None"
  by (simp add: start_turn_def phase_init_def Let_def split: prod.split)

lemma keep_text_frame:
  "ag_messages (keep_text t a) = ag_messages a @ (case nonempty (ts_text t) of Some s \<Rightarrow> [assistant_msg s (ts_reasoning t)] | None \<Rightarrow> [])"
  by (simp add: keep_text_def split: option.split)

text \<open>
  C4: The result of a turn that ends: it is not running, its transition is one its status allows, and it ran between
  one iteration and as many as the fuel.  A turn that completed because the model answered shows a text the stop
  hooks let pass; one that failed or was interrupted shows none; one that waits or is stuck says why.  The
  messages are those of the loop, and a text that is shown is the last of them, by the assistant.
\<close>

theorem turn_result_sound:
  assumes "run_turn te fuel user ephemeral a tools trace = Finished_Turn res x"
  shows "lp_status res \<noteq> Status_Running \<and> lp_transition res \<in> reasons_of (lp_status res)
    \<and> 1 \<le> lp_iterations res \<and> lp_iterations res \<le> fuel
    \<and> (lp_status res = Status_Completed \<and> lp_transition res = Turn_Completed \<longrightarrow>
         \<not> te_stop_hook te (lp_iterations res) (opt_str (lp_final res)))
    \<and> (lp_status res \<in> {Status_Error, Status_Interrupted} \<longrightarrow> lp_final res = None)
    \<and> (lp_status res \<in> {Status_Waiting_Confirmation, Status_Stuck} \<longrightarrow> opt_str (lp_final res) \<noteq> '''')
    \<and> lp_messages res = ag_messages (tn_agent x)
    \<and> (opt_str (lp_final res) \<noteq> '''' \<longrightarrow>
         last (lp_messages res) = assistant_msg (opt_str (lp_final res)) (lp_reasoning res))"
proof -
  let ?x = "start_turn te user ephemeral a tools trace"
  obtain y where y: "turn_loop te fuel ?x = Some (True, y)"
    using assms by (auto simp: run_turn_def split: option.splits bool.splits prod.splits)
  have "open_turn (tn_state ?x)" by (simp add: open_turn_def start_text)
  from loop_settled[OF this y] have s: "settled te (tn_state y)" "1 \<le> ts_iteration (tn_state y)" "ts_iteration (tn_state y) \<le> fuel"
    by auto
  show ?thesis
    using assms y s
    by (auto simp: run_turn_def phase_finalize_def settled_def Let_def keep_text_frame opt_str_def nonempty_def
        split: option.splits if_splits)
qed

section \<open>Concrete turns\<close>

text \<open>
  An environment for the examples: no compaction, no plugins, a batch that answers every call with a tool message, and
  the model and the stop hooks as given.
\<close>

definition demo_env :: "(nat \<Rightarrow> llm_response) \<Rightarrow> (nat \<Rightarrow> string \<Rightarrow> bool) \<Rightarrow> unit turn_env" where
  "demo_env answers stop = \<lparr>te_lib = plain_lib, te_ask = (\<lambda>tr q. Answered (answers (length tr))), te_signal = (\<lambda>n. False),
     te_create = (\<lambda>e. None), te_compress = (\<lambda>ms. None), te_budget_settings = default_turn_budget, te_parse_budget = (\<lambda>t. None),
     te_strip_markers = (\<lambda>t. t), te_enrich = (\<lambda>t. t), te_reminder = (\<lambda>t. t), te_select = (\<lambda>t ts. ts),
     te_compact = (\<lambda>i ms. None), te_warn_ratio = None,
     te_process = (\<lambda>r ms u. (\<lparr>bs_started = length (lr_tool_calls r), bs_clarification = None, bs_waiting = None\<rparr>,
        [chat_msg ''tool'' ''2 files''], u)),
     te_after_tools = (\<lambda>st ms. ms), te_direct_replies = [], te_stuck = (\<lambda>u. None), te_should_continue = (\<lambda>i r. True),
     te_correct = (\<lambda>u t ms. None), te_ground = (\<lambda>u t. t), te_stop_hook = stop, te_reset_tools = (\<lambda>u. u)\<rparr>"

definition demo_agent :: agent where
  "demo_agent = \<lparr>ag_fb = \<lparr>fb_client = plain_client, fb_chain = [], fb_index = 0\<rparr>, ag_system_prompt = ''sys'', ag_ephemeral = None,
     ag_tools = [], ag_turn_tools = None, ag_messages = [], ag_interrupted = False, ag_polls = 0, ag_total_tokens = 0,
     ag_tool_calls = 0, ag_empty_retries = 0, ag_truncation_retries = 0, ag_config = default_loop_config,
     ag_nudged_iterations = False, ag_nudged_tokens = False, ag_reactive = False\<rparr>"

definition list_call :: llm_response where
  "list_call = \<lparr>lr_content = None, lr_tool_calls = [\<lparr>ct_id = Some ''c1'', ct_name = ''list_directory'', ct_arguments = ''{}''\<rparr>],
     lr_finish_reason = ''tool_calls'', lr_reasoning = None\<rparr>"

definition call_then_hello :: "nat \<Rightarrow> llm_response" where
  "call_then_hello n = (if n = 0 then list_call else hello)"

definition demo_turn :: "(nat \<Rightarrow> llm_response) \<Rightarrow> (nat \<Rightarrow> string \<Rightarrow> bool) \<Rightarrow> nat \<Rightarrow> unit turn turn_outcome" where
  "demo_turn answers stop fuel = run_turn (demo_env answers stop) fuel ''list files'' None demo_agent () []"

definition demo_requests :: "unit turn turn_outcome \<Rightarrow> msg list list" where
  "demo_requests out = (case turn_reached out of Some x \<Rightarrow> map rq_messages (tn_trace x) | None \<Rightarrow> [])"

definition demo_result :: "unit turn turn_outcome \<Rightarrow> (loop_status \<times> string option \<times> nat \<times> nat \<times> msg list) option" where
  "demo_result out = (case out of
       Finished_Turn res x \<Rightarrow> Some (lp_status res, lp_final res, lp_iterations res, lp_tool_calls res, lp_messages res)
     | _ \<Rightarrow> None)"

text \<open>
  A turn with one tool call, step by step: the second request repeats the message of the user and the system prompt, and holds
  neither the call nor its result.
\<close>

theorem turn_with_a_tool_call:
  "demo_requests (demo_turn call_then_hello (\<lambda>i t. False) 5) =
     [[chat_msg ''system'' ''sys'', chat_msg ''system'' ''sys'', chat_msg ''user'' ''list files''],
      [chat_msg ''system'' ''sys'', chat_msg ''system'' ''sys'', chat_msg ''user'' ''list files'', chat_msg ''user'' ''list files'']]
   \<and> demo_result (demo_turn call_then_hello (\<lambda>i t. False) 5) = Some (Status_Completed, Some ''hello'', 2, 1,
      [chat_msg ''system'' ''sys'', chat_msg ''user'' ''list files'', chat_msg ''user'' ''list files'',
       chat_msg ''assistant'' ''hello''])"
  by code_simp

text \<open>
  A stop hook that blocks makes the turn end after one request: its answer is neither kept nor shown,
  and the status is that of a limit of tools although no tool was called.
\<close>

theorem blocked_answer_is_lost:
  "demo_result (demo_turn (\<lambda>n. hello) (\<lambda>i t. True) 5) =
     Some (Status_Tool_Limit, None, 1, 0, [chat_msg ''system'' ''sys'', chat_msg ''user'' ''list files''])"
  by code_simp

lemma demo_quiet: "quiet (demo_env answers (\<lambda>i t. False))"
  by (simp add: quiet_def demo_env_def nonempty_def)

lemma demo_keeps: "keeps_no_tool (demo_env answers stop)"
  by (simp add: keeps_no_tool_def demo_env_def)

lemma turn_never_ends_witness:
  "run_turn (demo_env (\<lambda>n. list_call) (\<lambda>i t. False)) 200 ''list files'' None demo_agent () [] = Unfinished
    \<and> (\<exists>y. turn_after (demo_env (\<lambda>n. list_call) (\<lambda>i t. False)) 200
             (start_turn (demo_env (\<lambda>n. list_call) (\<lambda>i t. False)) ''list files'' None demo_agent () []) = Some y
         \<and> ts_iteration (tn_state y) = 200 \<and> length (tn_trace y) = length ([] :: llm_request list) + 200)"
proof (rule turn_never_ends)
  show "quiet (demo_env (\<lambda>n. list_call) (\<lambda>i t. False))" by (rule demo_quiet)
  show "always_calls (demo_env (\<lambda>n. list_call) (\<lambda>i t. False))"
    by (simp add: always_calls_def calls_tools_def demo_env_def plain_lib_def list_call_def)
  show "0 < max_retries (ag_config demo_agent)" by (simp add: demo_agent_def default_loop_config_def)
qed

lemma tool_results_never_sent_witness:
  "no_tool (ag_messages (tn_agent (the (turn_reached (demo_turn call_then_hello (\<lambda>i t. False) 5)))))
    \<and> (\<exists>qs. tn_trace (the (turn_reached (demo_turn call_then_hello (\<lambda>i t. False) 5))) = [] @ qs
          \<and> list_all (\<lambda>q. no_tool (rq_messages q)) qs)"
proof (rule tool_results_never_sent)
  show "keeps_no_tool (demo_env call_then_hello (\<lambda>i t. False))" by (rule demo_keeps)
  show "no_tool (ag_messages demo_agent)" by (simp add: demo_agent_def)
  have "\<not> Option.is_none (turn_reached (demo_turn call_then_hello (\<lambda>i t. False) 5))" by code_simp
  then show "turn_reached (run_turn (demo_env call_then_hello (\<lambda>i t. False)) 5 ''list files'' None demo_agent () [])
      = Some (the (turn_reached (demo_turn call_then_hello (\<lambda>i t. False) 5)))"
    by (cases "turn_reached (demo_turn call_then_hello (\<lambda>i t. False) 5)") (simp_all add: demo_turn_def)
qed

definition finished_of :: "'a turn_outcome \<Rightarrow> (loop_result \<times> 'a) option" where
  "finished_of out = (case out of Finished_Turn res x \<Rightarrow> Some (res, x) | _ \<Rightarrow> None)"

definition demo_finished :: "loop_result \<times> unit turn" where
  "demo_finished = the (finished_of (demo_turn call_then_hello (\<lambda>i t. False) 5))"

lemma turn_result_sound_witness:
  "lp_status (fst demo_finished) \<noteq> Status_Running \<and> lp_status (fst demo_finished) = Status_Completed
    \<and> last (lp_messages (fst demo_finished)) = assistant_msg ''hello'' None"
proof -
  have "\<not> Option.is_none (finished_of (demo_turn call_then_hello (\<lambda>i t. False) 5))" by code_simp
  then have "demo_turn call_then_hello (\<lambda>i t. False) 5 = Finished_Turn (fst demo_finished) (snd demo_finished)"
    by (auto simp: demo_finished_def finished_of_def split: turn_outcome.splits)
  from turn_result_sound[OF this[unfolded demo_turn_def]]
  have s: "lp_status (fst demo_finished) \<noteq> Status_Running"
    "opt_str (lp_final (fst demo_finished)) \<noteq> '''' \<longrightarrow>
         last (lp_messages (fst demo_finished)) = assistant_msg (opt_str (lp_final (fst demo_finished))) (lp_reasoning (fst demo_finished))"
    by blast+
  have "lp_status (fst demo_finished) = Status_Completed \<and> lp_final (fst demo_finished) = Some ''hello''
    \<and> lp_reasoning (fst demo_finished) = None" by code_simp
  with s show ?thesis by (simp add: opt_str_def)
qed

section \<open>A turn that answers\<close>

text \<open>Nothing rewrites the text of an answer, and the message of the user asks for no budget of tokens.\<close>

definition plain_texts :: "'t turn_env \<Rightarrow> string \<Rightarrow> bool" where
  "plain_texts te user \<longleftrightarrow> (\<forall>u t ms. te_correct te u t ms = None \<and> te_ground te u t = t)
     \<and> parse_token_budget_text te user = None \<and> \<not> wants_extended_turn te user"

definition final_reply :: "llm_lib \<Rightarrow> llm_response \<Rightarrow> bool" where
  "final_reply lib raw \<longleftrightarrow> lr_tool_calls raw = [] \<and> lr_finish_reason raw \<noteq> ''length''
     \<and> \<not> needs_empty_content_retry lib (sanitize_response lib raw)"

lemma final_sanitized:
  assumes "final_reply lib raw"
  shows "lr_tool_calls (sanitize_response lib raw) = []" "\<not> needs_truncation_continue (sanitize_response lib raw)"
  using assms by (simp_all add: final_reply_def sanitize_response_def normalize_tool_calls_def needs_truncation_continue_def)

lemma start_budget: "plain_texts te u \<Longrightarrow> ts_budget (tn_state (start_turn te u e a ts tr)) = None"
  by (simp add: start_turn_def phase_init_def plain_texts_def resolve_turn_budget_def Let_def)

lemma final_iteration:
  assumes "quiet te" and "plain_texts te user" and "\<not> ll_debug (te_lib te)" and "final_reply (te_lib te) raw"
    and "\<And>q. te_ask te (tn_trace x) q = Answered raw" and "running x" and "ts_budget (tn_state x) = None"
  shows "\<exists>y. turn_iteration te x = Ends y \<and> ts_status (tn_state y) = Status_Completed
    \<and> ts_transition (tn_state y) = Turn_Completed \<and> ts_text (tn_state y) = lr_content (sanitize_response (te_lib te) raw)
    \<and> ts_iteration (tn_state y) = Suc (ts_iteration (tn_state x)) \<and> length (tn_trace y) = Suc (length (tn_trace x))"
proof -
  let ?r = "sanitize_response (te_lib te) raw"
  have run: "\<not> ag_interrupted (tn_agent x)" "0 < max_retries (ag_config (tn_agent x))"
    using assms(6) by (simp_all add: running_def)
  define t0 where "t0 = (tn_state x)\<lparr>ts_iteration := Suc (ts_iteration (tn_state x))\<rparr>"
  define a where "a = (tn_agent x)\<lparr>ag_polls := Suc (ag_polls (tn_agent x)), ag_interrupted := False\<rparr>"
  have p: "interrupt_check te (tn_agent x) = (False, a)" using quiet_poll[OF assms(1) run(1)] by (simp add: a_def)
  obtain a1 t1 where l: "before_llm te a t0 = (a1, t1)" by fastforce
  note lf = before_llm_frame[OF l]
  have a1: "0 < max_retries (ag_config a1)" "\<not> ag_interrupted a1" using lf run by (simp_all add: a_def)
  have "answered te (\<lambda>r. r = ?r) (tn_trace x)"
    using assms(3-5) by (simp add: answered_def final_reply_def)
  then obtain a2 q where c: "agent_call_llm te a1 (tn_trace x) = (Got ?r, a2, tn_trace x @ [q])"
    using quiet_call[OF assms(1) _ a1] by blast
  have "ts_budget t1 = None" "\<not> te_stop_hook te i s" for i s
    using lf assms(1,7) by (simp_all add: t0_def quiet_def)
  moreover have "grounded_text te u s ms = s" for u s ms
    using assms(2) by (simp add: plain_texts_def grounded_text_def nonempty_def)
  ultimately have "dispatch_text_response te ?r a2 t1 =
      (a2, t1\<lparr>ts_text := lr_content ?r, ts_reasoning := lr_reasoning ?r, ts_status := Status_Completed, ts_transition := Turn_Completed\<rparr>)"
    using final_sanitized[OF assms(4)]
    by (simp add: dispatch_text_response_def truncation_step_def stop_hook_step_def budget_step_def Let_def)
  then have "turn_iteration te x = Ends \<lparr>tn_agent = a2, tn_state = t1\<lparr>ts_text := lr_content ?r, ts_reasoning := lr_reasoning ?r,
      ts_status := Status_Completed, ts_transition := Turn_Completed\<rparr>, tn_tools = tn_tools x, tn_trace = tn_trace x @ [q]\<rparr>"
    using final_sanitized[OF assms(4)]
    by (simp add: turn_iteration_def Let_def p t0_def[symmetric] l c phase_dispatch_def after_dispatch_def)
  then show ?thesis using lf by (simp add: t0_def)
qed

lemma loop_answers:
  assumes "quiet te" and "plain_texts te user" and "\<not> ll_debug (te_lib te)" and "final_reply (te_lib te) raw"
    and "\<And>trace q. te_ask te trace q = Answered (answers (length trace))"
    and "\<And>i. i < k \<Longrightarrow> calls_tools (answers (m + i))" and "answers (m + k) = raw"
    and "running x" and "ts_budget (tn_state x) = None" and "length (tn_trace x) = m + j" and "j \<le> k"
  shows "\<exists>y. turn_loop te (Suc (k - j) + extra) x = Some (True, y) \<and> ts_status (tn_state y) = Status_Completed
    \<and> ts_transition (tn_state y) = Turn_Completed \<and> ts_text (tn_state y) = lr_content (sanitize_response (te_lib te) raw)
    \<and> ts_iteration (tn_state y) = Suc (ts_iteration (tn_state x) + (k - j)) \<and> length (tn_trace y) = m + Suc k"
  using assms(8-11)
proof (induction "k - j" arbitrary: j x)
  case 0
  then have ask: "te_ask te (tn_trace x) q = Answered raw" for q using assms(5,7) by simp
  show ?case using final_iteration[OF assms(1-4) ask 0(2,3)] 0 by fastforce
next
  case (Suc d)
  then have lt: "j < k" by simp
  have "answered te calls_tools (tn_trace x)"
    unfolding answered_def using assms(3,5) calls_sanitized assms(6)[OF lt] Suc.prems(3) by (metis answered_def)
  from quiet_iteration[OF assms(1) this Suc.prems(1)] obtain y where
    y: "turn_iteration te x = Goes_On y" "running y" "ts_iteration (tn_state y) = Suc (ts_iteration (tn_state x))"
      "length (tn_trace y) = Suc (length (tn_trace x))" "ts_budget (tn_state y) = ts_budget (tn_state x)" by blast
  have d: "d = k - Suc j" "k - j = Suc (k - Suc j)" using Suc.hyps(2) lt by simp_all
  have "ts_budget (tn_state y) = None" "length (tn_trace y) = m + Suc j" "Suc j \<le> k"
    using y(4,5) Suc.prems lt by simp_all
  from Suc.hyps(1)[OF d(1) y(2) this] show ?case using y(1,3) unfolding d(2) by auto
qed

text \<open>
  C3: A turn answers: when the model calls tools in its first \<open>k\<close> responses and then replies with a text, and
  nobody interferes, the turn completes with this text after \<open>k + 1\<close> iterations and as many requests, whatever the tools did.  The
  number of calls is below \<open>max_iterations\<close>, which is to bound the iterations.
\<close>

theorem turn_answers:
  assumes "quiet te" and "plain_texts te user" and "\<not> ll_debug (te_lib te)" and "final_reply (te_lib te) raw"
    and "\<And>trace q. te_ask te trace q = Answered (answers (length trace))"
    and "\<And>i. i < k \<Longrightarrow> calls_tools (answers (length trace + i))" and "answers (length trace + k) = raw"
    and "0 < max_retries (ag_config a)" and "int k < max_iterations (ag_config a)" and "k < fuel"
  shows "\<exists>res x. run_turn te fuel user ephemeral a tools trace = Finished_Turn res x
    \<and> lp_status res = Status_Completed \<and> lp_transition res = Turn_Completed
    \<and> lp_final res = lr_content (sanitize_response (te_lib te) raw)
    \<and> lp_iterations res = Suc k \<and> length (tn_trace x) = length trace + Suc k"
proof -
  let ?x = "start_turn te user ephemeral a tools trace"
  have run: "running ?x" using assms(8) by (simp add: running_def start_retries)
  have fuel: "Suc (k - 0) + (fuel - Suc k) = fuel" using assms(10) by simp
  from loop_answers[OF assms(1-7) run start_budget[OF assms(2)], of 0 "fuel - Suc k"]
  obtain y where "turn_loop te fuel ?x = Some (True, y)" "ts_status (tn_state y) = Status_Completed"
    "ts_transition (tn_state y) = Turn_Completed" "ts_text (tn_state y) = lr_content (sanitize_response (te_lib te) raw)"
    "ts_iteration (tn_state y) = Suc k" "length (tn_trace y) = length trace + Suc k"
    unfolding fuel by auto
  then show ?thesis by (simp add: run_turn_def phase_finalize_def Let_def)
qed

lemma turn_answers_witness:
  "\<exists>res x. run_turn (demo_env call_then_hello (\<lambda>i t. False)) 30 ''list files'' None demo_agent () [] = Finished_Turn res x
    \<and> lp_status res = Status_Completed \<and> lp_transition res = Turn_Completed
    \<and> lp_final res = lr_content (sanitize_response (te_lib (demo_env call_then_hello (\<lambda>i t. False))) hello)
    \<and> lp_iterations res = Suc 1 \<and> length (tn_trace x) = length ([] :: llm_request list) + Suc 1"
proof (rule turn_answers)
  let ?te = "demo_env call_then_hello (\<lambda>i t. False)"
  have l: "te_lib ?te = plain_lib" by (simp add: demo_env_def)
  show "quiet ?te" by (rule demo_quiet)
  have "\<not> any_in turn_budget_phrases (lower ''list files'')" by code_simp
  then show "plain_texts ?te ''list files''"
    by (simp add: plain_texts_def parse_token_budget_text_def wants_extended_turn_def demo_env_def default_turn_budget_def)
  show "\<not> ll_debug (te_lib ?te)" by (simp add: l plain_lib_def)
  show "final_reply (te_lib ?te) hello" unfolding l by code_simp
  show "te_ask ?te trace q = Answered (call_then_hello (length trace))" for trace q by (simp add: demo_env_def)
  show "calls_tools (call_then_hello (length ([] :: llm_request list) + i))" if "i < 1" for i
    using that by (simp add: call_then_hello_def calls_tools_def list_call_def)
  show "call_then_hello (length ([] :: llm_request list) + 1) = hello" by (simp add: call_then_hello_def)
  show "0 < max_retries (ag_config demo_agent)" "int 1 < max_iterations (ag_config demo_agent)"
    by (simp_all add: demo_agent_def default_loop_config_def)
qed simp

end
