(* ===== verification/Spec2Isabelle.thy ===== *)
theory Spec2Isabelle
  imports Prelude Json_Values Tool_Loop Guardrails Guardrail_Props Workflow_Steps Dag_Scheduler Dag_Topology Task_Graph Task_Graph_Props Message_Queue Message_Queue_Props
    Approvals Permission_Rules Permission_Props Human_Gate Human_Gate_Props
    Think_Scrubber Think_Scrubber_Props
    Inbound_Idempotency Push_Queue Durable_Outbox Saga
    Text_Lines Schema_Sanitizer Schema_Sanitizer_Props Runtime_Jobs Runtime_Jobs_Props
    Read_State Read_State_Props Batch_Guard Exec_Policy Exec_Policy_Props
    Message_Repair Message_Repair_Props Compaction Compress Compaction_Props
    Path_Safety Terminal_Safety Path_Safety_Props File_Edits File_Edits_Props Event_Replay
    Api_Errors Provider_Health Llm_Retry Llm_Retry_Props Agent_Turn Agent_Turn_Props
begin

text \<open>
  \<^bold>\<open>Butler: a verification library.\<close>

  Butler (the Python package under \<open>src/butler\<close>) is an assistant that is reached through a chat
  gateway: inbound messages pass a pipeline of guards and a queue, an agent loop sends the history
  of the session to a language model, the tools the model calls are checked and run, longer work is
  split into workflow steps, task graphs and runtime jobs, and results go back through outboxes.
  The library models the parts of this that decide something: what may run, what is
  remembered, in which order things happen and what happens when they fail.

  \<^bold>\<open>Conventions.\<close>  One theory per component and one definition per function, under the name the
  source gives it as far as HOL leaves it free; the comments name the file.  A class is a record, an
  enumeration or a tagged dictionary a datatype, a JSON or YAML value a \<open>jval\<close>; a Python string is
  its UTF-8 encoding and a dictionary an association list in insertion order (\<open>Prelude\<close>,
  \<open>Json_Values\<close>, \<open>Text_Lines\<close>).  Python's integers are unbounded, so they are \<open>int\<close> or \<open>nat\<close>;
  clock readings are rationals and every operation that reads the clock takes the time as an argument.  Methods that
  update an object return the updated record.  A function that can raise returns an option or a
  sum; a function that catches returns its default.  Files that only the modelled functions write
  are part of the state; what other programs write, and libraries (\<open>json\<close>, \<open>re\<close>, YAML,
  SHA-256, Unicode tables, \<open>pathlib\<close>) are parameters collected in records such as \<open>py_lib\<close>,
  \<open>fs_view\<close> and \<open>perm_env\<close>.  Environment variables are read through \<open>os_env\<close>.

  \<^bold>\<open>The parts, in the order of the program.\<close>

  \<^enum> \<^emph>\<open>Inbound.\<close>  \<open>Inbound_Idempotency\<close> (\<open>resilience/inbound_idempotency.py\<close>) is the table of seen messages;
    \<open>Human_Gate\<close> (\<open>permissions/human_gate.py\<close>, \<open>gateway/owner_gate.py\<close>) holds what an owner has to
    confirm; \<open>Message_Queue\<close> (\<open>resilience/message_queue.py\<close>, \<open>gateway/inbound_drain.py\<close>) orders what
    arrives while a turn runs.
  \<^enum> \<^emph>\<open>The turn.\<close>  \<open>Agent_Turn\<close> (\<open>core/agent_loop/loop.py\<close>, \<open>core/agent_loop/phases\<close>,
    \<open>core/turn_token_budget.py\<close>, \<open>core/loop_budget_nudge.py\<close>) is the loop of one turn: the state \<open>agent\<close> of the
    loop object, the state \<open>turn_state\<close> of the turn, one definition per phase, and \<open>run_turn\<close>.  It calls the model
    through \<open>Llm_Retry\<close> (\<open>core/llm_retry*.py\<close>), which retries, recovers and normalises the response,
    with \<open>Api_Errors\<close> (\<open>transport/error_classifier.py\<close>) for what an error means and \<open>Provider_Health\<close>
    (\<open>transport/provider_health.py\<close>, \<open>transport/fallback.py\<close>) for the providers to try.  The tool
    batch, the plugins and the hooks are arguments of the turn.
  \<^enum> \<^emph>\<open>The history.\<close>  \<open>Message_Repair\<close> (\<open>core/message_repair.py\<close>, \<open>core/tool_pair_repair.py\<close>,
    \<open>core/message_ir.py\<close>) repairs the history just before a model call, \<open>Compaction\<close>
    (\<open>core/tool_prune_policy.py\<close>, \<open>core/compaction_cutoff.py\<close>, \<open>core/turn_compaction.py\<close>) prunes and
    splits it, \<open>Compress\<close> (\<open>core/context_compressor.py\<close>, \<open>core/context_compress_pipeline.py\<close>)
    summarises it, \<open>Think_Scrubber\<close> (\<open>transport/think_scrubber.py\<close>) filters the stream that comes
    back, and \<open>Schema_Sanitizer\<close> (\<open>transport/schema_sanitizer.py\<close>) rewrites the tool schemas sent.
  \<^enum> \<^emph>\<open>Tool calls.\<close>  \<open>Tool_Loop\<close> and \<open>Guardrails\<close> (\<open>core/tool_loop_detect.py\<close>,
    \<open>tool_guardrails.py\<close>) watch the calls of a turn; \<open>Batch_Guard\<close> (\<open>core/batch_sequence_guard.py\<close>)
    orders a batch; \<open>Permission_Rules\<close> and \<open>Approvals\<close> (\<open>permissions/rules.py\<close>,
    \<open>permissions/approvals.py\<close>, \<open>permissions/doom_loop.py\<close>) decide what is allowed, denied or asked;
    \<open>Path_Safety\<close> and \<open>Terminal_Safety\<close> (\<open>tools/path_safety.py\<close>) confine paths and commands, on top of
    the permission rules; \<open>Exec_Policy\<close> (\<open>execpolicy/engine.py\<close>, \<open>tools/terminal_danger.py\<close>) judges
    commands; \<open>Read_State\<close> (\<open>core/read_state.py\<close>) lets only files be edited that were read, and
    \<open>File_Edits\<close> (\<open>core/hashline.py\<close>, \<open>tools/file_io.py\<close>) edits them.
  \<^enum> \<^emph>\<open>Longer work.\<close>  \<open>Workflow_Steps\<close> (\<open>workflows/step_runner.py\<close>) runs one step with retries and
    rescue agents; \<open>Dag_Scheduler\<close> (\<open>dag_scheduler.py\<close>) orders a task graph and \<open>Task_Graph\<close>
    (\<open>task_orchestrator.py\<close>) executes it with the steps of \<open>Workflow_Steps\<close>; \<open>Runtime_Jobs\<close>
    (\<open>runtime/service.py\<close>, \<open>runtime/approval.py\<close>, \<open>runtime/audit.py\<close>) runs scheduled jobs under a
    lock and an approval; \<open>Saga\<close> (\<open>core/events/saga.py\<close>) compensates; \<open>Event_Replay\<close>
    (\<open>core/events/replay.py\<close>) rebuilds state from the event log.
  \<^enum> \<^emph>\<open>Outbound.\<close>  \<open>Push_Queue\<close> (\<open>runtime/push_queue.py\<close>) and \<open>Durable_Outbox\<close>
    (\<open>resilience/durable_outbox.py\<close>) keep what could not be sent.

  \<^bold>\<open>Interfaces.\<close>  \<open>Prelude\<close> states three contracts as locales: \<open>guarded_system\<close> (every operation keeps
  an invariant, so every run does), \<open>latched_system\<close> (a latch, once set, stays) and \<open>ranked_queue\<close> (a
  bounded set of queues behaves as one queue in rank order).  They are interpreted on the loop detectors,
  the guardrail controller, the message queue and the read state; \<open>approval_cache\<close> in \<open>Approvals\<close>
  is the contract between the permission check and the store of approvals.  \<open>priority\<close> is an instance of
  \<open>linorder\<close>.

  \<^bold>\<open>What the lemmas show.\<close>  The properties carry their claim numbers and stand in the theories ending
  in \<open>_Props\<close>, or beside the definitions of a small component:
  \<^item> guardrails: the counters are failure streaks, a repeated call is stopped, what an allowed call means;
  \<^item> history: on orderly histories the repairs reach the form the providers demand, the identifiers sent
    match, compaction cuts no pair and loses no message;
  \<^item> permissions: an allowed call, path or command was refused by no rule, an approval covers
    what it was given for, only an owner confirms a gate; and the exceptions: line feeds in pipe mode, paths
    glued to options, rules that raise;
  \<^item> queues and tables: refinements of abstract queues and maps, bounds, one run per approval,
    mutual exclusion of the job lock as an invariant of an inductive step relation;
  \<^item> graphs: the topological sort succeeds exactly on acyclic graphs, an execution runs a node after its
    dependencies, accounts for every node and answers when the agents do;
  \<^item> texts: reasoning is not emitted however the stream is cut, hash anchors are read back, a patch
    changes one place; replay with snapshots equals the replay from the start.
  \<^item> turns and calls: what the result of a turn means, when a turn answers, how many requests a call makes and to
    whom, which errors are survived and which end it, what a returned response holds, when a circuit is
    open.  \<open>Agent_Turn_Props\<close> and \<open>Llm_Retry_Props\<close> also prove where the loop departs from its documents: results
    of tools reach no request, \<open>max_iterations\<close> bounds nothing, a fallback is not asked within its call.
  Theorems on behaviour that contradicts a comment or a document of the repository are stated positively, as what
  the code does on a concrete input.

  \<^bold>\<open>Bounds and fuel.\<close>  Recursion is structural or has a measure.  Fuel occurs in \<open>strip_nu\<close>
  of \<open>Schema_Sanitizer\<close>, where the size of the schema is proved to be enough, in the 50 rounds of \<open>trim_loop\<close> in
  \<open>Message_Repair\<close>, which are the source's own, and in \<open>reach\<close> of \<open>Exec_Policy\<close>, where the length of the text
  bounds the positions a regular expression can reach, and in \<open>turn_loop\<close> of \<open>Agent_Turn\<close>, which is \<open>None\<close> while the turn
  runs; no fuel suffices for every model, as its lemmas show.  What may never answer (agents, tools) is an option; the loop
  \<open>expand_history\<close> of \<open>Event_Replay\<close> is a \<open>partial_function\<close>, with a proof that it ends on every
  index in range.

  \<^bold>\<open>Not modelled.\<close>  The platform adapters and web handlers of the gateway, the command line, the
  transports to the providers, the memory (embedding, retrieval, storage), the skills, the dev engine, the prompts and
  reports: they move or format data, call services, or score text, and
  their decisions rest on models and databases outside the repository.  Telemetry, logging, audit events and
  diagnostics dictionaries are left out everywhere, since no modelled decision reads them unless a comment says
  so.  Concurrency is modelled where the code relies on it (job locks, bypass files, batches of a layer);
  operations that hold a process-wide lock are single steps.  Rounding of floats and the case mapping of
  letters beyond ASCII are not modelled.
\<close>

end
